(* ===== verification/Knock_Prelude.thy ===== *)
theory Knock_Prelude
  imports Main "HOL-Library.Word" "HOL-Library.AList"
begin

unbundle bit_operations_syntax

text \<open>
  What every component of the libknock model shares: bytes and the big-endian
  integers of Go's encoding/binary, Go strings as byte sequences, times and durations,
  the error values of the packages protocol, auth, policy and of the standard library,
  and results that are either an error or a value.
\<close>

named_theorems codec_simps \<open>rewrite rules of the byte readers and writers\<close>
named_theorems time_defs \<open>unfoldings of time and duration constants\<close>

section \<open>Bytes and slices\<close>

type_synonym byte = "8 word"
type_synonym bytes = "byte list"
type_synonym u16 = "16 word"
type_synonym u32 = "32 word"
type_synonym u64 = "64 word"
type_synonym i64 = "64 word"

text \<open>Go's slice expression \<open>bs[i:j]\<close> for \<open>i \<le> j \<le> len(bs)\<close>.\<close>

definition slice :: "'a list \<Rightarrow> nat \<Rightarrow> nat \<Rightarrow> 'a list" where
  "slice bs i j = take (j - i) (drop i bs)"

lemma length_slice [simp]: "j \<le> length bs \<Longrightarrow> length (slice bs i j) = j - i"
  by (simp add: slice_def)

lemma slice_append_left [simp]:
  "j \<le> length xs \<Longrightarrow> slice (xs @ ys) i j = slice xs i j"
  by (cases "i \<le> j") (auto simp: slice_def)

lemma slice_append_right [simp]:
  "length xs \<le> i \<Longrightarrow> slice (xs @ ys) i j = slice ys (i - length xs) (j - length xs)"
  by (simp add: slice_def)

lemma slice_all [simp]: "n = length xs \<Longrightarrow> slice xs 0 n = xs"
  by (simp add: slice_def)

lemma slice_0 [simp]: "slice xs 0 n = take n xs"
  by (simp add: slice_def)

lemma take_slice_join: "take i xs @ slice xs i j = take j xs" if "i \<le> j"
  using that by (simp add: slice_def flip: take_add)

text \<open>\<open>copy(dst[i:], src)\<close>: the common prefix is overwritten, the length never changes.\<close>

definition copy_at :: "nat \<Rightarrow> 'a list \<Rightarrow> 'a list \<Rightarrow> 'a list" where
  "copy_at i src dst =
     take i dst @ take (length dst - i) src @ drop (i + min (length dst - i) (length src)) dst"

lemma length_copy_at [simp]: "i \<le> length dst \<Longrightarrow> length (copy_at i src dst) = length dst"
  by (simp add: copy_at_def)

lemma copy_at_tail: "i + length src = length dst \<Longrightarrow> copy_at i src dst = take i dst @ src"
  by (simp add: copy_at_def)

lemma copy_at_0: "length src \<le> length dst \<Longrightarrow> copy_at 0 src dst = src @ drop (length src) dst"
  by (simp add: copy_at_def)

lemma length_alist_update:
  "length (AList.update k v al) = (if map_of al k = None then Suc (length al) else length al)"
  by (induction al) auto

section \<open>Big-endian integers\<close>

primrec be_bytes :: "nat \<Rightarrow> nat \<Rightarrow> bytes" where
  "be_bytes 0 v = []"
| "be_bytes (Suc n) v = of_nat (v div 256 ^ n) # be_bytes n v"

primrec be_val :: "bytes \<Rightarrow> nat" where
  "be_val [] = 0"
| "be_val (b # bs) = unat b * 256 ^ length bs + be_val bs"

lemma unat_byte_less [simp]: "unat (b :: byte) < 256"
  using unsigned_less [of b, where 'a = nat] by simp

lemma length_be_bytes [simp]: "length (be_bytes n v) = n"
  by (induction n) simp_all

lemma be_val_bound: "be_val bs < 256 ^ length bs"
proof (induction bs)
  case Nil
  then show ?case by simp
next
  case (Cons b bs)
  have "unat b * 256 ^ length bs \<le> 255 * 256 ^ length bs"
    using unat_byte_less [of b] by (intro mult_le_mono1) linarith
  then have "unat b * 256 ^ length bs + be_val bs < 255 * 256 ^ length bs + 256 ^ length bs"
    using Cons.IH by (rule add_le_less_mono)
  then show ?case by simp
qed

lemma be_val_be_bytes: "be_val (be_bytes n v) = v mod 256 ^ n"
proof (induction n)
  case 0
  then show ?case by simp
next
  case (Suc n)
  have "v mod 256 ^ Suc n = (v div 256 ^ n) mod 256 * 256 ^ n + v mod 256 ^ n"
    using mod_mult2_eq [of v "256 ^ n" 256] by (simp only: power_Suc2 mult.commute)
  with Suc.IH show ?case by (simp add: unat_of_nat)
qed

lemma be_bytes_shift: "m \<le> k \<Longrightarrow> be_bytes m (a * 256 ^ k + v) = be_bytes m v"
proof (induction m)
  case 0
  then show ?case by simp
next
  case (Suc m)
  then obtain d where k: "k = m + Suc d" by (metis add_Suc_right le_Suc_ex add_Suc)
  have "(a * 256 ^ k + v) div 256 ^ m = a * 256 ^ Suc d + v div 256 ^ m"
    by (simp add: k power_add mult.assoc [symmetric] mult.commute [of "256 ^ m"])
  moreover have "(of_nat (a * 256 ^ Suc d) :: byte) = 0"
    by (simp only: word_of_nat_eq_0_iff) simp
  ultimately show ?case using Suc by (simp only: be_bytes.simps of_nat_add) simp
qed

lemma be_bytes_be_val: "be_bytes (length bs) (be_val bs) = bs"
proof (induction bs)
  case Nil
  then show ?case by simp
next
  case (Cons b bs)
  have "(unat b * 256 ^ length bs + be_val bs) div 256 ^ length bs = unat b"
    using be_val_bound [of bs] by simp
  with Cons.IH show ?case by (simp add: be_bytes_shift)
qed

text \<open>
  \<open>binary.BigEndian.PutUint16\<close> and its kin write a word as its big-endian bytes;
  \<open>binary.BigEndian.Uint16\<close> and its kin read the first two (four, eight) bytes back.
\<close>

definition put16 :: "u16 \<Rightarrow> bytes" where "put16 v = be_bytes 2 (unat v)"
definition put32 :: "u32 \<Rightarrow> bytes" where "put32 v = be_bytes 4 (unat v)"
definition put64 :: "u64 \<Rightarrow> bytes" where "put64 v = be_bytes 8 (unat v)"
definition get16 :: "bytes \<Rightarrow> u16" where "get16 bs = of_nat (be_val (take 2 bs))"
definition get32 :: "bytes \<Rightarrow> u32" where "get32 bs = of_nat (be_val (take 4 bs))"
definition get64 :: "bytes \<Rightarrow> u64" where "get64 bs = of_nat (be_val (take 8 bs))"

lemma length_put [simp]:
  "length (put16 v) = 2" "length (put32 w) = 4" "length (put64 x) = 8"
  by (simp_all add: put16_def put32_def put64_def)

lemma unat_mod_self16: "unat (v :: u16) mod 256 ^ 2 = unat v"
  using unsigned_less [of v, where 'a = nat] by simp

lemma unat_mod_self32: "unat (v :: u32) mod 256 ^ 4 = unat v"
  using unsigned_less [of v, where 'a = nat] by simp

lemma unat_mod_self64: "unat (v :: u64) mod 256 ^ 8 = unat v"
  using unsigned_less [of v, where 'a = nat] by simp

lemma get_put [simp]:
  "get16 (put16 v) = v" "get32 (put32 w) = w" "get64 (put64 x) = x"
proof -
  show "get16 (put16 v) = v"
    by (simp only: get16_def put16_def take_all length_be_bytes order_refl be_val_be_bytes
        unat_mod_self16) simp
  show "get32 (put32 w) = w"
    by (simp only: get32_def put32_def take_all length_be_bytes order_refl be_val_be_bytes
        unat_mod_self32) simp
  show "get64 (put64 x) = x"
    by (simp only: get64_def put64_def take_all length_be_bytes order_refl be_val_be_bytes
        unat_mod_self64) simp
qed

lemma get_put_append [simp]:
  "get16 (put16 v @ r) = v" "get32 (put32 w @ r) = w" "get64 (put64 x @ r) = x"
  using get_put by (simp_all add: get16_def get32_def get64_def)

lemma put_get16: "length bs = 2 \<Longrightarrow> put16 (get16 bs) = bs"
  using be_val_bound [of bs] be_bytes_be_val [of bs]
  by (simp add: put16_def get16_def unat_of_nat)

lemma put_get32: "length bs = 4 \<Longrightarrow> put32 (get32 bs) = bs"
  using be_val_bound [of bs] be_bytes_be_val [of bs]
  by (simp add: put32_def get32_def unat_of_nat)

lemma put_get64: "length bs = 8 \<Longrightarrow> put64 (get64 bs) = bs"
  using be_val_bound [of bs] be_bytes_be_val [of bs]
  by (simp add: put64_def get64_def unat_of_nat)

lemma put_inj [simp]:
  "put16 v = put16 v' \<longleftrightarrow> v = v'" "put32 w = put32 w' \<longleftrightarrow> w = w'" "put64 x = put64 x' \<longleftrightarrow> x = x'"
  by (metis get_put(1)) (metis get_put(2), metis get_put(3))

text \<open>Evaluation on the words themselves, by shifts, instead of on their natural numbers.\<close>

lemma be_bytes_shifts:
  "be_bytes n (unat (v :: 'a::len word)) = map (\<lambda>i. ucast (drop_bit (8 * i) v)) (rev [0..<n])"
proof (induction n)
  case 0
  then show ?case by simp
next
  case (Suc n)
  have "unat v div 256 ^ n = unat (drop_bit (8 * n) v)"
    by (subst unat_drop_bit_eq) (simp add: drop_bit_eq_div power_mult)
  with Suc.IH show ?case by simp
qed

lemma be_val_fold:
  "fold (\<lambda>b a. a * 256 + ucast b) bs acc = acc * 256 ^ length bs + (of_nat (be_val bs) :: 'a::len word)"
  by (induction bs arbitrary: acc) (simp_all add: algebra_simps)

lemma put16_code [code]: "put16 v = map (\<lambda>i. ucast (drop_bit (8 * i) v)) [1, 0]"
  and put32_code [code]: "put32 w = map (\<lambda>i. ucast (drop_bit (8 * i) w)) [3, 2, 1, 0]"
  and put64_code [code]: "put64 x = map (\<lambda>i. ucast (drop_bit (8 * i) x)) [7, 6, 5, 4, 3, 2, 1, 0]"
  by (simp_all add: put16_def put32_def put64_def be_bytes_shifts upt_rec [where j = "numeral k" for k])

lemma get16_code [code]: "get16 bs = fold (\<lambda>b a. a * 256 + ucast b) (take 2 bs) 0"
  and get32_code [code]: "get32 bs = fold (\<lambda>b a. a * 256 + ucast b) (take 4 bs) 0"
  and get64_code [code]: "get64 bs = fold (\<lambda>b a. a * 256 + ucast b) (take 8 bs) 0"
  by (simp_all only: get16_def get32_def get64_def be_val_fold mult_zero_left add_0)

section \<open>Go strings\<close>

text \<open>A Go string is a sequence of bytes; \<open>[]byte(s)\<close> and \<open>string(b)\<close> convert.\<close>

definition byte_of_char :: "char \<Rightarrow> byte" where
  "byte_of_char c = of_nat (of_char c)"

definition char_of_byte :: "byte \<Rightarrow> char" where
  "char_of_byte b = char_of (unat b)"

definition str_bytes :: "string \<Rightarrow> bytes" where
  "str_bytes s = map byte_of_char s"

definition bytes_str :: "bytes \<Rightarrow> string" where
  "bytes_str b = map char_of_byte b"

lemma char_of_byte_of_char [simp]: "char_of_byte (byte_of_char c) = c"
proof -
  have "of_char c < (256 :: nat)"
    using of_char_mod_256 [of c, where 'a = nat] by (metis mod_less_divisor zero_less_numeral)
  then show ?thesis by (simp add: char_of_byte_def byte_of_char_def unat_of_nat)
qed

lemma byte_of_char_of_byte [simp]: "byte_of_char (char_of_byte b) = b"
proof -
  have "unat b < 256" by simp
  then show ?thesis by (simp add: char_of_byte_def byte_of_char_def of_char_of)
qed

lemma length_str_bytes [simp]: "length (str_bytes s) = length s" "length (bytes_str b) = length b"
  by (simp_all add: str_bytes_def bytes_str_def)

lemma bytes_str_bytes [simp]: "bytes_str (str_bytes s) = s" "str_bytes (bytes_str b) = b"
  by (simp_all add: str_bytes_def bytes_str_def comp_def)

lemma str_bytes_eq_iff [simp]: "str_bytes s = str_bytes t \<longleftrightarrow> s = t"
  by (metis bytes_str_bytes(1))

lemma str_bytes_Nil_iff [simp]: "str_bytes s = [] \<longleftrightarrow> s = []" "bytes_str b = [] \<longleftrightarrow> b = []"
  by (simp_all add: str_bytes_def bytes_str_def)

section \<open>Times and durations\<close>

text \<open>
  A \<open>time.Time\<close> is its instant in nanoseconds since the Unix epoch, a
  \<open>time.Duration\<close> a number of nanoseconds. \<open>zero_time\<close> is \<open>time.Time{}\<close>
  (January 1 of year 1), the only time for which \<open>IsZero\<close> holds. \<open>Time.Sub\<close>
  saturates at the bounds of the 64-bit \<open>Duration\<close>.
\<close>

type_synonym time = int
type_synonym duration = int

definition nanosecond :: duration where [time_defs]: "nanosecond = 1"
definition millisecond :: duration where [time_defs]: "millisecond = 1000000"
definition second :: duration where [time_defs]: "second = 1000000000"
definition minute :: duration where [time_defs]: "minute = 60000000000"
definition zero_time :: time where [time_defs]: "zero_time = - 62135596800000000000"
definition maxDuration :: duration where [time_defs]: "maxDuration = 9223372036854775807"
definition minDuration :: duration where [time_defs]: "minDuration = - 9223372036854775808"

definition time_Sub :: "time \<Rightarrow> time \<Rightarrow> duration" where
  "time_Sub t u = max minDuration (min maxDuration (t - u))"

definition UnixMilli :: "time \<Rightarrow> i64" where
  "UnixMilli t = of_int (t div millisecond)"

definition time_UnixMilli :: "i64 \<Rightarrow> time" where
  "time_UnixMilli ms = sint ms * millisecond"

text \<open>Arithmetic on \<open>Duration\<close> values is 64-bit two's complement.\<close>

definition dur_wrap :: "int \<Rightarrow> duration" where
  "dur_wrap d = sint (of_int d :: 64 word)"

lemma dur_wrap_id: "minDuration \<le> d \<Longrightarrow> d \<le> maxDuration \<Longrightarrow> dur_wrap d = d"
  by (simp add: dur_wrap_def time_defs signed_of_int signed_take_bit_int_eq_self)

lemma time_Sub_in_range:
  "minDuration \<le> t - u \<Longrightarrow> t - u \<le> maxDuration \<Longrightarrow> time_Sub t u = t - u"
  by (simp add: time_Sub_def)

text \<open>Comparing an age with a window is insensitive to the saturation.\<close>

lemma time_Sub_gt: "w < maxDuration \<Longrightarrow> (time_Sub t u > w) = (t - u > w)" if "minDuration \<le> w"
  using that by (auto simp: time_Sub_def)

lemma time_Sub_less: "minDuration < w \<Longrightarrow> w \<le> maxDuration \<Longrightarrow> (time_Sub t u < w) = (t - u < w)"
  by (auto simp: time_Sub_def)

section \<open>Errors and results\<close>

text \<open>
  The sentinel errors of package protocol (\<open>ProtocolErr\<close>...), auth (\<open>AuthErr\<close>...),
  policy and netx, the errors of the standard library the code meets, and errors made on
  the spot with \<open>errors.New\<close> or \<open>fmt.Errorf\<close>, which carry their fixed text.
  \<open>ExternalErr\<close> stands for an error returned by code outside the model.
\<close>

datatype error =
    ProtocolErrInvalidFrame | ProtocolErrFrameTooLarge | ProtocolErrInvalidFrameSizeBucket
  | ProtocolErrUnsupportedVersion | ProtocolErrUnsupportedFlags
  | AuthErrNilConn | AuthErrInvalidFrame | AuthErrFrameTooLarge | AuthErrUnknownClient
  | AuthErrAuthFailed | AuthErrReplayDetected | AuthErrReplayCacheFull | AuthErrTimeSkew
  | AuthErrKnockRequired | AuthErrUnsupportedVersion | AuthErrInvalidClientID
  | AuthErrInvalidSecret | AuthErrMissingSecretResolver | AuthErrMissingReplayCache
  | AuthErrRateLimited | AuthErrServerProofRequired | AuthErrServerProofFailed
  | AuthErrUnsupportedFlags | AuthErrSecretResolverFailed | AuthErrTooManyCandidates
  | AuthErrHintModeNoneTooBroad
  | PolicyErrRateLimited | PolicyErrBanListFull
  | IoEOF | IoErrUnexpectedEOF | BufioErrBufferFull | AeadErrOpen | AeadErrBadKeyLength
  | Errorf string
  | ExternalErr nat
  | JoinErr error error

text \<open>\<open>errors.Is\<close>: the target is the error itself or one of the errors joined in it.\<close>

fun errors_Is :: "error \<Rightarrow> error \<Rightarrow> bool" where
  "errors_Is (JoinErr a b) t = (JoinErr a b = t \<or> errors_Is a t \<or> errors_Is b t)"
| "errors_Is e t = (e = t)"

type_synonym 'a result = "error + 'a"

definition rbind :: "'a result \<Rightarrow> ('a \<Rightarrow> 'b result) \<Rightarrow> 'b result" where
  "rbind m f = (case m of Inl e \<Rightarrow> Inl e | Inr x \<Rightarrow> f x)"

lemma rbind_simps [simp]: "rbind (Inl e) f = Inl e" "rbind (Inr x) f = f x"
  by (simp_all add: rbind_def)

lemma rbind_eq_Inr: "rbind m f = Inr y \<longleftrightarrow> (\<exists>x. m = Inr x \<and> f x = Inr y)"
  by (cases m) simp_all

lemma rbind_eq_Inl: "rbind m f = Inl e \<longleftrightarrow> m = Inl e \<or> (\<exists>x. m = Inr x \<and> f x = Inl e)"
  by (cases m) simp_all

definition guard_err :: "bool \<Rightarrow> error \<Rightarrow> 'a result \<Rightarrow> 'a result" where
  "guard_err bad e k = (if bad then Inl e else k)"

lemma guard_err_simps [simp]: "guard_err True e k = Inl e" "guard_err False e k = k"
  by (simp_all add: guard_err_def)

lemma guard_err_eq_Inr: "guard_err bad e k = Inr y \<longleftrightarrow> \<not> bad \<and> k = Inr y"
  by (simp add: guard_err_def)

lemma guard_err_eq_Inl: "guard_err bad e k = Inl f \<longleftrightarrow> bad \<and> e = f \<or> \<not> bad \<and> k = Inl f"
  by (auto simp: guard_err_def)

lemma not_isl_pair: "\<not> isl x \<Longrightarrow> \<exists>a b. x = Inr (a, b)"
  by (cases x) auto

lemmas result_splits = rbind_eq_Inr rbind_eq_Inl guard_err_eq_Inr guard_err_eq_Inl

end
