(* ===== verification/Codec.thy ===== *)
theory Codec
  imports Knock_Prelude
begin

text \<open>
  internal/codec/codec.go: the bounds-checked byte reader \<open>BinaryReader\<close>, the byte
  writer \<open>BinaryWriter\<close> and the type-length-value lists of frame extensions.
  The locale \<open>wire_format\<close> states what a reader operation and the bytes a writer
  produces for the same value owe each other; it is interpreted for every leaf format of
  the reader, and the decoders of the other theories are proved from those instances.
\<close>

section \<open>The reader\<close>

record BinaryReader =
  rbuf :: bytes
  rpos :: nat
  rerr :: error

definition NewReader :: "bytes \<Rightarrow> error \<Rightarrow> BinaryReader" where
  "NewReader buf invalid = \<lparr>rbuf = buf, rpos = 0, rerr = invalid\<rparr>"

definition Pos :: "BinaryReader \<Rightarrow> int" where
  "Pos r = int (rpos r)"

definition Remaining :: "BinaryReader \<Rightarrow> int" where
  "Remaining r = int (length (rbuf r)) - int (rpos r)"

definition ReadByte :: "BinaryReader \<Rightarrow> (byte \<times> BinaryReader) result" where
  "ReadByte r = (if Remaining r < 1 then Inl (rerr r)
     else Inr (rbuf r ! rpos r, r\<lparr>rpos := rpos r + 1\<rparr>))"

definition ReadUint16 :: "BinaryReader \<Rightarrow> (u16 \<times> BinaryReader) result" where
  "ReadUint16 r = (if Remaining r < 2 then Inl (rerr r)
     else Inr (get16 (slice (rbuf r) (rpos r) (rpos r + 2)), r\<lparr>rpos := rpos r + 2\<rparr>))"

definition ReadUint64 :: "BinaryReader \<Rightarrow> (u64 \<times> BinaryReader) result" where
  "ReadUint64 r = (if Remaining r < 8 then Inl (rerr r)
     else Inr (get64 (slice (rbuf r) (rpos r) (rpos r + 8)), r\<lparr>rpos := rpos r + 8\<rparr>))"

definition ReadFixed :: "int \<Rightarrow> BinaryReader \<Rightarrow> (bytes \<times> BinaryReader) result" where
  "ReadFixed n r = (if n < 0 \<or> Remaining r < n then Inl (rerr r)
     else Inr (slice (rbuf r) (rpos r) (rpos r + nat n), r\<lparr>rpos := rpos r + nat n\<rparr>))"

definition ReadVarBytes :: "int \<Rightarrow> bool \<Rightarrow> BinaryReader \<Rightarrow> (bytes \<times> BinaryReader) result" where
  "ReadVarBytes n copyOut r = (case ReadFixed n r of
       Inl e \<Rightarrow> Inl e
     | Inr (v, r') \<Rightarrow> if \<not> copyOut then Inr (v, r') else Inr ([] @ v, r'))"

section \<open>The writer\<close>

record BinaryWriter =
  wbuf :: bytes

definition NewWriter :: "int \<Rightarrow> BinaryWriter" where
  "NewWriter capacity = \<lparr>wbuf = []\<rparr>"

definition Bytes :: "BinaryWriter \<Rightarrow> bytes" where
  "Bytes w = wbuf w"

definition PutByte :: "byte \<Rightarrow> BinaryWriter \<Rightarrow> BinaryWriter" where
  "PutByte v w = w\<lparr>wbuf := wbuf w @ [v]\<rparr>"

definition WriteUint16 :: "u16 \<Rightarrow> BinaryWriter \<Rightarrow> BinaryWriter" where
  "WriteUint16 v w = w\<lparr>wbuf := wbuf w @ put16 v\<rparr>"

definition WriteUint64 :: "u64 \<Rightarrow> BinaryWriter \<Rightarrow> BinaryWriter" where
  "WriteUint64 v w = w\<lparr>wbuf := wbuf w @ put64 v\<rparr>"

definition WriteFixed :: "bytes \<Rightarrow> BinaryWriter \<Rightarrow> BinaryWriter" where
  "WriteFixed v w = w\<lparr>wbuf := wbuf w @ v\<rparr>"

definition WriteVarBytes :: "bytes \<Rightarrow> int \<Rightarrow> BinaryWriter \<Rightarrow> BinaryWriter" where
  "WriteVarBytes v prefixBytes w =
     WriteFixed v (if prefixBytes = 1 then PutByte (of_nat (length v)) w
                   else if prefixBytes = 2 then WriteUint16 (of_nat (length v)) w
                   else w)"

section \<open>Type-length-value lists\<close>

record TLV =
  tlv_Type :: u16
  tlv_Value :: bytes

fun tlv_total :: "TLV list \<Rightarrow> error \<Rightarrow> int \<Rightarrow> int result" where
  "tlv_total [] frameTooLarge tot = Inr tot"
| "tlv_total (tlv # tlvs) frameTooLarge tot =
     (if length (tlv_Value tlv) > 65535 then Inl frameTooLarge
      else let tot' = tot + (4 + int (length (tlv_Value tlv)))
           in if tot' > 65535 then Inl frameTooLarge
              else tlv_total tlvs frameTooLarge tot')"

fun write_tlvs :: "TLV list \<Rightarrow> BinaryWriter \<Rightarrow> BinaryWriter" where
  "write_tlvs [] w = w"
| "write_tlvs (tlv # tlvs) w =
     write_tlvs tlvs (WriteVarBytes (tlv_Value tlv) 2 (WriteUint16 (tlv_Type tlv) w))"

definition EncodeTLVs :: "TLV list \<Rightarrow> error \<Rightarrow> bytes result" where
  "EncodeTLVs tlvs frameTooLarge =
     rbind (tlv_total tlvs frameTooLarge 0)
       (\<lambda>tot. Inr (Bytes (write_tlvs tlvs (NewWriter tot))))"

lemma ReadUint16_shrinks: "ReadUint16 r = Inr (v, r') \<Longrightarrow> Remaining r' = Remaining r - 2"
  by (auto simp: ReadUint16_def Remaining_def split: if_splits)

lemma ReadVarBytes_shrinks: "ReadVarBytes n c r = Inr (v, r') \<Longrightarrow> Remaining r' \<le> Remaining r"
  by (auto simp: ReadVarBytes_def ReadFixed_def Remaining_def split: if_splits prod.splits)

function decode_tlvs :: "BinaryReader \<Rightarrow> TLV list \<Rightarrow> TLV list result" where
  "decode_tlvs r out =
     (if Remaining r > 0 then
        (case ReadUint16 r of Inl e \<Rightarrow> Inl e
         | Inr (typ, r1) \<Rightarrow>
        (case ReadUint16 r1 of Inl e \<Rightarrow> Inl e
         | Inr (n, r2) \<Rightarrow>
        (case ReadVarBytes (int (unat n)) True r2 of Inl e \<Rightarrow> Inl e
         | Inr (v, r3) \<Rightarrow>
             decode_tlvs r3 (out @ [\<lparr>tlv_Type = typ, tlv_Value = v\<rparr>]))))
      else Inr out)"
  by pat_completeness auto
termination
  by (relation "measure (\<lambda>(r, out). nat (Remaining r))")
    (auto dest!: ReadUint16_shrinks ReadVarBytes_shrinks)

declare decode_tlvs.simps [simp del]

definition DecodeTLVs :: "bytes \<Rightarrow> error \<Rightarrow> TLV list result" where
  "DecodeTLVs raw invalid = decode_tlvs (NewReader raw invalid) []"

section \<open>Readers as a consumed and a remaining part\<close>

text \<open>
  \<open>rd pre suf e\<close> is the reader that has consumed \<open>pre\<close> of a buffer and has
  \<open>suf\<close> left: the form every reachable reader has.
\<close>

definition rd :: "bytes \<Rightarrow> bytes \<Rightarrow> error \<Rightarrow> BinaryReader" where
  "rd pre suf e = \<lparr>rbuf = pre @ suf, rpos = length pre, rerr = e\<rparr>"

lemma NewReader_rd [codec_simps]: "NewReader buf e = rd [] buf e"
  by (simp add: NewReader_def rd_def)

lemma Remaining_rd [codec_simps]: "Remaining (rd pre suf e) = int (length suf)"
  by (simp add: Remaining_def rd_def)

lemma Pos_rd [codec_simps]: "Pos (rd pre suf e) = int (length pre)"
  by (simp add: Pos_def rd_def)

lemma ReadByte_rd:
  "ReadByte (rd pre suf e) = (case suf of [] \<Rightarrow> Inl e | b # ys \<Rightarrow> Inr (b, rd (pre @ [b]) ys e))"
  by (cases suf) (simp_all add: ReadByte_def Remaining_rd, simp_all add: rd_def)

lemma ReadUint16_rd:
  "ReadUint16 (rd pre suf e) = (if length suf < 2 then Inl e
     else Inr (get16 (take 2 suf), rd (pre @ take 2 suf) (drop 2 suf) e))"
  by (simp add: ReadUint16_def Remaining_rd) (simp add: rd_def slice_def)

lemma ReadUint64_rd:
  "ReadUint64 (rd pre suf e) = (if length suf < 8 then Inl e
     else Inr (get64 (take 8 suf), rd (pre @ take 8 suf) (drop 8 suf) e))"
  by (simp add: ReadUint64_def Remaining_rd) (simp add: rd_def slice_def)

lemma ReadFixed_rd:
  "ReadFixed n (rd pre suf e) = (if n < 0 \<or> int (length suf) < n then Inl e
     else Inr (take (nat n) suf, rd (pre @ take (nat n) suf) (drop (nat n) suf) e))"
  by (simp add: ReadFixed_def Remaining_rd) (auto simp: rd_def slice_def)

lemma ReadFixed_uint:
  "ReadFixed (uint (w :: 'a::len word)) (rd pre suf e) = (if length suf < unat w then Inl e
     else Inr (take (unat w) suf, rd (pre @ take (unat w) suf) (drop (unat w) suf) e))"
proof -
  have "int (length suf) < uint w \<longleftrightarrow> length suf < unat w"
    by (metis of_nat_less_iff uint_nat)
  then show ?thesis by (simp add: ReadFixed_rd)
qed

lemma ReadVarBytes_eq [codec_simps]: "ReadVarBytes n c r = ReadFixed n r"
  by (auto simp: ReadVarBytes_def split: sum.splits)

lemmas rd_reads = ReadByte_rd ReadUint16_rd ReadUint64_rd ReadFixed_rd ReadVarBytes_eq

text \<open>What a leaf reader returns in front of the bytes its writer made.\<close>

lemma read_back [codec_simps]:
  "ReadByte (rd pre (b # ys) e) = Inr (b, rd (pre @ [b]) ys e)"
  "ReadUint16 (rd pre (put16 v @ ys) e) = Inr (v, rd (pre @ put16 v) ys e)"
  "ReadUint64 (rd pre (put64 w @ ys) e) = Inr (w, rd (pre @ put64 w) ys e)"
  "n = int (length xs) \<Longrightarrow> ReadFixed n (rd pre (xs @ ys) e) = Inr (xs, rd (pre @ xs) ys e)"
  by (simp_all add: rd_reads)

lemma read_back_end [codec_simps]:
  "ReadUint16 (rd pre (put16 v) e) = Inr (v, rd (pre @ put16 v) [] e)"
  "n = int (length xs) \<Longrightarrow> ReadFixed n (rd pre xs e) = Inr (xs, rd (pre @ xs) [] e)"
  by (simp_all add: rd_reads)

section \<open>Wire formats\<close>

text \<open>
  A reader operation \<open>get\<close> and the bytes \<open>put x\<close> of a value form a wire format on the
  values that satisfy \<open>ok\<close>: reading gives back what was written and leaves what follows,
  whatever is read was in front as its own encoding, and a failed read returns the
  reader's error and nothing else.
\<close>

locale wire_format =
  fixes put :: "'a \<Rightarrow> bytes"
    and get :: "BinaryReader \<Rightarrow> ('a \<times> BinaryReader) result"
    and ok :: "'a \<Rightarrow> bool"
  assumes get_put_rd: "ok x \<Longrightarrow> get (rd pre (put x @ ys) e) = Inr (x, rd (pre @ put x) ys e)"
    and put_get_rd: "get (rd pre zs e) = Inr (x, r) \<Longrightarrow>
          ok x \<and> (\<exists>ys. zs = put x @ ys \<and> r = rd (pre @ put x) ys e)"
    and get_err_rd: "get (rd pre zs e) = Inl e' \<Longrightarrow> e' = e"
begin

lemma get_iff:
  "get (rd pre zs e) = Inr (x, r) \<longleftrightarrow> ok x \<and> (\<exists>ys. zs = put x @ ys \<and> r = rd (pre @ put x) ys e)"
  using get_put_rd put_get_rd by blast

lemma put_prefix_free:
  assumes "ok x" "ok x'" "put x @ ys = put x' @ ys'"
  shows "x = x' \<and> ys = ys'"
proof -
  have "get (rd [] (put x @ ys) ProtocolErrInvalidFrame) =
      Inr (x, rd ([] @ put x) ys ProtocolErrInvalidFrame)"
    using assms(1) by (rule get_put_rd)
  moreover have "get (rd [] (put x @ ys) ProtocolErrInvalidFrame) =
      Inr (x', rd ([] @ put x') ys' ProtocolErrInvalidFrame)"
    unfolding assms(3) using assms(2) by (rule get_put_rd)
  ultimately have "x = x'" by simp
  with assms(3) show ?thesis by simp
qed

lemma get_never_both: "ok x \<Longrightarrow> get (rd pre (put x @ ys) e) \<noteq> Inl e'"
  by (simp add: get_put_rd)

end

interpretation byte_fmt: wire_format "\<lambda>b. [b]" ReadByte "\<lambda>_. True"
  by unfold_locales (auto simp: rd_reads split: list.splits)

interpretation u16_fmt: wire_format put16 ReadUint16 "\<lambda>_. True"
proof unfold_locales
  fix pre zs e x r
  assume "ReadUint16 (rd pre zs e) = Inr (x, r)"
  then have "2 \<le> length zs" "x = get16 (take 2 zs)" "r = rd (pre @ take 2 zs) (drop 2 zs) e"
    by (auto simp: ReadUint16_rd split: if_splits)
  then show "True \<and> (\<exists>ys. zs = put16 x @ ys \<and> r = rd (pre @ put16 x) ys e)"
    by (auto simp: put_get16 intro: exI [of _ "drop 2 zs"])
qed (auto simp: ReadUint16_rd split: if_splits)

interpretation u64_fmt: wire_format put64 ReadUint64 "\<lambda>_. True"
proof unfold_locales
  fix pre zs e x r
  assume "ReadUint64 (rd pre zs e) = Inr (x, r)"
  then have "8 \<le> length zs" "x = get64 (take 8 zs)" "r = rd (pre @ take 8 zs) (drop 8 zs) e"
    by (auto simp: ReadUint64_rd split: if_splits)
  then show "True \<and> (\<exists>ys. zs = put64 x @ ys \<and> r = rd (pre @ put64 x) ys e)"
    by (auto simp: put_get64 intro: exI [of _ "drop 8 zs"])
qed (auto simp: ReadUint64_rd split: if_splits)

text \<open>The sixteen-byte arrays (nonces and identity hashes) and any other fixed width.\<close>

lemma fixed_wire_format: "wire_format (\<lambda>v. v) (ReadFixed (int n)) (\<lambda>v. length v = n)"
proof unfold_locales
  fix pre zs e x r
  assume "ReadFixed (int n) (rd pre zs e) = Inr (x, r)"
  then show "length x = n \<and> (\<exists>ys. zs = x @ ys \<and> r = rd (pre @ x) ys e)"
    by (auto simp: ReadFixed_rd split: if_splits intro: exI [of _ "drop n zs"])
qed (auto simp: ReadFixed_rd split: if_splits)

interpretation fix16_fmt: wire_format "\<lambda>v. v" "ReadFixed 16" "\<lambda>v. length v = 16"
  using fixed_wire_format [of 16] by simp

text \<open>A byte string behind a one-byte length.\<close>

definition var8_bytes :: "bytes \<Rightarrow> bytes" where
  "var8_bytes v = of_nat (length v) # v"

definition read_var8 :: "bool \<Rightarrow> BinaryReader \<Rightarrow> (bytes \<times> BinaryReader) result" where
  "read_var8 copyOut r = rbind (ReadByte r) (\<lambda>(n, r1). ReadVarBytes (int (unat n)) copyOut r1)"

lemma length_var8_bytes [simp]: "length (var8_bytes v) = Suc (length v)"
  by (simp add: var8_bytes_def)

lemma var8_wire_format: "wire_format var8_bytes (read_var8 c) (\<lambda>v. length v \<le> 255)"
proof unfold_locales
  fix x pre ys e
  assume "length (x :: bytes) \<le> 255"
  then have "int (unat (of_nat (length x) :: byte)) = int (length x)"
    by (simp add: unat_of_nat)
  then show "read_var8 c (rd pre (var8_bytes x @ ys) e) = Inr (x, rd (pre @ var8_bytes x) ys e)"
    unfolding read_var8_def var8_bytes_def append_Cons
    by (simp only: codec_simps rbind_simps split) simp
next
  fix pre zs e x r
  assume "read_var8 c (rd pre zs e) = Inr (x, r)"
  then obtain n ys where zs: "zs = n # ys"
    and x: "ReadFixed (int (unat n)) (rd (pre @ [n]) ys e) = Inr (x, r)"
    by (auto simp: read_var8_def result_splits byte_fmt.get_iff ReadVarBytes_eq)
  from x have "length x = unat n" "ys = x @ drop (unat n) ys"
    "r = rd ((pre @ [n]) @ x) (drop (unat n) ys) e"
    by (auto simp: ReadFixed_uint split: if_splits)
  moreover have "unat n \<le> 255"
    using unat_byte_less [of n] by linarith
  ultimately show "length x \<le> 255 \<and> (\<exists>ys. zs = var8_bytes x @ ys \<and> r = rd (pre @ var8_bytes x) ys e)"
    by (auto simp: zs var8_bytes_def)
next
  fix pre zs e e'
  assume "read_var8 c (rd pre zs e) = Inl e'"
  then show "e' = e"
    by (auto simp: read_var8_def result_splits byte_fmt.get_iff ReadVarBytes_eq ReadFixed_rd
        dest: byte_fmt.get_err_rd split: if_splits)
qed

interpretation var8_fmt: wire_format var8_bytes "read_var8 c" "\<lambda>v. length v \<le> 255" for c
  by (rule var8_wire_format)

lemma read_var8_fold:
  "rbind (ReadByte r) (\<lambda>(n, r1). rbind (ReadVarBytes (int (unat n)) c r1) f) = rbind (read_var8 c r) f"
  by (auto simp: read_var8_def rbind_def split: sum.splits)

text \<open>A byte string behind a two-byte length.\<close>

definition var16_bytes :: "bytes \<Rightarrow> bytes" where
  "var16_bytes v = put16 (of_nat (length v)) @ v"

definition read_var16 :: "bool \<Rightarrow> BinaryReader \<Rightarrow> (bytes \<times> BinaryReader) result" where
  "read_var16 copyOut r = rbind (ReadUint16 r) (\<lambda>(n, r1). ReadVarBytes (int (unat n)) copyOut r1)"

lemma length_var16_bytes [simp]: "length (var16_bytes v) = 2 + length v"
  by (simp add: var16_bytes_def)

lemma int_unat_of_nat16: "n \<le> 65535 \<Longrightarrow> int (unat (of_nat n :: u16)) = int n"
  by (simp add: unat_of_nat)

lemma var16_wire_format: "wire_format var16_bytes (read_var16 c) (\<lambda>v. length v \<le> 65535)"
proof unfold_locales
  fix x pre ys e
  assume "length (x :: bytes) \<le> 65535"
  then have n: "int (unat (of_nat (length x) :: u16)) = int (length x)"
    by (rule int_unat_of_nat16)
  show "read_var16 c (rd pre (var16_bytes x @ ys) e) = Inr (x, rd (pre @ var16_bytes x) ys e)"
    unfolding read_var16_def var16_bytes_def append_assoc
    by (simp only: codec_simps rbind_simps split n) simp
next
  fix pre zs e x r
  assume "read_var16 c (rd pre zs e) = Inr (x, r)"
  then obtain n ys where zs: "zs = put16 n @ ys"
    and x: "ReadFixed (int (unat n)) (rd (pre @ put16 n) ys e) = Inr (x, r)"
    by (auto simp: read_var16_def result_splits u16_fmt.get_iff ReadVarBytes_eq)
  from x have "length x = unat n" "ys = x @ drop (unat n) ys"
    "r = rd ((pre @ put16 n) @ x) (drop (unat n) ys) e"
    by (auto simp: ReadFixed_uint split: if_splits)
  moreover have "unat n \<le> 65535"
    using unsigned_less [of n, where 'a = nat] by simp
  ultimately show "length x \<le> 65535 \<and>
      (\<exists>ys. zs = var16_bytes x @ ys \<and> r = rd (pre @ var16_bytes x) ys e)"
    by (auto simp: zs var16_bytes_def)
next
  fix pre zs e e'
  assume "read_var16 c (rd pre zs e) = Inl e'"
  then show "e' = e"
    by (auto simp: read_var16_def result_splits u16_fmt.get_iff ReadVarBytes_eq ReadFixed_rd
        dest: u16_fmt.get_err_rd split: if_splits)
qed

interpretation var16_fmt: wire_format var16_bytes "read_var16 c" "\<lambda>v. length v \<le> 65535" for c
  by (rule var16_wire_format)

lemma read_var16_fold:
  "rbind (ReadUint16 r) (\<lambda>(n, r1). rbind (ReadVarBytes (int (unat n)) c r1) f) = rbind (read_var16 c r) f"
  by (auto simp: read_var16_def rbind_def split: sum.splits)

section \<open>One TLV on the wire\<close>

definition tlv_bytes :: "TLV \<Rightarrow> bytes" where
  "tlv_bytes t = put16 (tlv_Type t) @ put16 (of_nat (length (tlv_Value t))) @ tlv_Value t"

definition read_tlv :: "BinaryReader \<Rightarrow> (TLV \<times> BinaryReader) result" where
  "read_tlv r = rbind (ReadUint16 r) (\<lambda>(typ, r1). rbind (ReadUint16 r1) (\<lambda>(n, r2).
     rbind (ReadVarBytes (int (unat n)) True r2) (\<lambda>(v, r3).
       Inr (\<lparr>tlv_Type = typ, tlv_Value = v\<rparr>, r3))))"

definition tlv_ok :: "TLV \<Rightarrow> bool" where
  "tlv_ok t \<longleftrightarrow> length (tlv_Value t) \<le> 65535"

lemma length_tlv_bytes [simp]: "length (tlv_bytes t) = 4 + length (tlv_Value t)"
  by (simp add: tlv_bytes_def)

lemma tlv_bytes_not_Nil [simp]: "tlv_bytes t \<noteq> []"
  by (metis add_is_0 length_tlv_bytes list.size(3) zero_neq_numeral)

lemma decode_tlvs_read:
  "decode_tlvs r out = (if Remaining r > 0
     then rbind (read_tlv r) (\<lambda>(t, r'). decode_tlvs r' (out @ [t])) else Inr out)"
  by (subst decode_tlvs.simps) (auto simp: read_tlv_def split: sum.splits)

lemma tlv_bytes_var16: "tlv_bytes t = put16 (tlv_Type t) @ var16_bytes (tlv_Value t)"
  by (simp add: tlv_bytes_def var16_bytes_def)

lemma read_tlv_var16:
  "read_tlv r = rbind (ReadUint16 r) (\<lambda>(typ, r1). rbind (read_var16 True r1)
     (\<lambda>(v, r2). Inr (\<lparr>tlv_Type = typ, tlv_Value = v\<rparr>, r2)))"
  unfolding read_tlv_def read_var16_fold ..

interpretation tlv_fmt: wire_format tlv_bytes read_tlv tlv_ok
proof unfold_locales
  fix x pre ys e
  assume "tlv_ok x"
  then show "read_tlv (rd pre (tlv_bytes x @ ys) e) = Inr (x, rd (pre @ tlv_bytes x) ys e)"
    by (simp add: read_tlv_var16 tlv_bytes_var16 tlv_ok_def u16_fmt.get_put_rd var16_fmt.get_put_rd)
qed (auto simp: read_tlv_var16 tlv_bytes_var16 tlv_ok_def result_splits u16_fmt.get_iff
      var16_fmt.get_iff dest!: u16_fmt.get_err_rd var16_fmt.get_err_rd)

section \<open>TLV lists\<close>

lemma wbuf_write_tlvs:
  "wbuf (write_tlvs tlvs w) = wbuf w @ concat (map tlv_bytes tlvs)"
  by (induction tlvs w rule: write_tlvs.induct)
    (simp_all add: WriteVarBytes_def WriteUint16_def WriteFixed_def tlv_bytes_def)

lemma tlv_total_eq:
  assumes "0 \<le> tot" "tot \<le> 65535"
  shows "tlv_total tlvs e tot =
    (if tot + int (length (concat (map tlv_bytes tlvs))) \<le> 65535
     then Inr (tot + int (length (concat (map tlv_bytes tlvs)))) else Inl e)"
  using assms
proof (induction tlvs e tot rule: tlv_total.induct)
  case (1 e tot)
  then show ?case by simp
next
  case (2 tlv tlvs e tot)
  then show ?case by (auto simp: Let_def)
qed

lemma EncodeTLVs_eq:
  "EncodeTLVs tlvs e = (if length (concat (map tlv_bytes tlvs)) \<le> 65535
     then Inr (concat (map tlv_bytes tlvs)) else Inl e)"
  by (simp add: EncodeTLVs_def tlv_total_eq Bytes_def wbuf_write_tlvs NewWriter_def)

lemma decode_tlvs_complete:
  "\<forall>t \<in> set tlvs. tlv_ok t \<Longrightarrow>
   decode_tlvs (rd pre (concat (map tlv_bytes tlvs)) e) out = Inr (out @ tlvs)"
proof (induction tlvs arbitrary: pre out)
  case Nil
  then show ?case by (subst decode_tlvs_read) (simp add: codec_simps)
next
  case (Cons t tlvs)
  have "read_tlv (rd pre (tlv_bytes t @ concat (map tlv_bytes tlvs)) e) =
      Inr (t, rd (pre @ tlv_bytes t) (concat (map tlv_bytes tlvs)) e)"
    using Cons.prems by (intro tlv_fmt.get_put_rd) simp
  with Cons show ?case by (subst decode_tlvs_read) (simp add: codec_simps)
qed

lemma decode_tlvs_sound:
  "decode_tlvs (rd pre zs e) out = Inr res \<Longrightarrow>
   \<exists>tlvs. res = out @ tlvs \<and> zs = concat (map tlv_bytes tlvs) \<and> (\<forall>t \<in> set tlvs. tlv_ok t)"
proof (induction "length zs" arbitrary: pre zs out rule: less_induct)
  case less
  show ?case
  proof (cases "zs = []")
    case True
    with less.prems show ?thesis by (subst (asm) decode_tlvs_read) (simp add: codec_simps)
  next
    case False
    with less.prems obtain t r where t: "read_tlv (rd pre zs e) = Inr (t, r)"
      and rest: "decode_tlvs r (out @ [t]) = Inr res"
      by (subst (asm) decode_tlvs_read) (auto simp: codec_simps result_splits)
    from tlv_fmt.put_get_rd [OF t] obtain ys where ok: "tlv_ok t"
      and zs: "zs = tlv_bytes t @ ys" and r: "r = rd (pre @ tlv_bytes t) ys e"
      by blast
    have "length ys < length zs" by (simp add: zs)
    from less.hyps [OF this rest [unfolded r]] obtain tlvs
      where "res = (out @ [t]) @ tlvs" "ys = concat (map tlv_bytes tlvs)" "\<forall>t \<in> set tlvs. tlv_ok t"
      by blast
    with ok zs show ?thesis by (intro exI [of _ "t # tlvs"]) simp
  qed
qed

lemma tlv_ok_of_total:
  "length (concat (map tlv_bytes tlvs)) \<le> 65535 \<Longrightarrow> \<forall>t \<in> set tlvs. tlv_ok t"
  by (induction tlvs) (auto simp: tlv_ok_def)

lemma DecodeTLVs_iff:
  "DecodeTLVs raw e = Inr tlvs \<longleftrightarrow>
     raw = concat (map tlv_bytes tlvs) \<and> (\<forall>t \<in> set tlvs. tlv_ok t)"
  using decode_tlvs_complete [of tlvs "[]" e "[]"] decode_tlvs_sound [of "[]" raw e "[]" tlvs]
  by (auto simp: DecodeTLVs_def codec_simps)

lemma decode_tlvs_err: "decode_tlvs (rd pre zs e) out = Inl e' \<Longrightarrow> e' = e"
proof (induction "length zs" arbitrary: pre zs out rule: less_induct)
  case less
  from less.prems consider "read_tlv (rd pre zs e) = Inl e'"
    | t r where "read_tlv (rd pre zs e) = Inr (t, r)" "decode_tlvs r (out @ [t]) = Inl e'"
    by (subst (asm) decode_tlvs_read) (auto simp: result_splits split: if_splits)
  then show ?case
  proof cases
    case 1
    then show ?thesis by (rule tlv_fmt.get_err_rd)
  next
    case 2
    then obtain ys where "zs = tlv_bytes t @ ys" "r = rd (pre @ tlv_bytes t) ys e"
      using tlv_fmt.put_get_rd by blast
    with 2(2) show ?thesis by (intro less.hyps [of ys]) auto
  qed
qed

lemma DecodeTLVs_err: "DecodeTLVs raw e = Inl e' \<Longrightarrow> e' = e"
  by (simp add: DecodeTLVs_def codec_simps decode_tlvs_err)

text \<open>
  Property C1. A byte string is the encoding of a list of extensions exactly when decoding
  it gives that list and it is at most 65535 bytes long: encoding and decoding are inverse
  to each other, the encoding is canonical, and the encoder refuses exactly the lists whose
  encoding does not fit the 16-bit length that precedes it in a frame.
\<close>

theorem TLVs_roundtrip:
  "EncodeTLVs tlvs tooLarge = Inr raw \<longleftrightarrow> DecodeTLVs raw invalid = Inr tlvs \<and> length raw \<le> 65535"
  by (auto simp: EncodeTLVs_eq DecodeTLVs_iff tlv_ok_of_total)

text \<open>
  Decoding extensions fails with the caller's error only, and encoding fails
  with the caller's error exactly when four bytes per extension plus the values exceed 65535.
\<close>

theorem TLVs_errors:
  "(DecodeTLVs raw invalid = Inl e \<longrightarrow> e = invalid) \<and>
   (EncodeTLVs tlvs tooLarge = Inl e \<longleftrightarrow>
      e = tooLarge \<and> (\<Sum>t \<leftarrow> tlvs. 4 + length (tlv_Value t)) > 65535)"
proof -
  have "length (concat (map tlv_bytes tlvs)) = (\<Sum>t \<leftarrow> tlvs. 4 + length (tlv_Value t))"
    by (simp add: length_concat comp_def)
  then show ?thesis by (auto simp: EncodeTLVs_eq dest: DecodeTLVs_err)
qed

theorem TLVs_errors_witness:
  "DecodeTLVs [0, 1, 0, 5, 7] ProtocolErrInvalidFrame = Inl ProtocolErrInvalidFrame \<and>
   EncodeTLVs [\<lparr>tlv_Type = 1, tlv_Value = [7]\<rparr>] ProtocolErrFrameTooLarge \<noteq> Inl ProtocolErrFrameTooLarge"
proof -
  have d: "DecodeTLVs [0, 1, 0, 5, 7] ProtocolErrInvalidFrame = Inl ProtocolErrInvalidFrame"
    by code_simp
  show ?thesis
    using TLVs_errors [of "[0, 1, 0, 5, 7]" ProtocolErrInvalidFrame ProtocolErrFrameTooLarge
        "[\<lparr>tlv_Type = 1, tlv_Value = [7]\<rparr>]" ProtocolErrFrameTooLarge] d
    by simp
qed

end
