(* ===== verification/Cryptox.thy ===== *)
theory Cryptox
  imports Knock_Prelude
begin

text \<open>
  The cryptographic primitives and the byte streams the protocol code calls. HMAC-SHA256,
  HKDF-SHA256 and the two AEADs (golang.org/x/crypto/chacha20poly1305) are parameters: a
  record \<open>crypto\<close> of functions, an argument of every definition that uses them, with
  their documented behaviour as the predicate \<open>crypto_ok\<close>. The helpers of
  internal/cryptox are defined over it. A stream is what a connection still delivers:
  its bytes, then the error every later read returns.
\<close>

section \<open>Primitives\<close>

record crypto =
  hmac_sha256 :: "bytes \<Rightarrow> bytes \<Rightarrow> bytes"
  hkdf_sha256 :: "bytes \<Rightarrow> bytes \<Rightarrow> bytes \<Rightarrow> nat \<Rightarrow> bytes"
  xchacha_seal :: "bytes \<Rightarrow> bytes \<Rightarrow> bytes \<Rightarrow> bytes \<Rightarrow> bytes"
  xchacha_open :: "bytes \<Rightarrow> bytes \<Rightarrow> bytes \<Rightarrow> bytes \<Rightarrow> bytes option"
  chacha_seal :: "bytes \<Rightarrow> bytes \<Rightarrow> bytes \<Rightarrow> bytes \<Rightarrow> bytes"
  chacha_open :: "bytes \<Rightarrow> bytes \<Rightarrow> bytes \<Rightarrow> bytes \<Rightarrow> bytes option"

definition KeySize :: nat where "KeySize = 32"
definition NonceSize :: nat where "NonceSize = 12"
definition NonceSizeX :: nat where "NonceSizeX = 24"
definition Overhead :: nat where "Overhead = 16"

text \<open>
  \<open>aead_ok n seal open\<close>: for a 32-byte key and an \<open>n\<close>-byte nonce, sealing adds the
  16-byte tag, and opening with additional data returns a plaintext exactly for the
  ciphertext that sealing that plaintext with that data gives.
\<close>

definition aead_ok ::
    "nat \<Rightarrow> (bytes \<Rightarrow> bytes \<Rightarrow> bytes \<Rightarrow> bytes \<Rightarrow> bytes) \<Rightarrow>
     (bytes \<Rightarrow> bytes \<Rightarrow> bytes \<Rightarrow> bytes \<Rightarrow> bytes option) \<Rightarrow> bool" where
  "aead_ok nonce_size seal unseal \<longleftrightarrow>
     (\<forall>k n. length k = KeySize \<longrightarrow> length n = nonce_size \<longrightarrow>
        (\<forall>p a. length (seal k n p a) = length p + Overhead) \<and>
        (\<forall>c a p. unseal k n c a = Some p \<longleftrightarrow> c = seal k n p a))"

definition crypto_ok :: "crypto \<Rightarrow> bool" where
  "crypto_ok cr \<longleftrightarrow>
     (\<forall>k d. length (hmac_sha256 cr k d) = 32) \<and>
     (\<forall>s salt info n. length (hkdf_sha256 cr s salt info n) = n) \<and>
     aead_ok NonceSizeX (xchacha_seal cr) (xchacha_open cr) \<and>
     aead_ok NonceSize (chacha_seal cr) (chacha_open cr)"

lemma crypto_ok_lengths:
  assumes "crypto_ok cr"
  shows "length (hmac_sha256 cr k d) = 32" "length (hkdf_sha256 cr s salt info n) = n"
  using assms by (simp_all add: crypto_ok_def)

lemma xchacha_laws:
  assumes "crypto_ok cr" "length k = KeySize" "length n = NonceSizeX"
  shows "length (xchacha_seal cr k n p a) = length p + Overhead"
    and "xchacha_open cr k n c a = Some p \<longleftrightarrow> c = xchacha_seal cr k n p a"
  using assms by (simp_all add: crypto_ok_def aead_ok_def)

lemma chacha_laws:
  assumes "crypto_ok cr" "length k = KeySize" "length n = NonceSize"
  shows "length (chacha_seal cr k n p a) = length p + Overhead"
    and "chacha_open cr k n c a = Some p \<longleftrightarrow> c = chacha_seal cr k n p a"
  using assms by (simp_all add: crypto_ok_def aead_ok_def)

section \<open>internal/cryptox\<close>

text \<open>\<open>subtle.ConstantTimeCompare\<close> is 1 exactly on equal slices of equal length.\<close>

definition ConstantTimeEqual :: "bytes \<Rightarrow> bytes \<Rightarrow> bool" where
  "ConstantTimeEqual a b \<longleftrightarrow> a = b"

definition HMACSHA256 :: "crypto \<Rightarrow> bytes \<Rightarrow> bytes \<Rightarrow> bytes" where
  "HMACSHA256 cr secret data = hmac_sha256 cr secret data"

definition HMACTrunc64 :: "crypto \<Rightarrow> bytes \<Rightarrow> bytes \<Rightarrow> u64" where
  "HMACTrunc64 cr secret data = get64 (take 8 (HMACSHA256 cr secret data))"

definition HMACTrunc128 :: "crypto \<Rightarrow> bytes \<Rightarrow> bytes \<Rightarrow> bytes" where
  "HMACTrunc128 cr secret data = take 16 (HMACSHA256 cr secret data)"

text \<open>HKDF over SHA-256 yields up to 255 blocks; the code asks for 32 bytes and never fails.\<close>

definition MustHKDFSHA256 :: "crypto \<Rightarrow> bytes \<Rightarrow> bytes \<Rightarrow> bytes \<Rightarrow> nat \<Rightarrow> bytes" where
  "MustHKDFSHA256 cr secret salt info n = hkdf_sha256 cr secret salt info n"

text \<open>\<open>chacha20poly1305.NewX(key)\<close> followed by \<open>Seal\<close> or \<open>Open\<close>, and the same for \<open>New\<close>.\<close>

definition NewX_Seal :: "crypto \<Rightarrow> bytes \<Rightarrow> bytes \<Rightarrow> bytes \<Rightarrow> bytes \<Rightarrow> bytes result" where
  "NewX_Seal cr key nonce plain ad =
     (if length key \<noteq> KeySize then Inl AeadErrBadKeyLength
      else Inr (xchacha_seal cr key nonce plain ad))"

definition NewX_Open :: "crypto \<Rightarrow> bytes \<Rightarrow> bytes \<Rightarrow> bytes \<Rightarrow> bytes \<Rightarrow> bytes result" where
  "NewX_Open cr key nonce sealed ad =
     (if length key \<noteq> KeySize then Inl AeadErrBadKeyLength
      else case xchacha_open cr key nonce sealed ad of
             None \<Rightarrow> Inl AeadErrOpen | Some p \<Rightarrow> Inr p)"

definition New_Seal :: "crypto \<Rightarrow> bytes \<Rightarrow> bytes \<Rightarrow> bytes \<Rightarrow> bytes \<Rightarrow> bytes result" where
  "New_Seal cr key nonce plain ad =
     (if length key \<noteq> KeySize then Inl AeadErrBadKeyLength
      else Inr (chacha_seal cr key nonce plain ad))"

definition New_Open :: "crypto \<Rightarrow> bytes \<Rightarrow> bytes \<Rightarrow> bytes \<Rightarrow> bytes \<Rightarrow> bytes result" where
  "New_Open cr key nonce sealed ad =
     (if length key \<noteq> KeySize then Inl AeadErrBadKeyLength
      else case chacha_open cr key nonce sealed ad of
             None \<Rightarrow> Inl AeadErrOpen | Some p \<Rightarrow> Inr p)"

lemma length_HMACTrunc128 [simp]: "crypto_ok cr \<Longrightarrow> length (HMACTrunc128 cr s d) = 16"
  by (simp add: HMACTrunc128_def HMACSHA256_def crypto_ok_lengths)

lemma length_MustHKDFSHA256 [simp]: "crypto_ok cr \<Longrightarrow> length (MustHKDFSHA256 cr s t i n) = n"
  by (simp add: MustHKDFSHA256_def crypto_ok_lengths)

lemma NewX_Seal_ok:
  assumes "crypto_ok cr" "length k = KeySize"
  shows "NewX_Seal cr k n p a = Inr (xchacha_seal cr k n p a)"
  using assms by (simp add: NewX_Seal_def)

lemma NewX_Open_iff:
  assumes "crypto_ok cr" "length k = KeySize" "length n = NonceSizeX"
  shows "NewX_Open cr k n c a = Inr p \<longleftrightarrow> NewX_Seal cr k n p a = Inr c"
  using xchacha_laws(2) [OF assms, of c a p] assms(2)
  by (auto simp: NewX_Open_def NewX_Seal_def split: option.splits)

lemma New_Open_iff:
  assumes "crypto_ok cr" "length k = KeySize" "length n = NonceSize"
  shows "New_Open cr k n c a = Inr p \<longleftrightarrow> New_Seal cr k n p a = Inr c"
  using chacha_laws(2) [OF assms, of c a p] assms(2)
  by (auto simp: New_Open_def New_Seal_def split: option.splits)

lemma NewX_Seal_length:
  assumes "crypto_ok cr" "length k = KeySize" "length n = NonceSizeX" "NewX_Seal cr k n p a = Inr c"
  shows "length c = length p + Overhead"
  using xchacha_laws(1) [OF assms(1-3)] assms(2,4) by (auto simp: NewX_Seal_def)

lemma New_Seal_length:
  assumes "crypto_ok cr" "length k = KeySize" "length n = NonceSize" "New_Seal cr k n p a = Inr c"
  shows "length c = length p + Overhead"
  using chacha_laws(1) [OF assms(1-3)] assms(2,4) by (auto simp: New_Seal_def)

section \<open>A computable instance for the witnesses\<close>

text \<open>
  \<open>demo_crypto\<close> satisfies the documented laws and computes quickly: a derived key repeats the
  first byte of the secret, a tag the first byte of the key. It offers no security; the
  witnesses use it to show that the hypotheses of the theorems can hold and to evaluate them.
\<close>

definition first_byte :: "bytes \<Rightarrow> byte" where
  "first_byte k = (case k of [] \<Rightarrow> 0 | b # _ \<Rightarrow> b)"

definition demo_tag :: "bytes \<Rightarrow> bytes" where
  "demo_tag k = replicate 16 (first_byte k)"

definition demo_open :: "bytes \<Rightarrow> bytes \<Rightarrow> bytes \<Rightarrow> bytes \<Rightarrow> bytes option" where
  "demo_open k n c a = (let p = take (length c - 16) c in if c = p @ demo_tag k then Some p else None)"

definition demo_crypto :: crypto where
  "demo_crypto = \<lparr>
     hmac_sha256 = (\<lambda>k d. replicate 32 (first_byte k)),
     hkdf_sha256 = (\<lambda>s salt info n. replicate n (first_byte s)),
     xchacha_seal = (\<lambda>k n p a. p @ demo_tag k), xchacha_open = demo_open,
     chacha_seal = (\<lambda>k n p a. p @ demo_tag k), chacha_open = demo_open\<rparr>"

lemma demo_open_iff: "demo_open k n c a = Some p \<longleftrightarrow> c = p @ demo_tag k"
  by (auto simp: demo_open_def demo_tag_def Let_def)

lemma crypto_ok_demo_crypto: "crypto_ok demo_crypto"
  unfolding crypto_ok_def aead_ok_def
  by (simp add: demo_crypto_def demo_open_iff) (simp add: demo_tag_def Overhead_def)

section \<open>Streams\<close>

record stream =
  sdata :: bytes
  serr :: error

text \<open>\<open>io.ReadFull\<close> into a buffer of \<open>n\<close> bytes.\<close>

definition io_ReadFull :: "nat \<Rightarrow> stream \<Rightarrow> (bytes \<times> stream) result" where
  "io_ReadFull n st =
     (if n \<le> length (sdata st) then Inr (take n (sdata st), st\<lparr>sdata := drop n (sdata st)\<rparr>)
      else if sdata st \<noteq> [] \<and> serr st = IoEOF then Inl IoErrUnexpectedEOF
      else Inl (serr st))"

text \<open>\<open>bufio.Reader.Peek\<close> and \<open>Discard\<close> with the default buffer of 4096 bytes.\<close>

definition bufio_size :: nat where "bufio_size = 4096"

definition bufio_Peek :: "nat \<Rightarrow> stream \<Rightarrow> bytes result" where
  "bufio_Peek n st =
     (if n > bufio_size then Inl BufioErrBufferFull
      else if n \<le> length (sdata st) then Inr (take n (sdata st))
      else Inl (serr st))"

definition bufio_Discard :: "nat \<Rightarrow> stream \<Rightarrow> stream" where
  "bufio_Discard n st = st\<lparr>sdata := drop n (sdata st)\<rparr>"

lemma io_ReadFull_append:
  "n = length xs \<Longrightarrow> io_ReadFull n \<lparr>sdata = xs @ ys, serr = e\<rparr> = Inr (xs, \<lparr>sdata = ys, serr = e\<rparr>)"
  by (simp add: io_ReadFull_def)

lemma io_ReadFull_Inr:
  "io_ReadFull n st = Inr (xs, st') \<longleftrightarrow>
     length xs = n \<and> sdata st = xs @ sdata st' \<and> serr st' = serr st"
  by (cases st; cases st') (auto simp: io_ReadFull_def)

end
