(* ===== verification/Frame_V1.thy ===== *)
theory Frame_V1
  imports Codec Cryptox
begin

text \<open>
  protocol/frame.go: the first TCP authentication frame. A frame is a 29-byte header
  (version, flags, reserved, 16-byte nonce, key hint, length of the sealed part) followed by
  the payload sealed with XChaCha20-Poly1305 under a key derived from the client's secret
  and the header. \<open>rand.Read\<close> is an argument: the result of the call that draws the nonce.
\<close>

definition Version :: byte where "Version = 1"
definition FlagServerProof :: byte where "FlagServerProof = 1"
definition ServerProofType :: byte where "ServerProofType = 0x50"
definition ServerProofSize :: nat where "ServerProofSize = 1 + 1 + 16 + 32"
definition HeaderSize :: nat where "HeaderSize = 1 + 1 + 1 + 16 + 8 + 2"
definition DefaultMaxFrameSize :: int where "DefaultMaxFrameSize = 1024"
definition MinSecretSize :: nat where "MinSecretSize = 16"

lemmas frame_consts = Version_def FlagServerProof_def ServerProofType_def ServerProofSize_def
  HeaderSize_def DefaultMaxFrameSize_def MinSecretSize_def Overhead_def

record Header =
  h_Version :: byte
  h_Flags :: byte
  h_Reserved :: byte
  h_Nonce :: bytes
  h_KeyHint :: u64
  h_SealedLen :: u16

record Payload =
  ClientIDHash :: bytes
  TimestampUnixMS :: i64
  ServerPort :: int
  Method :: string
  SessionID :: bytes
  Extensions :: bytes

section \<open>Header\<close>

definition EncodeHeader :: "bytes \<Rightarrow> Header \<Rightarrow> bytes" where
  "EncodeHeader dst h =
     (if length dst < HeaderSize then dst
      else copy_at 0 ([h_Version h, h_Flags h, h_Reserved h] @ h_Nonce h @
                      put64 (h_KeyHint h) @ put16 (h_SealedLen h)) dst)"

definition DecodeHeader :: "bytes \<Rightarrow> Header" where
  "DecodeHeader src =
     (if length src < HeaderSize
      then \<lparr>h_Version = 0, h_Flags = 0, h_Reserved = 0, h_Nonce = replicate 16 0,
            h_KeyHint = 0, h_SealedLen = 0\<rparr>
      else \<lparr>h_Version = src ! 0, h_Flags = src ! 1, h_Reserved = src ! 2,
            h_Nonce = slice src 3 19, h_KeyHint = get64 (slice src 19 27),
            h_SealedLen = get16 (slice src 27 29)\<rparr>)"

section \<open>Keys, hints and sealing\<close>

definition port_out_of_range :: "int \<Rightarrow> bool" where
  "port_out_of_range port \<longleftrightarrow> port < 0 \<or> port > 65535"

definition deriveAEADKey :: "crypto \<Rightarrow> bytes \<Rightarrow> Header \<Rightarrow> bytes" where
  "deriveAEADKey cr secret h =
     MustHKDFSHA256 cr secret (h_Nonce h) (str_bytes ''libknock aead v1'' @ put64 (h_KeyHint h)) KeySize"

definition aeadNonce :: "Header \<Rightarrow> bytes" where
  "aeadNonce h = h_Nonce h @ put64 (h_KeyHint h)"

definition aad :: "Header \<Rightarrow> bytes" where
  "aad h = EncodeHeader (replicate HeaderSize 0) h"

definition SealPayload :: "crypto \<Rightarrow> bytes \<Rightarrow> Header \<Rightarrow> bytes \<Rightarrow> bytes result" where
  "SealPayload cr secret h plain = NewX_Seal cr (deriveAEADKey cr secret h) (aeadNonce h) plain (aad h)"

definition OpenPayload :: "crypto \<Rightarrow> bytes \<Rightarrow> Header \<Rightarrow> bytes \<Rightarrow> bytes result" where
  "OpenPayload cr secret h sealed = NewX_Open cr (deriveAEADKey cr secret h) (aeadNonce h) sealed (aad h)"

definition ComputeKeyHint :: "crypto \<Rightarrow> bytes \<Rightarrow> bytes \<Rightarrow> int \<Rightarrow> u64" where
  "ComputeKeyHint cr secret nonce serverPort =
     (if port_out_of_range serverPort then 0
      else HMACTrunc64 cr secret (str_bytes ''hint'' @ nonce @ put16 (of_int serverPort)))"

definition ComputeClientIDHash :: "crypto \<Rightarrow> bytes \<Rightarrow> string \<Rightarrow> bytes" where
  "ComputeClientIDHash cr secret clientID =
     HMACTrunc128 cr secret (str_bytes ''client-id'' @ str_bytes clientID)"

section \<open>Server proof\<close>

definition computeServerProof :: "crypto \<Rightarrow> bytes \<Rightarrow> Header \<Rightarrow> int \<Rightarrow> bytes" where
  "computeServerProof cr secret h serverPort =
     (if port_out_of_range serverPort then []
      else HMACSHA256 cr secret (str_bytes ''server-proof-v1'' @ h_Nonce h @
             (put64 (h_KeyHint h) @ put16 (of_int serverPort))))"

definition BuildServerProof :: "crypto \<Rightarrow> bytes \<Rightarrow> Header \<Rightarrow> int \<Rightarrow> bytes" where
  "BuildServerProof cr secret h serverPort =
     (let out = replicate ServerProofSize 0;
          out = out[0 := Version];
          out = out[1 := ServerProofType];
          out = copy_at 2 (h_Nonce h) out
      in copy_at 18 (computeServerProof cr secret h serverPort) out)"

definition VerifyServerProof :: "crypto \<Rightarrow> bytes \<Rightarrow> bytes \<Rightarrow> Header \<Rightarrow> int \<Rightarrow> unit result" where
  "VerifyServerProof cr proof secret h serverPort =
     (if length proof \<noteq> ServerProofSize \<or> proof ! 0 \<noteq> Version \<or> proof ! 1 \<noteq> ServerProofType
      then Inl ProtocolErrInvalidFrame
      else if \<not> ConstantTimeEqual (slice proof 2 18) (h_Nonce h) then Inl ProtocolErrInvalidFrame
      else if \<not> ConstantTimeEqual (drop 18 proof) (computeServerProof cr secret h serverPort)
      then Inl ProtocolErrInvalidFrame
      else Inr ())"

section \<open>Payload\<close>

definition EncodePayload :: "Payload \<Rightarrow> bytes result" where
  "EncodePayload p =
     (if port_out_of_range (ServerPort p) then Inl (Errorf ''server port out of range'')
      else if length (Method p) > 255 \<or> length (SessionID p) > 255 \<or> length (Extensions p) > 65535
      then Inl ProtocolErrFrameTooLarge
      else Inr (ClientIDHash p @ put64 (TimestampUnixMS p) @ put16 (of_int (ServerPort p)) @
                [of_nat (length (Method p))] @ str_bytes (Method p) @
                [of_nat (length (SessionID p))] @ SessionID p @
                put16 (of_nat (length (Extensions p))) @ Extensions p))"

definition DecodePayload :: "bytes \<Rightarrow> Payload result" where
  "DecodePayload raw =
     rbind (ReadFixed 16 (NewReader raw ProtocolErrInvalidFrame)) (\<lambda>(ident, r).
     rbind (ReadUint64 r) (\<lambda>(ts, r).
     rbind (ReadUint16 r) (\<lambda>(port, r).
     rbind (ReadByte r) (\<lambda>(methodLen, r).
     rbind (ReadVarBytes (int (unat methodLen)) False r) (\<lambda>(meth, r).
     rbind (ReadByte r) (\<lambda>(sessionLen, r).
     rbind (ReadVarBytes (int (unat sessionLen)) True r) (\<lambda>(sess, r).
     rbind (ReadUint16 r) (\<lambda>(extLen, r).
       if int (unat extLen) \<noteq> Remaining r then Inl ProtocolErrInvalidFrame
       else rbind (ReadVarBytes (int (unat extLen)) True r) (\<lambda>(ext, r).
         Inr \<lparr>ClientIDHash = ident, TimestampUnixMS = ts, ServerPort = int (unat port),
              Method = bytes_str meth, SessionID = sess, Extensions = ext\<rparr>)))))))))"

definition frame_EncodeTLVs :: "TLV list \<Rightarrow> bytes result" where
  "frame_EncodeTLVs tlvs =
     EncodeTLVs (map (\<lambda>t. \<lparr>tlv_Type = tlv_Type t, tlv_Value = tlv_Value t\<rparr>) tlvs) ProtocolErrFrameTooLarge"

definition frame_DecodeTLVs :: "bytes \<Rightarrow> TLV list result" where
  "frame_DecodeTLVs raw =
     rbind (DecodeTLVs raw ProtocolErrInvalidFrame)
       (\<lambda>inner. Inr (map (\<lambda>t. \<lparr>tlv_Type = tlv_Type t, tlv_Value = tlv_Value t\<rparr>) inner))"

section \<open>Frames\<close>

definition BuildFrame ::
    "crypto \<Rightarrow> bytes result \<Rightarrow> string \<Rightarrow> bytes \<Rightarrow> int \<Rightarrow> time \<Rightarrow> byte \<Rightarrow> string \<Rightarrow> bytes \<Rightarrow> bytes \<Rightarrow>
     (bytes \<times> Header) result" where
  "BuildFrame cr rand clientID secret serverPort now flags meth sessionID extensions =
     (if clientID = '''' \<or> length secret < MinSecretSize then Inl ProtocolErrInvalidFrame
      else if flags AND NOT FlagServerProof \<noteq> 0 then Inl ProtocolErrUnsupportedFlags
      else rbind rand (\<lambda>nonce.
        if port_out_of_range serverPort then Inl (Errorf ''server port out of range'')
        else
          let h = \<lparr>h_Version = Version, h_Flags = flags, h_Reserved = 0, h_Nonce = nonce,
                   h_KeyHint = ComputeKeyHint cr secret nonce serverPort, h_SealedLen = 0\<rparr>
          in rbind (EncodePayload \<lparr>ClientIDHash = ComputeClientIDHash cr secret clientID,
                      TimestampUnixMS = UnixMilli now, ServerPort = serverPort, Method = meth,
                      SessionID = sessionID, Extensions = extensions\<rparr>) (\<lambda>plain.
             let sealedLen = length plain + Overhead
             in if int sealedLen > DefaultMaxFrameSize - int HeaderSize then Inl ProtocolErrFrameTooLarge
                else
                  let h = h\<lparr>h_SealedLen := of_nat sealedLen\<rparr>
                  in rbind (SealPayload cr secret h plain) (\<lambda>sealed.
                       let out = replicate (HeaderSize + length sealed) 0;
                           out = EncodeHeader (take HeaderSize out) h @ drop HeaderSize out
                       in Inr (copy_at HeaderSize sealed out, h)))))"

definition ReadFrame :: "stream \<Rightarrow> int \<Rightarrow> (Header \<times> bytes \<times> stream) result" where
  "ReadFrame r maxFrameSize0 =
     (let maxFrameSize = (if maxFrameSize0 \<le> 0 then DefaultMaxFrameSize else maxFrameSize0)
      in if maxFrameSize < int HeaderSize then Inl ProtocolErrFrameTooLarge
      else rbind (io_ReadFull HeaderSize r) (\<lambda>(raw, r).
        let h = DecodeHeader raw
        in if h_Version h \<noteq> Version then Inl ProtocolErrUnsupportedVersion
           else if h_Reserved h \<noteq> 0 then Inl ProtocolErrInvalidFrame
           else if h_Flags h AND NOT FlagServerProof \<noteq> 0 then Inl ProtocolErrUnsupportedFlags
           else if h_SealedLen h = 0 \<or> int HeaderSize + int (unat (h_SealedLen h)) > maxFrameSize
           then Inl ProtocolErrFrameTooLarge
           else rbind (io_ReadFull (unat (h_SealedLen h)) r) (\<lambda>(sealed, r).
             Inr (h, sealed, r))))"

section \<open>Header lemmas\<close>

text \<open>A \<open>Header\<close> value of Go has a nonce of exactly 16 bytes.\<close>

definition header_ok :: "Header \<Rightarrow> bool" where
  "header_ok h \<longleftrightarrow> length (h_Nonce h) = 16"

definition header_bytes :: "Header \<Rightarrow> bytes" where
  "header_bytes h = [h_Version h, h_Flags h, h_Reserved h] @ h_Nonce h @
     put64 (h_KeyHint h) @ put16 (h_SealedLen h)"

lemma length_header_bytes [simp]: "header_ok h \<Longrightarrow> length (header_bytes h) = HeaderSize"
  by (simp add: header_ok_def header_bytes_def HeaderSize_def)

lemma EncodeHeader_eq:
  "header_ok h \<Longrightarrow> length dst = HeaderSize \<Longrightarrow> EncodeHeader dst h = header_bytes h"
  unfolding EncodeHeader_def header_bytes_def [symmetric] by (simp add: copy_at_tail)

lemma aad_eq: "header_ok h \<Longrightarrow> aad h = header_bytes h"
  by (simp add: aad_def EncodeHeader_eq)

lemma header_ok_DecodeHeader [simp]: "header_ok (DecodeHeader src)"
  by (simp add: header_ok_def DecodeHeader_def HeaderSize_def)

lemma nth_slice: "i < j - k \<Longrightarrow> j \<le> length xs \<Longrightarrow> slice xs k j ! i = xs ! (k + i)"
  by (simp add: slice_def)

lemma DecodeHeader_header_bytes:
  assumes "header_ok h"
  shows "DecodeHeader (header_bytes h) = h"
proof -
  have n: "length (h_Nonce h) = 16" using assms by (simp add: header_ok_def)
  have "header_bytes h = [h_Version h, h_Flags h, h_Reserved h] @ h_Nonce h @
     put64 (h_KeyHint h) @ put16 (h_SealedLen h)" by (rule header_bytes_def)
  moreover have "slice (header_bytes h) 3 19 = h_Nonce h"
    by (simp add: header_bytes_def slice_def n)
  moreover have "slice (header_bytes h) 19 27 = put64 (h_KeyHint h)"
    by (simp add: header_bytes_def slice_def n)
  moreover have "slice (header_bytes h) 27 29 = put16 (h_SealedLen h)"
    by (simp add: header_bytes_def slice_def n)
  ultimately show ?thesis
    using length_header_bytes [OF assms] by (simp add: DecodeHeader_def nth_Cons')
qed

lemma header_bytes_DecodeHeader:
  assumes "length src = HeaderSize"
  shows "header_bytes (DecodeHeader src) = src"
proof (rule nth_equalityI)
  show "length (header_bytes (DecodeHeader src)) = length src" using assms by simp
  fix i assume "i < length (header_bytes (DecodeHeader src))"
  then have i: "i < 29" using assms by (simp add: HeaderSize_def)
  have "length src = 29" using assms by (simp add: HeaderSize_def)
  moreover have "put64 (get64 (slice src 19 27)) = slice src 19 27"
    "put16 (get16 (slice src 27 29)) = slice src 27 29"
    using \<open>length src = 29\<close> by (simp_all add: put_get64 put_get16)
  ultimately show "header_bytes (DecodeHeader src) ! i = src ! i"
    using i by (auto simp: header_bytes_def DecodeHeader_def HeaderSize_def nth_append nth_slice
        nth_Cons' less_diff_conv2 le_Suc_eq numeral_2_eq_2)
qed

lemma header_bytes_inj:
  "header_ok h \<Longrightarrow> header_ok h' \<Longrightarrow> header_bytes h = header_bytes h' \<longleftrightarrow> h = h'"
  by (metis DecodeHeader_header_bytes)

section \<open>Payload lemmas\<close>

definition payload_ok :: "Payload \<Rightarrow> bool" where
  "payload_ok p \<longleftrightarrow> length (ClientIDHash p) = 16 \<and> \<not> port_out_of_range (ServerPort p) \<and>
     length (Method p) \<le> 255 \<and> length (SessionID p) \<le> 255 \<and> length (Extensions p) \<le> 65535"

definition payload_bytes :: "Payload \<Rightarrow> bytes" where
  "payload_bytes p = ClientIDHash p @ put64 (TimestampUnixMS p) @ put16 (of_int (ServerPort p)) @
     var8_bytes (str_bytes (Method p)) @ var8_bytes (SessionID p) @
     put16 (of_nat (length (Extensions p))) @ Extensions p"

lemma length_payload_bytes:
  "length (payload_bytes p) = length (ClientIDHash p) + 14 + length (Method p) +
     length (SessionID p) + length (Extensions p)"
  by (simp add: payload_bytes_def)

lemma EncodePayload_eq:
  "EncodePayload p =
     (if port_out_of_range (ServerPort p) then Inl (Errorf ''server port out of range'')
      else if length (Method p) > 255 \<or> length (SessionID p) > 255 \<or> length (Extensions p) > 65535
      then Inl ProtocolErrFrameTooLarge else Inr (payload_bytes p))"
  by (simp add: EncodePayload_def payload_bytes_def var8_bytes_def)

lemma EncodePayload_iff:
  "length (ClientIDHash p) = 16 \<Longrightarrow> EncodePayload p = Inr raw \<longleftrightarrow> payload_ok p \<and> raw = payload_bytes p"
  by (auto simp: EncodePayload_eq payload_ok_def)

lemma port_word_roundtrip:
  "\<not> port_out_of_range n \<Longrightarrow> uint (of_int n :: u16) = n"
  by (simp add: port_out_of_range_def unsigned_of_int take_bit_int_eq_self)

lemma port_in_range_uint [simp]: "\<not> port_out_of_range (uint (v :: u16))"
  using unsigned_less [of v, where 'a = int] by (simp add: port_out_of_range_def)

lemma DecodePayload_var8:
  "DecodePayload raw =
     rbind (ReadFixed 16 (rd [] raw ProtocolErrInvalidFrame)) (\<lambda>(ident, r).
     rbind (ReadUint64 r) (\<lambda>(ts, r).
     rbind (ReadUint16 r) (\<lambda>(port, r).
     rbind (read_var8 False r) (\<lambda>(meth, r).
     rbind (read_var8 True r) (\<lambda>(sess, r).
     rbind (ReadUint16 r) (\<lambda>(extLen, r).
       if int (unat extLen) \<noteq> Remaining r then Inl ProtocolErrInvalidFrame
       else rbind (ReadVarBytes (int (unat extLen)) True r) (\<lambda>(ext, r).
         Inr \<lparr>ClientIDHash = ident, TimestampUnixMS = ts, ServerPort = int (unat port),
              Method = bytes_str meth, SessionID = sess, Extensions = ext\<rparr>)))))))"
  unfolding DecodePayload_def NewReader_rd read_var8_fold ..

lemma DecodePayload_payload_bytes:
  assumes "payload_ok p"
  shows "DecodePayload (payload_bytes p) = Inr p"
proof -
  have n: "int (unat (of_nat (length (Extensions p)) :: u16)) = int (length (Extensions p))"
    using assms by (intro int_unat_of_nat16) (simp add: payload_ok_def)
  have port: "int (unat (of_int (ServerPort p) :: u16)) = ServerPort p"
    using assms by (simp add: payload_ok_def port_word_roundtrip)
  show ?thesis
    using assms
    by (simp only: DecodePayload_var8 payload_bytes_def codec_simps rbind_simps split n port
        fix16_fmt.get_put_rd u64_fmt.get_put_rd u16_fmt.get_put_rd var8_fmt.get_put_rd
        payload_ok_def length_str_bytes bytes_str_bytes if_False simp_thms) simp
qed

lemma DecodePayload_sound:
  assumes "DecodePayload raw = Inr p"
  shows "payload_ok p \<and> raw = payload_bytes p"
proof -
  from assms obtain ident ts port meth sess ext extLen
    where raw: "raw = ident @ put64 ts @ put16 port @ var8_bytes meth @ var8_bytes sess @ put16 extLen @ ext"
    and lens: "length ident = 16" "length meth \<le> 255" "length sess \<le> 255"
    and len: "uint extLen = int (length ext)"
    and p: "p = \<lparr>ClientIDHash = ident, TimestampUnixMS = ts, ServerPort = uint port,
              Method = bytes_str meth, SessionID = sess, Extensions = ext\<rparr>"
    by (auto simp: DecodePayload_var8 result_splits fix16_fmt.get_iff u64_fmt.get_iff
        u16_fmt.get_iff var8_fmt.get_iff codec_simps split: if_splits)
  have "length ext = unat extLen" using len by (metis nat_int unat_eq_nat_uint)
  moreover have "unat extLen \<le> 65535"
    using unsigned_less [of extLen, where 'a = nat] by simp
  ultimately show ?thesis
    using lens by (simp add: payload_ok_def payload_bytes_def p raw)
qed

lemma DecodePayload_iff: "DecodePayload raw = Inr p \<longleftrightarrow> payload_ok p \<and> raw = payload_bytes p"
  using DecodePayload_payload_bytes DecodePayload_sound by blast

lemma DecodePayload_err: "DecodePayload raw = Inl e \<Longrightarrow> e = ProtocolErrInvalidFrame"
  by (auto simp: DecodePayload_var8 result_splits fix16_fmt.get_iff u64_fmt.get_iff
      u16_fmt.get_iff var8_fmt.get_iff codec_simps split: if_splits
      dest!: fix16_fmt.get_err_rd u64_fmt.get_err_rd u16_fmt.get_err_rd var8_fmt.get_err_rd)

section \<open>Sealing lemmas\<close>

lemma seal_lengths:
  assumes "crypto_ok cr" "header_ok h"
  shows "length (deriveAEADKey cr secret h) = KeySize" "length (aeadNonce h) = NonceSizeX"
  using assms by (simp_all add: deriveAEADKey_def aeadNonce_def header_ok_def NonceSizeX_def)

lemma OpenPayload_iff:
  assumes "crypto_ok cr" "header_ok h"
  shows "OpenPayload cr secret h sealed = Inr plain \<longleftrightarrow> SealPayload cr secret h plain = Inr sealed"
  unfolding OpenPayload_def SealPayload_def
  using assms seal_lengths [OF assms] by (intro NewX_Open_iff) auto

lemma SealPayload_total:
  assumes "crypto_ok cr" "header_ok h"
  obtains sealed where "SealPayload cr secret h plain = Inr sealed"
    "length sealed = length plain + Overhead"
  using NewX_Seal_ok [OF assms(1)] NewX_Seal_length [OF assms(1)] seal_lengths [OF assms]
  unfolding SealPayload_def by blast

lemma SealPayload_length:
  assumes "crypto_ok cr" "header_ok h" "SealPayload cr secret h plain = Inr sealed"
  shows "length sealed = length plain + Overhead"
  using NewX_Seal_length [OF assms(1) seal_lengths [OF assms(1,2)]] assms(3)
  by (simp add: SealPayload_def)

section \<open>Frame lemmas\<close>

definition max_frame :: "int \<Rightarrow> int" where
  "max_frame n = (if n \<le> 0 then DefaultMaxFrameSize else n)"

text \<open>What \<open>ReadFrame\<close> demands of a header before it reads the sealed part.\<close>

definition header_accepted :: "int \<Rightarrow> Header \<Rightarrow> bool" where
  "header_accepted maxFrameSize h \<longleftrightarrow> header_ok h \<and> h_Version h = Version \<and> h_Reserved h = 0 \<and>
     h_Flags h AND NOT FlagServerProof = 0 \<and> h_SealedLen h \<noteq> 0 \<and>
     int HeaderSize + int (unat (h_SealedLen h)) \<le> max_frame maxFrameSize"

lemma ReadFrame_iff:
  "ReadFrame st maxFrameSize = Inr (h, sealed, st') \<longleftrightarrow>
     header_accepted maxFrameSize h \<and> length sealed = unat (h_SealedLen h) \<and>
     sdata st = header_bytes h @ sealed @ sdata st' \<and> serr st' = serr st"
    (is "?l \<longleftrightarrow> ?r")
proof
  assume ?l
  then obtain raw st1 where raw: "io_ReadFull HeaderSize st = Inr (raw, st1)"
    and h: "h = DecodeHeader raw" and acc: "header_accepted maxFrameSize h"
    and rest: "io_ReadFull (unat (h_SealedLen h)) st1 = Inr (sealed, st')"
    by (auto simp: ReadFrame_def header_accepted_def max_frame_def Let_def result_splits
        split: if_splits)
  from raw have "header_bytes h = raw" "sdata st = raw @ sdata st1" "serr st1 = serr st"
    by (simp_all add: h io_ReadFull_Inr header_bytes_DecodeHeader)
  with rest acc show ?r by (simp add: io_ReadFull_Inr)
next
  assume r: ?r
  then have "io_ReadFull HeaderSize st = Inr (header_bytes h, st\<lparr>sdata := sealed @ sdata st'\<rparr>)"
    by (simp add: io_ReadFull_Inr header_accepted_def)
  moreover from r have
    "io_ReadFull (unat (h_SealedLen h)) (st\<lparr>sdata := sealed @ sdata st'\<rparr>) = Inr (sealed, st')"
    by (simp add: io_ReadFull_Inr)
  moreover from r have "DecodeHeader (header_bytes h) = h"
    by (simp add: header_accepted_def DecodeHeader_header_bytes)
  moreover from r have "int HeaderSize \<le> max_frame maxFrameSize"
    unfolding header_accepted_def by linarith
  ultimately show ?l
    using r by (auto simp: ReadFrame_def header_accepted_def Let_def max_frame_def)
qed

definition frame_payload ::
    "crypto \<Rightarrow> string \<Rightarrow> bytes \<Rightarrow> int \<Rightarrow> time \<Rightarrow> string \<Rightarrow> bytes \<Rightarrow> bytes \<Rightarrow> Payload" where
  "frame_payload cr clientID secret serverPort now meth sessionID extensions =
     \<lparr>ClientIDHash = ComputeClientIDHash cr secret clientID, TimestampUnixMS = UnixMilli now,
      ServerPort = serverPort, Method = meth, SessionID = sessionID, Extensions = extensions\<rparr>"

definition frame_header :: "crypto \<Rightarrow> bytes \<Rightarrow> bytes \<Rightarrow> int \<Rightarrow> byte \<Rightarrow> nat \<Rightarrow> Header" where
  "frame_header cr nonce secret serverPort flags sealedLen =
     \<lparr>h_Version = Version, h_Flags = flags, h_Reserved = 0, h_Nonce = nonce,
      h_KeyHint = ComputeKeyHint cr secret nonce serverPort, h_SealedLen = of_nat sealedLen\<rparr>"

lemma length_ComputeClientIDHash [simp]:
  "crypto_ok cr \<Longrightarrow> length (ComputeClientIDHash cr secret clientID) = 16"
  by (simp add: ComputeClientIDHash_def)

lemma BuildFrame_iff:
  assumes "crypto_ok cr" and n: "length nonce = 16"
  shows "BuildFrame cr (Inr nonce) clientID secret serverPort now flags meth sessionID extensions = Inr (raw, h) \<longleftrightarrow>
    clientID \<noteq> '''' \<and> length secret \<ge> MinSecretSize \<and> flags AND NOT FlagServerProof = 0 \<and>
    (\<exists>sealed.
       (let p = frame_payload cr clientID secret serverPort now meth sessionID extensions
        in payload_ok p \<and>
           int (length (payload_bytes p) + Overhead) \<le> DefaultMaxFrameSize - int HeaderSize \<and>
           h = frame_header cr nonce secret serverPort flags (length (payload_bytes p) + Overhead) \<and>
           SealPayload cr secret h (payload_bytes p) = Inr sealed \<and>
           raw = header_bytes h @ sealed))"
proof -
  define p where "p = frame_payload cr clientID secret serverPort now meth sessionID extensions"
  have len: "length (ClientIDHash p) = 16" and port: "ServerPort p = serverPort"
    using assms(1) by (simp_all add: p_def frame_payload_def)
  have ok: "header_ok (frame_header cr nonce secret serverPort flags k)" for k
    by (simp add: header_ok_def frame_header_def n)
  have out: "copy_at HeaderSize sealed (EncodeHeader (take HeaderSize (replicate (HeaderSize + length sealed) 0))
      (frame_header cr nonce secret serverPort flags k) @
      drop HeaderSize (replicate (HeaderSize + length sealed) 0)) =
      header_bytes (frame_header cr nonce secret serverPort flags k) @ sealed" for sealed :: bytes and k
    using length_header_bytes [OF ok, of k]
    by (simp add: EncodeHeader_eq ok copy_at_def)
  have "BuildFrame cr (Inr nonce) clientID secret serverPort now flags meth sessionID extensions =
     (if clientID = '''' \<or> length secret < MinSecretSize then Inl ProtocolErrInvalidFrame
      else if flags AND NOT FlagServerProof \<noteq> 0 then Inl ProtocolErrUnsupportedFlags
      else if port_out_of_range serverPort then Inl (Errorf ''server port out of range'')
      else rbind (EncodePayload p) (\<lambda>plain.
        if int (length plain + Overhead) > DefaultMaxFrameSize - int HeaderSize
        then Inl ProtocolErrFrameTooLarge
        else let h = frame_header cr nonce secret serverPort flags (length plain + Overhead)
             in rbind (SealPayload cr secret h plain) (\<lambda>sealed. Inr (header_bytes h @ sealed, h))))"
    unfolding BuildFrame_def rbind_simps Let_def out [symmetric]
    by (simp add: frame_header_def p_def frame_payload_def cong: if_cong)
  then show ?thesis
    using len port
    by (auto simp: result_splits EncodePayload_iff Let_def not_less simp flip: p_def
        split: if_splits) (auto simp: payload_ok_def)
qed

lemma BuildFrame_succeeds:
  assumes "crypto_ok cr" "length nonce = 16" "clientID \<noteq> []" "length secret \<ge> MinSecretSize"
    "flags AND NOT FlagServerProof = 0" "\<not> port_out_of_range serverPort" "length meth \<le> 255"
    "length sessionID \<le> 255" "length meth + length sessionID + length extensions \<le> 949"
  obtains raw h where
    "BuildFrame cr (Inr nonce) clientID secret serverPort now flags meth sessionID extensions = Inr (raw, h)"
proof -
  let ?p = "frame_payload cr clientID secret serverPort now meth sessionID extensions"
  let ?n = "length (payload_bytes ?p) + Overhead"
  let ?h = "frame_header cr nonce secret serverPort flags ?n"
  have hok: "header_ok ?h" using assms(2) by (simp add: header_ok_def frame_header_def)
  have p: "payload_ok ?p" "int ?n \<le> DefaultMaxFrameSize - int HeaderSize"
    using assms by (simp_all add: payload_ok_def frame_payload_def length_payload_bytes frame_consts)
  obtain sealed where "SealPayload cr secret ?h (payload_bytes ?p) = Inr sealed"
    using SealPayload_total [OF assms(1) hok] by blast
  then have "BuildFrame cr (Inr nonce) clientID secret serverPort now flags meth sessionID extensions =
      Inr (header_bytes ?h @ sealed, ?h)"
    using assms p by (simp add: BuildFrame_iff Let_def)
  then show ?thesis by (rule that)
qed

lemma frame_size:
  assumes "crypto_ok cr" "length nonce = 16"
    "BuildFrame cr (Inr nonce) clientID secret serverPort now flags meth sessionID extensions = Inr (raw, h)"
  shows "int (length raw) \<le> DefaultMaxFrameSize"
proof -
  let ?p = "frame_payload cr clientID secret serverPort now meth sessionID extensions"
  from assms obtain sealed where h: "header_ok h" "SealPayload cr secret h (payload_bytes ?p) = Inr sealed"
    "raw = header_bytes h @ sealed"
    "int (length (payload_bytes ?p) + Overhead) \<le> DefaultMaxFrameSize - int HeaderSize"
    by (auto simp: BuildFrame_iff Let_def header_ok_def) (auto simp: frame_header_def)
  from SealPayload_length [OF assms(1) h(1,2)] h(3,4) show ?thesis by (simp add: h(1))
qed

lemma small_word16: "0 < n \<Longrightarrow> n \<le> 1024 \<Longrightarrow> (of_nat n :: u16) \<noteq> 0 \<and> unat (of_nat n :: u16) = n"
  by (auto simp: unat_of_nat word_of_nat_eq_0_iff dest: dvd_imp_le)

text \<open>
  Property C2. Round trip of the first TCP frame: whatever frame the client builds, a reader
  with the default limit takes exactly that frame off the front of the stream and leaves the
  rest untouched, recovers the client's header, and opening the sealed part with the same
  secret and decoding it gives back the payload the client put in. The frame never exceeds
  the default maximum of 1024 bytes.
\<close>

theorem frame_v1_roundtrip:
  assumes "crypto_ok cr" "length nonce = 16"
    "BuildFrame cr (Inr nonce) clientID secret serverPort now flags meth sessionID extensions = Inr (raw, h)"
  shows "\<exists>sealed plain.
    ReadFrame \<lparr>sdata = raw @ rest, serr = e\<rparr> 0 = Inr (h, sealed, \<lparr>sdata = rest, serr = e\<rparr>) \<and>
    OpenPayload cr secret h sealed = Inr plain \<and>
    DecodePayload plain = Inr (frame_payload cr clientID secret serverPort now meth sessionID extensions) \<and>
    int (length raw) \<le> DefaultMaxFrameSize"
proof -
  let ?p = "frame_payload cr clientID secret serverPort now meth sessionID extensions"
  let ?n = "length (payload_bytes ?p) + Overhead"
  from assms obtain sealed where ok: "payload_ok ?p" "flags AND NOT FlagServerProof = 0"
    and len: "int ?n \<le> DefaultMaxFrameSize - int HeaderSize"
    and h: "h = frame_header cr nonce secret serverPort flags ?n"
    and seal: "SealPayload cr secret h (payload_bytes ?p) = Inr sealed"
    and raw: "raw = header_bytes h @ sealed"
    by (auto simp: BuildFrame_iff Let_def)
  have hok: "header_ok h" using assms(2) by (simp add: h header_ok_def frame_header_def)
  have n: "0 < ?n" "?n \<le> 1024" using len by (auto simp: frame_consts)
  have sealed: "length sealed = ?n" by (rule SealPayload_length [OF assms(1) hok seal])
  have "h_SealedLen h = of_nat ?n" by (simp add: h frame_header_def)
  then have sl: "h_SealedLen h \<noteq> 0" "unat (h_SealedLen h) = ?n"
    using small_word16 [OF n] by simp_all
  have "header_accepted 0 h"
    using hok ok len sl by (simp add: header_accepted_def max_frame_def) (simp add: h frame_header_def)
  then have "ReadFrame \<lparr>sdata = raw @ rest, serr = e\<rparr> 0 = Inr (h, sealed, \<lparr>sdata = rest, serr = e\<rparr>)"
    using sealed sl by (simp add: ReadFrame_iff raw)
  moreover have "OpenPayload cr secret h sealed = Inr (payload_bytes ?p)"
    using seal by (simp add: OpenPayload_iff assms(1) hok)
  moreover have "DecodePayload (payload_bytes ?p) = Inr ?p"
    using ok(1) by (rule DecodePayload_payload_bytes)
  ultimately show ?thesis using frame_size [OF assms] by blast
qed

definition demo_secret :: bytes where "demo_secret = replicate 16 7"
definition demo_nonce :: bytes where "demo_nonce = [1, 2, 3, 4, 5, 6, 7, 8, 9, 10, 11, 12, 13, 14, 15, 16]"


theorem frame_v1_roundtrip_witness:
  "\<exists>raw h sealed plain.
    BuildFrame demo_crypto (Inr demo_nonce) ''alice'' demo_secret 443 (5 * second) 1 ''tcp'' [9] [] = Inr (raw, h) \<and>
    ReadFrame \<lparr>sdata = raw @ [42], serr = IoEOF\<rparr> 0 = Inr (h, sealed, \<lparr>sdata = [42], serr = IoEOF\<rparr>) \<and>
    OpenPayload demo_crypto demo_secret h sealed = Inr plain \<and>
    DecodePayload plain = Inr (frame_payload demo_crypto ''alice'' demo_secret 443 (5 * second) ''tcp'' [9] [])"
proof -
  obtain raw h where
    b: "BuildFrame demo_crypto (Inr demo_nonce) ''alice'' demo_secret 443 (5 * second) 1 ''tcp'' [9] [] = Inr (raw, h)"
    by (rule BuildFrame_succeeds [OF crypto_ok_demo_crypto, of demo_nonce "''alice''" demo_secret 1 443 "''tcp''" "[9]" "[]" "5 * second"])
      (simp_all add: demo_nonce_def demo_secret_def MinSecretSize_def FlagServerProof_def port_out_of_range_def)
  have "length demo_nonce = 16" by (simp add: demo_nonce_def)
  from frame_v1_roundtrip [OF crypto_ok_demo_crypto this b, of "[42]" IoEOF] b show ?thesis
    by (elim exE conjE) (intro exI conjI)
qed

lemma flags_supported_iff: "f AND NOT FlagServerProof = 0 \<longleftrightarrow> f \<in> {0, FlagServerProof}"
proof -
  have "f = (f AND NOT 1) OR (f AND 1)"
    by (rule bit_word_eqI) (auto simp: bit_simps)
  moreover have "f AND 1 \<in> {0, 1}"
    by (simp add: and_one_eq mod_2_eq_odd)
  ultimately have "f AND NOT 1 = 0 \<Longrightarrow> f \<in> {0, 1}" by simp
  then show ?thesis by (auto simp: FlagServerProof_def)
qed

text \<open>
  Exactly which streams \<open>ReadFrame\<close> accepts, and what it takes from them: the
  stream starts with the encoding of a header of version 1 with reserved byte 0, no flag
  beyond the server-proof flag and a non-zero sealed length within the size limit, followed by
  that many sealed bytes; precisely these bytes are consumed.
\<close>

theorem ReadFrame_accepts_exactly:
  "ReadFrame st maxFrameSize = Inr (h, sealed, st') \<longleftrightarrow>
     length (h_Nonce h) = 16 \<and> h_Version h = 1 \<and> h_Reserved h = 0 \<and> h_Flags h \<in> {0, FlagServerProof} \<and>
     h_SealedLen h \<noteq> 0 \<and> length sealed = unat (h_SealedLen h) \<and>
     29 + int (length sealed) \<le> (if maxFrameSize \<le> 0 then 1024 else maxFrameSize) \<and>
     sdata st = EncodeHeader (replicate 29 0) h @ sealed @ sdata st' \<and> serr st' = serr st"
proof -
  have enc: "EncodeHeader (replicate 29 0) h = header_bytes h" if "length (h_Nonce h) = 16"
    using that by (simp add: EncodeHeader_eq header_ok_def HeaderSize_def)
  show ?thesis
    unfolding ReadFrame_iff header_accepted_def flags_supported_iff header_ok_def max_frame_def
    using enc by (auto simp: frame_consts simp del: of_nat_unat)
qed

lemma take_2_nth: "2 \<le> length xs \<Longrightarrow> take 2 xs = [xs ! 0, xs ! 1]"
  by (cases xs; cases "tl xs") auto

lemma split_2_16:
  assumes "length n = 16" "length c = 32"
  shows "xs = [a, b] @ n @ c \<longleftrightarrow>
    length xs = 50 \<and> xs ! 0 = a \<and> xs ! 1 = b \<and> slice xs 2 18 = n \<and> drop 18 xs = c"
proof
  assume r: "length xs = 50 \<and> xs ! 0 = a \<and> xs ! 1 = b \<and> slice xs 2 18 = n \<and> drop 18 xs = c"
  have "take 2 xs @ slice xs 2 18 = take 18 xs" by (rule take_slice_join) simp
  then have "take 2 xs @ slice xs 2 18 @ drop 18 xs = xs"
    by (simp only: append_assoc [symmetric] append_take_drop_id)
  with r show "xs = [a, b] @ n @ c" by (simp add: take_2_nth)
next
  assume "xs = [a, b] @ n @ c"
  with assms show "length xs = 50 \<and> xs ! 0 = a \<and> xs ! 1 = b \<and> slice xs 2 18 = n \<and> drop 18 xs = c"
    by (simp add: slice_def)
qed

lemma proof_layout:
  assumes "length n = 16" "length c = 32"
  shows "copy_at 18 c (copy_at 2 n ((replicate ServerProofSize 0)[0 := a, Suc 0 := b])) = [a, b] @ n @ c"
proof -
  let ?out = "(replicate ServerProofSize 0)[0 := a, Suc 0 := b]"
  have len: "length ?out = 50" by (simp add: ServerProofSize_def)
  have "take 2 ?out = [a, b]" using len by (simp add: take_2_nth)
  then have "take 18 (copy_at 2 n ?out) = [a, b] @ n"
    using assms(1) len by (simp add: copy_at_def)
  then show ?thesis using assms len by (simp add: copy_at_tail)
qed

lemma VerifyServerProof_iff:
  assumes "crypto_ok cr" "length (h_Nonce h) = 16"
  shows "VerifyServerProof cr proof secret h serverPort = Inr () \<longleftrightarrow>
    \<not> port_out_of_range serverPort \<and> proof = BuildServerProof cr secret h serverPort"
proof -
  have len: "length (computeServerProof cr secret h serverPort) = (if port_out_of_range serverPort then 0 else 32)"
    using assms(1) by (simp add: computeServerProof_def HMACSHA256_def crypto_ok_lengths)
  have build: "BuildServerProof cr secret h serverPort =
      [Version, ServerProofType] @ h_Nonce h @ computeServerProof cr secret h serverPort"
    if "\<not> port_out_of_range serverPort"
    using that len assms(2) by (simp add: BuildServerProof_def Let_def proof_layout)
  show ?thesis
  proof (cases "port_out_of_range serverPort")
    case True
    then show ?thesis
      using len by (auto simp: VerifyServerProof_def ConstantTimeEqual_def ServerProofSize_def)
  next
    case False
    have "proof = BuildServerProof cr secret h serverPort \<longleftrightarrow>
        length proof = 50 \<and> proof ! 0 = Version \<and> proof ! 1 = ServerProofType \<and>
        slice proof 2 18 = h_Nonce h \<and> drop 18 proof = computeServerProof cr secret h serverPort"
      unfolding build [OF False] using assms(2) len False by (intro split_2_16) auto
    then show ?thesis
      using False by (auto simp: VerifyServerProof_def ConstantTimeEqual_def ServerProofSize_def)
  qed
qed

text \<open>
  Property C3. A server proof verifies exactly when it is, byte for byte, the proof the server
  builds with the same secret for the same frame header and port; with a port outside 0..65535
  no proof at all verifies, although a (zero-filled) one is built.
\<close>

theorem server_proof_exact:
  assumes "crypto_ok cr" "length (h_Nonce h) = 16"
  shows "VerifyServerProof cr proof secret h serverPort = Inr () \<longleftrightarrow>
    0 \<le> serverPort \<and> serverPort \<le> 65535 \<and> proof = BuildServerProof cr secret h serverPort"
  using VerifyServerProof_iff [OF assms] by (auto simp: port_out_of_range_def)

theorem server_proof_exact_witness:
  "VerifyServerProof demo_crypto
     (BuildServerProof demo_crypto demo_secret (frame_header demo_crypto demo_nonce demo_secret 443 1 60) 443)
     demo_secret (frame_header demo_crypto demo_nonce demo_secret 443 1 60) 443 = Inr ()"
proof -
  let ?h = "frame_header demo_crypto demo_nonce demo_secret 443 1 60"
  have "length (h_Nonce ?h) = 16" by (simp add: frame_header_def demo_nonce_def)
  from server_proof_exact [OF crypto_ok_demo_crypto this,
      of "BuildServerProof demo_crypto demo_secret ?h 443" demo_secret 443]
  show ?thesis by simp
qed

end
