(* ===== verification/Envelope_V2.thy ===== *)
theory Envelope_V2
  imports Frame_V1
begin

text \<open>
  protocol/envelope_v2.go: the bucketed TCP authentication envelope. On the wire it is a
  24-byte random prefix, an 8-byte route hint (in route-hint mode) and a sealed body that
  fills the frame up to one of a few bucket sizes; there is no cleartext version or length.
  The random draws are arguments: \<open>prefixes\<close> lists the results of the successive
  \<open>rand.Read\<close> calls of the prefix loop, \<open>rnd_int\<close> is \<open>rand.Int\<close>, \<open>rnd_pad\<close> the
  \<open>rand.Read\<close> of the padding.
\<close>

definition EnvelopeV2Version :: byte where "EnvelopeV2Version = 2"
definition EnvelopeV2PrefixSize :: nat where "EnvelopeV2PrefixSize = 24"
definition EnvelopeV2RouteHintSize :: nat where "EnvelopeV2RouteHintSize = 8"
definition EnvelopeV2DefaultMaxSize :: int where "EnvelopeV2DefaultMaxSize = 512"
definition EnvelopeV2ProtocolLabel :: string where "EnvelopeV2ProtocolLabel = ''tcp-auth-envelope-v2''"
definition EnvelopeV2FlagServerProof :: byte where "EnvelopeV2FlagServerProof = FlagServerProof"
definition EnvelopeV2DefaultBuckets :: "int list" where
  "EnvelopeV2DefaultBuckets = [128, 192, 256, 384, 512]"

definition EnvelopeV2HintModeNone :: string where "EnvelopeV2HintModeNone = ''none''"
definition EnvelopeV2HintModeRouteHint :: string where "EnvelopeV2HintModeRouteHint = ''route-hint''"
definition EnvelopeV2PaddingNone :: string where "EnvelopeV2PaddingNone = ''none''"
definition EnvelopeV2PaddingRandomBucket :: string where "EnvelopeV2PaddingRandomBucket = ''random-bucket''"

lemmas env_sizes = EnvelopeV2Version_def EnvelopeV2PrefixSize_def EnvelopeV2RouteHintSize_def
  EnvelopeV2DefaultMaxSize_def
lemmas env_modes = EnvelopeV2HintModeNone_def EnvelopeV2HintModeRouteHint_def
  EnvelopeV2PaddingNone_def EnvelopeV2PaddingRandomBucket_def

record EnvelopeV2Config =
  c_HintMode :: string
  c_FrameSizeBuckets :: "int list"
  c_PaddingPolicy :: string

record EnvelopeV2Header =
  PrefixRandom :: bytes
  RouteHint :: u64
  BucketSize :: int
  HintMode :: string

record EnvelopeV2Payload =
  e_Version :: byte
  e_Flags :: byte
  e_TimestampUnixMS :: i64
  e_ClientIDHash :: bytes
  e_ServerPort :: int
  e_Method :: string
  e_SessionID :: bytes
  e_Extensions :: bytes

section \<open>Configuration and buckets\<close>

definition EnvelopeV2SupportedBucket :: "int \<Rightarrow> bool" where
  "EnvelopeV2SupportedBucket bucket \<longleftrightarrow> list_ex (\<lambda>candidate. bucket = candidate) EnvelopeV2DefaultBuckets"

definition WithDefaults :: "EnvelopeV2Config \<Rightarrow> EnvelopeV2Config" where
  "WithDefaults c =
     (let c = (if c_HintMode c = '''' then c\<lparr>c_HintMode := EnvelopeV2HintModeRouteHint\<rparr> else c);
          c = (if c_FrameSizeBuckets c = [] then c\<lparr>c_FrameSizeBuckets := EnvelopeV2DefaultBuckets\<rparr> else c)
      in if c_PaddingPolicy c = '''' then c\<lparr>c_PaddingPolicy := EnvelopeV2PaddingRandomBucket\<rparr> else c)"

fun check_buckets :: "int list \<Rightarrow> int \<Rightarrow> bool \<Rightarrow> bool result" where
  "check_buckets [] maxFrameSize seenValid = Inr seenValid"
| "check_buckets (bucket # bs) maxFrameSize seenValid =
     (if \<not> EnvelopeV2SupportedBucket bucket then Inl ProtocolErrInvalidFrameSizeBucket
      else if bucket > maxFrameSize then Inl ProtocolErrFrameTooLarge
      else check_buckets bs maxFrameSize True)"

definition Validate :: "EnvelopeV2Config \<Rightarrow> int \<Rightarrow> unit result" where
  "Validate c0 maxFrameSize0 =
     (let c = WithDefaults c0
      in if c_HintMode c \<noteq> EnvelopeV2HintModeRouteHint \<and> c_HintMode c \<noteq> EnvelopeV2HintModeNone
         then Inl ProtocolErrInvalidFrame
         else if c_PaddingPolicy c \<noteq> EnvelopeV2PaddingRandomBucket \<and> c_PaddingPolicy c \<noteq> EnvelopeV2PaddingNone
         then Inl ProtocolErrInvalidFrame
         else
           let maxFrameSize = (if maxFrameSize0 \<le> 0 then EnvelopeV2DefaultMaxSize else maxFrameSize0)
           in if c_FrameSizeBuckets c = [] then Inl ProtocolErrFrameTooLarge
              else rbind (check_buckets (c_FrameSizeBuckets c) maxFrameSize False)
                (\<lambda>seenValid. if \<not> seenValid then Inl ProtocolErrFrameTooLarge else Inr ()))"

fun dedup_buckets :: "int list \<Rightarrow> int list \<Rightarrow> int list \<Rightarrow> int list" where
  "dedup_buckets [] seen out = out"
| "dedup_buckets (v # vs) seen out =
     (if \<not> EnvelopeV2SupportedBucket v \<or> v \<in> set seen then dedup_buckets vs seen out
      else dedup_buckets vs (v # seen) (out @ [v]))"

text \<open>The inner loop of the insertion sort: move the element at \<open>j\<close> down while it is smaller.\<close>

fun sift_down :: "nat \<Rightarrow> int list \<Rightarrow> int list" where
  "sift_down 0 out = out"
| "sift_down (Suc j) out =
     (if out ! Suc j < out ! j then sift_down j (out[Suc j := out ! j, j := out ! Suc j]) else out)"

definition EnvelopeV2Buckets :: "int list \<Rightarrow> int list" where
  "EnvelopeV2Buckets inp =
     (if inp = [] then EnvelopeV2DefaultBuckets
      else let out = dedup_buckets inp [] [] in fold sift_down [1..<length out] out)"

section \<open>Keys, hints and sealing\<close>

definition deriveEnvelopeV2Key :: "crypto \<Rightarrow> bytes \<Rightarrow> bytes \<Rightarrow> bytes" where
  "deriveEnvelopeV2Key cr secret prefixRandom =
     MustHKDFSHA256 cr secret prefixRandom (str_bytes ''libknock tcp-auth envelope v2'') KeySize"

definition envelopeV2Nonce :: "bytes \<Rightarrow> bytes" where
  "envelopeV2Nonce prefixRandom = take NonceSizeX prefixRandom"

definition envelopeV2AAD :: "EnvelopeV2Header \<Rightarrow> int \<Rightarrow> bytes" where
  "envelopeV2AAD h serverPort =
     PrefixRandom h @
     (if HintMode h = EnvelopeV2HintModeRouteHint then put64 (RouteHint h) else []) @
     put16 (of_int (BucketSize h)) @ put16 (of_int serverPort) @ str_bytes EnvelopeV2ProtocolLabel"

definition sealEnvelopeV2 ::
    "crypto \<Rightarrow> bytes \<Rightarrow> EnvelopeV2Header \<Rightarrow> int \<Rightarrow> bytes \<Rightarrow> bytes result" where
  "sealEnvelopeV2 cr secret h serverPort plain =
     NewX_Seal cr (deriveEnvelopeV2Key cr secret (PrefixRandom h)) (envelopeV2Nonce (PrefixRandom h))
       plain (envelopeV2AAD h serverPort)"

definition SealEnvelopeV2Payload ::
    "crypto \<Rightarrow> bytes \<Rightarrow> EnvelopeV2Header \<Rightarrow> int \<Rightarrow> bytes \<Rightarrow> bytes result" where
  "SealEnvelopeV2Payload cr secret h serverPort plain = sealEnvelopeV2 cr secret h serverPort plain"

definition openEnvelopeV2Sealed ::
    "crypto \<Rightarrow> bytes \<Rightarrow> EnvelopeV2Header \<Rightarrow> int \<Rightarrow> bytes \<Rightarrow> bytes result" where
  "openEnvelopeV2Sealed cr secret h serverPort sealed =
     NewX_Open cr (deriveEnvelopeV2Key cr secret (PrefixRandom h)) (envelopeV2Nonce (PrefixRandom h))
       sealed (envelopeV2AAD h serverPort)"

definition ComputeEnvelopeV2RouteHint :: "crypto \<Rightarrow> bytes \<Rightarrow> bytes \<Rightarrow> int \<Rightarrow> u64" where
  "ComputeEnvelopeV2RouteHint cr secret prefixRandom serverPort =
     (if port_out_of_range serverPort then 0
      else HMACTrunc64 cr secret (str_bytes ''libknock tcp-auth hint v2'' @ prefixRandom @
             put16 (of_int serverPort)))"

section \<open>Server proof\<close>

definition computeEnvelopeV2ServerProof :: "crypto \<Rightarrow> bytes \<Rightarrow> EnvelopeV2Header \<Rightarrow> int \<Rightarrow> bytes" where
  "computeEnvelopeV2ServerProof cr secret h serverPort =
     (if port_out_of_range serverPort then []
      else HMACSHA256 cr secret (str_bytes ''server-proof-v2'' @ PrefixRandom h @
             (put64 (RouteHint h) @ put16 (of_int serverPort))))"

definition BuildEnvelopeV2ServerProof :: "crypto \<Rightarrow> bytes \<Rightarrow> EnvelopeV2Header \<Rightarrow> int \<Rightarrow> bytes" where
  "BuildEnvelopeV2ServerProof cr secret h serverPort =
     (let out = replicate ServerProofSize 0;
          out = out[0 := EnvelopeV2Version];
          out = out[1 := ServerProofType];
          out = copy_at 2 (take 16 (PrefixRandom h)) out
      in copy_at 18 (computeEnvelopeV2ServerProof cr secret h serverPort) out)"

definition VerifyEnvelopeV2ServerProof ::
    "crypto \<Rightarrow> bytes \<Rightarrow> bytes \<Rightarrow> EnvelopeV2Header \<Rightarrow> int \<Rightarrow> unit result" where
  "VerifyEnvelopeV2ServerProof cr proof secret h serverPort =
     (if length proof \<noteq> ServerProofSize \<or> proof ! 0 \<noteq> EnvelopeV2Version \<or> proof ! 1 \<noteq> ServerProofType
      then Inl ProtocolErrInvalidFrame
      else if \<not> ConstantTimeEqual (slice proof 2 18) (take 16 (PrefixRandom h))
      then Inl ProtocolErrInvalidFrame
      else if \<not> ConstantTimeEqual (drop 18 proof) (computeEnvelopeV2ServerProof cr secret h serverPort)
      then Inl ProtocolErrInvalidFrame
      else Inr ())"

section \<open>Payload\<close>

definition EncodeEnvelopeV2Payload :: "EnvelopeV2Payload \<Rightarrow> bytes result" where
  "EncodeEnvelopeV2Payload p =
     (if port_out_of_range (e_ServerPort p) then Inl (Errorf ''server port out of range'')
      else if int (length (e_Method p)) > 255 \<or> int (length (e_SessionID p)) > 255 \<or>
              int (length (e_Extensions p)) > 65535
      then Inl ProtocolErrFrameTooLarge
      else Inr ([e_Version p] @ [e_Flags p] @ put64 (e_TimestampUnixMS p) @ e_ClientIDHash p @
                put16 (of_int (e_ServerPort p)) @
                [of_nat (length (e_Method p))] @ str_bytes (e_Method p) @
                [of_nat (length (e_SessionID p))] @ e_SessionID p @
                put16 (of_nat (length (e_Extensions p))) @ e_Extensions p))"

definition read_envelope_payload :: "BinaryReader \<Rightarrow> (EnvelopeV2Payload \<times> BinaryReader) result" where
  "read_envelope_payload r =
     rbind (ReadByte r) (\<lambda>(ver, r).
     rbind (ReadByte r) (\<lambda>(flags, r).
     rbind (ReadUint64 r) (\<lambda>(ts, r).
     rbind (ReadFixed 16 r) (\<lambda>(ident, r).
     rbind (ReadUint16 r) (\<lambda>(port, r).
     rbind (ReadByte r) (\<lambda>(methodLen, r).
     rbind (ReadVarBytes (int (unat methodLen)) False r) (\<lambda>(meth, r).
     rbind (ReadByte r) (\<lambda>(sessionLen, r).
     rbind (ReadVarBytes (int (unat sessionLen)) True r) (\<lambda>(sess, r).
     rbind (ReadUint16 r) (\<lambda>(extLen, r).
     rbind (ReadVarBytes (int (unat extLen)) True r) (\<lambda>(ext, r).
       Inr (\<lparr>e_Version = ver, e_Flags = flags, e_TimestampUnixMS = ts, e_ClientIDHash = ident,
             e_ServerPort = int (unat port), e_Method = bytes_str meth, e_SessionID = sess,
             e_Extensions = ext\<rparr>, r))))))))))))"

definition DecodeEnvelopeV2PayloadWithLength :: "bytes \<Rightarrow> (EnvelopeV2Payload \<times> int) result" where
  "DecodeEnvelopeV2PayloadWithLength raw =
     rbind (read_envelope_payload (NewReader raw ProtocolErrInvalidFrame)) (\<lambda>(p, r). Inr (p, Pos r))"

definition DecodeEnvelopeV2Payload :: "bytes \<Rightarrow> EnvelopeV2Payload result" where
  "DecodeEnvelopeV2Payload raw =
     rbind (DecodeEnvelopeV2PayloadWithLength raw) (\<lambda>(p, next).
       if next \<noteq> int (length raw) then Inl ProtocolErrInvalidFrame else Inr p)"

section \<open>Building, reading and opening an envelope\<close>

record envelope_rand =
  prefixes :: "bytes result list"
  rnd_int :: "int \<Rightarrow> int result"
  rnd_pad :: "nat \<Rightarrow> bytes result"

text \<open>
  The prefix loop draws until the first byte differs from the version byte of the first
  frame format, so that a server can tell the two apart. None: the listed draws are used up
  and the loop is still running.
\<close>

fun draw_prefix :: "bytes result list \<Rightarrow> bytes result option" where
  "draw_prefix [] = None"
| "draw_prefix (Inl e # ds) = Some (Inl e)"
| "draw_prefix (Inr p # ds) = (if p ! 0 \<noteq> Version then Some (Inr p) else draw_prefix ds)"

definition randInt :: "(int \<Rightarrow> int result) \<Rightarrow> int \<Rightarrow> int result" where
  "randInt rnd mx = (if mx \<le> 0 then Inl ProtocolErrInvalidFrame else rnd mx)"

definition envelope_prefix_size :: "string \<Rightarrow> int" where
  "envelope_prefix_size hintMode = int EnvelopeV2PrefixSize +
     (if hintMode = EnvelopeV2HintModeRouteHint then int EnvelopeV2RouteHintSize else 0)"

definition envelope_candidates :: "EnvelopeV2Config \<Rightarrow> bytes \<Rightarrow> int list" where
  "envelope_candidates cfg plain =
     (let minSize = int EnvelopeV2PrefixSize + int (length plain) + int Overhead;
          minSize = (if c_HintMode cfg = EnvelopeV2HintModeRouteHint
                     then minSize + int EnvelopeV2RouteHintSize else minSize)
      in filter (\<lambda>bucket. bucket \<ge> minSize) (EnvelopeV2Buckets (c_FrameSizeBuckets cfg)))"

definition envelope_padding :: "envelope_rand \<Rightarrow> EnvelopeV2Config \<Rightarrow> int \<Rightarrow> bytes result" where
  "envelope_padding rs cfg paddingLen =
     (if paddingLen > 0 then
        (if c_PaddingPolicy cfg = EnvelopeV2PaddingRandomBucket then rnd_pad rs (nat paddingLen)
         else if c_PaddingPolicy cfg \<noteq> EnvelopeV2PaddingNone then Inl ProtocolErrInvalidFrame
         else Inr (replicate (nat paddingLen) 0))
      else Inr [])"

definition envelope_finish ::
    "crypto \<Rightarrow> envelope_rand \<Rightarrow> EnvelopeV2Config \<Rightarrow> bytes \<Rightarrow> int \<Rightarrow> EnvelopeV2Header \<Rightarrow> bytes \<Rightarrow>
     (bytes \<times> EnvelopeV2Header) result" where
  "envelope_finish cr rs cfg secret serverPort h0 plain =
     (let candidates = envelope_candidates cfg plain
      in if candidates = [] then Inl ProtocolErrFrameTooLarge
      else rbind (randInt (rnd_int rs) (int (length candidates))) (\<lambda>idx.
        let bucket = candidates ! nat idx;
            h = h0\<lparr>BucketSize := bucket\<rparr>;
            sealedLen = bucket - envelope_prefix_size (c_HintMode cfg);
            paddingLen = sealedLen - int Overhead - int (length plain) - 2
        in if paddingLen < 0 then Inl ProtocolErrFrameTooLarge
        else rbind (envelope_padding rs cfg paddingLen) (\<lambda>padding.
          let body = plain @ put16 (of_int paddingLen) @ padding
          in rbind (SealEnvelopeV2Payload cr secret h serverPort body) (\<lambda>sealed.
            Inr (PrefixRandom h @
                 (if c_HintMode cfg = EnvelopeV2HintModeRouteHint then put64 (RouteHint h) else []) @
                 sealed, h)))))"

definition BuildEnvelopeV2 ::
    "crypto \<Rightarrow> envelope_rand \<Rightarrow> string \<Rightarrow> bytes \<Rightarrow> int \<Rightarrow> time \<Rightarrow> byte \<Rightarrow> string \<Rightarrow> bytes \<Rightarrow> bytes \<Rightarrow>
     EnvelopeV2Config \<Rightarrow> (bytes \<times> EnvelopeV2Header) result option" where
  "BuildEnvelopeV2 cr rs clientID secret serverPort now flags meth sessionID extensions cfg0 =
     (let cfg = WithDefaults cfg0
      in case Validate cfg EnvelopeV2DefaultMaxSize of Inl e \<Rightarrow> Some (Inl e) | Inr _ \<Rightarrow>
      if clientID = '''' \<or> length secret < MinSecretSize then Some (Inl ProtocolErrInvalidFrame)
      else if flags AND NOT EnvelopeV2FlagServerProof \<noteq> 0 then Some (Inl ProtocolErrUnsupportedFlags)
      else if port_out_of_range serverPort then Some (Inl (Errorf ''server port out of range''))
      else case draw_prefix (prefixes rs) of None \<Rightarrow> None | Some drawn \<Rightarrow> Some (rbind drawn (\<lambda>prefix.
        let h = \<lparr>PrefixRandom = prefix, RouteHint = 0, BucketSize = 0, HintMode = c_HintMode cfg\<rparr>
        in rbind
          (if c_HintMode cfg = EnvelopeV2HintModeRouteHint
           then Inr (h\<lparr>RouteHint := ComputeEnvelopeV2RouteHint cr secret prefix serverPort\<rparr>)
           else if c_HintMode cfg \<noteq> EnvelopeV2HintModeNone then Inl ProtocolErrInvalidFrame
           else Inr h) (\<lambda>h.
        rbind (EncodeEnvelopeV2Payload
             \<lparr>e_Version = EnvelopeV2Version, e_Flags = flags, e_TimestampUnixMS = UnixMilli now,
              e_ClientIDHash = ComputeClientIDHash cr secret clientID, e_ServerPort = serverPort,
              e_Method = meth, e_SessionID = sessionID, e_Extensions = extensions\<rparr>) (\<lambda>plain.
          envelope_finish cr rs cfg secret serverPort h plain)))))"

definition ReadEnvelopeV2Prefix :: "stream \<Rightarrow> string \<Rightarrow> (EnvelopeV2Header \<times> stream) result" where
  "ReadEnvelopeV2Prefix r hintMode =
     rbind (io_ReadFull EnvelopeV2PrefixSize r) (\<lambda>(prefix, r).
       let h = \<lparr>PrefixRandom = prefix, RouteHint = 0, BucketSize = 0, HintMode = hintMode\<rparr>
       in if hintMode = EnvelopeV2HintModeRouteHint
          then rbind (io_ReadFull EnvelopeV2RouteHintSize r) (\<lambda>(raw, r).
            Inr (h\<lparr>RouteHint := get64 raw\<rparr>, r))
          else if hintMode \<noteq> EnvelopeV2HintModeNone then Inl ProtocolErrInvalidFrame
          else Inr (h, r))"

definition OpenEnvelopeV2Payload ::
    "crypto \<Rightarrow> bytes \<Rightarrow> EnvelopeV2Header \<Rightarrow> int \<Rightarrow> bytes \<Rightarrow> EnvelopeV2Payload result" where
  "OpenEnvelopeV2Payload cr secret h serverPort sealed =
     rbind (openEnvelopeV2Sealed cr secret h serverPort sealed) (\<lambda>plain.
     rbind (DecodeEnvelopeV2PayloadWithLength plain) (\<lambda>(payload, next).
       if next + 2 > int (length plain) then Inl ProtocolErrInvalidFrame
       else let paddingLen = int (unat (get16 (slice plain (nat next) (nat next + 2))))
       in if next + 2 + paddingLen \<noteq> int (length plain) then Inl ProtocolErrInvalidFrame
       else if e_Version payload \<noteq> EnvelopeV2Version then Inl ProtocolErrUnsupportedVersion
       else if e_Flags payload AND NOT EnvelopeV2FlagServerProof \<noteq> 0 then Inl ProtocolErrUnsupportedFlags
       else Inr payload))"

section \<open>Buckets\<close>

lemma supported_iff: "EnvelopeV2SupportedBucket b \<longleftrightarrow> b \<in> set EnvelopeV2DefaultBuckets"
  by (auto simp: EnvelopeV2SupportedBucket_def list_ex_iff)

lemma supported_bounds: "EnvelopeV2SupportedBucket b \<Longrightarrow> 128 \<le> b \<and> b \<le> 512"
  by (auto simp: supported_iff EnvelopeV2DefaultBuckets_def)

lemma dedup_buckets_spec:
  "set (dedup_buckets vs seen out) = set out \<union> {v \<in> set vs. EnvelopeV2SupportedBucket v \<and> v \<notin> set seen} \<and>
   (distinct out \<and> set out \<subseteq> set seen \<longrightarrow> distinct (dedup_buckets vs seen out))"
  by (induction vs seen out rule: dedup_buckets.induct) auto

lemma insort_snoc_less: "x < y \<Longrightarrow> insort x (ys @ [y]) = insort x ys @ [y :: int]"
  by (induction ys) auto

lemma insort_snoc_ge: "sorted (zs @ [x :: int]) \<Longrightarrow> insort x zs = zs @ [x]"
proof (induction zs)
  case Nil
  then show ?case by simp
next
  case (Cons z zs)
  then have "insort x zs = zs @ [x]" "z \<le> x" "\<forall>y \<in> set zs. z \<le> y" by auto
  then show ?case by (cases zs) auto
qed

lemma sift_down_insort:
  "j < length xs \<Longrightarrow> sorted (take j xs) \<Longrightarrow>
   sift_down j xs = insort (xs ! j) (take j xs) @ drop (Suc j) xs"
proof (induction j xs rule: sift_down.induct)
  case (1 out)
  then show ?case by (cases out) auto
next
  case (2 j out)
  let ?x = "out ! Suc j" and ?y = "out ! j" and ?out' = "out[Suc j := out ! j, j := out ! Suc j]"
  have tk: "take (Suc j) out = take j out @ [?y]"
    using "2.prems"(1) by (simp add: take_Suc_conv_app_nth)
  have rest: "drop (Suc j) ?out' = ?y # drop (Suc (Suc j)) out"
    using "2.prems"(1)
    by (simp add: drop_update_swap Cons_nth_drop_Suc [symmetric] drop_update_cancel)
  have tk': "take j ?out' = take j out" by simp
  show ?case
  proof (cases "?x < ?y")
    case True
    with "2.IH" "2.prems" tk tk' rest show ?thesis
      by (simp add: insort_snoc_less sorted_append)
  next
    case False
    with "2.prems" tk have "sorted (take (Suc j) out @ [?x])"
      by (auto simp: sorted_append)
    then have "insort ?x (take (Suc j) out) = take (Suc j) out @ [?x]" by (rule insort_snoc_ge)
    then show ?thesis
      using False "2.prems"(1) by (simp add: Cons_nth_drop_Suc)
  qed
qed

lemma sift_down_facts:
  assumes "j < length xs" "sorted (take j xs)"
  shows "length (sift_down j xs) = length xs" "sorted (take (Suc j) (sift_down j xs))"
    "set (sift_down j xs) = set xs" "distinct (sift_down j xs) = distinct xs"
proof -
  have xs: "xs = take j xs @ xs ! j # drop (Suc j) xs"
    using assms(1) by (simp add: Cons_nth_drop_Suc)
  note eq = sift_down_insort [OF assms]
  show "length (sift_down j xs) = length xs" using assms(1) by (simp add: eq)
  show "sorted (take (Suc j) (sift_down j xs))"
    using assms by (simp add: eq sorted_insort)
  show "set (sift_down j xs) = set xs"
    unfolding eq set_append set_insort_key arg_cong [OF xs, of set, unfolded set_append list.set(2)]
    by blast
  show "distinct (sift_down j xs) = distinct xs"
    unfolding eq arg_cong [OF xs, of distinct, unfolded distinct_append distinct.simps]
      distinct_append distinct_insort set_insort_key
    by auto
qed

lemma insertion_sort_facts:
  "n \<le> length xs \<Longrightarrow>
   length (fold sift_down [1..<n] xs) = length xs \<and> sorted (take n (fold sift_down [1..<n] xs)) \<and>
   set (fold sift_down [1..<n] xs) = set xs \<and> distinct (fold sift_down [1..<n] xs) = distinct xs"
proof (induction n)
  case 0
  then show ?case by simp
next
  case (Suc n)
  let ?ys = "fold sift_down [1..<n] xs"
  have IH: "length ?ys = length xs" "sorted (take n ?ys)" "set ?ys = set xs" "distinct ?ys = distinct xs"
    using Suc by simp_all
  show ?case
  proof (cases "n = 0")
    case True
    with Suc.prems show ?thesis by (cases xs) simp_all
  next
    case False
    then have "fold sift_down [1..<Suc n] xs = sift_down n ?ys" by simp
    moreover have "n < length ?ys" using Suc.prems IH(1) by simp
    ultimately show ?thesis using sift_down_facts [of n ?ys] IH by simp
  qed
qed

lemma EnvelopeV2Buckets_spec:
  "sorted (EnvelopeV2Buckets inp) \<and> distinct (EnvelopeV2Buckets inp) \<and>
   set (EnvelopeV2Buckets inp) =
     (if inp = [] then set EnvelopeV2DefaultBuckets else {b \<in> set inp. EnvelopeV2SupportedBucket b})"
proof (cases "inp = []")
  case True
  then show ?thesis by (simp add: EnvelopeV2Buckets_def EnvelopeV2DefaultBuckets_def)
next
  case False
  then show ?thesis
    using insertion_sort_facts [of "length (dedup_buckets inp [] [])" "dedup_buckets inp [] []"]
      dedup_buckets_spec [of inp "[]" "[]"]
    by (auto simp: EnvelopeV2Buckets_def Let_def)
qed

lemma EnvelopeV2Buckets_supported: "b \<in> set (EnvelopeV2Buckets inp) \<Longrightarrow> EnvelopeV2SupportedBucket b"
  using EnvelopeV2Buckets_spec [of inp] by (auto simp: supported_iff split: if_splits)

section \<open>Payload lemmas\<close>

definition envelope_payload_ok :: "EnvelopeV2Payload \<Rightarrow> bool" where
  "envelope_payload_ok p \<longleftrightarrow> length (e_ClientIDHash p) = 16 \<and> \<not> port_out_of_range (e_ServerPort p) \<and>
     length (e_Method p) \<le> 255 \<and> length (e_SessionID p) \<le> 255 \<and> length (e_Extensions p) \<le> 65535"

definition envelope_payload_bytes :: "EnvelopeV2Payload \<Rightarrow> bytes" where
  "envelope_payload_bytes p =
     [e_Version p] @ [e_Flags p] @ put64 (e_TimestampUnixMS p) @ e_ClientIDHash p @
     put16 (of_int (e_ServerPort p)) @ var8_bytes (str_bytes (e_Method p)) @
     var8_bytes (e_SessionID p) @ var16_bytes (e_Extensions p)"

lemma length_envelope_payload_bytes:
  "length (envelope_payload_bytes p) = length (e_ClientIDHash p) + 16 + length (e_Method p) +
     length (e_SessionID p) + length (e_Extensions p)"
  by (simp add: envelope_payload_bytes_def)

lemma EncodeEnvelopeV2Payload_iff:
  "length (e_ClientIDHash p) = 16 \<Longrightarrow>
   EncodeEnvelopeV2Payload p = Inr raw \<longleftrightarrow> envelope_payload_ok p \<and> raw = envelope_payload_bytes p"
  by (auto simp: EncodeEnvelopeV2Payload_def envelope_payload_ok_def envelope_payload_bytes_def
      var8_bytes_def var16_bytes_def)

lemma read_envelope_payload_var:
  "read_envelope_payload r =
     rbind (ReadByte r) (\<lambda>(ver, r).
     rbind (ReadByte r) (\<lambda>(flags, r).
     rbind (ReadUint64 r) (\<lambda>(ts, r).
     rbind (ReadFixed 16 r) (\<lambda>(ident, r).
     rbind (ReadUint16 r) (\<lambda>(port, r).
     rbind (read_var8 False r) (\<lambda>(meth, r).
     rbind (read_var8 True r) (\<lambda>(sess, r).
     rbind (read_var16 True r) (\<lambda>(ext, r).
       Inr (\<lparr>e_Version = ver, e_Flags = flags, e_TimestampUnixMS = ts, e_ClientIDHash = ident,
             e_ServerPort = int (unat port), e_Method = bytes_str meth, e_SessionID = sess,
             e_Extensions = ext\<rparr>, r)))))))))"
  unfolding read_envelope_payload_def read_var8_fold read_var16_fold ..

interpretation envelope_fmt: wire_format envelope_payload_bytes read_envelope_payload envelope_payload_ok
proof unfold_locales
  fix p pre ys e
  assume ok: "envelope_payload_ok p"
  then have port: "int (unat (of_int (e_ServerPort p) :: u16)) = e_ServerPort p"
    by (simp add: envelope_payload_ok_def port_word_roundtrip)
  show "read_envelope_payload (rd pre (envelope_payload_bytes p @ ys) e) =
      Inr (p, rd (pre @ envelope_payload_bytes p) ys e)"
    using ok
    by (simp only: read_envelope_payload_var envelope_payload_bytes_def append_assoc rbind_simps split port
        byte_fmt.get_put_rd fix16_fmt.get_put_rd u64_fmt.get_put_rd u16_fmt.get_put_rd
        var8_fmt.get_put_rd var16_fmt.get_put_rd envelope_payload_ok_def length_str_bytes
        bytes_str_bytes simp_thms) simp
next
  fix pre zs e p r
  assume "read_envelope_payload (rd pre zs e) = Inr (p, r)"
  then show "envelope_payload_ok p \<and>
      (\<exists>ys. zs = envelope_payload_bytes p @ ys \<and> r = rd (pre @ envelope_payload_bytes p) ys e)"
    by (auto simp: read_envelope_payload_var result_splits byte_fmt.get_iff fix16_fmt.get_iff
        u64_fmt.get_iff u16_fmt.get_iff var8_fmt.get_iff var16_fmt.get_iff envelope_payload_ok_def
        envelope_payload_bytes_def)
next
  fix pre zs e e'
  assume "read_envelope_payload (rd pre zs e) = Inl e'"
  then show "e' = e"
    by (auto simp: read_envelope_payload_var result_splits byte_fmt.get_iff fix16_fmt.get_iff
        u64_fmt.get_iff u16_fmt.get_iff var8_fmt.get_iff var16_fmt.get_iff
        dest!: byte_fmt.get_err_rd fix16_fmt.get_err_rd u64_fmt.get_err_rd u16_fmt.get_err_rd
        var8_fmt.get_err_rd var16_fmt.get_err_rd)
qed

lemma DecodeEnvelopeV2PayloadWithLength_iff:
  "DecodeEnvelopeV2PayloadWithLength raw = Inr (p, next) \<longleftrightarrow>
     envelope_payload_ok p \<and> (\<exists>ys. raw = envelope_payload_bytes p @ ys) \<and>
     next = int (length (envelope_payload_bytes p))"
  by (auto simp: DecodeEnvelopeV2PayloadWithLength_def NewReader_rd result_splits
      envelope_fmt.get_iff Pos_rd)

lemma DecodeEnvelopeV2Payload_iff:
  "DecodeEnvelopeV2Payload raw = Inr p \<longleftrightarrow> envelope_payload_ok p \<and> raw = envelope_payload_bytes p"
  by (auto simp: DecodeEnvelopeV2Payload_def result_splits DecodeEnvelopeV2PayloadWithLength_iff)

section \<open>Sealing lemmas\<close>

definition envelope_header_ok :: "EnvelopeV2Header \<Rightarrow> bool" where
  "envelope_header_ok h \<longleftrightarrow> length (PrefixRandom h) = EnvelopeV2PrefixSize"

lemma envelope_seal_lengths:
  assumes "crypto_ok cr" "envelope_header_ok h"
  shows "length (deriveEnvelopeV2Key cr secret (PrefixRandom h)) = KeySize"
    "length (envelopeV2Nonce (PrefixRandom h)) = NonceSizeX"
  using assms
  by (simp_all add: deriveEnvelopeV2Key_def envelopeV2Nonce_def envelope_header_ok_def env_sizes NonceSizeX_def)

lemma openEnvelopeV2Sealed_iff:
  assumes "crypto_ok cr" "envelope_header_ok h"
  shows "openEnvelopeV2Sealed cr secret h port sealed = Inr plain \<longleftrightarrow>
    SealEnvelopeV2Payload cr secret h port plain = Inr sealed"
  unfolding openEnvelopeV2Sealed_def SealEnvelopeV2Payload_def sealEnvelopeV2_def
  using assms(1) envelope_seal_lengths [OF assms] by (rule NewX_Open_iff)

lemma SealEnvelopeV2Payload_length:
  assumes "crypto_ok cr" "envelope_header_ok h" "SealEnvelopeV2Payload cr secret h port plain = Inr sealed"
  shows "length sealed = length plain + Overhead"
  using NewX_Seal_length [OF assms(1) envelope_seal_lengths [OF assms(1,2)]] assms(3)
  by (simp add: SealEnvelopeV2Payload_def sealEnvelopeV2_def)

lemma SealEnvelopeV2Payload_total:
  assumes "crypto_ok cr" "envelope_header_ok h"
  obtains sealed where "SealEnvelopeV2Payload cr secret h port plain = Inr sealed"
  using NewX_Seal_ok [OF assms(1)] envelope_seal_lengths [OF assms]
  unfolding SealEnvelopeV2Payload_def sealEnvelopeV2_def by blast

lemma padded_body_iff:
  assumes "n = length (xs :: bytes)"
  shows "(int n + 2 \<le> int (length (xs @ ys)) \<and>
      int n + 2 + int (unat (get16 (slice (xs @ ys) n (n + 2)))) = int (length (xs @ ys))) \<longleftrightarrow>
    (\<exists>padding. length padding \<le> 65535 \<and> ys = var16_bytes padding)"
    (is "?l \<longleftrightarrow> ?r")
proof
  assume l: ?l
  have sl: "slice (xs @ ys) n (n + 2) = take 2 ys" using assms by (simp add: slice_def)
  from l have len: "2 \<le> length ys" "2 + unat (get16 (take 2 ys)) = length ys"
    unfolding sl length_append using assms by linarith+
  then have "put16 (get16 (take 2 ys)) = take 2 ys" by (simp add: put_get16)
  moreover have "(of_nat (length ys - 2) :: u16) = get16 (take 2 ys)"
    by (simp flip: len(2))
  moreover have "length ys - 2 \<le> 65535"
    using len(2) unsigned_less [of "get16 (take 2 ys)", where 'a = nat] by simp
  ultimately show ?r
    by (intro exI [of _ "drop 2 ys"]) (simp add: var16_bytes_def)
next
  assume ?r
  then obtain padding where p: "length padding \<le> 65535" "ys = var16_bytes padding" by blast
  have "slice (xs @ ys) n (n + 2) = put16 (of_nat (length padding))"
    using assms by (simp add: p slice_def var16_bytes_def)
  moreover have "int (unat (of_nat (length padding) :: u16)) = int (length padding)"
    using p(1) by (rule int_unat_of_nat16)
  ultimately show ?l using assms p(2) by simp
qed

lemma OpenEnvelopeV2Payload_iff:
  assumes "crypto_ok cr" "envelope_header_ok h"
  shows "OpenEnvelopeV2Payload cr secret h port sealed = Inr p \<longleftrightarrow>
    envelope_payload_ok p \<and> e_Version p = EnvelopeV2Version \<and>
    e_Flags p AND NOT EnvelopeV2FlagServerProof = 0 \<and>
    (\<exists>padding. length padding \<le> 65535 \<and>
       SealEnvelopeV2Payload cr secret h port (envelope_payload_bytes p @ var16_bytes padding) = Inr sealed)"
proof -
  let ?xs = "envelope_payload_bytes p"
  have split: "(int (length ?xs) + 2 \<le> int (length (?xs @ ys)) \<and>
      int (length ?xs) + 2 + int (unat (get16 (slice (?xs @ ys) (length ?xs) (length ?xs + 2)))) =
        int (length (?xs @ ys))) \<longleftrightarrow> (\<exists>padding. length padding \<le> 65535 \<and> ys = var16_bytes padding)" for ys
    by (rule padded_body_iff [OF refl])
  have inner: "(if nx + 2 > int (length plain) then Inl ProtocolErrInvalidFrame
       else let paddingLen = int (unat (get16 (slice plain (nat nx) (nat nx + 2))))
       in if nx + 2 + paddingLen \<noteq> int (length plain) then Inl ProtocolErrInvalidFrame
       else if e_Version payload \<noteq> EnvelopeV2Version then Inl ProtocolErrUnsupportedVersion
       else if e_Flags payload AND NOT EnvelopeV2FlagServerProof \<noteq> 0 then Inl ProtocolErrUnsupportedFlags
       else Inr payload) = Inr p \<longleftrightarrow>
     (nx + 2 \<le> int (length plain) \<and>
      nx + 2 + int (unat (get16 (slice plain (nat nx) (nat nx + 2)))) = int (length plain)) \<and>
     e_Version payload = EnvelopeV2Version \<and> e_Flags payload AND NOT EnvelopeV2FlagServerProof = 0 \<and>
     payload = p" for nx plain payload
    by (simp add: Let_def not_less del: of_nat_unat)
  have "OpenEnvelopeV2Payload cr secret h port sealed = Inr p \<longleftrightarrow>
      (\<exists>ys. SealEnvelopeV2Payload cr secret h port (?xs @ ys) = Inr sealed \<and> envelope_payload_ok p \<and>
        (int (length ?xs) + 2 \<le> int (length (?xs @ ys)) \<and>
         int (length ?xs) + 2 + int (unat (get16 (slice (?xs @ ys) (length ?xs) (length ?xs + 2)))) =
           int (length (?xs @ ys))) \<and>
        e_Version p = EnvelopeV2Version \<and> e_Flags p AND NOT EnvelopeV2FlagServerProof = 0)"
    unfolding OpenEnvelopeV2Payload_def rbind_eq_Inr openEnvelopeV2Sealed_iff [OF assms]
      split_paired_Ex prod.case inner DecodeEnvelopeV2PayloadWithLength_iff
    by (metis nat_int)
  then show ?thesis unfolding split by blast
qed

section \<open>Build lemmas\<close>

text \<open>What the random sources return when they return: bytes of the requested length, an index in range.\<close>

definition envelope_rand_ok :: "envelope_rand \<Rightarrow> bool" where
  "envelope_rand_ok rs \<longleftrightarrow>
     (\<forall>p. Inr p \<in> set (prefixes rs) \<longrightarrow> length p = EnvelopeV2PrefixSize) \<and>
     (\<forall>n i. rnd_int rs n = Inr i \<longrightarrow> 0 \<le> i \<and> i < n) \<and>
     (\<forall>n p. rnd_pad rs n = Inr p \<longrightarrow> length p = n)"

definition envelope_payload ::
    "crypto \<Rightarrow> string \<Rightarrow> bytes \<Rightarrow> int \<Rightarrow> time \<Rightarrow> byte \<Rightarrow> string \<Rightarrow> bytes \<Rightarrow> bytes \<Rightarrow> EnvelopeV2Payload" where
  "envelope_payload cr clientID secret serverPort now flags meth sessionID extensions =
     \<lparr>e_Version = EnvelopeV2Version, e_Flags = flags, e_TimestampUnixMS = UnixMilli now,
      e_ClientIDHash = ComputeClientIDHash cr secret clientID, e_ServerPort = serverPort,
      e_Method = meth, e_SessionID = sessionID, e_Extensions = extensions\<rparr>"

definition envelope_route_hint :: "crypto \<Rightarrow> string \<Rightarrow> bytes \<Rightarrow> bytes \<Rightarrow> int \<Rightarrow> u64" where
  "envelope_route_hint cr hintMode secret prefix port =
     (if hintMode = EnvelopeV2HintModeRouteHint
      then ComputeEnvelopeV2RouteHint cr secret prefix port else 0)"

text \<open>The cleartext part of an envelope.\<close>

definition envelope_clear :: "EnvelopeV2Header \<Rightarrow> bytes" where
  "envelope_clear h = PrefixRandom h @
     (if HintMode h = EnvelopeV2HintModeRouteHint then put64 (RouteHint h) else [])"

lemma draw_prefix_Some:
  "draw_prefix ds = Some (Inr p) \<Longrightarrow> Inr p \<in> set ds \<and> p ! 0 \<noteq> Version"
  by (induction ds rule: draw_prefix.induct) (auto split: if_splits)

lemma draw_prefix_returns:
  "(\<exists>d \<in> set ds. case d of Inl e \<Rightarrow> True | Inr p \<Rightarrow> p ! 0 \<noteq> Version) \<longleftrightarrow> draw_prefix ds \<noteq> None"
  by (induction ds rule: draw_prefix.induct) auto

lemma check_buckets_Inr:
  "check_buckets bs mx sv = Inr r \<longleftrightarrow>
     (\<forall>b \<in> set bs. EnvelopeV2SupportedBucket b \<and> b \<le> mx) \<and> r = (sv \<or> bs \<noteq> [])"
  by (induction bs mx sv rule: check_buckets.induct) auto

lemma WithDefaults_idem [simp]: "WithDefaults (WithDefaults c) = WithDefaults c"
  by (auto simp: WithDefaults_def Let_def env_modes EnvelopeV2DefaultBuckets_def)

lemma Validate_iff:
  "Validate c mx = Inr () \<longleftrightarrow>
     c_HintMode (WithDefaults c) \<in> {EnvelopeV2HintModeRouteHint, EnvelopeV2HintModeNone} \<and>
     c_PaddingPolicy (WithDefaults c) \<in> {EnvelopeV2PaddingRandomBucket, EnvelopeV2PaddingNone} \<and>
     (\<forall>b \<in> set (c_FrameSizeBuckets (WithDefaults c)).
        EnvelopeV2SupportedBucket b \<and> b \<le> (if mx \<le> 0 then EnvelopeV2DefaultMaxSize else mx))"
proof -
  have "c_FrameSizeBuckets (WithDefaults c) \<noteq> []"
    by (simp add: WithDefaults_def Let_def EnvelopeV2DefaultBuckets_def)
  then show ?thesis
    by (auto simp: Validate_def Let_def result_splits check_buckets_Inr)
qed

lemma envelope_padding_Inr:
  assumes "envelope_rand_ok rs" "0 \<le> n" "envelope_padding rs cfg n = Inr padding"
  shows "length padding = nat n"
  using assms by (auto simp: envelope_padding_def envelope_rand_ok_def split: if_splits)

lemma envelope_finish_Inr:
  assumes cr: "crypto_ok cr" and rs: "envelope_rand_ok rs" and h0: "envelope_header_ok h0"
    and mode: "HintMode h0 = c_HintMode cfg"
    and fin: "envelope_finish cr rs cfg secret port h0 plain = Inr (raw, h)"
  obtains padding sealed where "length padding \<le> 65535"
    "h = h0\<lparr>BucketSize := BucketSize h\<rparr>" "BucketSize h \<in> set (EnvelopeV2Buckets (c_FrameSizeBuckets cfg))"
    "SealEnvelopeV2Payload cr secret h port (plain @ var16_bytes padding) = Inr sealed"
    "raw = envelope_clear h @ sealed" "int (length raw) = BucketSize h"
proof -
  let ?c = "envelope_candidates cfg plain"
  from fin obtain idx padding sealed where idx: "rnd_int rs (int (length ?c)) = Inr idx"
    and pad0: "0 \<le> ?c ! nat idx - envelope_prefix_size (c_HintMode cfg) - int Overhead - int (length plain) - 2"
    and pad: "envelope_padding rs cfg (?c ! nat idx - envelope_prefix_size (c_HintMode cfg) -
        int Overhead - int (length plain) - 2) = Inr padding"
    and h: "h = h0\<lparr>BucketSize := ?c ! nat idx\<rparr>"
    and seal: "SealEnvelopeV2Payload cr secret h port (plain @ put16 (of_int (?c ! nat idx -
        envelope_prefix_size (c_HintMode cfg) - int Overhead - int (length plain) - 2)) @ padding) = Inr sealed"
    and raw: "raw = envelope_clear h @ sealed"
    using mode by (auto simp: envelope_finish_def Let_def result_splits randInt_def envelope_clear_def
        split: if_splits)
  have "0 \<le> idx \<and> idx < int (length ?c)"
    using rs idx unfolding envelope_rand_ok_def by blast
  then have "nat idx < length ?c" by linarith
  then have "?c ! nat idx \<in> set ?c" by simp
  then have b: "BucketSize h \<in> set (EnvelopeV2Buckets (c_FrameSizeBuckets cfg))"
    by (simp add: h envelope_candidates_def Let_def)
  then have b512: "?c ! nat idx \<le> 512"
    using EnvelopeV2Buckets_supported supported_bounds by (fastforce simp: h)
  have len: "int (length padding) = ?c ! nat idx - envelope_prefix_size (c_HintMode cfg) -
      int Overhead - int (length plain) - 2"
    using envelope_padding_Inr [OF rs pad0 pad] pad0 by simp
  have seal': "SealEnvelopeV2Payload cr secret h port (plain @ var16_bytes padding) = Inr sealed"
    using seal unfolding len [symmetric] by (simp add: var16_bytes_def)
  have "envelope_header_ok h" using h0 by (simp add: h envelope_header_ok_def)
  from SealEnvelopeV2Payload_length [OF cr this seal'] have "int (length raw) = BucketSize h"
    using len h0 mode
    by (simp add: raw h envelope_clear_def envelope_header_ok_def envelope_prefix_size_def env_sizes)
  moreover have "length padding \<le> 65535"
    using len b512 by (simp add: envelope_prefix_size_def env_sizes split: if_splits)
  ultimately show ?thesis using that seal' raw b h by auto
qed

lemma BuildEnvelopeV2_Inr:
  assumes cr: "crypto_ok cr" and rs: "envelope_rand_ok rs"
    and build: "BuildEnvelopeV2 cr rs clientID secret port now flags meth sessionID extensions cfg0 = Some (Inr (raw, h))"
  defines "cfg \<equiv> WithDefaults cfg0"
    and "p \<equiv> envelope_payload cr clientID secret port now flags meth sessionID extensions"
  obtains padding sealed where
    "envelope_header_ok h" "PrefixRandom h ! 0 \<noteq> Version" "HintMode h = c_HintMode cfg"
    "HintMode h \<in> {EnvelopeV2HintModeRouteHint, EnvelopeV2HintModeNone}"
    "RouteHint h = envelope_route_hint cr (HintMode h) secret (PrefixRandom h) port"
    "BucketSize h \<in> set (EnvelopeV2Buckets (c_FrameSizeBuckets cfg))"
    "envelope_payload_ok p" "flags AND NOT EnvelopeV2FlagServerProof = 0"
    "length padding \<le> 65535"
    "SealEnvelopeV2Payload cr secret h port (envelope_payload_bytes p @ var16_bytes padding) = Inr sealed"
    "raw = envelope_clear h @ sealed" "int (length raw) = BucketSize h"
proof -
  from build obtain prefix h0 plain where
    val: "Validate cfg EnvelopeV2DefaultMaxSize = Inr ()"
    and flags: "flags AND NOT EnvelopeV2FlagServerProof = 0"
    and draw: "draw_prefix (prefixes rs) = Some (Inr prefix)"
    and h0: "h0 = \<lparr>PrefixRandom = prefix, RouteHint = envelope_route_hint cr (c_HintMode cfg) secret prefix port,
        BucketSize = 0, HintMode = c_HintMode cfg\<rparr>"
    and plain: "EncodeEnvelopeV2Payload p = Inr plain"
    and fin: "envelope_finish cr rs cfg secret port h0 plain = Inr (raw, h)"
    by (auto simp: BuildEnvelopeV2_def Let_def result_splits cfg_def [symmetric] p_def envelope_payload_def
        envelope_route_hint_def split: sum.splits option.splits if_splits)
  have ok: "envelope_header_ok h0"
    using draw_prefix_Some [OF draw] rs by (simp add: h0 envelope_rand_ok_def envelope_header_ok_def)
  have modes: "c_HintMode cfg \<in> {EnvelopeV2HintModeRouteHint, EnvelopeV2HintModeNone}"
    using val by (simp add: Validate_iff) (simp add: cfg_def)
  have "length (e_ClientIDHash p) = 16" using cr by (simp add: p_def envelope_payload_def)
  then have p: "envelope_payload_ok p" "plain = envelope_payload_bytes p"
    using plain by (simp_all add: EncodeEnvelopeV2Payload_iff)
  have "HintMode h0 = c_HintMode cfg" by (simp add: h0)
  from envelope_finish_Inr [OF cr rs ok this fin] obtain padding sealed where
    f: "length padding \<le> 65535" "h = h0\<lparr>BucketSize := BucketSize h\<rparr>"
      "BucketSize h \<in> set (EnvelopeV2Buckets (c_FrameSizeBuckets cfg))"
      "SealEnvelopeV2Payload cr secret h port (plain @ var16_bytes padding) = Inr sealed"
      "raw = envelope_clear h @ sealed" "int (length raw) = BucketSize h"
    by blast
  have fields: "PrefixRandom h = prefix" "HintMode h = c_HintMode cfg"
    "RouteHint h = envelope_route_hint cr (c_HintMode cfg) secret prefix port"
    by (subst f(2), simp add: h0)+
  show ?thesis
    using that [of padding sealed] ok f p flags modes draw_prefix_Some [OF draw]
    unfolding fields envelope_header_ok_def by (simp add: h0 fields)
qed

lemma ReadEnvelopeV2Prefix_clear:
  assumes "envelope_header_ok h" "HintMode h \<in> {EnvelopeV2HintModeRouteHint, EnvelopeV2HintModeNone}"
    "HintMode h = EnvelopeV2HintModeNone \<Longrightarrow> RouteHint h = 0"
  shows "ReadEnvelopeV2Prefix \<lparr>sdata = envelope_clear h @ rest, serr = e\<rparr> (HintMode h) =
    Inr (h\<lparr>BucketSize := 0\<rparr>, \<lparr>sdata = rest, serr = e\<rparr>)"
  using assms
  by (cases h) (auto simp: ReadEnvelopeV2Prefix_def envelope_clear_def envelope_header_ok_def
      io_ReadFull_append EnvelopeV2RouteHintSize_def env_modes)

lemma length_envelope_clear:
  "envelope_header_ok h \<Longrightarrow> int (length (envelope_clear h)) = envelope_prefix_size (HintMode h)"
  by (simp add: envelope_clear_def envelope_header_ok_def envelope_prefix_size_def env_sizes)

text \<open>
  Property C4. Round trip of the bucketed envelope: an envelope the client builds has exactly
  the size of one of the configured buckets and cannot be mistaken for a version 1 frame (its
  first byte is not 1); a server reading the cleartext prefix recovers the client's header,
  and opening the remaining bytes of the bucket with the same secret and port gives back the
  client's payload, whatever padding was drawn.
\<close>

theorem envelope_v2_roundtrip:
  assumes cr: "crypto_ok cr" and rs: "envelope_rand_ok rs"
    and build: "BuildEnvelopeV2 cr rs clientID secret port now flags meth sessionID extensions cfg = Some (Inr (raw, h))"
  shows "int (length raw) = BucketSize h \<and>
    BucketSize h \<in> set (EnvelopeV2Buckets (c_FrameSizeBuckets (WithDefaults cfg))) \<and> raw ! 0 \<noteq> Version \<and>
    (\<exists>sealed. ReadEnvelopeV2Prefix \<lparr>sdata = raw @ rest, serr = e\<rparr> (c_HintMode (WithDefaults cfg)) =
        Inr (h\<lparr>BucketSize := 0\<rparr>, \<lparr>sdata = sealed @ rest, serr = e\<rparr>) \<and>
      int (length sealed) = BucketSize h - envelope_prefix_size (HintMode h) \<and>
      OpenEnvelopeV2Payload cr secret h port sealed =
        Inr (envelope_payload cr clientID secret port now flags meth sessionID extensions))"
proof -
  let ?p = "envelope_payload cr clientID secret port now flags meth sessionID extensions"
  from BuildEnvelopeV2_Inr [OF cr rs build] obtain padding sealed where
    h: "envelope_header_ok h" "PrefixRandom h ! 0 \<noteq> Version" "HintMode h = c_HintMode (WithDefaults cfg)"
      "HintMode h \<in> {EnvelopeV2HintModeRouteHint, EnvelopeV2HintModeNone}"
      "RouteHint h = envelope_route_hint cr (HintMode h) secret (PrefixRandom h) port"
      "BucketSize h \<in> set (EnvelopeV2Buckets (c_FrameSizeBuckets (WithDefaults cfg)))"
    and p: "envelope_payload_ok ?p" "flags AND NOT EnvelopeV2FlagServerProof = 0" "length padding \<le> 65535"
      "SealEnvelopeV2Payload cr secret h port (envelope_payload_bytes ?p @ var16_bytes padding) = Inr sealed"
    and raw: "raw = envelope_clear h @ sealed" "int (length raw) = BucketSize h"
    by blast
  have "PrefixRandom h \<noteq> []" using h(1) by (auto simp: envelope_header_ok_def env_sizes)
  then have first: "raw ! 0 \<noteq> Version" using h(2) by (simp add: raw(1) envelope_clear_def nth_append)
  have "OpenEnvelopeV2Payload cr secret h port sealed = Inr ?p"
    using p by (simp add: OpenEnvelopeV2Payload_iff [OF cr h(1)]) (auto simp: envelope_payload_def)
  moreover have "ReadEnvelopeV2Prefix \<lparr>sdata = raw @ rest, serr = e\<rparr> (c_HintMode (WithDefaults cfg)) =
        Inr (h\<lparr>BucketSize := 0\<rparr>, \<lparr>sdata = sealed @ rest, serr = e\<rparr>)"
    using ReadEnvelopeV2Prefix_clear [OF h(1,4), of "sealed @ rest" e] h(5)
    by (simp add: raw(1) h(3) envelope_route_hint_def env_modes)
  moreover have "int (length sealed) = BucketSize h - envelope_prefix_size (HintMode h)"
    using raw length_envelope_clear [OF h(1)] by simp
  ultimately show ?thesis using first raw(2) h(6) by blast
qed

definition demo_rand :: "int \<Rightarrow> envelope_rand" where
  "demo_rand i = \<lparr>prefixes = [Inr (1 # replicate 23 0), Inr (replicate 24 5)],
     rnd_int = (\<lambda>n. if 0 \<le> i \<and> i < n then Inr i else Inl (ExternalErr 0)),
     rnd_pad = (\<lambda>n. Inr (replicate n 3))\<rparr>"

definition demo_config :: EnvelopeV2Config where
  "demo_config = \<lparr>c_HintMode = '''', c_FrameSizeBuckets = [], c_PaddingPolicy = ''''\<rparr>"

definition demo_envelope :: "int \<Rightarrow> nat \<Rightarrow> (bytes \<times> EnvelopeV2Header) result option" where
  "demo_envelope i n = BuildEnvelopeV2 demo_crypto (demo_rand i) ''a'' demo_secret 443 (5 * second) 1 ''t''
     (replicate n 9) [] demo_config"

lemma demo_rand_ok: "envelope_rand_ok (demo_rand i)"
  by (auto simp: envelope_rand_ok_def demo_rand_def env_sizes)

lemma not_isl_Some_pair: "x \<noteq> None \<Longrightarrow> \<not> isl (the x) \<Longrightarrow> \<exists>a b. x = Some (Inr (a, b))"
  by (cases x) (auto simp: not_isl_pair)

theorem envelope_v2_roundtrip_witness:
  "\<exists>raw h sealed. demo_envelope 0 3 = Some (Inr (raw, h)) \<and> int (length raw) = BucketSize h \<and>
    ReadEnvelopeV2Prefix \<lparr>sdata = raw @ [42], serr = IoEOF\<rparr> (c_HintMode (WithDefaults demo_config)) =
      Inr (h\<lparr>BucketSize := 0\<rparr>, \<lparr>sdata = sealed @ [42], serr = IoEOF\<rparr>) \<and>
    OpenEnvelopeV2Payload demo_crypto demo_secret h 443 sealed =
      Inr (envelope_payload demo_crypto ''a'' demo_secret 443 (5 * second) 1 ''t'' (replicate 3 9) [])"
proof -
  have "demo_envelope 0 3 \<noteq> None" "\<not> isl (the (demo_envelope 0 3))"
    by code_simp+
  then obtain raw h where b: "demo_envelope 0 3 = Some (Inr (raw, h))"
    using not_isl_Some_pair by blast
  from envelope_v2_roundtrip [OF crypto_ok_demo_crypto demo_rand_ok b [unfolded demo_envelope_def],
      of "[42]" IoEOF] b
  show ?thesis by (elim exE conjE) (intro exI conjI)
qed

text \<open>
  The candidate buckets are compared with a minimum size that leaves out the two bytes of the
  padding length. With a payload that fills the 128-byte bucket to the last byte (48 bytes of
  method and session), the draw may pick that bucket, and then the build fails although the
  192-byte bucket would do.
\<close>

lemma BuildEnvelopeV2_tight_bucket:
  "demo_envelope 0 47 = Some (Inl ProtocolErrFrameTooLarge)"
  "case demo_envelope 1 47 of Some (Inr (raw, h)) \<Rightarrow> BucketSize h = 192 | _ \<Rightarrow> False"
  by code_simp+

lemma VerifyEnvelopeV2ServerProof_iff:
  assumes "crypto_ok cr" "envelope_header_ok h"
  shows "VerifyEnvelopeV2ServerProof cr proof secret h port = Inr () \<longleftrightarrow>
    \<not> port_out_of_range port \<and> proof = BuildEnvelopeV2ServerProof cr secret h port"
proof -
  have n: "length (take 16 (PrefixRandom h)) = 16"
    using assms(2) by (simp add: envelope_header_ok_def env_sizes)
  have len: "length (computeEnvelopeV2ServerProof cr secret h port) = (if port_out_of_range port then 0 else 32)"
    using assms(1) by (simp add: computeEnvelopeV2ServerProof_def HMACSHA256_def crypto_ok_lengths)
  show ?thesis
  proof (cases "port_out_of_range port")
    case True
    then show ?thesis
      using len by (auto simp: VerifyEnvelopeV2ServerProof_def ConstantTimeEqual_def ServerProofSize_def)
  next
    case False
    have build: "BuildEnvelopeV2ServerProof cr secret h port =
        [EnvelopeV2Version, ServerProofType] @ take 16 (PrefixRandom h) @ computeEnvelopeV2ServerProof cr secret h port"
      using False len n proof_layout [OF n, of "computeEnvelopeV2ServerProof cr secret h port"]
      by (simp add: BuildEnvelopeV2ServerProof_def Let_def)
    have "proof = BuildEnvelopeV2ServerProof cr secret h port \<longleftrightarrow>
        length proof = 50 \<and> proof ! 0 = EnvelopeV2Version \<and> proof ! 1 = ServerProofType \<and>
        slice proof 2 18 = take 16 (PrefixRandom h) \<and>
        drop 18 proof = computeEnvelopeV2ServerProof cr secret h port"
      unfolding build using n len False by (intro split_2_16) auto
    then show ?thesis
      using False by (auto simp: VerifyEnvelopeV2ServerProof_def ConstantTimeEqual_def ServerProofSize_def)
  qed
qed

text \<open>
  The bucket list a client or server works with: sorted, without duplicates, and
  made of exactly the supported sizes among the configured ones (all supported sizes when none
  is configured). It is the in-place insertion sort of the source that is proved to do this.
\<close>

theorem EnvelopeV2Buckets_normalised:
  "sorted (EnvelopeV2Buckets inp) \<and> distinct (EnvelopeV2Buckets inp) \<and>
   set (EnvelopeV2Buckets inp) =
     (if inp = [] then {128, 192, 256, 384, 512} else set inp \<inter> {128, 192, 256, 384, 512})"
  using EnvelopeV2Buckets_spec [of inp]
  by (auto simp: supported_iff EnvelopeV2DefaultBuckets_def)

end
