(* ===== verification/TTL_LRU.thy ===== *)
theory TTL_LRU
  imports Knock_Prelude
begin

text \<open>
  internal/cache/ttl_lru.go: the bounded map with per-entry expiry that the replay caches, the
  ban list, the session store and the sequence tracker are built on. The Go struct keeps a map
  from keys to elements of a doubly linked list whose order is recency of use; the model keeps
  the map as an association list and the linked list as the list of its elements' keys, front
  first. \<open>time.Now()\<close> is an argument. Methods on a nil receiver return a zero result and are
  not modelled.

  \<open>recency\<close> abstracts the two structures to one queue of entries, oldest use first; every
  operation is shown to act on it as its specification (\<open>queue_set\<close>, filters) says. The locale
  \<open>ttl_store\<close> is the contract the clients rely on, interpreted on the cache as \<open>lru\<close>.
\<close>

record ('k, 'v) Entry =
  Key :: 'k
  Value :: 'v
  ExpiresAt :: time

record ('k, 'v) TTLLRU =
  entries :: "('k \<times> ('k, 'v) Entry) list"
  order :: "'k list"
  maxEntries :: int

section \<open>Operations\<close>

definition NewTTLLRU :: "int \<Rightarrow> ('k, 'v) TTLLRU" where
  "NewTTLLRU maxEntries0 =
     \<lparr>entries = [], order = [], maxEntries = (if maxEntries0 \<le> 0 then 1 else maxEntries0)\<rparr>"

definition removeElementLocked :: "'k \<Rightarrow> ('k, 'v) TTLLRU \<Rightarrow> ('k, 'v) TTLLRU" where
  "removeElementLocked k c = c\<lparr>entries := AList.delete k (entries c), order := remove1 k (order c)\<rparr>"

definition MoveToBack :: "'k \<Rightarrow> ('k, 'v) TTLLRU \<Rightarrow> ('k, 'v) TTLLRU" where
  "MoveToBack k c = c\<lparr>order := remove1 k (order c) @ [k]\<rparr>"

function evict_front :: "('k, 'v) TTLLRU \<Rightarrow> ('k, 'v) TTLLRU" where
  "evict_front c =
     (if int (length (entries c)) \<ge> maxEntries c then
        (case order c of [] \<Rightarrow> c | k # _ \<Rightarrow> evict_front (removeElementLocked k c))
      else c)"
  by pat_completeness auto
termination
  by (relation "measure (\<lambda>c. length (order c))") (auto simp: removeElementLocked_def)

declare evict_front.simps [simp del]

definition setLocked :: "'k \<Rightarrow> 'v \<Rightarrow> time \<Rightarrow> ('k, 'v) TTLLRU \<Rightarrow> ('k, 'v) TTLLRU" where
  "setLocked key value expiresAt c =
     (case map_of (entries c) key of
        Some entry \<Rightarrow>
          MoveToBack key (c\<lparr>entries :=
            AList.update key (entry\<lparr>Value := value, ExpiresAt := expiresAt\<rparr>) (entries c)\<rparr>)
      | None \<Rightarrow>
          let c = evict_front c
          in c\<lparr>entries := AList.update key \<lparr>Key = key, Value = value, ExpiresAt = expiresAt\<rparr> (entries c),
               order := order c @ [key]\<rparr>)"

definition SetUntil :: "'k \<Rightarrow> 'v \<Rightarrow> time \<Rightarrow> ('k, 'v) TTLLRU \<Rightarrow> ('k, 'v) TTLLRU" where
  "SetUntil key value expiresAt c =
     (if expiresAt = zero_time then c else setLocked key value expiresAt c)"

definition lru_Set :: "'k \<Rightarrow> 'v \<Rightarrow> duration \<Rightarrow> time \<Rightarrow> ('k, 'v) TTLLRU \<Rightarrow> ('k, 'v) TTLLRU" where
  "lru_Set key value ttl now c = SetUntil key value (now + ttl) c"

definition AddIfAbsent ::
    "'k \<Rightarrow> 'v \<Rightarrow> time \<Rightarrow> time \<Rightarrow> ('k, 'v) TTLLRU \<Rightarrow> bool \<times> ('k, 'v) TTLLRU" where
  "AddIfAbsent key value expiresAt now c =
     (if expiresAt = zero_time then (False, c)
      else case map_of (entries c) key of
        Some entry \<Rightarrow>
          if ExpiresAt entry > now then (False, MoveToBack key c)
          else (True, setLocked key value expiresAt (removeElementLocked key c))
      | None \<Rightarrow> (True, setLocked key value expiresAt c))"

definition lru_Peek :: "'k \<Rightarrow> ('k, 'v) TTLLRU \<Rightarrow> ('k, 'v) Entry option" where
  "lru_Peek key c = map_of (entries c) key"

definition GetAt :: "'k \<Rightarrow> time \<Rightarrow> ('k, 'v) TTLLRU \<Rightarrow> 'v option \<times> ('k, 'v) TTLLRU" where
  "GetAt key now c =
     (case map_of (entries c) key of
        None \<Rightarrow> (None, c)
      | Some entry \<Rightarrow>
          if \<not> ExpiresAt entry > now then (None, removeElementLocked key c)
          else (Some (Value entry), MoveToBack key c))"

definition DeleteExpired :: "'k \<Rightarrow> time \<Rightarrow> ('k, 'v) TTLLRU \<Rightarrow> bool \<times> ('k, 'v) TTLLRU" where
  "DeleteExpired key now c =
     (case map_of (entries c) key of
        None \<Rightarrow> (False, c)
      | Some entry \<Rightarrow>
          if now < ExpiresAt entry then (False, c) else (True, removeElementLocked key c))"

definition lru_Delete :: "'k \<Rightarrow> ('k, 'v) TTLLRU \<Rightarrow> bool \<times> ('k, 'v) TTLLRU" where
  "lru_Delete key c =
     (case map_of (entries c) key of None \<Rightarrow> (False, c) | Some _ \<Rightarrow> (True, removeElementLocked key c))"

text \<open>The walk over the linked list that removes the matching elements, from front to back.\<close>

fun remove_walk ::
    "(('k, 'v) Entry \<Rightarrow> bool) \<Rightarrow> 'k list \<Rightarrow> int \<Rightarrow> ('k, 'v) TTLLRU \<Rightarrow> int \<times> ('k, 'v) TTLLRU" where
  "remove_walk match [] removed c = (removed, c)"
| "remove_walk match (k # ks) removed c =
     (case map_of (entries c) k of
        None \<Rightarrow> remove_walk match ks removed c
      | Some entry \<Rightarrow>
          if match entry then remove_walk match ks (removed + 1) (removeElementLocked k c)
          else remove_walk match ks removed c)"

definition DeleteWhere ::
    "(('k, 'v) Entry \<Rightarrow> bool) \<Rightarrow> ('k, 'v) TTLLRU \<Rightarrow> int \<times> ('k, 'v) TTLLRU" where
  "DeleteWhere match c = remove_walk match (order c) 0 c"

definition lru_Sweep :: "time \<Rightarrow> ('k, 'v) TTLLRU \<Rightarrow> int \<times> ('k, 'v) TTLLRU" where
  "lru_Sweep now c = remove_walk (\<lambda>entry. \<not> ExpiresAt entry > now) (order c) 0 c"

definition lru_Len :: "('k, 'v) TTLLRU \<Rightarrow> int" where
  "lru_Len c = int (length (entries c))"

definition lru_Cap :: "('k, 'v) TTLLRU \<Rightarrow> int" where
  "lru_Cap c = maxEntries c"

fun active_walk :: "time \<Rightarrow> 'k list \<Rightarrow> int \<Rightarrow> ('k, 'v) TTLLRU \<Rightarrow> int" where
  "active_walk now [] active c = active"
| "active_walk now (k # ks) active c =
     (case map_of (entries c) k of
        None \<Rightarrow> active_walk now ks active c
      | Some entry \<Rightarrow> active_walk now ks (if ExpiresAt entry > now then active + 1 else active) c)"

definition ActiveLen :: "time \<Rightarrow> ('k, 'v) TTLLRU \<Rightarrow> int" where
  "ActiveLen now c = active_walk now (order c) 0 c"

definition LenAfterSweep :: "time \<Rightarrow> ('k, 'v) TTLLRU \<Rightarrow> int \<times> ('k, 'v) TTLLRU" where
  "LenAfterSweep now c = (let c = snd (lru_Sweep now c) in (lru_Len c, c))"

section \<open>Invariant\<close>

text \<open>
  The map has one entry per key, the linked list one element per entry, an entry knows its
  key, and there are never more than \<open>maxEntries\<close>.
\<close>

definition lru_coherent :: "('k, 'v) TTLLRU \<Rightarrow> bool" where
  "lru_coherent c \<longleftrightarrow> distinct (map fst (entries c)) \<and> distinct (order c) \<and>
     set (order c) = fst ` set (entries c) \<and> (\<forall>(k, e) \<in> set (entries c). Key e = k)"

definition lru_ok :: "('k, 'v) TTLLRU \<Rightarrow> bool" where
  "lru_ok c \<longleftrightarrow> lru_coherent c \<and> 1 \<le> maxEntries c \<and> int (length (entries c)) \<le> maxEntries c"

text \<open>The abstract queue of entries, least recently used first.\<close>

definition recency :: "('k, 'v) TTLLRU \<Rightarrow> ('k \<times> ('k, 'v) Entry) list" where
  "recency c = map (\<lambda>k. (k, the (map_of (entries c) k))) (order c)"

definition queue_set :: "int \<Rightarrow> 'k \<Rightarrow> ('k, 'v) Entry \<Rightarrow> ('k \<times> ('k, 'v) Entry) list \<Rightarrow> ('k \<times> ('k, 'v) Entry) list" where
  "queue_set cap k e q =
     (if k \<in> fst ` set q then filter (\<lambda>(k', _). k' \<noteq> k) q @ [(k, e)]
      else if int (length q) \<ge> cap then tl q @ [(k, e)]
      else q @ [(k, e)])"

lemma distinct_remove1_filter: "distinct xs \<Longrightarrow> remove1 k xs = filter (\<lambda>x. x \<noteq> k) xs"
  by (simp add: distinct_remove1_removeAll removeAll_filter_not_eq) (metis (full_types))

lemma coherent_length: "lru_coherent c \<Longrightarrow> length (order c) = length (entries c)"
  unfolding lru_coherent_def by (metis distinct_card length_map set_map)

lemma coherent_lookup:
  "lru_coherent c \<Longrightarrow> k \<in> set (order c) \<longleftrightarrow> (\<exists>e. map_of (entries c) k = Some e)"
  unfolding lru_coherent_def by (metis map_of_eq_None_iff not_None_eq)

lemma keys_recency [simp]: "map fst (recency c) = order c"
  by (simp add: recency_def comp_def)

lemma map_of_recency: "lru_coherent c \<Longrightarrow> map_of (recency c) k = map_of (entries c) k"
  using coherent_lookup [of c k]
  by (auto simp: recency_def map_of_map_restrict restrict_map_def dest: not_None_eq [THEN iffD1])

lemma lru_coherent_iff:
  "lru_coherent c \<longleftrightarrow> distinct (map fst (entries c)) \<and> distinct (order c) \<and>
     (\<forall>k. k \<in> set (order c) \<longleftrightarrow> map_of (entries c) k \<noteq> None) \<and>
     (\<forall>k e. map_of (entries c) k = Some e \<longrightarrow> Key e = k)"
  unfolding lru_coherent_def
  by (auto simp: map_of_eq_None_iff dest: map_of_SomeD)

lemma removeElementLocked_sel [simp]:
  "map_of (entries (removeElementLocked k c)) = (map_of (entries c))(k := None)"
  "order (removeElementLocked k c) = remove1 k (order c)"
  "maxEntries (removeElementLocked k c) = maxEntries c"
  by (simp_all add: removeElementLocked_def AList.delete_conv')

lemma MoveToBack_sel [simp]:
  "entries (MoveToBack k c) = entries c" "order (MoveToBack k c) = remove1 k (order c) @ [k]"
  "maxEntries (MoveToBack k c) = maxEntries c"
  by (simp_all add: MoveToBack_def)

lemma coherent_remove: "lru_coherent c \<Longrightarrow> lru_coherent (removeElementLocked k c)"
  by (auto simp: lru_coherent_iff) (auto simp: removeElementLocked_def AList.distinct_delete)

lemma coherent_move:
  "lru_coherent c \<Longrightarrow> map_of (entries c) k \<noteq> None \<Longrightarrow> lru_coherent (MoveToBack k c)"
  by (auto simp: lru_coherent_iff)

lemma recency_remove:
  assumes "lru_coherent c"
  shows "recency (removeElementLocked k c) = filter (\<lambda>(k', _). k' \<noteq> k) (recency c)"
proof -
  have "distinct (order c)" using assms by (simp add: lru_coherent_def)
  then show ?thesis
    by (simp add: recency_def distinct_remove1_filter filter_map comp_def)
qed

lemma recency_move:
  assumes "lru_coherent c" "map_of (entries c) k = Some e"
  shows "recency (MoveToBack k c) = filter (\<lambda>(k', _). k' \<noteq> k) (recency c) @ [(k, e)]"
proof -
  have "distinct (order c)" using assms by (simp add: lru_coherent_def)
  then show ?thesis
    using assms(2) by (simp add: recency_def distinct_remove1_filter filter_map comp_def)
qed

lemma length_recency: "lru_coherent c \<Longrightarrow> length (recency c) = length (entries c)"
  by (simp add: recency_def coherent_length)

lemma evict_room: "int (length (entries c)) < maxEntries c \<Longrightarrow> evict_front c = c"
  by (subst evict_front.simps) simp

lemma evict_full:
  assumes "lru_ok c" "int (length (entries c)) = maxEntries c" "order c = k # ks"
  shows "evict_front c = removeElementLocked k c"
proof -
  let ?c = "removeElementLocked k c"
  have coh: "lru_coherent c" using assms(1) by (simp add: lru_ok_def)
  have "length (entries ?c) = length (order c) - 1"
    using coherent_length [OF coherent_remove [OF coh], of k] assms(3) by simp
  then have "int (length (entries ?c)) < maxEntries ?c"
    using assms coherent_length [OF coh] by (simp add: lru_ok_def)
  then have "evict_front ?c = ?c" by (rule evict_room)
  with assms(2,3) show ?thesis by (subst evict_front.simps) simp
qed

lemma setLocked_present:
  fixes c :: "('k, 'v) TTLLRU" and v :: 'v and t :: time
  assumes "lru_ok c" "map_of (entries c) k = Some e"
  defines "e' \<equiv> \<lparr>Key = k, Value = v, ExpiresAt = t\<rparr>"
  shows "lru_ok (setLocked k v t c)" "recency (setLocked k v t c) = queue_set (maxEntries c) k e' (recency c)"
    "map_of (entries (setLocked k v t c)) = (map_of (entries c))(k \<mapsto> e')"
    "maxEntries (setLocked k v t c) = maxEntries c"
proof -
  have coh: "lru_coherent c" using assms(1) by (simp add: lru_ok_def)
  then have "Key e = k" using assms(2) by (simp add: lru_coherent_iff)
  then have e': "e\<lparr>Value := v, ExpiresAt := t\<rparr> = e'" by (simp add: e'_def)
  let ?c = "c\<lparr>entries := AList.update k e' (entries c)\<rparr>"
  have set: "setLocked k v t c = MoveToBack k ?c" using assms(2) e' by (simp add: setLocked_def)
  have coh': "lru_coherent ?c"
    using coh assms(2) by (auto simp: lru_coherent_iff AList.update_conv' AList.distinct_update e'_def)
  have k: "map_of (entries ?c) k = Some e'" by (simp add: AList.update_conv')
  show "map_of (entries (setLocked k v t c)) = (map_of (entries c))(k \<mapsto> e')" by (simp add: set AList.update_conv')
  show "maxEntries (setLocked k v t c) = maxEntries c" by (simp add: set)
  have "length (entries ?c) = length (order c)" using coherent_length [OF coh'] by simp
  then show "lru_ok (setLocked k v t c)"
    using coherent_move [OF coh', of k] coherent_length [OF coh] assms(1) k
    by (simp add: set lru_ok_def)
  have rest: "filter (\<lambda>(k', _). k' \<noteq> k) (recency ?c) = filter (\<lambda>(k', _). k' \<noteq> k) (recency c)"
    by (simp add: recency_def filter_map comp_def AList.update_conv')
  have "k \<in> set (order c)" using coherent_lookup [OF coh] assms(2) by blast
  then have "k \<in> fst ` set (recency c)" by (metis keys_recency set_map)
  then show "recency (setLocked k v t c) = queue_set (maxEntries c) k e' (recency c)"
    using recency_move [OF coh' k] by (simp add: set rest queue_set_def)
qed

lemma setLocked_absent_room:
  fixes c :: "('k, 'v) TTLLRU" and v :: 'v and t :: time
  assumes "lru_coherent c" "1 \<le> maxEntries c" "map_of (entries c) k = None" "int (length (entries c)) < maxEntries c"
  defines "e' \<equiv> \<lparr>Key = k, Value = v, ExpiresAt = t\<rparr>"
  shows "lru_ok (setLocked k v t c)" "recency (setLocked k v t c) = recency c @ [(k, e')]"
    "map_of (entries (setLocked k v t c)) = (map_of (entries c))(k \<mapsto> e')"
    "maxEntries (setLocked k v t c) = maxEntries c"
proof -
  let ?c = "c\<lparr>entries := AList.update k e' (entries c), order := order c @ [k]\<rparr>"
  have set: "setLocked k v t c = ?c"
    using assms(3,4) by (simp add: setLocked_def evict_room e'_def)
  have k: "k \<notin> set (order c)" using assms(1,3) by (simp add: lru_coherent_iff)
  have coh: "lru_coherent ?c"
    using assms(1) k by (auto simp: lru_coherent_iff AList.update_conv' AList.distinct_update e'_def)
  then have "length (entries ?c) = Suc (length (entries c))"
    using coherent_length [OF coh] coherent_length [OF assms(1)] by simp
  then show "lru_ok (setLocked k v t c)" using coh assms(2,4) by (simp add: set lru_ok_def)
  show "map_of (entries (setLocked k v t c)) = (map_of (entries c))(k \<mapsto> e')" by (simp add: set AList.update_conv')
  show "maxEntries (setLocked k v t c) = maxEntries c" by (simp add: set)
  show "recency (setLocked k v t c) = recency c @ [(k, e')]"
    using k by (auto simp: set recency_def AList.update_conv')
qed

lemma setLocked_absent_full:
  fixes c :: "('k, 'v) TTLLRU" and v :: 'v and t :: time
  assumes "lru_ok c" "map_of (entries c) k = None" "int (length (entries c)) \<ge> maxEntries c"
  defines "e' \<equiv> \<lparr>Key = k, Value = v, ExpiresAt = t\<rparr>"
  shows "lru_ok (setLocked k v t c)" "recency (setLocked k v t c) = tl (recency c) @ [(k, e')]"
    "maxEntries (setLocked k v t c) = maxEntries c"
    "\<exists>f fs. order c = f # fs \<and>
       map_of (entries (setLocked k v t c)) = (map_of (entries c))(f := None, k \<mapsto> e')"
proof -
  have coh: "lru_coherent c" and full: "int (length (entries c)) = maxEntries c"
    using assms(1,3) by (auto simp: lru_ok_def)
  then obtain f fs where f: "order c = f # fs"
    using coherent_length [OF coh] assms(1) by (cases "order c") (auto simp: lru_ok_def)
  let ?c = "removeElementLocked f c"
  have ev: "evict_front c = ?c" by (rule evict_full [OF assms(1) full f])
  have coh': "lru_coherent ?c" using coh by (rule coherent_remove)
  have room: "int (length (entries ?c)) < maxEntries ?c"
    using coherent_length [OF coh'] coherent_length [OF coh] f full by simp
  have abs: "map_of (entries ?c) k = None" using assms(2) by simp
  have "setLocked k v t c = setLocked k v t ?c"
    using assms(2) abs by (simp only: setLocked_def ev evict_room [OF room] option.case)
  moreover have "1 \<le> maxEntries ?c" using assms(1) by (simp add: lru_ok_def)
  note r = setLocked_absent_room [OF coh' this abs room]
  ultimately show "lru_ok (setLocked k v t c)" "maxEntries (setLocked k v t c) = maxEntries c"
    "\<exists>f fs. order c = f # fs \<and>
       map_of (entries (setLocked k v t c)) = (map_of (entries c))(f := None, k \<mapsto> e')"
    "recency (setLocked k v t c) = tl (recency c) @ [(k, e')]"
    using r f by (simp_all add: e'_def recency_remove coh) (simp add: recency_def f, use coh in \<open>auto simp: lru_coherent_def f intro!: filter_True\<close>)
qed

lemma setLocked_queue:
  assumes "lru_ok c"
  shows "lru_ok (setLocked k v t c) \<and> maxEntries (setLocked k v t c) = maxEntries c \<and>
    recency (setLocked k v t c) =
      queue_set (maxEntries c) k \<lparr>Key = k, Value = v, ExpiresAt = t\<rparr> (recency c)"
proof (cases "map_of (entries c) k")
  case (Some e)
  then show ?thesis using setLocked_present [OF assms Some] by simp
next
  case None
  have coh: "lru_coherent c" "1 \<le> maxEntries c" using assms by (auto simp: lru_ok_def)
  then have "k \<notin> set (order c)" using None by (simp add: lru_coherent_iff)
  then have k: "k \<notin> fst ` set (recency c)" by (metis keys_recency set_map)
  show ?thesis
  proof (cases "int (length (entries c)) < maxEntries c")
    case True
    then show ?thesis
      using setLocked_absent_room [OF coh None True] k by (simp add: queue_set_def length_recency coh)
  next
    case False
    then show ?thesis
      using setLocked_absent_full [OF assms None] k by (simp add: queue_set_def length_recency coh)
  qed
qed

lemma remove_walk_spec:
  assumes "lru_coherent c" "distinct ks"
  shows "let (r, c') = remove_walk m ks n c in
    lru_coherent c' \<and> maxEntries c' = maxEntries c \<and>
    map_of (entries c') =
      (\<lambda>k. if k \<in> set ks \<and> (\<exists>e. map_of (entries c) k = Some e \<and> m e) then None else map_of (entries c) k) \<and>
    order c' = filter (\<lambda>k. \<not> (k \<in> set ks \<and> (\<exists>e. map_of (entries c) k = Some e \<and> m e))) (order c) \<and>
    r = n + int (length (filter (\<lambda>k. \<exists>e. map_of (entries c) k = Some e \<and> m e) ks))"
  using assms
proof (induction m ks n c rule: remove_walk.induct)
  case (1 m n c)
  then show ?case by simp
next
  case (2 m k ks n c)
  show ?case
  proof (cases "\<exists>e. map_of (entries c) k = Some e \<and> m e")
    case True
    then obtain e where e: "map_of (entries c) k = Some e" "m e" by blast
    have k: "k \<notin> set ks" "distinct ks" using "2.prems"(2) by auto
    have same: "map_of (entries (removeElementLocked k c)) x = map_of (entries c) x" if "x \<in> set ks" for x
      using that k(1) by auto
    have "filter (\<lambda>x. \<exists>e. map_of (entries (removeElementLocked k c)) x = Some e \<and> m e) ks =
        filter (\<lambda>x. \<exists>e. map_of (entries c) x = Some e \<and> m e) ks"
      using same by (intro filter_cong) auto
    moreover have "distinct (order c)" using "2.prems"(1) by (simp add: lru_coherent_def)
    ultimately show ?thesis
      using "2.IH"(2) [OF e] coherent_remove [OF "2.prems"(1), of k] k e
      by (auto simp: Let_def distinct_remove1_filter fun_eq_iff intro!: filter_cong split: prod.splits)
  next
    case False
    then have "remove_walk m (k # ks) n c = remove_walk m ks n c"
      by (auto split: option.splits)
    moreover have "let (r, c') = remove_walk m ks n c in
      lru_coherent c' \<and> maxEntries c' = maxEntries c \<and>
      map_of (entries c') =
        (\<lambda>k. if k \<in> set ks \<and> (\<exists>e. map_of (entries c) k = Some e \<and> m e) then None else map_of (entries c) k) \<and>
      order c' = filter (\<lambda>k. \<not> (k \<in> set ks \<and> (\<exists>e. map_of (entries c) k = Some e \<and> m e))) (order c) \<and>
      r = n + int (length (filter (\<lambda>k. \<exists>e. map_of (entries c) k = Some e \<and> m e) ks))"
      using "2.IH"(1,3) "2.prems" False by (cases "map_of (entries c) k") auto
    ultimately show ?thesis using False by (auto simp: Let_def fun_eq_iff intro!: filter_cong)
  qed
qed

lemma walk_all:
  assumes "lru_ok c" "remove_walk m (order c) 0 c = (r, c')"
  shows "lru_ok c' \<and> maxEntries c' = maxEntries c \<and>
    map_of (entries c') = (\<lambda>k. case map_of (entries c) k of Some e \<Rightarrow> if m e then None else Some e | None \<Rightarrow> None) \<and>
    recency c' = filter (\<lambda>(_, e). \<not> m e) (recency c) \<and>
    r = int (length (recency c)) - int (length (recency c'))"
proof -
  have coh: "lru_coherent c" "distinct (order c)" using assms(1) by (auto simp: lru_ok_def lru_coherent_def)
  note spec = remove_walk_spec [OF coh, of m 0, unfolded assms(2) Let_def prod.case]
  have look: "map_of (entries c) k \<noteq> None \<longleftrightarrow> k \<in> set (order c)" for k
    using coh(1) by (simp add: lru_coherent_iff)
  have mo: "map_of (entries c') = (\<lambda>k. case map_of (entries c) k of Some e \<Rightarrow> if m e then None else Some e | None \<Rightarrow> None)"
    using spec look by (fastforce split: option.splits)
  have keep: "(\<not> (k \<in> set (order c) \<and> (\<exists>e. map_of (entries c) k = Some e \<and> m e))) \<longleftrightarrow>
      \<not> m (the (map_of (entries c) k))" if "k \<in> set (order c)" for k
    using that look [of k] by auto
  have "order c' = filter (\<lambda>k. \<not> (k \<in> set (order c) \<and> (\<exists>e. map_of (entries c) k = Some e \<and> m e))) (order c)"
    using spec by blast
  also have "\<dots> = filter (\<lambda>k. \<not> m (the (map_of (entries c) k))) (order c)"
    using keep by (intro filter_cong refl) blast
  finally have ord: "order c' = filter (\<lambda>k. \<not> m (the (map_of (entries c) k))) (order c)" .
  have hit: "filter (\<lambda>k. \<exists>e. map_of (entries c) k = Some e \<and> m e) (order c) =
      filter (\<lambda>k. m (the (map_of (entries c) k))) (order c)"
    using keep by (intro filter_cong refl) blast
  have rec: "recency c' = filter (\<lambda>(_, e). \<not> m e) (recency c)"
    unfolding recency_def ord filter_map comp_def
    by (auto simp: mo look [symmetric] intro!: map_cong filter_cong)
  have "length (filter (\<lambda>k. \<exists>e. map_of (entries c) k = Some e \<and> m e) (order c)) + length (order c') = length (order c)"
    unfolding ord hit by (rule sum_length_filter_compl)
  moreover have "r = int (length (filter (\<lambda>k. \<exists>e. map_of (entries c) k = Some e \<and> m e) (order c)))"
    using spec by simp
  ultimately have r: "r = int (length (recency c)) - int (length (recency c'))"
    by (simp add: recency_def)
  have "length (recency c') \<le> length (recency c)" unfolding rec by (rule length_filter_le)
  then have "length (entries c') \<le> length (entries c)"
    using length_recency [OF coh(1)] length_recency [of c'] spec by simp
  then show ?thesis using spec mo rec r assms(1) by (auto simp: lru_ok_def)
qed

section \<open>Histories\<close>

text \<open>A history is a list of calls; \<open>queue_apply\<close> is what a call does to the abstract queue.\<close>

datatype ('k, 'v) lru_op =
    OpSetUntil 'k 'v time
  | OpAddIfAbsent 'k 'v time time
  | OpGetAt 'k time
  | OpDeleteExpired 'k time
  | OpDelete 'k
  | OpDeleteWhere "('k, 'v) Entry \<Rightarrow> bool"
  | OpSweep time

fun lru_apply :: "('k, 'v) lru_op \<Rightarrow> ('k, 'v) TTLLRU \<Rightarrow> ('k, 'v) TTLLRU" where
  "lru_apply (OpSetUntil k v t) c = SetUntil k v t c"
| "lru_apply (OpAddIfAbsent k v t now) c = snd (AddIfAbsent k v t now c)"
| "lru_apply (OpGetAt k now) c = snd (GetAt k now c)"
| "lru_apply (OpDeleteExpired k now) c = snd (DeleteExpired k now c)"
| "lru_apply (OpDelete k) c = snd (lru_Delete k c)"
| "lru_apply (OpDeleteWhere m) c = snd (DeleteWhere m c)"
| "lru_apply (OpSweep now) c = snd (lru_Sweep now c)"

definition queue_drop :: "'k \<Rightarrow> ('k \<times> 'e) list \<Rightarrow> ('k \<times> 'e) list" where
  "queue_drop k q = filter (\<lambda>(k', _). k' \<noteq> k) q"

fun queue_apply ::
    "int \<Rightarrow> ('k, 'v) lru_op \<Rightarrow> ('k \<times> ('k, 'v) Entry) list \<Rightarrow> ('k \<times> ('k, 'v) Entry) list" where
  "queue_apply cap (OpSetUntil k v t) q =
     (if t = zero_time then q else queue_set cap k \<lparr>Key = k, Value = v, ExpiresAt = t\<rparr> q)"
| "queue_apply cap (OpAddIfAbsent k v t now) q =
     (if t = zero_time then q
      else case map_of q k of
        Some e \<Rightarrow> if ExpiresAt e > now then queue_drop k q @ [(k, e)]
                  else queue_drop k q @ [(k, \<lparr>Key = k, Value = v, ExpiresAt = t\<rparr>)]
      | None \<Rightarrow> queue_set cap k \<lparr>Key = k, Value = v, ExpiresAt = t\<rparr> q)"
| "queue_apply cap (OpGetAt k now) q =
     (case map_of q k of Some e \<Rightarrow> if ExpiresAt e > now then queue_drop k q @ [(k, e)] else queue_drop k q
      | None \<Rightarrow> q)"
| "queue_apply cap (OpDeleteExpired k now) q = filter (\<lambda>(k', e). k' \<noteq> k \<or> ExpiresAt e > now) q"
| "queue_apply cap (OpDelete k) q = queue_drop k q"
| "queue_apply cap (OpDeleteWhere m) q = filter (\<lambda>(_, e). \<not> m e) q"
| "queue_apply cap (OpSweep now) q = filter (\<lambda>(_, e). ExpiresAt e > now) q"

lemma lru_ok_remove: "lru_ok c \<Longrightarrow> lru_ok (removeElementLocked k c)"
  using coherent_length [of c] coherent_length [of "removeElementLocked k c"] coherent_remove [of c k]
    length_remove1 [of k "order c"]
  by (auto simp: lru_ok_def split: if_splits)

lemma lru_ok_move: "lru_ok c \<Longrightarrow> map_of (entries c) k \<noteq> None \<Longrightarrow> lru_ok (MoveToBack k c)"
  by (simp add: lru_ok_def coherent_move)

lemma queue_drop_absent: "map_of q k = None \<Longrightarrow> queue_drop k q = q"
  by (force simp: queue_drop_def map_of_eq_None_iff intro!: filter_True)

lemma removed_room:
  assumes "lru_ok c" "map_of (entries c) k = Some e"
  shows "int (length (entries (removeElementLocked k c))) < maxEntries c"
proof -
  have coh: "lru_coherent c" using assms(1) by (simp add: lru_ok_def)
  then have "k \<in> set (order c)" using assms(2) by (simp add: lru_coherent_iff)
  then have "length (remove1 k (order c)) < length (order c)"
    by (metis One_nat_def diff_less length_pos_if_in_set length_remove1 zero_less_one)
  then show ?thesis
    using coherent_length [OF coh] coherent_length [OF coherent_remove [OF coh], of k] assms(1)
    by (simp add: lru_ok_def)
qed

lemma AddIfAbsent_cases:
  assumes "lru_ok c" "t \<noteq> zero_time"
  shows "AddIfAbsent k v t now c =
    (case map_of (entries c) k of
       Some e \<Rightarrow> if ExpiresAt e > now then (False, MoveToBack k c)
                 else (True, setLocked k v t (removeElementLocked k c))
     | None \<Rightarrow> (True, setLocked k v t c))"
  using assms(2) by (simp add: AddIfAbsent_def)

lemma lru_apply_refines:
  assumes "lru_ok c"
  shows "lru_ok (lru_apply x c) \<and> maxEntries (lru_apply x c) = maxEntries c \<and>
    recency (lru_apply x c) = queue_apply (maxEntries c) x (recency c)"
proof -
  have coh: "lru_coherent c" using assms by (simp add: lru_ok_def)
  note look = map_of_recency [OF coh]
  show ?thesis
  proof (cases x)
    case (OpSetUntil k v t)
    then show ?thesis using setLocked_queue [OF assms, of k v t] assms by (simp add: SetUntil_def)
  next
    case (OpAddIfAbsent k v t now)
    show ?thesis
    proof (cases "t = zero_time")
      case True
      then show ?thesis using OpAddIfAbsent assms by (simp add: AddIfAbsent_def)
    next
      case False
      show ?thesis
      proof (cases "map_of (entries c) k")
        case None
        then show ?thesis
          using OpAddIfAbsent False setLocked_queue [OF assms, of k v t] by (simp add: AddIfAbsent_def look)
      next
        case (Some e)
        have abs: "map_of (entries (removeElementLocked k c)) k = None" by simp
        have "1 \<le> maxEntries (removeElementLocked k c)" using assms by (simp add: lru_ok_def)
        note rm = setLocked_absent_room [OF coherent_remove [OF coh] this abs, of v t]
        show ?thesis
          using OpAddIfAbsent False Some rm removed_room [OF assms Some] lru_ok_move [OF assms, of k]
          by (simp add: AddIfAbsent_def look recency_move [OF coh Some] recency_remove [OF coh] queue_drop_def)
      qed
    qed
  next
    case (OpGetAt k now)
    then show ?thesis
      using assms lru_ok_remove [OF assms, of k] lru_ok_move [OF assms, of k]
      by (auto simp: GetAt_def look recency_move [OF coh] recency_remove [OF coh] queue_drop_def
          split: option.splits)
  next
    case (OpDeleteExpired k now)
    have same: "filter (\<lambda>(k', e). k' \<noteq> k \<or> ExpiresAt e > now) (recency c) =
        (case map_of (entries c) k of
           Some e \<Rightarrow> if now < ExpiresAt e then recency c else filter (\<lambda>(k', _). k' \<noteq> k) (recency c)
         | None \<Rightarrow> recency c)"
      using coherent_lookup [OF coh, of k]
      by (auto simp: recency_def split: option.splits intro!: filter_True filter_cong)
    show ?thesis
      using OpDeleteExpired assms lru_ok_remove [OF assms, of k] same
      by (auto simp: DeleteExpired_def recency_remove [OF coh] split: option.splits)
  next
    case (OpDelete k)
    then show ?thesis
      using assms lru_ok_remove [OF assms, of k] queue_drop_absent [of "recency c" k]
      by (auto simp: lru_Delete_def look recency_remove [OF coh] queue_drop_def split: option.splits)
  next
    case (OpDeleteWhere m)
    then show ?thesis
      using walk_all [OF assms, of m]
      by (cases "remove_walk m (order c) 0 c") (simp add: DeleteWhere_def)
  next
    case (OpSweep now)
    then show ?thesis
      using walk_all [OF assms, of "\<lambda>e. \<not> ExpiresAt e > now"]
      by (cases "remove_walk (\<lambda>e. \<not> ExpiresAt e > now) (order c) 0 c") (simp add: lru_Sweep_def)
  qed
qed

section \<open>The contract clients rely on\<close>

definition expiry :: "('k, 'v) TTLLRU \<Rightarrow> 'k \<Rightarrow> time option" where
  "expiry c k = map_option ExpiresAt (map_of (entries c) k)"

definition unexpired :: "time \<Rightarrow> time option \<Rightarrow> bool" where
  "unexpired now x \<longleftrightarrow> (case x of Some e \<Rightarrow> now < e | None \<Rightarrow> False)"

lemma unexpired_simps [simp]: "unexpired now None = False" "unexpired now (Some e) = (now < e)"
  by (simp_all add: unexpired_def)

lemma unexpired_iff: "unexpired now x \<longleftrightarrow> (\<exists>e. x = Some e \<and> now < e)"
  by (cases x) simp_all

text \<open>
  A store of keys with expiry times and a capacity. Nothing is promised about which entry an
  insertion evicts when the store is full: clients that must not lose live entries check for
  room first.
\<close>

locale ttl_store =
  fixes inv :: "'s \<Rightarrow> bool" and look :: "'s \<Rightarrow> 'k \<Rightarrow> time option"
    and len :: "'s \<Rightarrow> int" and cap :: "'s \<Rightarrow> int"
    and sweep :: "time \<Rightarrow> 's \<Rightarrow> 's"
    and getAt :: "'k \<Rightarrow> time \<Rightarrow> 's \<Rightarrow> bool \<times> 's"
    and add :: "'k \<Rightarrow> time \<Rightarrow> time \<Rightarrow> 's \<Rightarrow> bool \<times> 's"
    and put :: "'k \<Rightarrow> time \<Rightarrow> 's \<Rightarrow> 's"
    and del :: "'k \<Rightarrow> 's \<Rightarrow> 's"
  assumes finite_look: "inv s \<Longrightarrow> finite (dom (look s))"
    and len_card: "inv s \<Longrightarrow> len s = int (card (dom (look s)))"
    and len_cap: "inv s \<Longrightarrow> len s \<le> cap s"
    and sweep_law: "inv s \<Longrightarrow> inv (sweep now s) \<and> cap (sweep now s) = cap s \<and>
          look (sweep now s) k = (if unexpired now (look s k) then look s k else None)"
    and get_law: "inv s \<Longrightarrow> getAt k now s = (b, s') \<Longrightarrow> inv s' \<and> cap s' = cap s \<and>
          b = unexpired now (look s k) \<and> look s' k' = (if k' = k \<and> \<not> b then None else look s k')"
    and add_law: "inv s \<Longrightarrow> t \<noteq> zero_time \<Longrightarrow> add k t now s = (b, s') \<Longrightarrow> inv s' \<and> cap s' = cap s \<and>
          b = (\<not> unexpired now (look s k)) \<and> (\<not> b \<longrightarrow> look s' = look s) \<and>
          (b \<longrightarrow> len s < cap s \<or> look s k \<noteq> None \<longrightarrow> look s' = (look s)(k \<mapsto> t))"
    and add_zero: "add k zero_time now s = (False, s)"
    and put_law: "inv s \<Longrightarrow> t \<noteq> zero_time \<Longrightarrow> inv (put k t s) \<and> cap (put k t s) = cap s \<and>
          (len s < cap s \<or> look s k \<noteq> None \<longrightarrow> look (put k t s) = (look s)(k \<mapsto> t))"
    and del_law: "inv s \<Longrightarrow> inv (del k s) \<and> cap (del k s) = cap s \<and> look (del k s) = (look s)(k := None)"
begin

lemma sweep_live: "inv s \<Longrightarrow> look (sweep now s) k = Some e \<longleftrightarrow> look s k = Some e \<and> now < e"
  using sweep_law [of s now k] by (auto simp: unexpired_iff)

lemma sweep_inv: "inv s \<Longrightarrow> inv (sweep now s)" "inv s \<Longrightarrow> cap (sweep now s) = cap s"
  using sweep_law by blast+

text \<open>After a sweep the entries counted are exactly the live ones.\<close>

lemma len_after_sweep:
  assumes "inv s"
  shows "len (sweep now s) = int (card {k. unexpired now (look s k)})"
proof -
  have "dom (look (sweep now s)) = {k. unexpired now (look s k)}"
    using sweep_law [OF assms] by (auto simp: dom_def unexpired_iff split: if_splits)
  then show ?thesis using len_card [OF sweep_inv(1) [OF assms]] by simp
qed

text \<open>Adding with room never loses an entry other than the expired one it replaces.\<close>

lemma add_room:
  assumes "inv s" "len s < cap s" "add k t now s = (b, s')"
  shows "b \<Longrightarrow> look s' = (look s)(k \<mapsto> t)" "\<not> b \<Longrightarrow> look s' = look s"
    "b \<Longrightarrow> \<not> unexpired now (look s k)" "inv s'" "cap s' = cap s" "len s' \<le> len s + 1"
proof -
  have facts: "inv s' \<and> cap s' = cap s \<and> (b \<longrightarrow> look s' = (look s)(k \<mapsto> t)) \<and>
      (\<not> b \<longrightarrow> look s' = look s) \<and> (b \<longrightarrow> \<not> unexpired now (look s k))"
  proof (cases "t = zero_time")
    case True
    then have "b = False" "s' = s" using assms(3) add_zero [of k now s] by simp_all
    then show ?thesis using assms(1) by simp
  next
    case False
    from add_law [OF assms(1) False assms(3)] assms(2) show ?thesis by blast
  qed
  then show "b \<Longrightarrow> look s' = (look s)(k \<mapsto> t)" "\<not> b \<Longrightarrow> look s' = look s"
    "b \<Longrightarrow> \<not> unexpired now (look s k)" "inv s'" "cap s' = cap s"
    by blast+
  have "card (dom (look s')) \<le> card (dom (look s)) + 1"
    using facts finite_look [OF assms(1)] by (cases b) (simp_all add: card_insert_if)
  then show "len s' \<le> len s + 1"
    using len_card [OF assms(1)] len_card [of s'] facts by simp
qed

end

lemma length_entries_card: "lru_coherent c \<Longrightarrow> length (entries c) = card (dom (expiry c))"
proof -
  assume "lru_coherent c"
  then have "length (entries c) = card (fst ` set (entries c))"
    unfolding lru_coherent_def by (metis distinct_card length_map set_map)
  also have "fst ` set (entries c) = dom (expiry c)"
    by (simp add: expiry_def dom_def flip: dom_map_of_conv_image_fst)
  finally show ?thesis .
qed

lemma expiry_setLocked:
  assumes "lru_ok c" "lru_Len c < lru_Cap c \<or> expiry c k \<noteq> None"
  shows "expiry (setLocked k v t c) = (expiry c)(k \<mapsto> t)"
proof (cases "map_of (entries c) k")
  case None
  then have "int (length (entries c)) < maxEntries c"
    using assms(2) by (simp add: expiry_def lru_Len_def lru_Cap_def)
  moreover have "lru_coherent c" "1 \<le> maxEntries c" using assms(1) by (auto simp: lru_ok_def)
  ultimately show ?thesis
    using setLocked_absent_room(3) [of c k v t] None by (simp add: expiry_def fun_eq_iff)
next
  case (Some e)
  show ?thesis
    using setLocked_present(3) [OF assms(1) Some, of v t] by (simp add: expiry_def fun_eq_iff)
qed

lemma lru_ok_setLocked: "lru_ok c \<Longrightarrow> lru_ok (setLocked k v t c)"
  and maxEntries_setLocked: "lru_ok c \<Longrightarrow> maxEntries (setLocked k v t c) = maxEntries c"
  by (simp_all add: setLocked_queue)

lemma expiry_sweep:
  assumes "lru_ok c"
  shows "lru_ok (snd (lru_Sweep now c))" "maxEntries (snd (lru_Sweep now c)) = maxEntries c"
    "expiry (snd (lru_Sweep now c)) k = (if unexpired now (expiry c k) then expiry c k else None)"
proof -
  obtain r c' where c': "remove_walk (\<lambda>entry. \<not> ExpiresAt entry > now) (order c) 0 c = (r, c')"
    by (rule prod.exhaust)
  from walk_all [OF assms c'] show "lru_ok (snd (lru_Sweep now c))"
    "maxEntries (snd (lru_Sweep now c)) = maxEntries c"
    "expiry (snd (lru_Sweep now c)) k = (if unexpired now (expiry c k) then expiry c k else None)"
    by (auto simp: lru_Sweep_def c' expiry_def split: option.splits)
qed

lemma GetAt_law:
  assumes "lru_ok c" "GetAt k now c = (v, c')"
  shows "lru_ok c'" "maxEntries c' = maxEntries c" "v \<noteq> None \<longleftrightarrow> unexpired now (expiry c k)"
    "map_of (entries c') k' = (if k' = k \<and> v = None then None else map_of (entries c) k')"
  using assms lru_ok_remove [OF assms(1), of k] lru_ok_move [OF assms(1), of k]
  by (auto simp: GetAt_def expiry_def split: option.splits if_splits)

lemma AddIfAbsent_law:
  assumes "lru_ok c" "t \<noteq> zero_time" "AddIfAbsent k v t now c = (b, c')"
  shows "lru_ok c' \<and> maxEntries c' = maxEntries c \<and> b = (\<not> unexpired now (expiry c k)) \<and>
    (\<not> b \<longrightarrow> expiry c' = expiry c) \<and>
    (b \<longrightarrow> lru_Len c < lru_Cap c \<or> expiry c k \<noteq> None \<longrightarrow> expiry c' = (expiry c)(k \<mapsto> t))"
proof (cases "map_of (entries c) k")
  case None
  then show ?thesis
    using assms expiry_setLocked [OF assms(1), of k v t] lru_ok_setLocked [OF assms(1)]
      maxEntries_setLocked [OF assms(1)]
    by (auto simp: AddIfAbsent_def expiry_def)
next
  case (Some e)
  show ?thesis
  proof (cases "now < ExpiresAt e")
    case True
    then show ?thesis
      using assms Some lru_ok_move [OF assms(1), of k] by (auto simp: AddIfAbsent_def expiry_def)
  next
    case False
    let ?c = "removeElementLocked k c"
    have ok: "lru_ok ?c" using assms(1) by (rule lru_ok_remove)
    have "lru_Len ?c < lru_Cap ?c"
      using removed_room [OF assms(1) Some] by (simp add: lru_Len_def lru_Cap_def)
    then have "expiry (setLocked k v t ?c) = (expiry ?c)(k \<mapsto> t)"
      using expiry_setLocked [OF ok] by blast
    moreover have "(expiry ?c)(k \<mapsto> t) = (expiry c)(k \<mapsto> t)" by (auto simp: expiry_def)
    ultimately show ?thesis
      using assms Some False lru_ok_setLocked [OF ok] maxEntries_setLocked [OF ok]
      by (auto simp: AddIfAbsent_def expiry_def)
  qed
qed

interpretation lru: ttl_store lru_ok expiry lru_Len lru_Cap
  "\<lambda>now c. snd (lru_Sweep now c)" "\<lambda>k now c. map_prod (\<lambda>v. v \<noteq> None) id (GetAt k now c)"
  "\<lambda>k t now c. AddIfAbsent k () t now c" "\<lambda>k t c. SetUntil k () t c" "\<lambda>k c. snd (lru_Delete k c)"
proof unfold_locales
  fix c :: "('k, unit) TTLLRU"
  assume ok: "lru_ok c"
  show "finite (dom (expiry c))"
    by (rule finite_subset [OF _ finite_dom_map_of [of "entries c"]]) (auto simp: expiry_def)
  show "lru_Len c = int (card (dom (expiry c)))"
    using ok by (simp add: lru_Len_def lru_ok_def length_entries_card)
  show "lru_Len c \<le> lru_Cap c"
    using ok by (simp add: lru_Len_def lru_Cap_def lru_ok_def)
next
  fix c c' :: "('k, unit) TTLLRU" and k k' :: 'k and now t :: time and b :: bool
  assume ok: "lru_ok c"
  show "lru_ok (snd (lru_Sweep now c)) \<and> lru_Cap (snd (lru_Sweep now c)) = lru_Cap c \<and>
      expiry (snd (lru_Sweep now c)) k = (if unexpired now (expiry c k) then expiry c k else None)"
    using expiry_sweep [OF ok] by (simp add: lru_Cap_def)
  show "lru_ok c' \<and> lru_Cap c' = lru_Cap c \<and> b = unexpired now (expiry c k) \<and>
      expiry c' k' = (if k' = k \<and> \<not> b then None else expiry c k')"
    if "map_prod (\<lambda>v. v \<noteq> None) id (GetAt k now c) = (b, c')"
    using that GetAt_law [OF ok, of k now]
    by (cases "GetAt k now c") (auto simp: lru_Cap_def expiry_def)
  show "lru_ok c' \<and> lru_Cap c' = lru_Cap c \<and> b = (\<not> unexpired now (expiry c k)) \<and>
      (\<not> b \<longrightarrow> expiry c' = expiry c) \<and>
      (b \<longrightarrow> lru_Len c < lru_Cap c \<or> expiry c k \<noteq> None \<longrightarrow> expiry c' = (expiry c)(k \<mapsto> t))"
    if "t \<noteq> zero_time" "AddIfAbsent k () t now c = (b, c')"
    using AddIfAbsent_law [OF ok that] by (simp add: lru_Cap_def)
  show "lru_ok (SetUntil k () t c) \<and> lru_Cap (SetUntil k () t c) = lru_Cap c \<and>
      (lru_Len c < lru_Cap c \<or> expiry c k \<noteq> None \<longrightarrow> expiry (SetUntil k () t c) = (expiry c)(k \<mapsto> t))"
    if "t \<noteq> zero_time"
    using that expiry_setLocked [OF ok] lru_ok_setLocked [OF ok] maxEntries_setLocked [OF ok]
    by (simp add: SetUntil_def lru_Cap_def)
  show "lru_ok (snd (lru_Delete k c)) \<and> lru_Cap (snd (lru_Delete k c)) = lru_Cap c \<and>
      expiry (snd (lru_Delete k c)) = (expiry c)(k := None)"
    using ok lru_ok_remove [OF ok, of k] by (auto simp: lru_Delete_def lru_Cap_def expiry_def split: option.splits)
next
  show "AddIfAbsent k () zero_time now c = (False, c)" for k :: 'k and now and c :: "('k, unit) TTLLRU"
    by (simp add: AddIfAbsent_def)
qed

section \<open>Properties\<close>

lemma lru_ok_New [simp]: "lru_ok (NewTTLLRU n)" "maxEntries (NewTTLLRU n) = max 1 n" "recency (NewTTLLRU n) = []"
  by (auto simp: lru_ok_def lru_coherent_def NewTTLLRU_def recency_def)

lemma history_refines:
  "lru_ok c \<Longrightarrow> lru_ok (fold lru_apply ops c) \<and> maxEntries (fold lru_apply ops c) = maxEntries c \<and>
   recency (fold lru_apply ops c) = fold (queue_apply (maxEntries c)) ops (recency c)"
  by (induction ops arbitrary: c) (simp_all add: lru_apply_refines)

text \<open>
  Property C5. The cache refines a queue of entries ordered by recency. After any history of
  calls on a new cache, map and linked list hold the same keys without duplicates, there are at
  most \<open>maxEntries\<close> of them, and the entries in the order of the linked list are what the same
  history makes of the abstract queue, in which an insertion into a full queue drops exactly
  the least recently used entry.
\<close>

theorem TTLLRU_refines_queue:
  "lru_ok (fold lru_apply ops (NewTTLLRU n)) \<and>
   recency (fold lru_apply ops (NewTTLLRU n)) = fold (queue_apply (max 1 n)) ops []"
  using history_refines [of "NewTTLLRU n" ops] by simp

end
