(* ===== verification/Replay.thy ===== *)
theory Replay
  imports TTL_LRU
begin

text \<open>
  The two nonce replay caches: \<open>MemoryReplayCache\<close> of auth/replay.go (TCP authentication and
  UDP knocks) and \<open>synReplayCache\<close> of knock/replay.go (SYN knocks). Both key accepted nonces by
  client and keep them for \<open>ttl\<close> in a TTL/LRU cache; both must fail closed when the cache is full
  rather than let its LRU eviction forget a live nonce. The locale \<open>replay_cache\<close> states that
  contract, shows that a nonce is accepted at most once per \<open>ttl\<close> along any history, and is
  interpreted on both caches. \<open>c.now()\<close> and \<open>time.Now()\<close> are arguments.
\<close>

section \<open>Keys\<close>

definition hex_digit :: "nat \<Rightarrow> char" where
  "hex_digit n = ''0123456789abcdef'' ! n"

definition hex_EncodeToString :: "bytes \<Rightarrow> string" where
  "hex_EncodeToString bs = concat (map (\<lambda>b. [hex_digit (unat b div 16), hex_digit (unat b mod 16)]) bs)"

definition replay_key :: "string \<Rightarrow> bytes \<Rightarrow> string" where
  "replay_key clientID nonce = clientID @ [CHR 0x00] @ hex_EncodeToString nonce"

lemma hex_digit_inj: "m < 16 \<Longrightarrow> n < 16 \<Longrightarrow> hex_digit m = hex_digit n \<longleftrightarrow> m = n"
  unfolding hex_digit_def by (rule nth_eq_iff_index_eq) simp_all

lemma hex_digit_not_zero: "n < 16 \<Longrightarrow> hex_digit n \<noteq> CHR 0x00"
  using nth_mem [of n "''0123456789abcdef''"] unfolding hex_digit_def by auto

lemma byte_nibble: "unat (b :: byte) div 16 < 16"
  by (rule less_mult_imp_div_less) simp

lemma hex_no_zero: "CHR 0x00 \<notin> set (hex_EncodeToString bs)"
  by (induction bs)
    (auto simp: hex_EncodeToString_def hex_digit_not_zero hex_digit_not_zero [symmetric] byte_nibble)

lemma hex_inj: "hex_EncodeToString a = hex_EncodeToString b \<longleftrightarrow> a = b"
proof (induction a arbitrary: b)
  case Nil
  then show ?case by (cases b) (simp_all add: hex_EncodeToString_def)
next
  case (Cons x a)
  show ?case
  proof (cases b)
    case Nil
    then show ?thesis by (simp add: hex_EncodeToString_def)
  next
    case (Cons y b')
    have "hex_digit (unat x div 16) = hex_digit (unat y div 16) \<and>
        hex_digit (unat x mod 16) = hex_digit (unat y mod 16) \<longleftrightarrow> x = y"
      by (simp add: hex_digit_inj byte_nibble) (metis div_mult_mod_eq word_eq_iff_unsigned)
    then show ?thesis
      using Cons.IH [of b'] Cons by (auto simp: hex_EncodeToString_def)
  qed
qed

lemma split_at_first:
  "z \<notin> set a \<Longrightarrow> z \<notin> set b \<Longrightarrow> a @ z # c = b @ z # d \<longleftrightarrow> a = b \<and> c = d"
  by (induction a b rule: list_induct2') auto

text \<open>Different (client, nonce) pairs have different keys, whatever bytes a client id contains.\<close>

lemma replay_key_inj: "replay_key c n = replay_key c' n' \<longleftrightarrow> c = c' \<and> n = n'"
proof
  assume "replay_key c n = replay_key c' n'"
  from arg_cong [OF this, of rev]
  have "rev (hex_EncodeToString n) @ CHR 0x00 # rev c = rev (hex_EncodeToString n') @ CHR 0x00 # rev c'"
    by (simp add: replay_key_def)
  then have "c = c' \<and> hex_EncodeToString n = hex_EncodeToString n'"
    by (simp add: split_at_first hex_no_zero)
  then show "c = c' \<and> n = n'" by (simp add: hex_inj)
qed simp

section \<open>auth/replay.go\<close>

definition DefaultTimeWindow :: duration where [time_defs]: "DefaultTimeWindow = 30 * second"
definition DefaultReplayCacheMaxEntries :: int where "DefaultReplayCacheMaxEntries = 65536"

record MemoryReplayCache =
  mrc_ttl :: duration
  mrc_sweepEvery :: duration
  mrc_nextSweep :: time
  mrc_maxEntries :: int
  mrc_entries :: "(string, unit) TTLLRU"
  mrc_active :: int

definition replaySweepInterval :: "duration \<Rightarrow> duration" where
  "replaySweepInterval ttl = (if ttl \<le> 30 * second then ttl else 30 * second)"

definition NewMemoryReplayCacheWithLimit :: "duration \<Rightarrow> int \<Rightarrow> MemoryReplayCache" where
  "NewMemoryReplayCacheWithLimit ttl0 maxEntries0 =
     (let ttl = (if ttl0 \<le> 0 then DefaultTimeWindow * 2 else ttl0);
          maxEntries = (if maxEntries0 \<le> 0 then DefaultReplayCacheMaxEntries else maxEntries0)
      in \<lparr>mrc_ttl = ttl, mrc_sweepEvery = replaySweepInterval ttl, mrc_nextSweep = zero_time,
          mrc_maxEntries = maxEntries, mrc_entries = NewTTLLRU maxEntries, mrc_active = 0\<rparr>)"

definition NewMemoryReplayCache :: "duration \<Rightarrow> MemoryReplayCache" where
  "NewMemoryReplayCache ttl0 =
     (let ttl = (if ttl0 \<le> 0 then DefaultTimeWindow * 2 else ttl0)
      in NewMemoryReplayCacheWithLimit ttl DefaultReplayCacheMaxEntries)"

definition mrc_sweepLocked :: "time \<Rightarrow> MemoryReplayCache \<Rightarrow> int \<times> MemoryReplayCache" where
  "mrc_sweepLocked now c =
     (let (removed, es) = lru_Sweep now (mrc_entries c)
      in (removed, c\<lparr>mrc_entries := es, mrc_active := lru_Len es\<rparr>))"

text \<open>The sweeps at the start of \<open>CheckAndMark\<close>: one when due, one when the cache looks full.\<close>

definition mrc_prepare :: "time \<Rightarrow> MemoryReplayCache \<Rightarrow> MemoryReplayCache" where
  "mrc_prepare now c =
     (let c = (if mrc_nextSweep c = zero_time then c\<lparr>mrc_nextSweep := now + mrc_sweepEvery c\<rparr>
               else if \<not> now < mrc_nextSweep c
               then (snd (mrc_sweepLocked now c))\<lparr>mrc_nextSweep := now + mrc_sweepEvery c\<rparr>
               else c)
      in if mrc_active c \<ge> mrc_maxEntries c
         then (snd (mrc_sweepLocked now c))\<lparr>mrc_nextSweep := now + mrc_sweepEvery c\<rparr>
         else c)"

definition mrc_CheckAndMark ::
    "time \<Rightarrow> string \<Rightarrow> bytes \<Rightarrow> MemoryReplayCache \<Rightarrow> error option \<times> MemoryReplayCache" where
  "mrc_CheckAndMark now clientID nonce c0 =
     (let key = replay_key clientID nonce;
          c = mrc_prepare now c0
      in if mrc_active c \<ge> mrc_maxEntries c then
           (let (hit, es) = GetAt key now (mrc_entries c)
            in (Some (if hit \<noteq> None then AuthErrReplayDetected else AuthErrReplayCacheFull),
                c\<lparr>mrc_entries := es\<rparr>))
         else
           (let (added, es) = AddIfAbsent key () (now + mrc_ttl c) now (mrc_entries c)
            in if \<not> added then (Some AuthErrReplayDetected, c\<lparr>mrc_entries := es\<rparr>)
               else (None, c\<lparr>mrc_entries := es, mrc_active := mrc_active c + 1\<rparr>)))"

definition mrc_Sweep :: "time \<Rightarrow> MemoryReplayCache \<Rightarrow> int \<times> MemoryReplayCache" where
  "mrc_Sweep now c =
     (let (removed, c) = mrc_sweepLocked now c
      in (removed, c\<lparr>mrc_nextSweep := now + mrc_sweepEvery c\<rparr>))"

definition mrc_Len :: "MemoryReplayCache \<Rightarrow> int" where "mrc_Len c = mrc_active c"
definition mrc_Cap :: "MemoryReplayCache \<Rightarrow> int" where "mrc_Cap c = mrc_maxEntries c"

section \<open>knock/replay.go\<close>

definition defaultSYNReplayCacheMaxEntries :: int where "defaultSYNReplayCacheMaxEntries = 65536"

record synReplayCache =
  syn_ttl :: duration
  syn_sweepEvery :: duration
  syn_nextSweep :: time
  syn_maxEntries :: int
  syn_entries :: "(string, unit) TTLLRU"

definition synReplaySweepInterval :: "duration \<Rightarrow> duration" where
  "synReplaySweepInterval ttl = (if ttl \<le> 30 * second then ttl else 30 * second)"

definition newSYNReplayCache :: "duration \<Rightarrow> synReplayCache" where
  "newSYNReplayCache ttl0 =
     (let ttl = (if ttl0 \<le> 0 then 2 * minute else ttl0)
      in \<lparr>syn_ttl = ttl, syn_sweepEvery = synReplaySweepInterval ttl, syn_nextSweep = zero_time,
          syn_maxEntries = defaultSYNReplayCacheMaxEntries,
          syn_entries = NewTTLLRU defaultSYNReplayCacheMaxEntries\<rparr>)"

definition syn_prepare :: "time \<Rightarrow> synReplayCache \<Rightarrow> synReplayCache" where
  "syn_prepare now c =
     (let c = (if syn_nextSweep c = zero_time then c\<lparr>syn_nextSweep := now + syn_sweepEvery c\<rparr>
               else if \<not> now < syn_nextSweep c
               then c\<lparr>syn_entries := snd (lru_Sweep now (syn_entries c)), syn_nextSweep := now + syn_sweepEvery c\<rparr>
               else c)
      in if lru_Len (syn_entries c) \<ge> syn_maxEntries c
         then c\<lparr>syn_entries := snd (lru_Sweep now (syn_entries c)), syn_nextSweep := now + syn_sweepEvery c\<rparr>
         else c)"

definition syn_CheckAndMark ::
    "time \<Rightarrow> string \<Rightarrow> bytes \<Rightarrow> synReplayCache \<Rightarrow> error option \<times> synReplayCache" where
  "syn_CheckAndMark now clientID nonce c0 =
     (let key = replay_key clientID nonce;
          c = syn_prepare now c0
      in if lru_Len (syn_entries c) \<ge> syn_maxEntries c then
           (let (hit, es) = GetAt key now (syn_entries c)
            in (Some (if hit \<noteq> None then AuthErrReplayDetected else AuthErrReplayCacheFull),
                c\<lparr>syn_entries := es\<rparr>))
         else
           (let (added, es) = AddIfAbsent key () (now + syn_ttl c) now (syn_entries c)
            in (if \<not> added then Some AuthErrReplayDetected else None, c\<lparr>syn_entries := es\<rparr>)))"

text \<open>\<open>replayCache\<close>: the TTL of the cache a knock listener makes when it is given none.\<close>

definition knock_replay_ttl :: "duration \<Rightarrow> duration" where
  "knock_replay_ttl window =
     (let ttl = 5 * minute
      in if window > 0 \<and> dur_wrap (2 * window + second) > ttl then dur_wrap (2 * window + second) else ttl)"

section \<open>The contract of a replay cache\<close>

fun replay_run ::
    "(time \<Rightarrow> string \<Rightarrow> bytes \<Rightarrow> 's \<Rightarrow> error option \<times> 's) \<Rightarrow> 's \<Rightarrow> (time \<times> string \<times> bytes) list \<Rightarrow>
     error option list" where
  "replay_run check s [] = []"
| "replay_run check s ((t, c, n) # evs) = (let (r, s') = check t c n s in r # replay_run check s' evs)"

locale replay_cache =
  fixes inv :: "'s \<Rightarrow> bool" and ttl :: "'s \<Rightarrow> duration"
    and seen :: "'s \<Rightarrow> string \<Rightarrow> bytes \<Rightarrow> time option"
    and check :: "time \<Rightarrow> string \<Rightarrow> bytes \<Rightarrow> 's \<Rightarrow> error option \<times> 's"
  assumes check_inv: "inv s \<Longrightarrow> check now c n s = (r, s') \<Longrightarrow> inv s' \<and> ttl s' = ttl s"
    and check_accept: "inv s \<Longrightarrow> check now c n s = (None, s') \<Longrightarrow> seen s' c n = Some (now + ttl s)"
    and check_keep: "inv s \<Longrightarrow> check now c n s = (r, s') \<Longrightarrow> unexpired now (seen s c' n') \<Longrightarrow>
          seen s' c' n' = seen s c' n'"
    and check_replay: "inv s \<Longrightarrow> check now c n s = (r, s') \<Longrightarrow> unexpired now (seen s c n) \<Longrightarrow>
          r = Some AuthErrReplayDetected"
begin

lemma seen_rejected:
  assumes "inv s" "sorted (map fst evs)" "seen s c n = Some e" "j < length evs" "evs ! j = (t, c, n)" "t < e"
  shows "replay_run check s evs ! j = Some AuthErrReplayDetected"
  using assms
proof (induction evs arbitrary: s j)
  case Nil
  then show ?case by simp
next
  case (Cons ev evs)
  obtain t0 c0 n0 where ev: "ev = (t0, c0, n0)" by (rule prod_cases3)
  obtain r s' where ch: "check t0 c0 n0 s = (r, s')" by (rule prod.exhaust)
  show ?case
  proof (cases j)
    case 0
    then show ?thesis using Cons.prems ev ch check_replay [OF Cons.prems(1)] by auto
  next
    case (Suc i)
    then have i: "i < length evs" "evs ! i = (t, c, n)" using Cons.prems(4,5) by simp_all
    then have "(t, c, n) \<in> set evs" by (metis nth_mem)
    then have "t0 \<le> t" using Cons.prems(2) ev by (auto simp: image_iff)
    then have "unexpired t0 (seen s c n)" using Cons.prems(3,6) by simp
    then have "seen s' c n = Some e" using check_keep [OF Cons.prems(1) ch] Cons.prems(3) by simp
    then have "replay_run check s' evs ! i = Some AuthErrReplayDetected"
      using Cons.IH [of s' i] check_inv [OF Cons.prems(1) ch] Cons.prems(2,6) i by simp
    then show ?thesis using Suc ev ch by simp
  qed
qed

text \<open>Along a history in time order, a nonce accepted at some call is refused until \<open>ttl\<close> later.\<close>

lemma no_double_accept:
  assumes "inv s" "sorted (map fst evs)" "i < j" "j < length evs"
    "evs ! i = (t, c, n)" "evs ! j = (t', c, n)" "replay_run check s evs ! i = None" "t' < t + ttl s"
  shows "replay_run check s evs ! j = Some AuthErrReplayDetected"
  using assms
proof (induction evs arbitrary: s i j)
  case Nil
  then show ?case by simp
next
  case (Cons ev evs)
  obtain t0 c0 n0 where ev: "ev = (t0, c0, n0)" by (rule prod_cases3)
  obtain r s' where ch: "check t0 c0 n0 s = (r, s')" by (rule prod.exhaust)
  obtain j' where j: "j = Suc j'" using Cons.prems(3) by (cases j) auto
  have s': "inv s'" "ttl s' = ttl s" using check_inv [OF Cons.prems(1) ch] by auto
  show ?case
  proof (cases i)
    case 0
    then have "check t c n s = (None, s')" using Cons.prems(5,7) ev ch by simp
    then have "seen s' c n = Some (t + ttl s)" by (rule check_accept [OF Cons.prems(1)])
    then have "replay_run check s' evs ! j' = Some AuthErrReplayDetected"
      using seen_rejected [OF s'(1), of evs c n "t + ttl s" j' t'] Cons.prems j by simp
    then show ?thesis by (simp add: j ev ch)
  next
    case (Suc i')
    then have "replay_run check s' evs ! j' = Some AuthErrReplayDetected"
      using Cons.IH [of s' i' j'] Cons.prems s' j ev ch by simp
    then show ?thesis by (simp add: j ev ch)
  qed
qed

end

section \<open>Both caches keep the contract\<close>

definition mrc_seen :: "MemoryReplayCache \<Rightarrow> string \<Rightarrow> bytes \<Rightarrow> time option" where
  "mrc_seen c clientID nonce = expiry (mrc_entries c) (replay_key clientID nonce)"

text \<open>\<open>active\<close> may overcount (an expired entry replaced in place is counted twice), never undercount.\<close>

definition mrc_ok :: "MemoryReplayCache \<Rightarrow> bool" where
  "mrc_ok c \<longleftrightarrow> lru_ok (mrc_entries c) \<and> lru_Cap (mrc_entries c) = mrc_maxEntries c \<and>
     lru_Len (mrc_entries c) \<le> mrc_active c \<and> mrc_active c \<le> mrc_maxEntries c"

text \<open>Sweeping changes nothing for a live entry.\<close>

definition swept :: "time \<Rightarrow> ('k \<Rightarrow> time option) \<Rightarrow> ('k \<Rightarrow> time option) \<Rightarrow> bool" where
  "swept now f g \<longleftrightarrow> (\<forall>k. g k = f k \<or> \<not> unexpired now (f k) \<and> g k = None)"

lemma swept_refl [simp]: "swept now f f"
  by (simp add: swept_def)

lemma swept_trans: "swept now f g \<Longrightarrow> swept now g h \<Longrightarrow> swept now f h"
  unfolding swept_def by (metis unexpired_simps(1))

lemma swept_sweep: "lru_ok c \<Longrightarrow> swept now (expiry c) (expiry (snd (lru_Sweep now c)))"
  by (auto simp: swept_def expiry_sweep)

lemma swept_unexpired: "swept now f g \<Longrightarrow> unexpired now (g k) = unexpired now (f k)"
  unfolding swept_def by (metis unexpired_simps(1))

lemma swept_live: "swept now f g \<Longrightarrow> unexpired now (f k) \<Longrightarrow> g k = f k"
  unfolding swept_def by blast

lemma mrc_sweepLocked_ok:
  assumes "mrc_ok c"
  shows "mrc_ok (snd (mrc_sweepLocked now c))" "mrc_ttl (snd (mrc_sweepLocked now c)) = mrc_ttl c"
    "swept now (expiry (mrc_entries c)) (expiry (mrc_entries (snd (mrc_sweepLocked now c))))"
    "mrc_active (snd (mrc_sweepLocked now c)) = int (card {k. unexpired now (expiry (mrc_entries c) k)})"
    "mrc_maxEntries (snd (mrc_sweepLocked now c)) = mrc_maxEntries c"
proof -
  have ok: "lru_ok (mrc_entries c)" using assms by (simp add: mrc_ok_def)
  note sw = lru.sweep_inv [OF ok, of now]
  show "mrc_ok (snd (mrc_sweepLocked now c))"
    using assms sw lru.len_cap [OF sw(1)]
    by (auto simp: mrc_ok_def mrc_sweepLocked_def Let_def split: prod.splits)
  show "mrc_active (snd (mrc_sweepLocked now c)) = int (card {k. unexpired now (expiry (mrc_entries c) k)})"
    using lru.len_after_sweep [OF ok, of now] by (auto simp: mrc_sweepLocked_def split: prod.splits)
  show "swept now (expiry (mrc_entries c)) (expiry (mrc_entries (snd (mrc_sweepLocked now c))))"
    using swept_sweep [OF ok, of now] by (auto simp: mrc_sweepLocked_def split: prod.splits)
  show "mrc_ttl (snd (mrc_sweepLocked now c)) = mrc_ttl c"
    "mrc_maxEntries (snd (mrc_sweepLocked now c)) = mrc_maxEntries c"
    by (auto simp: mrc_sweepLocked_def split: prod.splits)
qed

lemma mrc_ok_nextSweep [simp]: "mrc_ok (c\<lparr>mrc_nextSweep := t\<rparr>) = mrc_ok c"
  by (simp add: mrc_ok_def)

lemma mrc_prepare_ok:
  assumes "mrc_ok c"
  shows "mrc_ok (mrc_prepare now c)" "mrc_ttl (mrc_prepare now c) = mrc_ttl c"
    "swept now (expiry (mrc_entries c)) (expiry (mrc_entries (mrc_prepare now c)))"
    "mrc_maxEntries (mrc_prepare now c) = mrc_maxEntries c"
    "mrc_active (mrc_prepare now c) \<ge> mrc_maxEntries c \<Longrightarrow>
       int (card {k. unexpired now (expiry (mrc_entries c) k)}) = mrc_maxEntries c"
proof -
  define c1 where "c1 = (if mrc_nextSweep c = zero_time then c\<lparr>mrc_nextSweep := now + mrc_sweepEvery c\<rparr>
     else if \<not> now < mrc_nextSweep c then (snd (mrc_sweepLocked now c))\<lparr>mrc_nextSweep := now + mrc_sweepEvery c\<rparr>
     else c)"
  have c1: "mrc_ok c1" "mrc_ttl c1 = mrc_ttl c" "swept now (expiry (mrc_entries c)) (expiry (mrc_entries c1))"
    "mrc_maxEntries c1 = mrc_maxEntries c"
    using mrc_sweepLocked_ok [OF assms, of now] assms by (auto simp: c1_def)
  note sw = mrc_sweepLocked_ok [OF c1(1), of now]
  have prep: "mrc_prepare now c = (if mrc_active c1 \<ge> mrc_maxEntries c1
      then (snd (mrc_sweepLocked now c1))\<lparr>mrc_nextSweep := now + mrc_sweepEvery c1\<rparr> else c1)"
    by (simp add: mrc_prepare_def c1_def Let_def)
  show "mrc_ok (mrc_prepare now c)" "mrc_ttl (mrc_prepare now c) = mrc_ttl c"
    "mrc_maxEntries (mrc_prepare now c) = mrc_maxEntries c"
    using sw c1 by (auto simp: prep)
  show "swept now (expiry (mrc_entries c)) (expiry (mrc_entries (mrc_prepare now c)))"
    using sw(3) c1(3) by (auto simp: prep intro: swept_trans)
  show "int (card {k. unexpired now (expiry (mrc_entries c) k)}) = mrc_maxEntries c"
    if "mrc_active (mrc_prepare now c) \<ge> mrc_maxEntries c"
  proof -
    have full: "mrc_active c1 \<ge> mrc_maxEntries c1" using that c1(4) by (auto simp: prep split: if_splits)
    then have "mrc_active (snd (mrc_sweepLocked now c1)) \<ge> mrc_maxEntries c" using that by (simp add: prep)
    then have "mrc_active (snd (mrc_sweepLocked now c1)) = mrc_maxEntries c"
      using sw(1,5) c1(4) by (simp add: mrc_ok_def)
    then show ?thesis using sw(4) swept_unexpired [OF c1(3)] by simp
  qed
qed

text \<open>
  What a call to either cache does to the table of expiry times: \<open>f\<close> before, \<open>f'\<close> after,
  \<open>live\<close> the number of live entries before.
\<close>

definition check_outcome ::
    "time \<Rightarrow> duration \<Rightarrow> int \<Rightarrow> string \<Rightarrow> (string \<Rightarrow> time option) \<Rightarrow> error option \<Rightarrow> (string \<Rightarrow> time option) \<Rightarrow> bool" where
  "check_outcome now ttl cap key f r f' \<longleftrightarrow>
     (\<forall>k. unexpired now (f k) \<longrightarrow> f' k = f k) \<and>
     (unexpired now (f key) \<longrightarrow> r = Some AuthErrReplayDetected) \<and>
     (r = None \<longrightarrow> f' key = Some (now + ttl)) \<and>
     (\<not> unexpired now (f key) \<and> r \<noteq> None \<and> now + ttl \<noteq> zero_time \<longrightarrow>
        r = Some AuthErrReplayCacheFull \<and> int (card {k. unexpired now (f k)}) = cap)"

lemma outcome_full:
  assumes "lru_ok es" "swept now f (expiry es)" "GetAt key now es = (hit, es')"
    "int (card {k. unexpired now (f k)}) = cap"
  shows "check_outcome now ttl cap key f
    (Some (if hit \<noteq> None then AuthErrReplayDetected else AuthErrReplayCacheFull)) (expiry es')"
proof -
  note g = GetAt_law [OF assms(1,3)]
  have hit: "hit \<noteq> None \<longleftrightarrow> unexpired now (f key)"
    using g(3) swept_unexpired [OF assms(2)] by simp
  have "expiry es' k = f k" if "unexpired now (f k)" for k
    using that g(4) [of k] hit swept_live [OF assms(2) that] by (auto simp: expiry_def)
  with hit assms(4) show ?thesis by (auto simp: check_outcome_def)
qed

lemma outcome_room:
  assumes "lru_ok es" "lru_Len es < lru_Cap es" "swept now f (expiry es)"
    "AddIfAbsent key () (now + ttl) now es = (added, es')"
  shows "check_outcome now ttl cap key f (if \<not> added then Some AuthErrReplayDetected else None) (expiry es')"
proof -
  note a = lru.add_room [OF assms(1,2,4)]
  have live: "unexpired now (expiry es k) = unexpired now (f k)" for k
    by (rule swept_unexpired [OF assms(3)])
  have keep: "expiry es' k = f k" if "unexpired now (f k)" for k
    using a(1-3) that live swept_live [OF assms(3) that] by (cases added) auto
  have "\<not> unexpired now (f key) \<Longrightarrow> now + ttl \<noteq> zero_time \<Longrightarrow> added"
    using lru.add_law [OF assms(1) _ assms(4)] live by blast
  with a(1,3) keep live show ?thesis by (auto simp: check_outcome_def)
qed

lemma mrc_check:
  assumes "mrc_ok c" "mrc_CheckAndMark now clientID nonce c = (r, c')"
  shows "mrc_ok c' \<and> mrc_ttl c' = mrc_ttl c \<and> mrc_maxEntries c' = mrc_maxEntries c \<and>
    check_outcome now (mrc_ttl c) (mrc_maxEntries c) (replay_key clientID nonce)
      (expiry (mrc_entries c)) r (expiry (mrc_entries c'))"
proof -
  let ?p = "mrc_prepare now c" and ?key = "replay_key clientID nonce"
  note p = mrc_prepare_ok [OF assms(1), of now]
  have es: "lru_ok (mrc_entries ?p)" "lru_Cap (mrc_entries ?p) = mrc_maxEntries c"
    "lru_Len (mrc_entries ?p) \<le> mrc_active ?p" "mrc_active ?p \<le> mrc_maxEntries c"
    using p(1,4) by (simp_all add: mrc_ok_def)
  show ?thesis
  proof (cases "mrc_active ?p \<ge> mrc_maxEntries c")
    case True
    obtain hit es' where g: "GetAt ?key now (mrc_entries ?p) = (hit, es')" by (rule prod.exhaust)
    have r: "r = Some (if hit \<noteq> None then AuthErrReplayDetected else AuthErrReplayCacheFull)"
      "c' = ?p\<lparr>mrc_entries := es'\<rparr>"
      using assms(2) True p(4) g by (auto simp: mrc_CheckAndMark_def Let_def)
    note law = GetAt_law [OF es(1) g]
    have "lru_Len es' \<le> mrc_active ?p"
      using lru.len_cap [OF law(1)] law(2) es True by (simp add: lru_Cap_def)
    then have "mrc_ok c'" using law p(4) es by (simp add: mrc_ok_def r lru_Cap_def)
    then show ?thesis
      using outcome_full [OF es(1) p(3) g p(5) [OF True]] p(2,4) by (simp add: r)
  next
    case False
    obtain added es' where a: "AddIfAbsent ?key () (now + mrc_ttl c) now (mrc_entries ?p) = (added, es')"
      by (rule prod.exhaust)
    have r: "r = (if \<not> added then Some AuthErrReplayDetected else None)"
      "c' = ?p\<lparr>mrc_entries := es', mrc_active := mrc_active ?p + (if added then 1 else 0)\<rparr>"
      using assms(2) False p(2,4) a by (auto simp: mrc_CheckAndMark_def Let_def)
    have room: "lru_Len (mrc_entries ?p) < lru_Cap (mrc_entries ?p)" using es False by linarith
    note law = lru.add_room [OF es(1) room a]
    have "\<not> added \<Longrightarrow> lru_Len es' = lru_Len (mrc_entries ?p)"
      using law(2,4) lru.len_card [OF law(4)] lru.len_card [OF es(1)] by simp
    then have "mrc_ok c'" using law p(4) es False by (auto simp: mrc_ok_def r)
    then show ?thesis
      using outcome_room [OF es(1) room p(3) a, of "mrc_maxEntries c"] p(2,4) by (simp add: r)
  qed
qed

interpretation memory_replay: replay_cache mrc_ok mrc_ttl mrc_seen mrc_CheckAndMark
proof unfold_locales
  fix c c' now r clientID nonce cid n
  assume ok: "mrc_ok c"
  show "mrc_ok c' \<and> mrc_ttl c' = mrc_ttl c" if "mrc_CheckAndMark now clientID nonce c = (r, c')"
    using mrc_check [OF ok that] by blast
  show "mrc_seen c' clientID nonce = Some (now + mrc_ttl c)"
    if "mrc_CheckAndMark now clientID nonce c = (None, c')"
    using mrc_check [OF ok that] by (simp add: check_outcome_def mrc_seen_def)
  show "mrc_seen c' cid n = mrc_seen c cid n"
    if "mrc_CheckAndMark now clientID nonce c = (r, c')" "unexpired now (mrc_seen c cid n)"
    using mrc_check [OF ok that(1)] that(2) by (simp add: check_outcome_def mrc_seen_def)
  show "r = Some AuthErrReplayDetected"
    if "mrc_CheckAndMark now clientID nonce c = (r, c')" "unexpired now (mrc_seen c clientID nonce)"
    using mrc_check [OF ok that(1)] that(2) by (simp add: check_outcome_def mrc_seen_def)
qed

definition syn_seen :: "synReplayCache \<Rightarrow> string \<Rightarrow> bytes \<Rightarrow> time option" where
  "syn_seen c clientID nonce = expiry (syn_entries c) (replay_key clientID nonce)"

definition syn_ok :: "synReplayCache \<Rightarrow> bool" where
  "syn_ok c \<longleftrightarrow> lru_ok (syn_entries c) \<and> lru_Cap (syn_entries c) = syn_maxEntries c"

lemma syn_prepare_ok:
  assumes "syn_ok c"
  shows "syn_ok (syn_prepare now c)" "syn_ttl (syn_prepare now c) = syn_ttl c"
    "swept now (expiry (syn_entries c)) (expiry (syn_entries (syn_prepare now c)))"
    "syn_maxEntries (syn_prepare now c) = syn_maxEntries c"
    "lru_Len (syn_entries (syn_prepare now c)) \<ge> syn_maxEntries c \<Longrightarrow>
       int (card {k. unexpired now (expiry (syn_entries c) k)}) = syn_maxEntries c"
proof -
  define c1 where "c1 = (if syn_nextSweep c = zero_time then c\<lparr>syn_nextSweep := now + syn_sweepEvery c\<rparr>
     else if \<not> now < syn_nextSweep c
     then c\<lparr>syn_entries := snd (lru_Sweep now (syn_entries c)), syn_nextSweep := now + syn_sweepEvery c\<rparr> else c)"
  have ok: "lru_ok (syn_entries c)" using assms by (simp add: syn_ok_def)
  have c1: "syn_ok c1" "syn_ttl c1 = syn_ttl c" "swept now (expiry (syn_entries c)) (expiry (syn_entries c1))"
    "syn_maxEntries c1 = syn_maxEntries c"
    using lru.sweep_inv [OF ok, of now] swept_sweep [OF ok, of now] assms by (auto simp: c1_def syn_ok_def)
  have ok1: "lru_ok (syn_entries c1)" "lru_Cap (syn_entries c1) = syn_maxEntries c"
    using c1 by (simp_all add: syn_ok_def)
  note sw = lru.sweep_inv [OF ok1(1), of now] swept_sweep [OF ok1(1), of now]
  have prep: "syn_prepare now c = (if lru_Len (syn_entries c1) \<ge> syn_maxEntries c1
      then c1\<lparr>syn_entries := snd (lru_Sweep now (syn_entries c1)), syn_nextSweep := now + syn_sweepEvery c1\<rparr> else c1)"
    by (simp add: syn_prepare_def c1_def Let_def)
  show "syn_ok (syn_prepare now c)" "syn_ttl (syn_prepare now c) = syn_ttl c"
    "syn_maxEntries (syn_prepare now c) = syn_maxEntries c"
    using sw c1 by (auto simp: prep syn_ok_def)
  show "swept now (expiry (syn_entries c)) (expiry (syn_entries (syn_prepare now c)))"
    using sw(3) c1(3) by (auto simp: prep intro: swept_trans)
  show "int (card {k. unexpired now (expiry (syn_entries c) k)}) = syn_maxEntries c"
    if "lru_Len (syn_entries (syn_prepare now c)) \<ge> syn_maxEntries c"
  proof -
    have "lru_Len (syn_entries c1) \<ge> syn_maxEntries c1" using that c1(4) by (auto simp: prep split: if_splits)
    then have "lru_Len (snd (lru_Sweep now (syn_entries c1))) \<ge> syn_maxEntries c" using that by (simp add: prep)
    then have "lru_Len (snd (lru_Sweep now (syn_entries c1))) = syn_maxEntries c"
      using lru.len_cap [OF sw(1)] sw(2) ok1(2) by simp
    then show ?thesis
      using lru.len_after_sweep [OF ok1(1), of now] swept_unexpired [OF c1(3)] by simp
  qed
qed

lemma syn_check:
  assumes "syn_ok c" "syn_CheckAndMark now clientID nonce c = (r, c')"
  shows "syn_ok c' \<and> syn_ttl c' = syn_ttl c \<and> syn_maxEntries c' = syn_maxEntries c \<and>
    check_outcome now (syn_ttl c) (syn_maxEntries c) (replay_key clientID nonce)
      (expiry (syn_entries c)) r (expiry (syn_entries c'))"
proof -
  let ?p = "syn_prepare now c" and ?key = "replay_key clientID nonce"
  note p = syn_prepare_ok [OF assms(1), of now]
  have es: "lru_ok (syn_entries ?p)" "lru_Cap (syn_entries ?p) = syn_maxEntries c"
    using p(1,4) by (simp_all add: syn_ok_def)
  show ?thesis
  proof (cases "lru_Len (syn_entries ?p) \<ge> syn_maxEntries c")
    case True
    obtain hit es' where g: "GetAt ?key now (syn_entries ?p) = (hit, es')" by (rule prod.exhaust)
    have r: "r = Some (if hit \<noteq> None then AuthErrReplayDetected else AuthErrReplayCacheFull)"
      "c' = ?p\<lparr>syn_entries := es'\<rparr>"
      using assms(2) True p(4) g by (auto simp: syn_CheckAndMark_def Let_def)
    show ?thesis
      using outcome_full [OF es(1) p(3) g p(5) [OF True]] GetAt_law [OF es(1) g] p(2,4) es
      by (simp add: r syn_ok_def lru_Cap_def)
  next
    case False
    obtain added es' where a: "AddIfAbsent ?key () (now + syn_ttl c) now (syn_entries ?p) = (added, es')"
      by (rule prod.exhaust)
    have r: "r = (if \<not> added then Some AuthErrReplayDetected else None)" "c' = ?p\<lparr>syn_entries := es'\<rparr>"
      using assms(2) False p(2,4) a by (auto simp: syn_CheckAndMark_def Let_def)
    have room: "lru_Len (syn_entries ?p) < lru_Cap (syn_entries ?p)" using es False by linarith
    show ?thesis
      using outcome_room [OF es(1) room p(3) a, of "syn_maxEntries c"] lru.add_room [OF es(1) room a] p(2,4) es
      by (simp add: r syn_ok_def)
  qed
qed

interpretation syn_replay: replay_cache syn_ok syn_ttl syn_seen syn_CheckAndMark
proof unfold_locales
  fix c c' now r clientID nonce cid n
  assume ok: "syn_ok c"
  show "syn_ok c' \<and> syn_ttl c' = syn_ttl c" if "syn_CheckAndMark now clientID nonce c = (r, c')"
    using syn_check [OF ok that] by blast
  show "syn_seen c' clientID nonce = Some (now + syn_ttl c)"
    if "syn_CheckAndMark now clientID nonce c = (None, c')"
    using syn_check [OF ok that] by (simp add: check_outcome_def syn_seen_def)
  show "syn_seen c' cid n = syn_seen c cid n"
    if "syn_CheckAndMark now clientID nonce c = (r, c')" "unexpired now (syn_seen c cid n)"
    using syn_check [OF ok that(1)] that(2) by (simp add: check_outcome_def syn_seen_def)
  show "r = Some AuthErrReplayDetected"
    if "syn_CheckAndMark now clientID nonce c = (r, c')" "unexpired now (syn_seen c clientID nonce)"
    using syn_check [OF ok that(1)] that(2) by (simp add: check_outcome_def syn_seen_def)
qed

section \<open>Properties\<close>

lemma mrc_ok_New [simp]: "mrc_ok (NewMemoryReplayCacheWithLimit ttl n)"
  by (simp add: mrc_ok_def NewMemoryReplayCacheWithLimit_def Let_def lru_Cap_def DefaultReplayCacheMaxEntries_def)
    (simp add: lru_Len_def NewTTLLRU_def)

lemma mrc_ttl_New: "0 < ttl \<Longrightarrow> mrc_ttl (NewMemoryReplayCacheWithLimit ttl n) = ttl"
  by (simp add: NewMemoryReplayCacheWithLimit_def Let_def)

lemma syn_ok_New [simp]: "syn_ok (newSYNReplayCache ttl)"
  by (simp add: syn_ok_def newSYNReplayCache_def Let_def lru_Cap_def defaultSYNReplayCacheMaxEntries_def)

text \<open>
  Property C6. At most one acceptance: in any history of calls in time order on a new
  \<open>MemoryReplayCache\<close> of any capacity, a nonce accepted for a client is reported as a replay at
  every later call within \<open>ttl\<close> of that acceptance, no matter what other calls, sweeps and
  capacity overflows happen in between.
\<close>

theorem memory_replay_once:
  assumes "sorted (map fst evs)" "0 < ttl" "i < j" "j < length evs"
    "evs ! i = (t, clientID, nonce)" "evs ! j = (t', clientID, nonce)" "t' < t + ttl"
    "replay_run mrc_CheckAndMark (NewMemoryReplayCacheWithLimit ttl n) evs ! i = None"
  shows "replay_run mrc_CheckAndMark (NewMemoryReplayCacheWithLimit ttl n) evs ! j = Some AuthErrReplayDetected"
  using memory_replay.no_double_accept [OF mrc_ok_New assms(1,3-6,8)] assms(2,7) by (simp add: mrc_ttl_New)

definition demo_events :: "(time \<times> string \<times> bytes) list" where
  "demo_events = [(5, ''a'', [1]), (6, ''b'', [2]), (9, ''c'', [3]), (14, ''a'', [1])]"

theorem memory_replay_once_witness:
  "replay_run mrc_CheckAndMark (NewMemoryReplayCacheWithLimit 10 2) demo_events ! 3 = Some AuthErrReplayDetected"
proof -
  have acc: "replay_run mrc_CheckAndMark (NewMemoryReplayCacheWithLimit 10 2) demo_events ! 0 = None"
    by code_simp
  show ?thesis
    by (rule memory_replay_once [of demo_events 10 0 3 5 "''a''" "[1]" 14 2, OF _ _ _ _ _ _ _ acc])
      (simp_all add: demo_events_def)
qed

text \<open>
  The cache fails closed. Whatever a call returns, every nonce that was live
  before it is live with the same expiry after it; a live nonce is always reported as a replay;
  acceptance records the nonce until \<open>now + ttl\<close>; and a fresh nonce is refused only with
  \<open>ErrReplayCacheFull\<close>, and only when as many nonces as the capacity are live at that moment.
\<close>

theorem memory_replay_fails_closed:
  assumes "mrc_ok c" "mrc_CheckAndMark now clientID nonce c = (r, c')" "now + mrc_ttl c \<noteq> zero_time"
  shows "mrc_ok c' \<and>
    (\<forall>id n. unexpired now (mrc_seen c id n) \<longrightarrow> mrc_seen c' id n = mrc_seen c id n) \<and>
    (if unexpired now (mrc_seen c clientID nonce) then r = Some AuthErrReplayDetected
     else r = None \<and> mrc_seen c' clientID nonce = Some (now + mrc_ttl c) \<or>
          r = Some AuthErrReplayCacheFull \<and>
          int (card {k. unexpired now (expiry (mrc_entries c) k)}) = mrc_maxEntries c)"
  using mrc_check [OF assms(1,2)] assms(3) by (auto simp: check_outcome_def mrc_seen_def)

theorem memory_replay_fails_closed_witness:
  "let c = snd (mrc_CheckAndMark 6 ''b'' [2] (snd (mrc_CheckAndMark 5 ''a'' [1] (NewMemoryReplayCacheWithLimit 10 2))))
   in fst (mrc_CheckAndMark 9 ''c'' [3] c) = Some AuthErrReplayCacheFull \<and>
      mrc_seen (snd (mrc_CheckAndMark 9 ''c'' [3] c)) ''a'' [1] = Some 15"
proof -
  define c where
    "c = snd (mrc_CheckAndMark 6 ''b'' [2] (snd (mrc_CheckAndMark 5 ''a'' [1] (NewMemoryReplayCacheWithLimit 10 2))))"
  have ok: "mrc_ok c"
    unfolding c_def by (metis mrc_check mrc_ok_New prod.collapse)
  have r: "fst (mrc_CheckAndMark 9 ''c'' [3] c) = Some AuthErrReplayCacheFull"
    and seen: "mrc_seen c ''a'' [1] = Some 15" and ttl: "mrc_ttl c = 10"
    unfolding c_def by code_simp+
  have "9 + mrc_ttl c \<noteq> zero_time" by (simp add: ttl time_defs)
  from memory_replay_fails_closed [OF ok prod.collapse [symmetric] this, of "''c''" "[3]"] r seen show ?thesis
    by (simp add: Let_def flip: c_def)
qed

text \<open>
  The SYN knock cache gives the same guarantee: along any history in time order a
  nonce accepted for a client is refused as a replay for the following \<open>ttl\<close>.
\<close>

theorem syn_replay_once:
  assumes "sorted (map fst evs)" "0 < ttl" "i < j" "j < length evs"
    "evs ! i = (t, clientID, nonce)" "evs ! j = (t', clientID, nonce)" "t' < t + ttl"
    "replay_run syn_CheckAndMark (newSYNReplayCache ttl) evs ! i = None"
  shows "replay_run syn_CheckAndMark (newSYNReplayCache ttl) evs ! j = Some AuthErrReplayDetected"
  using syn_replay.no_double_accept [OF syn_ok_New assms(1,3-6,8)] assms(2,7)
  by (simp add: newSYNReplayCache_def Let_def)

theorem syn_replay_once_witness:
  "replay_run syn_CheckAndMark (newSYNReplayCache 10) demo_events ! 3 = Some AuthErrReplayDetected"
proof -
  have acc: "replay_run syn_CheckAndMark (newSYNReplayCache 10) demo_events ! 0 = None"
    by code_simp
  show ?thesis
    by (rule syn_replay_once [of demo_events 10 0 3 5 "''a''" "[1]" 14, OF _ _ _ _ _ _ _ acc])
      (simp_all add: demo_events_def)
qed

end
