(* ===== verification/Policy.thy ===== *)
theory Policy
  imports TTL_LRU
begin

text \<open>
  Package policy: the per-key rate limiter (policy/window.go, policy/limiter.go), the ban list
  (policy/ban.go) and the guard that combines them (policy/guard.go). The clock is an argument.
  The limiter keeps a map of buckets and a linked list of their elements; the list only serves
  bookkeeping. Ranging over the Go map is a walk over the association list; the result does not
  depend on the order.
\<close>

section \<open>Window and limiter\<close>

record Window =
  Limit :: int
  Every :: duration

definition Window_WithDefaults :: "Window \<Rightarrow> Window" where
  "Window_WithDefaults w =
     (let w = (if Limit w \<le> 0 then w\<lparr>Limit := 1\<rparr> else w)
      in if Every w \<le> 0 then w\<lparr>Every := second\<rparr> else w)"

record bucket =
  b_key :: string
  b_start :: time
  b_used :: int

record Limiter =
  l_window :: Window
  l_entries :: "(string \<times> bucket) list"
  l_order :: "string list"
  l_lastSweep :: time
  l_maxEntries :: int

definition DefaultLimiterMaxEntries :: int where "DefaultLimiterMaxEntries = 65536"

definition NewLimiterWithClockAndLimit :: "Window \<Rightarrow> int \<Rightarrow> Limiter" where
  "NewLimiterWithClockAndLimit window maxEntries0 =
     \<lparr>l_window = Window_WithDefaults window, l_entries = [], l_order = [], l_lastSweep = zero_time,
      l_maxEntries = (if maxEntries0 \<le> 0 then DefaultLimiterMaxEntries else maxEntries0)\<rparr>"

definition NewLimiter :: "Window \<Rightarrow> Limiter" where
  "NewLimiter window = NewLimiterWithClockAndLimit window DefaultLimiterMaxEntries"

definition removeBucketLocked :: "bucket \<Rightarrow> Limiter \<Rightarrow> Limiter" where
  "removeBucketLocked b l =
     l\<lparr>l_entries := AList.delete (b_key b) (l_entries l), l_order := remove1 (b_key b) (l_order l)\<rparr>"

fun limiter_walk :: "time \<Rightarrow> bucket list \<Rightarrow> int \<Rightarrow> Limiter \<Rightarrow> int \<times> Limiter" where
  "limiter_walk now [] removed l = (removed, l)"
| "limiter_walk now (b # bs) removed l =
     (if \<not> now < b_start b + Every (l_window l)
      then limiter_walk now bs (removed + 1) (removeBucketLocked b l)
      else limiter_walk now bs removed l)"

definition limiter_sweepLocked :: "time \<Rightarrow> Limiter \<Rightarrow> int \<times> Limiter" where
  "limiter_sweepLocked now l = limiter_walk now (map snd (l_entries l)) 0 l"

definition sweepPeriodicallyLocked :: "time \<Rightarrow> Limiter \<Rightarrow> Limiter" where
  "sweepPeriodicallyLocked now l =
     (if Every (l_window l) \<le> 0 then l
      else if l_lastSweep l = zero_time then l\<lparr>l_lastSweep := now\<rparr>
      else
        let interval = Every (l_window l) div 2;
            interval = (if interval \<le> 0 \<or> interval > minute then minute else interval)
        in if time_Sub now (l_lastSweep l) < interval then l
           else (snd (limiter_walk now (map snd (l_entries l)) 0 l))\<lparr>l_lastSweep := now\<rparr>)"

definition AllowAt :: "string \<Rightarrow> time \<Rightarrow> Limiter \<Rightarrow> bool \<times> Limiter" where
  "AllowAt key0 now l0 =
     (let key = (if key0 = '''' then ''default'' else key0);
          l = sweepPeriodicallyLocked now l0;
          l = (if int (length (l_entries l)) \<ge> l_maxEntries l then snd (limiter_sweepLocked now l) else l);
          b = map_of (l_entries l) key
      in if b = None \<and> int (length (l_entries l)) \<ge> l_maxEntries l then (False, l)
         else if b = None \<or> \<not> now < b_start (the b) + Every (l_window l) then
           let l = (case b of Some old \<Rightarrow> removeBucketLocked old l | None \<Rightarrow> l)
           in (True, l\<lparr>l_entries := AList.update key \<lparr>b_key = key, b_start = now, b_used = 1\<rparr> (l_entries l),
                      l_order := l_order l @ [key]\<rparr>)
         else
           let l = l\<lparr>l_order := remove1 key (l_order l) @ [key]\<rparr>
           in if b_used (the b) \<ge> Limit (l_window l) then (False, l)
              else (True, l\<lparr>l_entries := AList.update key ((the b)\<lparr>b_used := b_used (the b) + 1\<rparr>) (l_entries l)\<rparr>))"

definition limiter_Check :: "string \<Rightarrow> time \<Rightarrow> Limiter \<Rightarrow> error option \<times> Limiter" where
  "limiter_Check key now l =
     (let (ok, l) = AllowAt key now l in (if ok then None else Some PolicyErrRateLimited, l))"

definition limiter_Sweep :: "time \<Rightarrow> Limiter \<Rightarrow> int \<times> Limiter" where
  "limiter_Sweep now l = limiter_sweepLocked now l"

definition limiter_Len :: "Limiter \<Rightarrow> int" where
  "limiter_Len l = int (length (l_entries l))"

section \<open>Ban list\<close>

record BanList =
  bl_entries :: "(string, unit) TTLLRU"
  bl_lastSweep :: time
  bl_sweepInterval :: duration

definition DefaultBanListMaxEntries :: int where "DefaultBanListMaxEntries = 65536"

definition NewBanListWithClockAndLimit :: "int \<Rightarrow> BanList" where
  "NewBanListWithClockAndLimit maxEntries0 =
     \<lparr>bl_entries = NewTTLLRU (if maxEntries0 \<le> 0 then DefaultBanListMaxEntries else maxEntries0),
      bl_lastSweep = zero_time, bl_sweepInterval = minute\<rparr>"

definition NewBanList :: BanList where
  "NewBanList = NewBanListWithClockAndLimit DefaultBanListMaxEntries"

definition updateSweepIntervalLocked :: "duration \<Rightarrow> BanList \<Rightarrow> BanList" where
  "updateSweepIntervalLocked ttl b =
     (if ttl \<le> 0 then b
      else
        let interval = ttl div 2;
            interval = (if interval \<le> 0 then ttl else interval);
            interval = (if interval > minute then minute else interval)
        in if bl_sweepInterval b \<le> 0 \<or> interval < bl_sweepInterval b then b\<lparr>bl_sweepInterval := interval\<rparr> else b)"

definition BanUntilE :: "string \<Rightarrow> time \<Rightarrow> time \<Rightarrow> BanList \<Rightarrow> error option \<times> BanList" where
  "BanUntilE key until now b0 =
     (if key = '''' \<or> until = zero_time then (None, b0)
      else
        let b = updateSweepIntervalLocked (time_Sub until now) b0;
            b = b\<lparr>bl_entries := snd (lru_Sweep now (bl_entries b)), bl_lastSweep := now\<rparr>
        in if lru_Peek key (bl_entries b) = None \<and> lru_Len (bl_entries b) \<ge> lru_Cap (bl_entries b)
           then (Some PolicyErrBanListFull, b)
           else (None, b\<lparr>bl_entries := SetUntil key () until (bl_entries b)\<rparr>))"

definition BanE :: "string \<Rightarrow> duration \<Rightarrow> time \<Rightarrow> BanList \<Rightarrow> error option \<times> BanList" where
  "BanE key ttl now b = (if key = '''' \<or> ttl \<le> 0 then (None, b) else BanUntilE key (now + ttl) now b)"

definition IsBannedAt :: "string \<Rightarrow> time \<Rightarrow> BanList \<Rightarrow> bool \<times> BanList" where
  "IsBannedAt key now b =
     (if key = '''' then (False, b)
      else
        let (hit, es) = GetAt key now (bl_entries b);
            b = b\<lparr>bl_entries := es\<rparr>
        in if hit \<noteq> None then (True, b)
           else if lru_Len es < lru_Cap es then (False, b)
           else (ActiveLen now es \<ge> lru_Cap es, b))"

definition Unban :: "string \<Rightarrow> BanList \<Rightarrow> BanList" where
  "Unban key b = b\<lparr>bl_entries := snd (lru_Delete key (bl_entries b))\<rparr>"

definition ban_Sweep :: "time \<Rightarrow> BanList \<Rightarrow> int \<times> BanList" where
  "ban_Sweep now b = (let (n, es) = lru_Sweep now (bl_entries b) in (n, b\<lparr>bl_entries := es\<rparr>))"

definition ban_Len :: "BanList \<Rightarrow> int" where
  "ban_Len b = lru_Len (bl_entries b)"

section \<open>Guard\<close>

record Guard =
  g_Limiter :: "Limiter option"
  g_Bans :: "BanList option"
  g_BanTTL :: duration

definition NewGuard :: "Window \<Rightarrow> duration \<Rightarrow> Guard" where
  "NewGuard window banTTL = \<lparr>g_Limiter = Some (NewLimiter window), g_Bans = Some NewBanList, g_BanTTL = banTTL\<rparr>"

definition guard_Allow :: "string \<Rightarrow> time \<Rightarrow> Guard \<Rightarrow> bool \<times> Guard" where
  "guard_Allow key now g =
     (let (banned, g) = (case g_Bans g of
            None \<Rightarrow> (False, g)
          | Some b \<Rightarrow> let (x, b) = IsBannedAt key now b in (x, g\<lparr>g_Bans := Some b\<rparr>))
      in if banned then (False, g)
         else case g_Limiter g of
           None \<Rightarrow> (True, g)
         | Some l \<Rightarrow>
             let (ok, l) = AllowAt key now l;
                 g = g\<lparr>g_Limiter := Some l\<rparr>
             in if \<not> ok then
                  (False, if g_Bans g \<noteq> None \<and> g_BanTTL g > 0
                          then g\<lparr>g_Bans := Some (snd (BanE key (g_BanTTL g) now (the (g_Bans g))))\<rparr> else g)
                else (True, g))"

definition guard_Check :: "string \<Rightarrow> time \<Rightarrow> Guard \<Rightarrow> error option \<times> Guard" where
  "guard_Check key now g =
     (let (ok, g) = guard_Allow key now g in (if ok then None else Some PolicyErrRateLimited, g))"

section \<open>Limiter lemmas\<close>

definition limiter_ok :: "Limiter \<Rightarrow> bool" where
  "limiter_ok l \<longleftrightarrow> distinct (map fst (l_entries l)) \<and> distinct (l_order l) \<and>
     (\<forall>k. k \<in> set (l_order l) \<longleftrightarrow> map_of (l_entries l) k \<noteq> None) \<and>
     (\<forall>k b. map_of (l_entries l) k = Some b \<longrightarrow> b_key b = k \<and> 1 \<le> b_used b \<and> b_used b \<le> Limit (l_window l)) \<and>
     1 \<le> Limit (l_window l) \<and> 0 < Every (l_window l) \<and>
     int (length (l_entries l)) \<le> l_maxEntries l \<and> 1 \<le> l_maxEntries l"

definition limiter_expired :: "time \<Rightarrow> Limiter \<Rightarrow> bucket \<Rightarrow> bool" where
  "limiter_expired now l b \<longleftrightarrow> \<not> now < b_start b + Every (l_window l)"

lemma removeBucket_sel [simp]:
  "map_of (l_entries (removeBucketLocked b l)) = (map_of (l_entries l))(b_key b := None)"
  "l_order (removeBucketLocked b l) = remove1 (b_key b) (l_order l)"
  "l_window (removeBucketLocked b l) = l_window l" "l_maxEntries (removeBucketLocked b l) = l_maxEntries l"
  "l_lastSweep (removeBucketLocked b l) = l_lastSweep l"
  by (simp_all add: removeBucketLocked_def AList.delete_conv')

lemma limiter_ok_remove: "limiter_ok l \<Longrightarrow> limiter_ok (removeBucketLocked b l)"
proof -
  assume ok: "limiter_ok l"
  have "length (AList.delete (b_key b) (l_entries l)) \<le> length (l_entries l)"
    by (rule AList.length_delete_le)
  then have "int (length (l_entries (removeBucketLocked b l))) \<le> l_maxEntries l"
    using ok by (simp add: removeBucketLocked_def limiter_ok_def)
  moreover have "distinct (map fst (l_entries (removeBucketLocked b l)))"
    using ok by (simp add: removeBucketLocked_def limiter_ok_def AList.distinct_delete)
  ultimately show ?thesis using ok unfolding limiter_ok_def by auto
qed

definition walked :: "time \<Rightarrow> bucket set \<Rightarrow> Limiter \<Rightarrow> Limiter \<Rightarrow> bool" where
  "walked now B l l' \<longleftrightarrow> limiter_ok l' \<and> l_window l' = l_window l \<and> l_maxEntries l' = l_maxEntries l \<and>
     (\<forall>k. map_of (l_entries l') k =
       (case map_of (l_entries l) k of
          Some b \<Rightarrow> if b \<in> B \<and> limiter_expired now l b then None else Some b | None \<Rightarrow> None))"

lemma limiter_walk_spec:
  "limiter_ok l \<Longrightarrow> \<forall>b \<in> set bs. map_of (l_entries l) (b_key b) \<in> {None, Some b} \<Longrightarrow>
   walked now (set bs) l (snd (limiter_walk now bs r l))"
proof (induction now bs r l rule: limiter_walk.induct)
  case (1 now removed l)
  then show ?case by (auto simp: walked_def split: option.splits)
next
  case (2 now b bs removed l)
  show ?case
  proof (cases "limiter_expired now l b")
    case True
    let ?l = "removeBucketLocked b l" and ?r = "snd (limiter_walk now bs (removed + 1) (removeBucketLocked b l))"
    have "\<forall>b' \<in> set bs. map_of (l_entries ?l) (b_key b') \<in> {None, Some b'}"
      using "2.prems"(2) by auto
    from "2.IH"(1) [OF True [unfolded limiter_expired_def] limiter_ok_remove [OF "2.prems"(1)] this]
    have IH: "walked now (set bs) ?l ?r" .
    have look: "map_of (l_entries ?r) k = (case map_of (l_entries l) k of
        Some b' \<Rightarrow> if b' \<in> set (b # bs) \<and> limiter_expired now l b' then None else Some b' | None \<Rightarrow> None)" for k
    proof (cases "k = b_key b")
      case k: True
      have "map_of (l_entries l) k = None \<or> map_of (l_entries l) k = Some b" using "2.prems"(2) k by simp
      then show ?thesis using IH True k by (auto simp: walked_def)
    next
      case k: False
      have "map_of (l_entries l) k = Some b' \<Longrightarrow> b' \<noteq> b" for b'
        using "2.prems"(1) k by (auto simp: limiter_ok_def)
      then show ?thesis
        using IH k by (simp add: walked_def limiter_expired_def split: option.splits)
    qed
    have "limiter_walk now (b # bs) removed l = limiter_walk now bs (removed + 1) ?l"
      using True by (simp add: limiter_expired_def)
    moreover have "limiter_ok ?r" "l_window ?r = l_window l" "l_maxEntries ?r = l_maxEntries l"
      using IH by (simp_all add: walked_def)
    ultimately show ?thesis unfolding walked_def using look by simp
  next
    case False
    then have "walked now (set bs) l (snd (limiter_walk now bs removed l))"
      using "2.IH"(2) "2.prems" by (simp add: limiter_expired_def)
    then show ?thesis using False by (simp add: walked_def limiter_expired_def split: option.splits)
  qed
qed

abbreviation slot :: "Limiter \<Rightarrow> string \<Rightarrow> bucket option" where
  "slot l \<equiv> map_of (l_entries l)"

text \<open>\<open>l'\<close> is \<open>l\<close> with some, or (\<open>full\<close>) all, of the buckets whose window has passed removed.\<close>

definition purged :: "bool \<Rightarrow> time \<Rightarrow> Limiter \<Rightarrow> Limiter \<Rightarrow> bool" where
  "purged full now l l' \<longleftrightarrow> limiter_ok l' \<and> l_window l' = l_window l \<and> l_maxEntries l' = l_maxEntries l \<and>
     (\<forall>k. slot l' k = slot l k \<or> (\<exists>b. slot l k = Some b \<and> limiter_expired now l b \<and> slot l' k = None)) \<and>
     (full \<longrightarrow> (\<forall>k b. slot l' k = Some b \<longrightarrow> \<not> limiter_expired now l b))"

lemma slot_in_entries: "slot l k = Some b \<Longrightarrow> b \<in> set (map snd (l_entries l))"
  by (auto dest!: map_of_SomeD intro: rev_image_eqI)

lemma limiter_sweep_purged:
  assumes "limiter_ok l"
  shows "purged True now l (snd (limiter_walk now (map snd (l_entries l)) r l))"
proof -
  have "slot l (b_key b) = Some b" if "b \<in> set (map snd (l_entries l))" for b
  proof -
    from that obtain k where "(k, b) \<in> set (l_entries l)" by auto
    then have "slot l k = Some b" using assms by (simp add: limiter_ok_def)
    then show ?thesis using assms by (simp add: limiter_ok_def)
  qed
  then have w: "walked now (set (map snd (l_entries l))) l (snd (limiter_walk now (map snd (l_entries l)) r l))"
    using assms by (intro limiter_walk_spec) auto
  then show ?thesis
    using slot_in_entries [of l] unfolding walked_def purged_def
    by (auto split: option.splits if_splits)
qed

lemma purged_trans: "purged f now l l1 \<Longrightarrow> purged g now l1 l2 \<Longrightarrow> purged g now l l2"
  unfolding purged_def limiter_expired_def by (auto; metis option.inject option.distinct(1))

lemma purged_refl: "limiter_ok l \<Longrightarrow> purged False now l l"
  by (simp add: purged_def)

lemma sweepPeriodically_purged:
  assumes "limiter_ok l"
  shows "purged False now l (sweepPeriodicallyLocked now l)"
proof -
  have ls: "purged f now l (l'\<lparr>l_lastSweep := t\<rparr>) = purged f now l l'" for f l' t
    by (simp add: purged_def limiter_ok_def)
  have "purged False now l (snd (limiter_walk now (map snd (l_entries l)) 0 l))"
    using limiter_sweep_purged [OF assms, of now 0] by (simp add: purged_def)
  then show ?thesis
    using purged_refl [OF assms] by (simp add: sweepPeriodicallyLocked_def Let_def ls)
qed

definition limiter_key :: "string \<Rightarrow> string" where
  "limiter_key k = (if k = '''' then ''default'' else k)"

definition limiter_live :: "time \<Rightarrow> Limiter \<Rightarrow> string set" where
  "limiter_live now l = {k. \<exists>b. slot l k = Some b \<and> \<not> limiter_expired now l b}"

lemma limiter_length: "limiter_ok l \<Longrightarrow> length (l_entries l) = card (dom (slot l))"
  unfolding limiter_ok_def by (metis distinct_card dom_map_of_conv_image_fst length_map set_map)

lemma limiter_prepared:
  fixes now :: time
  assumes "limiter_ok l"
  defines "l1 \<equiv> sweepPeriodicallyLocked now l"
  defines "l2 \<equiv> (if int (length (l_entries l1)) \<ge> l_maxEntries l1 then snd (limiter_sweepLocked now l1) else l1)"
  shows "purged False now l l2"
    "int (length (l_entries l2)) \<ge> l_maxEntries l2 \<Longrightarrow> int (card (limiter_live now l)) = l_maxEntries l"
    "slot l k = Some b \<Longrightarrow> slot l2 k = None \<Longrightarrow> int (length (l_entries l2)) < l_maxEntries l2"
proof -
  have l1: "purged False now l l1" unfolding l1_def by (rule sweepPeriodically_purged [OF assms(1)])
  then have ok1: "limiter_ok l1" by (simp add: purged_def)
  have sw: "purged True now l1 (snd (limiter_sweepLocked now l1))"
    unfolding limiter_sweepLocked_def by (rule limiter_sweep_purged [OF ok1])
  then have "purged True now l (snd (limiter_sweepLocked now l1))" by (rule purged_trans [OF l1])
  then show l2: "purged False now l l2" using l1 by (auto simp: l2_def purged_def)
  then have ok2: "limiter_ok l2" and same: "l_maxEntries l2 = l_maxEntries l" by (simp_all add: purged_def)
  show "int (card (limiter_live now l)) = l_maxEntries l" if full: "int (length (l_entries l2)) \<ge> l_maxEntries l2"
  proof -
    have "l2 = snd (limiter_sweepLocked now l1)" using full by (auto simp: l2_def)
    then have p: "purged True now l l2" using purged_trans [OF l1 sw] by simp
    then have "slot l2 k = Some b \<longleftrightarrow> slot l k = Some b \<and> \<not> limiter_expired now l b" for k b
      unfolding purged_def by (metis option.distinct(1) option.inject)
    then have "dom (slot l2) = limiter_live now l" by (auto simp: limiter_live_def)
    then show ?thesis
      using limiter_length [OF ok2] full ok2 same by (simp add: limiter_ok_def)
  qed
  show "int (length (l_entries l2)) < l_maxEntries l2" if "slot l k = Some b" "slot l2 k = None"
  proof -
    have "slot l2 x \<noteq> None \<Longrightarrow> slot l x \<noteq> None" for x using l2 unfolding purged_def by metis
    then have "dom (slot l2) \<subseteq> dom (slot l)" unfolding dom_def by blast
    moreover have
      "k \<in> dom (slot l)" "k \<notin> dom (slot l2)" using that by auto
    ultimately have "card (dom (slot l2)) < card (dom (slot l))"
      by (intro psubset_card_mono) (auto simp: finite_dom_map_of)
    then show ?thesis
      using limiter_length [OF ok2] limiter_length [OF assms(1)] assms(1) same by (simp add: limiter_ok_def)
  qed
qed

text \<open>What one call does to the bucket of its key and to the buckets of the others.\<close>

definition allow_outcome :: "time \<Rightarrow> string \<Rightarrow> Limiter \<Rightarrow> bool \<Rightarrow> Limiter \<Rightarrow> bool" where
  "allow_outcome now key l ok l' \<longleftrightarrow>
     limiter_ok l' \<and> l_window l' = l_window l \<and> l_maxEntries l' = l_maxEntries l \<and>
     (\<forall>k. k \<noteq> key \<longrightarrow> slot l' k = slot l k \<or> (\<exists>b. slot l k = Some b \<and> limiter_expired now l b \<and> slot l' k = None)) \<and>
     (case slot l key of
        Some b \<Rightarrow>
          if limiter_expired now l b then ok \<and> slot l' key = Some \<lparr>b_key = key, b_start = now, b_used = 1\<rparr>
          else ok = (b_used b < Limit (l_window l)) \<and>
               slot l' key = Some (if ok then b\<lparr>b_used := b_used b + 1\<rparr> else b)
      | None \<Rightarrow>
          if ok then slot l' key = Some \<lparr>b_key = key, b_start = now, b_used = 1\<rparr>
          else slot l' key = None \<and> int (card (limiter_live now l)) = l_maxEntries l)"

lemma limiter_ok_insert:
  assumes "limiter_ok l" "slot l key = None" "int (length (l_entries l)) < l_maxEntries l"
  shows "limiter_ok (l\<lparr>l_entries := AList.update key \<lparr>b_key = key, b_start = now, b_used = 1\<rparr> (l_entries l),
    l_order := l_order l @ [key]\<rparr>)"
  using assms by (auto simp: limiter_ok_def AList.update_conv' AList.distinct_update length_alist_update)

lemma limiter_ok_use:
  assumes "limiter_ok l" "slot l key = Some b" "b_used b < Limit (l_window l)"
  shows "limiter_ok (l\<lparr>l_order := remove1 key (l_order l) @ [key],
    l_entries := AList.update key (b\<lparr>b_used := b_used b + 1\<rparr>) (l_entries l)\<rparr>)"
proof -
  have "1 \<le> b_used b" using assms by (simp add: limiter_ok_def)
  then have "0 \<le> b_used b" "1 \<le> Limit (l_window l)" using assms(3) by simp_all
  then show ?thesis
    using assms by (auto simp: limiter_ok_def AList.update_conv' AList.distinct_update length_alist_update)
qed

lemma limiter_ok_touch:
  "limiter_ok l \<Longrightarrow> slot l key \<noteq> None \<Longrightarrow> limiter_ok (l\<lparr>l_order := remove1 key (l_order l) @ [key]\<rparr>)"
  by (auto simp: limiter_ok_def)

lemma AllowAt_spec:
  assumes "limiter_ok l" "AllowAt key0 now l = (ok, l')"
  shows "allow_outcome now (limiter_key key0) l ok l'"
proof -
  let ?key = "limiter_key key0"
  define l1 where "l1 = sweepPeriodicallyLocked now l"
  define l2 where "l2 = (if int (length (l_entries l1)) \<ge> l_maxEntries l1 then snd (limiter_sweepLocked now l1) else l1)"
  note prep = limiter_prepared [OF assms(1), where now = now, folded l1_def, folded l2_def]
  have p: "limiter_ok l2" "l_window l2 = l_window l" "l_maxEntries l2 = l_maxEntries l"
    "\<And>k. slot l2 k = slot l k \<or> (\<exists>b. slot l k = Some b \<and> limiter_expired now l b \<and> slot l2 k = None)"
    using prep(1) by (simp_all add: purged_def)
  have step: "AllowAt key0 now l =
     (let b = slot l2 ?key
      in if b = None \<and> int (length (l_entries l2)) \<ge> l_maxEntries l2 then (False, l2)
         else if b = None \<or> \<not> now < b_start (the b) + Every (l_window l2) then
           let l = (case b of Some old \<Rightarrow> removeBucketLocked old l2 | None \<Rightarrow> l2)
           in (True, l\<lparr>l_entries := AList.update ?key \<lparr>b_key = ?key, b_start = now, b_used = 1\<rparr> (l_entries l),
                      l_order := l_order l @ [?key]\<rparr>)
         else
           let l = l2\<lparr>l_order := remove1 ?key (l_order l2) @ [?key]\<rparr>
           in if b_used (the b) \<ge> Limit (l_window l) then (False, l)
              else (True, l\<lparr>l_entries := AList.update ?key ((the b)\<lparr>b_used := b_used (the b) + 1\<rparr>) (l_entries l)\<rparr>))"
    unfolding AllowAt_def limiter_key_def l1_def l2_def Let_def ..
  show ?thesis
  proof (cases "slot l2 ?key")
    case None
    show ?thesis
    proof (cases "int (length (l_entries l2)) \<ge> l_maxEntries l2")
      case True
      then have "ok = False" "l' = l2" using assms(2) None by (simp_all add: step)
      moreover have "slot l ?key = None"
        using prep(3) [of ?key] True None by fastforce
      ultimately show ?thesis using p None prep(2) [OF True] by (simp add: allow_outcome_def)
    next
      case False
      then have r: "ok = True" "l' = l2\<lparr>l_entries := AList.update ?key \<lparr>b_key = ?key, b_start = now, b_used = 1\<rparr> (l_entries l2),
          l_order := l_order l2 @ [?key]\<rparr>"
        using assms(2) None by (simp_all add: step Let_def)
      have "limiter_ok l'" unfolding r using limiter_ok_insert [OF p(1) None] False by simp
      moreover have "slot l ?key = None \<or> (\<exists>b. slot l ?key = Some b \<and> limiter_expired now l b)"
        using p(4) [of ?key] None by auto
      ultimately show ?thesis
        using p by (auto simp: allow_outcome_def r AList.update_conv' split: option.splits)
    qed
  next
    case (Some b)
    then have lb: "slot l ?key = Some b" using p(4) [of ?key] by auto
    have exp: "limiter_expired now l b \<longleftrightarrow> \<not> now < b_start b + Every (l_window l2)"
      by (simp add: limiter_expired_def p(2))
    show ?thesis
    proof (cases "limiter_expired now l b")
      case True
      let ?l3 = "removeBucketLocked b l2"
      have kb: "b_key b = ?key" using p(1) Some by (simp add: limiter_ok_def)
      have r: "ok = True" "l' = ?l3\<lparr>l_entries := AList.update ?key \<lparr>b_key = ?key, b_start = now, b_used = 1\<rparr> (l_entries ?l3),
          l_order := l_order ?l3 @ [?key]\<rparr>"
        using assms(2) Some True exp by (simp_all add: step Let_def)
      have ok3: "limiter_ok ?l3" using p(1) by (rule limiter_ok_remove)
      have "dom (slot ?l3) \<subset> dom (slot l2)" using Some kb by auto
      then have "card (dom (slot ?l3)) < card (dom (slot l2))"
        by (intro psubset_card_mono) (auto simp: finite_dom_map_of)
      then have "int (length (l_entries ?l3)) < l_maxEntries ?l3"
        using limiter_length [OF ok3] limiter_length [OF p(1)] p(1) by (simp add: limiter_ok_def)
      then have "limiter_ok l'" unfolding r using limiter_ok_insert [OF ok3] kb by simp
      then show ?thesis
        using p lb True kb by (auto simp: allow_outcome_def r AList.update_conv')
    next
      case False
      show ?thesis
      proof (cases "b_used b \<ge> Limit (l_window l)")
        case True
        then have r: "ok = False" "l' = l2\<lparr>l_order := remove1 ?key (l_order l2) @ [?key]\<rparr>"
          using assms(2) Some False exp p(2) by (simp_all add: step Let_def)
        then show ?thesis
          using limiter_ok_touch [OF p(1), of ?key] p Some lb False True by (simp add: allow_outcome_def)
      next
        case used: False
        then have r: "ok = True" "l' = l2\<lparr>l_order := remove1 ?key (l_order l2) @ [?key],
            l_entries := AList.update ?key (b\<lparr>b_used := b_used b + 1\<rparr>) (l_entries l2)\<rparr>"
          using assms(2) Some False exp p(2) by (simp_all add: step Let_def)
        have "limiter_ok l'" unfolding r using limiter_ok_use [OF p(1) Some] used p(2) by simp
        then show ?thesis
          using p lb False used by (auto simp: allow_outcome_def r AList.update_conv')
      qed
    qed
  qed
qed

section \<open>Rate bound\<close>

text \<open>
  \<open>granted key t0 w l evs\<close>: how many of the calls \<open>evs\<close> (time and key), made one after the other
  from limiter \<open>l\<close>, are allowed for \<open>key\<close> in the interval from \<open>t0\<close> to \<open>t0 + w\<close>.
\<close>

fun granted :: "string \<Rightarrow> time \<Rightarrow> duration \<Rightarrow> Limiter \<Rightarrow> (time \<times> string) list \<Rightarrow> int" where
  "granted key t0 w l [] = 0"
| "granted key t0 w l ((t, k) # evs) =
     (let (ok, l') = AllowAt k t l
      in (if ok \<and> limiter_key k = key \<and> t0 \<le> t \<and> t < t0 + w then 1 else 0) + granted key t0 w l' evs)"

definition allowance :: "string \<Rightarrow> time \<Rightarrow> Limiter \<Rightarrow> int" where
  "allowance key t0 l =
     (case slot l key of
        None \<Rightarrow> Limit (l_window l)
      | Some b \<Rightarrow> if b_start b < t0 then Limit (l_window l) - b_used b + Limit (l_window l)
                  else Limit (l_window l) - b_used b)"

lemma allowance_bounds:
  assumes "limiter_ok l"
  shows "0 \<le> allowance key t0 l" "allowance key t0 l \<le> 2 * Limit (l_window l) - 1"
  using assms by (auto simp: allowance_def limiter_ok_def split: option.splits) force+

lemma granted_after: "\<forall>(t, _) \<in> set evs. t0 + w \<le> t \<Longrightarrow> granted key t0 w l evs = 0"
  by (induction evs arbitrary: l) (auto simp: Let_def split: prod.splits)

lemma allowance_step:
  assumes "limiter_ok l" "AllowAt k t l = (ok, l')" "t0 \<le> t" "t < t0 + Every (l_window l)"
  shows "(if ok \<and> limiter_key k = key then 1 else 0) + allowance key t0 l' \<le> allowance key t0 l"
proof -
  note out = AllowAt_spec [OF assms(1,2), unfolded allow_outcome_def]
  have exp: "limiter_expired t l b \<Longrightarrow> b_start b < t0" for b
    using assms(4) by (simp add: limiter_expired_def)
  have used: "slot l key = Some b \<Longrightarrow> 1 \<le> b_used b \<and> b_used b \<le> Limit (l_window l)" for b
    using assms(1) by (simp add: limiter_ok_def)
  have lim: "1 \<le> Limit (l_window l)" using assms(1) by (simp add: limiter_ok_def)
  have w: "l_window l' = l_window l" using out by blast
  show ?thesis
  proof (cases "limiter_key k = key")
    case False
    then have "slot l' key = slot l key \<or> (\<exists>b. slot l key = Some b \<and> limiter_expired t l b \<and> slot l' key = None)"
      using out by metis
    then show ?thesis
    proof (elim disjE exE conjE)
      assume "slot l' key = slot l key"
      then show ?thesis using False by (simp only: allowance_def w) simp
    next
      fix b assume "slot l key = Some b" "limiter_expired t l b" "slot l' key = None"
      then show ?thesis using False exp used by (simp add: allowance_def w)
    qed
  next
    case True
    have own: "case slot l key of
        Some b \<Rightarrow>
          if limiter_expired t l b then ok \<and> slot l' key = Some \<lparr>b_key = key, b_start = t, b_used = 1\<rparr>
          else ok = (b_used b < Limit (l_window l)) \<and>
               slot l' key = Some (if ok then b\<lparr>b_used := b_used b + 1\<rparr> else b)
      | None \<Rightarrow>
          if ok then slot l' key = Some \<lparr>b_key = key, b_start = t, b_used = 1\<rparr>
          else slot l' key = None \<and> int (card (limiter_live t l)) = l_maxEntries l"
      using out unfolding True by blast
    show ?thesis
    proof (cases "slot l key")
      case None
      then show ?thesis using own True lim assms(3) by (cases ok) (simp_all add: allowance_def w)
    next
      case (Some b)
      then show ?thesis
        using own True exp [of b] used [OF Some] assms(3)
        by (cases "limiter_expired t l b"; cases ok) (simp_all add: allowance_def w)
    qed
  qed
qed

lemma granted_within:
  assumes "limiter_ok l" "sorted (map fst evs)" "\<forall>(t, _) \<in> set evs. t0 \<le> t"
  shows "granted key t0 (Every (l_window l)) l evs \<le> allowance key t0 l"
  using assms
proof (induction evs arbitrary: l)
  case Nil
  then show ?case using allowance_bounds by simp
next
  case (Cons ev evs)
  obtain t k where ev: "ev = (t, k)" by (rule prod.exhaust)
  obtain ok l' where al: "AllowAt k t l = (ok, l')" by (rule prod.exhaust)
  note out = AllowAt_spec [OF Cons.prems(1) al, unfolded allow_outcome_def]
  show ?case
  proof (cases "t0 + Every (l_window l) \<le> t")
    case True
    then have "granted key t0 (Every (l_window l)) l (ev # evs) = 0"
      using Cons.prems(2) by (intro granted_after) (auto simp: ev)
    then show ?thesis using allowance_bounds(1) [OF Cons.prems(1)] by simp
  next
    case False
    have "limiter_ok l'" using out by blast
    then have "granted key t0 (Every (l_window l')) l' evs \<le> allowance key t0 l'"
      using Cons.prems(2,3) by (intro Cons.IH) auto
    moreover have "l_window l' = l_window l" using out by blast
    moreover have "t0 \<le> t" using Cons.prems(3) by (simp add: ev)
    ultimately show ?thesis
      using allowance_step [OF Cons.prems(1) al _, of t0 key] False by (simp add: ev al)
  qed
qed

lemma granted_bound:
  assumes "limiter_ok l" "sorted (map fst evs)"
  shows "granted key t0 (Every (l_window l)) l evs \<le> 2 * Limit (l_window l) - 1"
  using assms
proof (induction evs arbitrary: l)
  case Nil
  then show ?case by (simp add: limiter_ok_def)
next
  case (Cons ev evs)
  obtain t k where ev: "ev = (t, k)" by (rule prod.exhaust)
  obtain ok l' where al: "AllowAt k t l = (ok, l')" by (rule prod.exhaust)
  note out = AllowAt_spec [OF Cons.prems(1) al, unfolded allow_outcome_def]
  show ?case
  proof (cases "t0 \<le> t")
    case True
    then have "\<forall>(t', _) \<in> set (ev # evs). t0 \<le> t'" using Cons.prems(2) by (auto simp: ev)
    from granted_within [OF Cons.prems this] allowance_bounds(2) [OF Cons.prems(1)] show ?thesis
      by (rule order_trans)
  next
    case False
    moreover have "limiter_ok l'" using out by blast
    then have "granted key t0 (Every (l_window l')) l' evs \<le> 2 * Limit (l_window l') - 1"
      using Cons.prems(2) by (intro Cons.IH) auto
    moreover have "l_window l' = l_window l" using out by blast
    ultimately show ?thesis by (simp add: ev al)
  qed
qed

lemma limiter_ok_New: "limiter_ok (NewLimiterWithClockAndLimit w n)"
  by (auto simp: limiter_ok_def NewLimiterWithClockAndLimit_def Window_WithDefaults_def Let_def
      DefaultLimiterMaxEntries_def time_defs)

text \<open>
  Property C7. The rate limiter bounds the traffic of a key in every interval, not only in its
  own windows: for any sequence of calls in time order on a new limiter, with any number of
  other keys, sweeps and capacity refusals in between, at most \<open>2 * Limit - 1\<close> calls of a key
  are allowed within any interval of length \<open>Every\<close>.
\<close>

theorem limiter_rate_bound:
  assumes "sorted (map fst evs)" "0 < Limit w" "0 < Every w"
  shows "granted key t0 (Every w) (NewLimiterWithClockAndLimit w n) evs \<le> 2 * Limit w - 1"
  using granted_bound [OF limiter_ok_New assms(1), of key t0 w n] assms(2,3)
  by (simp add: NewLimiterWithClockAndLimit_def Window_WithDefaults_def)

definition demo_calls :: "(time \<times> string) list" where
  "demo_calls = [(0, ''a''), (7, ''a''), (8, ''a''), (9, ''b''), (10, ''a''), (11, ''a''), (12, ''a'')]"

theorem limiter_rate_bound_witness:
  "granted ''a'' 5 10 (NewLimiterWithClockAndLimit \<lparr>Limit = 2, Every = 10\<rparr> 5) demo_calls = 3 \<and>
   granted ''a'' 5 10 (NewLimiterWithClockAndLimit \<lparr>Limit = 2, Every = 10\<rparr> 5) demo_calls \<le> 2 * 2 - 1"
proof
  show "granted ''a'' 5 10 (NewLimiterWithClockAndLimit \<lparr>Limit = 2, Every = 10\<rparr> 5) demo_calls = 3"
    by code_simp
  show "granted ''a'' 5 10 (NewLimiterWithClockAndLimit \<lparr>Limit = 2, Every = 10\<rparr> 5) demo_calls \<le> 2 * 2 - 1"
    using limiter_rate_bound [of demo_calls "\<lparr>Limit = 2, Every = 10\<rparr>" "''a''" 5 5]
    by (simp add: demo_calls_def)
qed

text \<open>
  One call of the limiter, on every branch: a key whose window is open is allowed
  exactly while its count is below \<open>Limit\<close>; a key whose window has passed always starts a new
  one; an unknown key is refused only when as many keys as the capacity have an open window; and
  no call ever drops or changes another key's open window.
\<close>

theorem limiter_allow_branches:
  assumes "limiter_ok l" "AllowAt key0 now l = (ok, l')"
  shows "limiter_ok l' \<and>
    (\<forall>k b. k \<noteq> limiter_key key0 \<and> slot l k = Some b \<and> now < b_start b + Every (l_window l) \<longrightarrow> slot l' k = Some b) \<and>
    (case slot l (limiter_key key0) of
       Some b \<Rightarrow>
         if now < b_start b + Every (l_window l)
         then ok = (b_used b < Limit (l_window l)) \<and>
              slot l' (limiter_key key0) = Some (if ok then b\<lparr>b_used := b_used b + 1\<rparr> else b)
         else ok \<and> slot l' (limiter_key key0) = Some \<lparr>b_key = limiter_key key0, b_start = now, b_used = 1\<rparr>
     | None \<Rightarrow>
         if ok then slot l' (limiter_key key0) = Some \<lparr>b_key = limiter_key key0, b_start = now, b_used = 1\<rparr>
         else int (card {k. \<exists>b. slot l k = Some b \<and> now < b_start b + Every (l_window l)}) = l_maxEntries l)"
proof -
  let ?key = "limiter_key key0"
  note out = AllowAt_spec [OF assms, unfolded allow_outcome_def limiter_expired_def limiter_live_def not_not]
  have keep: "slot l' k = Some b"
    if "k \<noteq> ?key \<and> slot l k = Some b \<and> now < b_start b + Every (l_window l)" for k b
    using conjunct1 [OF conjunct2 [OF conjunct2 [OF conjunct2 [OF out]]], rule_format, of k] that by auto
  from out have own: "case slot l ?key of
        Some b \<Rightarrow>
          if \<not> now < b_start b + Every (l_window l)
          then ok \<and> slot l' ?key = Some \<lparr>b_key = ?key, b_start = now, b_used = 1\<rparr>
          else ok = (b_used b < Limit (l_window l)) \<and> slot l' ?key = Some (if ok then b\<lparr>b_used := b_used b + 1\<rparr> else b)
      | None \<Rightarrow>
          if ok then slot l' ?key = Some \<lparr>b_key = ?key, b_start = now, b_used = 1\<rparr>
          else slot l' ?key = None \<and>
            int (card {k. \<exists>b. slot l k = Some b \<and> now < b_start b + Every (l_window l)}) = l_maxEntries l"
    by blast
  have ok: "limiter_ok l'" using out by blast
  show ?thesis
    using keep ok own by (cases "slot l ?key"; cases ok) (simp_all split: if_splits)
qed

theorem limiter_allow_branches_witness:
  "let l = snd (AllowAt ''a'' 0 (NewLimiterWithClockAndLimit \<lparr>Limit = 2, Every = 10\<rparr> 1))
   in \<not> fst (AllowAt ''b'' 5 l) \<and> int (card {k. \<exists>b. slot l k = Some b \<and> 5 < b_start b + Every (l_window l)}) = l_maxEntries l"
proof -
  define l where "l = snd (AllowAt ''a'' 0 (NewLimiterWithClockAndLimit \<lparr>Limit = 2, Every = 10\<rparr> 1))"
  have ok: "limiter_ok l"
    unfolding l_def using AllowAt_spec [OF limiter_ok_New prod.collapse [symmetric]] by (simp add: allow_outcome_def)
  have r: "\<not> fst (AllowAt ''b'' 5 l)" "slot l (limiter_key ''b'') = None"
    unfolding l_def by code_simp+
  from limiter_allow_branches [OF ok prod.collapse [symmetric], of "''b''" 5] r show ?thesis
    by (simp add: Let_def flip: l_def)
qed

section \<open>Ban list lemmas\<close>

abbreviation banned_until :: "BanList \<Rightarrow> string \<Rightarrow> time option" where
  "banned_until b \<equiv> expiry (bl_entries b)"

definition ban_ok :: "BanList \<Rightarrow> bool" where
  "ban_ok b \<longleftrightarrow> lru_ok (bl_entries b)"

lemma ban_ok_New [simp]: "ban_ok (NewBanListWithClockAndLimit n)"
  by (simp add: ban_ok_def NewBanListWithClockAndLimit_def)

lemma active_walk_count:
  "active_walk now ks a c = a + int (length (filter (\<lambda>k. unexpired now (expiry c k)) ks))"
  by (induction now ks a c rule: active_walk.induct) (auto simp: expiry_def split: option.splits)

lemma ActiveLen_card:
  assumes "lru_ok c"
  shows "ActiveLen now c = int (card {k. unexpired now (expiry c k)})"
proof -
  have coh: "lru_coherent c" using assms by (simp add: lru_ok_def)
  have "{k. unexpired now (expiry c k)} = set (filter (\<lambda>k. unexpired now (expiry c k)) (order c))"
    using coherent_lookup [OF coh] by (auto simp: unexpired_iff expiry_def)
  moreover have "distinct (filter (\<lambda>k. unexpired now (expiry c k)) (order c))"
    using coh by (simp add: lru_coherent_def)
  ultimately show ?thesis
    by (metis ActiveLen_def active_walk_count add_0 distinct_card)
qed

lemma updateSweepInterval_entries [simp]: "bl_entries (updateSweepIntervalLocked ttl b) = bl_entries b"
  by (simp add: updateSweepIntervalLocked_def Let_def)

lemma BanUntilE_spec:
  assumes "ban_ok b" "key \<noteq> ''''" "until \<noteq> zero_time" "BanUntilE key until now b = (r, b')"
  shows "ban_ok b'"
    "\<And>k. k \<noteq> key \<Longrightarrow> unexpired now (banned_until b k) \<Longrightarrow> banned_until b' k = banned_until b k"
    "r = None \<Longrightarrow> banned_until b' key = Some until"
    "r \<noteq> None \<Longrightarrow> r = Some PolicyErrBanListFull \<and>
       int (card {k. unexpired now (banned_until b' k)}) = lru_Cap (bl_entries b') \<and>
       lru_Len (bl_entries b') = lru_Cap (bl_entries b')"
proof -
  define es where "es = snd (lru_Sweep now (bl_entries b))"
  have ok: "lru_ok (bl_entries b)" using assms(1) by (simp add: ban_ok_def)
  note sw = expiry_sweep [OF ok, of now, folded es_def]
  have live: "banned_until b k = expiry es k" if "unexpired now (banned_until b k)" for k
    using sw(3) [of k] that by simp
  have full: "lru_Peek key es = None \<longleftrightarrow> expiry es key = None" by (simp add: lru_Peek_def expiry_def)
  show "ban_ok b'"
    using assms(2-4) sw(1) lru.put_law [OF sw(1) assms(3), of key]
    by (auto simp: BanUntilE_def Let_def es_def [symmetric] ban_ok_def split: if_splits)
  show "banned_until b' k = banned_until b k" if "k \<noteq> key" "unexpired now (banned_until b k)" for k
    using assms(2-4) that live [OF that(2)] lru.put_law [OF sw(1) assms(3), of key] lru.len_cap [OF sw(1)] full
    by (auto simp: BanUntilE_def Let_def es_def [symmetric] split: if_splits)
  show "banned_until b' key = Some until" if "r = None"
    using assms(2-4) that lru.put_law [OF sw(1) assms(3), of key] full
    by (auto simp: BanUntilE_def Let_def es_def [symmetric] split: if_splits)
  show "r = Some PolicyErrBanListFull \<and> int (card {k. unexpired now (banned_until b' k)}) = lru_Cap (bl_entries b') \<and>
      lru_Len (bl_entries b') = lru_Cap (bl_entries b')" if "r \<noteq> None"
  proof -
    have r: "r = Some PolicyErrBanListFull" "bl_entries b' = es" "lru_Len es \<ge> lru_Cap es"
      using assms(2-4) that by (auto simp: BanUntilE_def Let_def es_def [symmetric] split: if_splits)
    have "{k. unexpired now (expiry es k)} = {k. unexpired now (banned_until b k)}"
      using sw(3) by (auto split: if_splits)
    then have "lru_Len es = int (card {k. unexpired now (expiry es k)})"
      using lru.len_after_sweep [OF ok, of now] by (simp add: es_def)
    then show ?thesis using r lru.len_cap [OF sw(1)] by simp
  qed
qed

lemma IsBannedAt_spec:
  assumes "ban_ok b" "IsBannedAt key now b = (x, b')"
  shows "ban_ok b'"
    "\<And>k. unexpired now (banned_until b k) \<Longrightarrow> banned_until b' k = banned_until b k"
    "\<And>k. k \<noteq> key \<Longrightarrow> banned_until b' k = banned_until b k"
    "key \<noteq> '''' \<Longrightarrow> x \<longleftrightarrow> unexpired now (banned_until b key) \<or>
       int (card {k. unexpired now (banned_until b k)}) = lru_Cap (bl_entries b)"
proof -
  obtain hit es where g: "GetAt key now (bl_entries b) = (hit, es)" by (rule prod.exhaust)
  have ok: "lru_ok (bl_entries b)" using assms(1) by (simp add: ban_ok_def)
  note law = GetAt_law [OF ok g]
  have look: "expiry es k = (if k = key \<and> hit = None then None else banned_until b k)" for k
    using law(4) [of k] by (simp add: expiry_def)
  have b': "key \<noteq> '''' \<Longrightarrow> bl_entries b' = es" "key = '''' \<Longrightarrow> b' = b"
    using assms(2) by (simp_all add: IsBannedAt_def Let_def g split: if_splits) auto
  show "ban_ok b'" using assms(1) law(1) b' by (cases "key = ''''") (simp_all add: ban_ok_def)
  show "banned_until b' k = banned_until b k" if "unexpired now (banned_until b k)" for k
    using that b' look [of k] law(3) by (cases "key = ''''"; cases "k = key") simp_all
  show "banned_until b' k = banned_until b k" if "k \<noteq> key" for k
    using that b' look [of k] by (cases "key = ''''") simp_all
  show "x \<longleftrightarrow> unexpired now (banned_until b key) \<or>
      int (card {k. unexpired now (banned_until b k)}) = lru_Cap (bl_entries b)" if ne: "key \<noteq> ''''"
  proof (cases "unexpired now (banned_until b key)")
    case True
    then have "hit \<noteq> None" using law(3) by simp
    then show ?thesis using True assms(2) ne by (simp add: IsBannedAt_def Let_def g)
  next
    case False
    then have hit: "hit = None" using law(3) by (cases hit) auto
    have x: "x \<longleftrightarrow> \<not> lru_Len es < lru_Cap es \<and> ActiveLen now es \<ge> lru_Cap es"
      using assms(2) ne hit by (simp add: IsBannedAt_def Let_def g split: if_splits)
    have same: "{k. unexpired now (expiry es k)} = {k. unexpired now (banned_until b k)}"
      using look False by auto
    have "{k. unexpired now (expiry es k)} \<subseteq> dom (expiry es)" by (auto simp: unexpired_iff)
    then have "int (card {k. unexpired now (expiry es k)}) \<le> lru_Len es"
      using lru.finite_look [OF law(1)] lru.len_card [OF law(1)] by (simp add: card_mono)
    moreover have "lru_Len es \<le> lru_Cap es" by (rule lru.len_cap [OF law(1)])
    moreover have "lru_Cap es = lru_Cap (bl_entries b)" using law(2) by (simp add: lru_Cap_def)
    moreover have "ActiveLen now es = int (card {k. unexpired now (expiry es k)})"
      by (rule ActiveLen_card [OF law(1)])
    ultimately have "x \<longleftrightarrow> int (card {k. unexpired now (expiry es k)}) = lru_Cap (bl_entries b)"
      using x by linarith
    then show ?thesis using False unfolding same by simp
  qed
qed

datatype ban_op = OpBanUntil string time time | OpIsBanned string time | OpUnban string | OpBanSweep time

fun ban_apply :: "ban_op \<Rightarrow> BanList \<Rightarrow> BanList" where
  "ban_apply (OpBanUntil k until now) b = snd (BanUntilE k until now b)"
| "ban_apply (OpIsBanned k now) b = snd (IsBannedAt k now b)"
| "ban_apply (OpUnban k) b = Unban k b"
| "ban_apply (OpBanSweep now) b = snd (ban_Sweep now b)"

text \<open>A call that may not end the ban of \<open>key\<close>: it does not name the key, and happens before \<open>until\<close>.\<close>

fun ban_harmless :: "string \<Rightarrow> time \<Rightarrow> ban_op \<Rightarrow> bool" where
  "ban_harmless key until (OpBanUntil k u now) \<longleftrightarrow> k \<noteq> key \<and> now < until"
| "ban_harmless key until (OpIsBanned k now) \<longleftrightarrow> now < until"
| "ban_harmless key until (OpUnban k) \<longleftrightarrow> k \<noteq> key"
| "ban_harmless key until (OpBanSweep now) \<longleftrightarrow> now < until"

lemma ban_apply_keeps:
  assumes "ban_ok b" "banned_until b key = Some until" "ban_harmless key until x"
  shows "ban_ok (ban_apply x b) \<and> banned_until (ban_apply x b) key = Some until"
proof (cases x)
  case (OpBanUntil k u now)
  show ?thesis
  proof (cases "k = '''' \<or> u = zero_time")
    case True
    then have "ban_apply x b = b" using OpBanUntil by (auto simp: BanUntilE_def)
    then show ?thesis using assms by simp
  next
    case False
    then show ?thesis
      using OpBanUntil assms BanUntilE_spec(1,2) [of b k u now, OF assms(1) _ _ prod.collapse [symmetric]]
      by auto
  qed
next
  case (OpIsBanned k now)
  then show ?thesis
    using assms IsBannedAt_spec(1,2) [of b k now, OF assms(1) prod.collapse [symmetric]] by simp
next
  case (OpUnban k)
  then show ?thesis
    using assms lru.del_law [of "bl_entries b" k] by (simp add: Unban_def ban_ok_def)
next
  case (OpBanSweep now)
  then show ?thesis
    using assms expiry_sweep [of "bl_entries b" now] by (simp add: ban_Sweep_def ban_ok_def split_beta)
qed

lemma ban_history_keeps:
  "ban_ok b \<Longrightarrow> banned_until b key = Some until \<Longrightarrow> \<forall>x \<in> set xs. ban_harmless key until x \<Longrightarrow>
   ban_ok (fold ban_apply xs b) \<and> banned_until (fold ban_apply xs b) key = Some until"
  by (induction xs arbitrary: b) (simp_all add: ban_apply_keeps)

text \<open>
  Property C8. A ban holds until it ends. Once \<open>BanUntilE\<close> has accepted a ban, the key is
  banned at every moment before \<open>until\<close>, after any history of bans of other keys (however many),
  queries, sweeps and lifted bans of other keys: the list never evicts an active ban.
\<close>

theorem ban_holds:
  assumes "ban_ok b" "key \<noteq> ''''" "until \<noteq> zero_time" "BanUntilE key until now b = (None, b1)"
    "\<forall>x \<in> set xs. ban_harmless key until x" "t < until"
  shows "fst (IsBannedAt key t (fold ban_apply xs b1))"
proof -
  note spec = BanUntilE_spec [OF assms(1-4)]
  have keep: "ban_ok (fold ban_apply xs b1)" "banned_until (fold ban_apply xs b1) key = Some until"
    using ban_history_keeps [OF spec(1) spec(3) [OF refl] assms(5)] by auto
  from IsBannedAt_spec(4) [of _ key t, OF keep(1) prod.collapse [symmetric] assms(2)] keep(2) assms(6) show ?thesis
    by simp
qed

definition demo_bans :: BanList where
  "demo_bans = snd (BanUntilE ''a'' 100 5 (NewBanListWithClockAndLimit 1))"

theorem ban_holds_witness:
  "fst (IsBannedAt ''a'' 99 (fold ban_apply [OpBanUntil ''b'' 200 10, OpIsBanned ''a'' 20, OpBanSweep 30] demo_bans))"
proof -
  have acc: "BanUntilE ''a'' 100 5 (NewBanListWithClockAndLimit 1) = (None, demo_bans)"
    by code_simp
  show ?thesis
    by (rule ban_holds [OF ban_ok_New _ _ acc]) (simp_all add: time_defs)
qed

text \<open>
  A full ban list fails closed: \<open>BanUntilE\<close> refuses a key only with
  \<open>ErrBanListFull\<close>, and at that moment the refused key is reported as banned anyway.
\<close>

theorem ban_full_fails_closed:
  assumes "ban_ok b" "key \<noteq> ''''" "until \<noteq> zero_time" "BanUntilE key until now b = (Some e, b')"
  shows "e = PolicyErrBanListFull \<and> fst (IsBannedAt key now b')"
proof -
  note spec = BanUntilE_spec [OF assms]
  have "e = PolicyErrBanListFull" "int (card {k. unexpired now (banned_until b' k)}) = lru_Cap (bl_entries b')"
    using spec(4) by auto
  with IsBannedAt_spec(4) [of b' key now, OF spec(1) prod.collapse [symmetric] assms(2)] show ?thesis by simp
qed

theorem ban_full_fails_closed_witness:
  "fst (BanUntilE ''b'' 200 10 demo_bans) = Some PolicyErrBanListFull \<and>
   fst (IsBannedAt ''b'' 10 (snd (BanUntilE ''b'' 200 10 demo_bans)))"
proof -
  have r: "fst (BanUntilE ''b'' 200 10 demo_bans) = Some PolicyErrBanListFull" by code_simp
  have ok: "ban_ok demo_bans"
    unfolding demo_bans_def by (rule BanUntilE_spec(1) [OF ban_ok_New _ _ prod.collapse [symmetric]]) (simp_all add: time_defs)
  have "BanUntilE ''b'' 200 10 demo_bans = (Some PolicyErrBanListFull, snd (BanUntilE ''b'' 200 10 demo_bans))"
    by (simp add: prod_eq_iff r)
  from ban_full_fails_closed [OF ok _ _ this] r show ?thesis by (simp add: time_defs)
qed

end
