(* ===== verification/Net_Addr.thy ===== *)
theory Net_Addr
  imports Knock_Prelude
begin

text \<open>
  Network addresses: what the code uses of Go's net and net/netip (addresses, their text
  forms, \<open>SplitHostPort\<close>, \<open>JoinHostPort\<close>, \<open>strconv.Atoi\<close>), and the address helpers
  built on it: \<open>effectivePort\<close> of auth/net.go and internal/gatewaycore/addr.go.
\<close>

section \<open>Decimal and hexadecimal text\<close>

definition dec_digit :: "int \<Rightarrow> char" where
  "dec_digit d = ''0123456789'' ! nat d"

definition digit_val :: "char \<Rightarrow> int option" where
  "digit_val c = (let n = of_char c in if 48 \<le> n \<and> n \<le> (57 :: int) then Some (n - 48) else None)"

function dec_nat :: "int \<Rightarrow> string" where
  "dec_nat n = (if n < 10 then [dec_digit n] else dec_nat (n div 10) @ [dec_digit (n mod 10)])"
  by pat_completeness auto
termination by (relation "measure nat") auto

declare dec_nat.simps [simp del]

definition Itoa :: "int \<Rightarrow> string" where
  "Itoa n = (if n < 0 then CHR ''-'' # dec_nat (- n) else dec_nat n)"

fun digits_val :: "int \<Rightarrow> string \<Rightarrow> int option" where
  "digits_val acc [] = Some acc"
| "digits_val acc (c # cs) = (case digit_val c of None \<Rightarrow> None | Some d \<Rightarrow> digits_val (acc * 10 + d) cs)"

text \<open>\<open>strconv.Atoi\<close>: an optional sign and at least one digit, within the range of \<open>int\<close>.\<close>

definition Atoi :: "string \<Rightarrow> int option" where
  "Atoi s = (let (neg, ds) = (case s of [] \<Rightarrow> (False, [])
                              | c # cs \<Rightarrow> if c = CHR ''-'' then (True, cs)
                                         else if c = CHR ''+'' then (False, cs) else (False, s)) in
     if ds = [] then None else
     (case digits_val 0 ds of None \<Rightarrow> None
      | Some v \<Rightarrow> let n = (if neg then - v else v) in
          if n < - 9223372036854775808 \<or> n > 9223372036854775807 then None else Some n))"

lemma dec_digit_cases:
  assumes "0 \<le> d" "d < 10"
  shows "digit_val (dec_digit d) = Some d"
proof -
  have "d = 0 \<or> d = 1 \<or> d = 2 \<or> d = 3 \<or> d = 4 \<or> d = 5 \<or> d = 6 \<or> d = 7 \<or> d = 8 \<or> d = 9"
    using assms by arith
  then show ?thesis by (elim disjE) (simp_all add: dec_digit_def digit_val_def)
qed

lemma digits_val_append:
  "digits_val acc (xs @ ys) = (case digits_val acc xs of None \<Rightarrow> None | Some v \<Rightarrow> digits_val v ys)"
  by (induction acc xs rule: digits_val.induct) (auto split: option.splits)

lemma dec_nat_nonempty [simp]: "dec_nat n \<noteq> []"
  by (subst dec_nat.simps) auto

lemma digits_val_dec_nat: "0 \<le> n \<Longrightarrow> digits_val 0 (dec_nat n) = Some n"
proof (induction n rule: dec_nat.induct)
  case (1 n)
  show ?case
  proof (cases "n < 10")
    case True
    then show ?thesis using 1 by (simp add: dec_nat.simps [of n] dec_digit_cases)
  next
    case False
    then have "digits_val 0 (dec_nat (n div 10)) = Some (n div 10)" using 1 by simp
    then show ?thesis using False
      by (simp add: dec_nat.simps [of n] digits_val_append dec_digit_cases)
  qed
qed

lemma digit_val_bound: "digit_val c = Some d \<Longrightarrow> 0 \<le> d \<and> d < 10"
  by (auto simp: digit_val_def Let_def split: if_splits)

lemma digits_val_chars: "digits_val acc s = Some v \<Longrightarrow> c \<in> set s \<Longrightarrow> digit_val c \<noteq> None"
  by (induction acc s rule: digits_val.induct) (auto split: option.splits)

lemma dec_nat_chars: "c \<in> set (dec_nat n) \<Longrightarrow> 0 \<le> n \<Longrightarrow> digit_val c \<noteq> None"
  using digits_val_dec_nat digits_val_chars by metis

lemma Atoi_Itoa: "- 9223372036854775808 \<le> n \<Longrightarrow> n \<le> 9223372036854775807 \<Longrightarrow> Atoi (Itoa n) = Some n"
proof (cases "n < 0")
  case True
  assume "- 9223372036854775808 \<le> n" "n \<le> 9223372036854775807"
  then show ?thesis using True digits_val_dec_nat [of "- n"]
    by (simp add: Atoi_def Itoa_def)
next
  case False
  assume b: "- 9223372036854775808 \<le> n" "n \<le> 9223372036854775807"
  obtain c cs where d: "dec_nat n = c # cs" by (cases "dec_nat n") auto
  have "digit_val c \<noteq> None" using dec_nat_chars [of c n] d False by simp
  then have "c \<noteq> CHR ''-''" "c \<noteq> CHR ''+''" by (auto simp: digit_val_def)
  then show ?thesis using False b digits_val_dec_nat [of n] d
    by (simp add: Atoi_def Itoa_def)
qed

definition hex_digit :: "nat \<Rightarrow> char" where
  "hex_digit d = ''0123456789abcdef'' ! d"

definition hex_val :: "char \<Rightarrow> nat option" where
  "hex_val c = (let n = of_char c in
     if 48 \<le> n \<and> n \<le> 57 then Some (n - 48)
     else if 97 \<le> n \<and> n \<le> 102 then Some (n - 87)
     else if 65 \<le> n \<and> n \<le> 70 then Some (n - 55) else None)"

section \<open>Host and port\<close>

definition contains_char :: "char \<Rightarrow> string \<Rightarrow> bool" where
  "contains_char c s = (c \<in> set s)"

text \<open>The text before and after the last colon.\<close>

definition last_colon :: "string \<Rightarrow> (string \<times> string) option" where
  "last_colon s = (if CHR '':'' \<in> set s
     then Some (rev (tl (dropWhile (\<lambda>c. c \<noteq> CHR '':'') (rev s))), rev (takeWhile (\<lambda>c. c \<noteq> CHR '':'') (rev s)))
     else None)"

text \<open>
  \<open>net.SplitHostPort\<close>: the port follows the last colon, a host with colons is in square
  brackets, and no other bracket occurs.
\<close>

definition SplitHostPort :: "string \<Rightarrow> (string \<times> string) option" where
  "SplitHostPort s = (case last_colon s of None \<Rightarrow> None
     | Some (pre, port) \<Rightarrow>
         (case s of
            CHR ''['' # rest \<Rightarrow>
              (let host = takeWhile (\<lambda>c. c \<noteq> CHR '']'') rest;
                   after = dropWhile (\<lambda>c. c \<noteq> CHR '']'') rest in
               if after \<noteq> CHR '']'' # CHR '':'' # port then None
               else if contains_char (CHR ''['') rest \<or> contains_char (CHR '']'') port then None
               else Some (host, port))
          | _ \<Rightarrow>
              if contains_char (CHR '':'') pre then None
              else if contains_char (CHR ''['') s \<or> contains_char (CHR '']'') s then None
              else Some (pre, port)))"

definition JoinHostPort :: "string \<Rightarrow> string \<Rightarrow> string" where
  "JoinHostPort host port =
     (if contains_char (CHR '':'') host then ''['' @ host @ '']:'' @ port else host @ '':'' @ port)"

lemma up_to_char:
  "c \<notin> set xs \<Longrightarrow> takeWhile (\<lambda>x. x \<noteq> c) (xs @ c # ys) = xs"
  "c \<notin> set xs \<Longrightarrow> dropWhile (\<lambda>x. x \<noteq> c) (xs @ c # ys) = c # ys"
  by (induction xs) auto

lemma last_colon_join:
  "CHR '':'' \<notin> set port \<Longrightarrow> last_colon (a @ CHR '':'' # port) = Some (a, port)"
  by (simp add: last_colon_def up_to_char)

lemma SplitHostPort_JoinHostPort:
  assumes "set host \<inter> {CHR ''['', CHR '']''} = {}"
    and "set port \<inter> {CHR '':'', CHR ''['', CHR '']''} = {}"
  shows "SplitHostPort (JoinHostPort host port) = Some (host, port)"
proof (cases "CHR '':'' \<in> set host")
  case True
  have lc: "last_colon (CHR ''['' # host @ CHR '']'' # CHR '':'' # port) = Some (CHR ''['' # host @ '']'', port)"
    using last_colon_join [of port "CHR ''['' # host @ '']''"] assms by simp
  have h: "takeWhile (\<lambda>c. c \<noteq> CHR '']'') (host @ CHR '']'' # ys) = host"
       "dropWhile (\<lambda>c. c \<noteq> CHR '']'') (host @ CHR '']'' # ys) = CHR '']'' # ys" for ys
    using assms(1) up_to_char [of "CHR '']''" host] by auto
  show ?thesis
    using True assms by (auto simp: SplitHostPort_def JoinHostPort_def contains_char_def lc h Let_def)
next
  case False
  have "last_colon (host @ CHR '':'' # port) = Some (host, port)"
    using last_colon_join assms by auto
  moreover have "\<not> (\<exists>rest. host @ CHR '':'' # port = CHR ''['' # rest)"
    using assms(1) by (cases host) auto
  ultimately show ?thesis
    using False assms
    by (auto simp: SplitHostPort_def JoinHostPort_def contains_char_def split: list.splits char.splits bool.splits)
qed

section \<open>IP addresses\<close>

text \<open>
  A \<open>netip.Addr\<close> is the zero \<open>Addr\<close>, four bytes of IPv4, or sixteen bytes of IPv6 with
  a zone. A \<open>net.IP\<close> is a byte slice of any length.
\<close>

datatype netip_Addr = AddrZero | Addr4 bytes | Addr6 bytes string

fun addr_ok :: "netip_Addr \<Rightarrow> bool" where
  "addr_ok AddrZero = True"
| "addr_ok (Addr4 b) = (length b = 4)"
| "addr_ok (Addr6 b z) = (length b = 16)"

definition AddrFromSlice :: "bytes \<Rightarrow> netip_Addr option" where
  "AddrFromSlice b = (if length b = 4 then Some (Addr4 b)
                      else if length b = 16 then Some (Addr6 b []) else None)"

definition v4InV6Prefix :: bytes where
  "v4InV6Prefix = [0,0,0,0,0,0,0,0,0,0,0xff,0xff]"

fun Is4 :: "netip_Addr \<Rightarrow> bool" where
  "Is4 (Addr4 b) = True" | "Is4 a = False"

fun Is4In6 :: "netip_Addr \<Rightarrow> bool" where
  "Is4In6 (Addr6 b z) = (take 12 b = v4InV6Prefix)" | "Is4In6 a = False"

fun Unmap :: "netip_Addr \<Rightarrow> netip_Addr" where
  "Unmap (Addr6 b z) = (if take 12 b = v4InV6Prefix then Addr4 (drop 12 b) else Addr6 b z)"
| "Unmap a = a"

fun WithZone :: "string \<Rightarrow> netip_Addr \<Rightarrow> netip_Addr" where
  "WithZone z (Addr6 b z0) = Addr6 b z" | "WithZone z a = a"

fun As16 :: "netip_Addr \<Rightarrow> bytes" where
  "As16 AddrZero = replicate 16 0"
| "As16 (Addr4 b) = v4InV6Prefix @ b"
| "As16 (Addr6 b z) = b"

definition v4_string :: "bytes \<Rightarrow> string" where
  "v4_string b = Itoa (uint (b ! 0)) @ ''.'' @ Itoa (uint (b ! 1)) @ ''.'' @
                 Itoa (uint (b ! 2)) @ ''.'' @ Itoa (uint (b ! 3))"

fun v6_groups :: "bytes \<Rightarrow> u16 list" where
  "v6_groups (a # b # bs) = get16 [a, b] # v6_groups bs"
| "v6_groups _ = []"

definition group_hex :: "u16 \<Rightarrow> string" where
  "group_hex w = (let ds = map (\<lambda>k. hex_digit (unat ((drop_bit k w) AND 15))) [12, 8, 4, 0];
                      cut = dropWhile (\<lambda>c. c = CHR ''0'') ds
                  in if cut = [] then ''0'' else cut)"

definition zero_run :: "u16 list \<Rightarrow> nat \<Rightarrow> nat" where
  "zero_run gs i = length (takeWhile (\<lambda>g. g = 0) (drop i gs))"

text \<open>The leftmost longest run of at least two zero groups, as start and end.\<close>

definition best_run :: "u16 list \<Rightarrow> (nat \<times> nat) option" where
  "best_run gs = fold (\<lambda>i best. let l = zero_run gs i in
       if 2 \<le> l \<and> l > (case best of None \<Rightarrow> 0 | Some (s, e) \<Rightarrow> e - s) then Some (i, i + l) else best)
     [0..<8] None"

fun join_colon :: "string list \<Rightarrow> string" where
  "join_colon [] = []"
| "join_colon [x] = x"
| "join_colon (x # xs) = x @ '':'' @ join_colon xs"

definition v6_string :: "bytes \<Rightarrow> string" where
  "v6_string b = (let gs = v6_groups b in
     case best_run gs of
       None \<Rightarrow> join_colon (map group_hex gs)
     | Some (s, e) \<Rightarrow> join_colon (map group_hex (take s gs)) @ ''::'' @ join_colon (map group_hex (drop e gs)))"

fun addr_string :: "netip_Addr \<Rightarrow> string" where
  "addr_string AddrZero = ''invalid IP''"
| "addr_string (Addr4 b) = v4_string b"
| "addr_string (Addr6 b z) =
     (if take 12 b = v4InV6Prefix then ''::ffff:'' @ v4_string (drop 12 b) else v6_string b)
     @ (if z = [] then [] else ''%'' @ z)"

text \<open>
  \<open>Addr.Prefix(64)\<close> and the text of its result: an IPv6 address keeps eight bytes and
  clears the rest and the zone, 64 bits are too many for an IPv4 address, and the zero
  \<open>Addr\<close> has the invalid prefix.
\<close>

fun prefix64_string :: "netip_Addr \<Rightarrow> string option" where
  "prefix64_string AddrZero = Some ''invalid Prefix''"
| "prefix64_string (Addr4 b) = None"
| "prefix64_string (Addr6 b z) = Some (addr_string (Addr6 (take 8 b @ replicate 8 0) []) @ ''/64'')"

section \<open>Parsing addresses\<close>

fun split_on :: "char \<Rightarrow> string \<Rightarrow> string list" where
  "split_on c [] = [[]]"
| "split_on c (x # xs) = (if x = c then [] # split_on c xs
     else (case split_on c xs of [] \<Rightarrow> [[x]] | y # ys \<Rightarrow> (x # y) # ys))"

text \<open>One octet: digits without a leading zero, at most 255.\<close>

definition parse_octet :: "string \<Rightarrow> byte option" where
  "parse_octet s = (if s = [] \<or> (1 < length s \<and> hd s = CHR ''0'') then None else
     (case digits_val 0 s of None \<Rightarrow> None | Some v \<Rightarrow> if v > 255 then None else Some (of_int v)))"

definition parse_v4 :: "string \<Rightarrow> bytes option" where
  "parse_v4 s = (case map parse_octet (split_on (CHR ''.'') s) of
     [Some a, Some b, Some c, Some d] \<Rightarrow> Some [a, b, c, d] | _ \<Rightarrow> None)"

fun hex_group :: "u16 \<Rightarrow> string \<Rightarrow> u16 \<times> string" where
  "hex_group acc (c # cs) = (case hex_val c of None \<Rightarrow> (acc, c # cs)
     | Some d \<Rightarrow> hex_group (acc * 16 + of_nat d) cs)"
| "hex_group acc [] = (acc, [])"

text \<open>
  The loop of \<open>parseIPv6\<close> over the groups: \<open>acc\<close> holds the bytes read so far and
  \<open>ell\<close> the position of the double colon. It returns the bytes, the position and what is left.
\<close>

fun v6_loop :: "nat \<Rightarrow> bytes \<Rightarrow> nat option \<Rightarrow> string \<Rightarrow> (bytes \<times> nat option \<times> string) option" where
  "v6_loop 0 acc ell s = Some (acc, ell, s)"
| "v6_loop (Suc fuel) acc ell s = (
     if 16 \<le> length acc then Some (acc, ell, s) else
     let (g, rest) = hex_group 0 s; off = length s - length rest in
     if off = 0 \<or> 4 < off then None
     else if rest \<noteq> [] \<and> hd rest = CHR ''.'' then
       (if (ell = None \<and> length acc \<noteq> 12) \<or> 12 < length acc then None
        else (case parse_v4 s of None \<Rightarrow> None | Some b \<Rightarrow> Some (acc @ b, ell, [])))
     else
       let acc' = acc @ put16 g in
       (case rest of
          [] \<Rightarrow> Some (acc', ell, [])
        | c # s1 \<Rightarrow>
            if c \<noteq> CHR '':'' \<or> s1 = [] then None
            else if hd s1 = CHR '':'' then
              (if ell \<noteq> None then None
               else if tl s1 = [] then Some (acc', Some (length acc'), [])
               else v6_loop fuel acc' (Some (length acc')) (tl s1))
            else v6_loop fuel acc' ell s1))"

definition parse_v6_body :: "string \<Rightarrow> bytes option" where
  "parse_v6_body s = (let (ell, s1) = (if take 2 s = ''::'' then (Some 0, drop 2 s) else (None, s)) in
     if ell \<noteq> None \<and> s1 = [] then Some (replicate 16 0) else
     (case v6_loop 9 [] ell s1 of
        None \<Rightarrow> None
      | Some (acc, e, rest) \<Rightarrow>
          if rest \<noteq> [] then None
          else if length acc < 16 then
            (case e of None \<Rightarrow> None
             | Some k \<Rightarrow> Some (take k acc @ replicate (16 - length acc) 0 @ drop k acc))
          else if e \<noteq> None then None else Some acc))"

definition parse_v6 :: "string \<Rightarrow> netip_Addr option" where
  "parse_v6 s = (let body = takeWhile (\<lambda>c. c \<noteq> CHR ''%'') s; z = dropWhile (\<lambda>c. c \<noteq> CHR ''%'') s in
     if z = ''%'' then None
     else (case parse_v6_body body of None \<Rightarrow> None | Some b \<Rightarrow> Some (Addr6 b (tl z))))"

text \<open>\<open>netip.ParseAddr\<close> looks at the first dot, colon or percent sign.\<close>

definition ParseAddr :: "string \<Rightarrow> netip_Addr option" where
  "ParseAddr s = (case filter (\<lambda>c. c = CHR ''.'' \<or> c = CHR '':'' \<or> c = CHR ''%'') s of
     [] \<Rightarrow> None
   | c # _ \<Rightarrow> if c = CHR ''.'' then map_option Addr4 (parse_v4 s)
              else if c = CHR '':'' then parse_v6 s else None)"

section \<open>net.Addr values\<close>

text \<open>
  The \<open>net.Addr\<close> values the code distinguishes: the nil interface, \<open>*net.TCPAddr\<close> and
  \<open>*net.UDPAddr\<close> (IP, port, zone), and any other implementation by its network and text.
\<close>

datatype net_addr = AddrNil | TCPAddr bytes int string | UDPAddr bytes int string | OtherAddr string string

definition byte_hex :: "byte \<Rightarrow> string" where
  "byte_hex b = [hex_digit (unat (drop_bit 4 b)), hex_digit (unat (b AND 15))]"

definition ipEmptyString :: "bytes \<Rightarrow> string" where
  "ipEmptyString ip = (if ip = [] then [] else
     (case AddrFromSlice ip of None \<Rightarrow> ''?'' @ concat (map byte_hex ip) | Some a \<Rightarrow> addr_string (Unmap a)))"

definition ip_port_string :: "bytes \<Rightarrow> int \<Rightarrow> string \<Rightarrow> string" where
  "ip_port_string ip port z =
     JoinHostPort (ipEmptyString ip @ (if z = [] then [] else ''%'' @ z)) (Itoa port)"

fun net_addr_String :: "net_addr \<Rightarrow> string" where
  "net_addr_String AddrNil = ''<nil>''"
| "net_addr_String (TCPAddr ip port z) = ip_port_string ip port z"
| "net_addr_String (UDPAddr ip port z) = ip_port_string ip port z"
| "net_addr_String (OtherAddr n s) = s"

fun net_addr_Network :: "net_addr \<Rightarrow> string" where
  "net_addr_Network AddrNil = []"
| "net_addr_Network (TCPAddr ip port z) = ''tcp''"
| "net_addr_Network (UDPAddr ip port z) = ''udp''"
| "net_addr_Network (OtherAddr n s) = n"

section \<open>auth/net.go and internal/gatewaycore/addr.go\<close>

definition port_of_text :: "string \<Rightarrow> int" where
  "port_of_text s = (case SplitHostPort s of None \<Rightarrow> 0
     | Some (_, port) \<Rightarrow> (case Atoi port of None \<Rightarrow> 0
         | Some n \<Rightarrow> if n < 0 \<or> n > 65535 then 0 else n))"

definition effectivePort :: "int \<Rightarrow> net_addr \<Rightarrow> int" where
  "effectivePort configured addr = (if configured > 0 then configured else
     (case addr of TCPAddr _ port _ \<Rightarrow> port | AddrNil \<Rightarrow> 0 | _ \<Rightarrow> port_of_text (net_addr_String addr)))"

fun ListenerPort :: "net_addr \<Rightarrow> int" where
  "ListenerPort (TCPAddr ip port z) = port" | "ListenerPort a = 0"

text \<open>
  \<open>port, _ := strconv.Atoi(p)\<close> keeps what \<open>Atoi\<close> returns beside its error: 0 for a
  syntax error and the nearest bound of \<open>int\<close> for a number out of range.
\<close>

definition Atoi_value :: "string \<Rightarrow> int" where
  "Atoi_value s = (case Atoi s of Some n \<Rightarrow> n
     | None \<Rightarrow> (let neg = (s \<noteq> [] \<and> hd s = CHR ''-'');
                   ds = (if s \<noteq> [] \<and> (hd s = CHR ''-'' \<or> hd s = CHR ''+'') then tl s else s) in
        if ds = [] \<or> digits_val 0 ds = None then 0
        else if neg then - 9223372036854775808 else 9223372036854775807))"

definition ListenerPortFromString :: "string \<Rightarrow> int" where
  "ListenerPortFromString addr = (case SplitHostPort addr of None \<Rightarrow> 0 | Some (_, p) \<Rightarrow> Atoi_value p)"

definition UDPListenStringForKnockPort :: "string \<Rightarrow> int \<Rightarrow> string" where
  "UDPListenStringForKnockPort addr knockPort = (if knockPort \<le> 0 then addr else
     (case SplitHostPort addr of None \<Rightarrow> addr | Some (host, _) \<Rightarrow> JoinHostPort host (Itoa knockPort)))"

definition UDPListenForKnockPort :: "net_addr \<Rightarrow> int \<Rightarrow> string" where
  "UDPListenForKnockPort addr knockPort = (if knockPort \<le> 0 then net_addr_String addr else
     (case SplitHostPort (net_addr_String addr) of None \<Rightarrow> net_addr_String addr
      | Some (host, _) \<Rightarrow> JoinHostPort host (Itoa knockPort)))"

definition AddrFromIP :: "bytes \<Rightarrow> netip_Addr option" where
  "AddrFromIP ip = (case AddrFromSlice ip of None \<Rightarrow> None | Some a \<Rightarrow> Some (Unmap a))"

fun AddrFromNet :: "net_addr \<Rightarrow> netip_Addr option" where
  "AddrFromNet (TCPAddr ip port z) = map_option Unmap (AddrFromSlice ip)"
| "AddrFromNet AddrNil = None"
| "AddrFromNet a = (case SplitHostPort (net_addr_String a) of None \<Rightarrow> None
     | Some (host, _) \<Rightarrow> (case ParseAddr host of None \<Rightarrow> None | Some ip \<Rightarrow> Some (Unmap ip)))"

section \<open>Text forms read back\<close>

lemma Itoa_chars: "c \<in> set (Itoa n) \<Longrightarrow> digit_val c \<noteq> None \<or> c = CHR ''-''"
  using dec_nat_chars by (auto simp: Itoa_def split: if_splits)

lemma Itoa_no_special [simp]:
  "CHR '':'' \<notin> set (Itoa n)" "CHR ''['' \<notin> set (Itoa n)" "CHR '']'' \<notin> set (Itoa n)"
  "CHR ''.'' \<notin> set (Itoa n)" "CHR ''%'' \<notin> set (Itoa n)" "CHR ''/'' \<notin> set (Itoa n)"
  using Itoa_chars by (force simp: digit_val_def)+

lemma port_of_text_JoinHostPort:
  assumes "set host \<inter> {CHR ''['', CHR '']''} = {}" "0 \<le> p" "p \<le> 65535"
  shows "port_of_text (JoinHostPort host (Itoa p)) = p"
  using assms by (simp add: port_of_text_def SplitHostPort_JoinHostPort Atoi_Itoa)

lemma effectivePort_range:
  "effectivePort c (UDPAddr ip p z) \<le> max c 65535" "0 \<le> effectivePort c (UDPAddr ip p z)"
  by (auto simp: effectivePort_def port_of_text_def split: option.splits)

lemma split_on_no: "c \<notin> set x \<Longrightarrow> split_on c x = [x]"
  by (induction x) auto

lemma split_on_append: "c \<notin> set x \<Longrightarrow> split_on c (x @ c # y) = x # split_on c y"
  by (induction x) auto

lemma dec_nat_no_leading_zero: "0 \<le> n \<Longrightarrow> 1 < length (dec_nat n) \<Longrightarrow> hd (dec_nat n) \<noteq> CHR ''0''"
proof (induction n rule: dec_nat.induct)
  case (1 n)
  show ?case
  proof (cases "n < 10")
    case True
    then show ?thesis using 1 by (simp add: dec_nat.simps [of n])
  next
    case False
    have e: "hd (dec_nat n) = hd (dec_nat (n div 10))"
      using False by (simp add: dec_nat.simps [of n])
    show ?thesis
    proof (cases "n div 10 < 10")
      case True
      then have "digit_val (hd (dec_nat (n div 10))) = Some (n div 10)"
        using False by (simp add: dec_nat.simps [of "n div 10"] dec_digit_cases)
      moreover have "n div 10 \<noteq> 0" using False by linarith
      ultimately show ?thesis using e by (auto simp: digit_val_def)
    next
      case big: False
      then have "1 < length (dec_nat (n div 10))"
        using dec_nat_nonempty [of "n div 10 div 10"]
        by (simp add: dec_nat.simps [of "n div 10"] length_greater_0_conv [symmetric] del: length_greater_0_conv dec_nat_nonempty)
      then show ?thesis using 1 False e by simp
    qed
  qed
qed

lemma parse_octet_Itoa: "parse_octet (Itoa (uint (b :: byte))) = Some b"
proof -
  have "uint b < 256" using uint_lt2p [of b] by simp
  then show ?thesis
    using dec_nat_no_leading_zero [of "uint b"] by (simp add: parse_octet_def Itoa_def digits_val_dec_nat)
qed

lemma parse_v4_string: "length b = 4 \<Longrightarrow> parse_v4 (v4_string b) = Some b"
proof -
  assume "length b = 4"
  then have "[b ! 0, b ! 1, b ! 2, b ! 3] = b"
    by (intro nth_equalityI) (auto simp: less_Suc_eq numeral_eq_Suc)
  then show ?thesis
    by (simp add: parse_v4_def v4_string_def split_on_append split_on_no parse_octet_Itoa)
qed

lemma ParseAddr_v4: "length b = 4 \<Longrightarrow> ParseAddr (addr_string (Addr4 b)) = Some (Addr4 b)"
proof -
  assume len: "length b = 4"
  have f: "filter (\<lambda>c. c = CHR ''.'' \<or> c = CHR '':'' \<or> c = CHR ''%'') (Itoa n) = []" for n
    by (auto simp: filter_empty_conv)
  show ?thesis using parse_v4_string [OF len] by (simp add: ParseAddr_def) (simp add: v4_string_def f)
qed

lemma addr_string_v4_inj:
  "length a = 4 \<Longrightarrow> length b = 4 \<Longrightarrow> addr_string (Addr4 a) = addr_string (Addr4 b) \<longleftrightarrow> a = b"
  using ParseAddr_v4 by (metis netip_Addr.inject(1) option.inject)

lemma Unmap_Unmap [simp]: "Unmap (Unmap a) = Unmap a"
  by (cases a) auto

lemma Unmap_mapped: "length b = 4 \<Longrightarrow> Unmap (Addr6 (v4InV6Prefix @ b) z) = Addr4 b"
  by (simp add: v4InV6Prefix_def)

end
