(* ===== verification/IP_Limit.thy ===== *)
theory IP_Limit
  imports Net_Addr
begin

text \<open>
  The package internal/iplimit: keys for source addresses and the limiter of concurrent
  slots per source. A limiter and the release functions it has handed out form a
  transition system whose steps are the calls of \<open>Acquire\<close> and of release functions, in
  any order and with any repetition.
\<close>

section \<open>Source keys\<close>

definition KeyFromAddr :: "netip_Addr \<Rightarrow> string" where
  "KeyFromAddr ip0 = (let ip = WithZone [] (Unmap ip0) in
     if Is4 ip then addr_string ip
     else (case prefix64_string ip of None \<Rightarrow> addr_string ip | Some p \<Rightarrow> p))"

fun addrIP :: "net_addr \<Rightarrow> netip_Addr option" where
  "addrIP AddrNil = None"
| "addrIP (TCPAddr ip port z) = AddrFromSlice ip"
| "addrIP (UDPAddr ip port z) = AddrFromSlice ip"
| "addrIP a = (let host = (case SplitHostPort (net_addr_String a) of None \<Rightarrow> net_addr_String a | Some (h, _) \<Rightarrow> h)
               in ParseAddr host)"

definition Key :: "net_addr \<Rightarrow> string option" where
  "Key addr = (case addrIP addr of None \<Rightarrow> None | Some ip \<Rightarrow> Some (KeyFromAddr ip))"

section \<open>The limiter\<close>

text \<open>A nil \<open>*Limiter\<close> is \<^term>\<open>None\<close>; the map \<open>n\<close> is an association list.\<close>

record Limiter =
  lim_max :: int
  lim_n :: "(string \<times> int) list"

definition New :: "int \<Rightarrow> Limiter option" where
  "New mx = (if mx \<le> 0 then None else Some \<lparr>lim_max = mx, lim_n = []\<rparr>)"

definition slots :: "Limiter \<Rightarrow> string \<Rightarrow> int" where
  "slots l k = (case map_of (lim_n l) k of None \<Rightarrow> 0 | Some v \<Rightarrow> v)"

text \<open>
  The release function \<open>Acquire\<close> returns: the empty function, or a slot of a key with the
  state of its \<open>sync.Once\<close>.
\<close>

datatype release = ReleaseNothing | ReleaseSlot string bool

definition Acquire :: "Limiter option \<Rightarrow> net_addr \<Rightarrow> Limiter option \<times> release option" where
  "Acquire lo addr = (case lo of
     None \<Rightarrow> (None, Some ReleaseNothing)
   | Some l \<Rightarrow> (case Key addr of
       None \<Rightarrow> (Some l, Some ReleaseNothing)
     | Some key \<Rightarrow>
         if slots l key \<ge> lim_max l then (Some l, None)
         else (Some (l\<lparr>lim_n := AList.update key (slots l key + 1) (lim_n l)\<rparr>), Some (ReleaseSlot key False))))"

fun call_release :: "Limiter option \<Rightarrow> release \<Rightarrow> Limiter option \<times> release" where
  "call_release (Some l) (ReleaseSlot key False) =
     ((if slots l key \<le> 1 then Some (l\<lparr>lim_n := AList.delete key (lim_n l)\<rparr>)
       else Some (l\<lparr>lim_n := AList.update key (slots l key - 1) (lim_n l)\<rparr>)), ReleaseSlot key True)"
| "call_release lo r = (lo, r)"

section \<open>Keys aggregate a source\<close>

lemma KeyFromAddr_v4: "length b = 4 \<Longrightarrow> KeyFromAddr (Addr4 b) = v4_string b"
  by (simp add: KeyFromAddr_def)

lemma KeyFromAddr_mapped: "length b = 4 \<Longrightarrow> KeyFromAddr (Addr6 (v4InV6Prefix @ b) z) = v4_string b"
  using Unmap_mapped by (simp add: KeyFromAddr_def)

lemma KeyFromAddr_v6:
  "take 12 b \<noteq> v4InV6Prefix \<Longrightarrow>
     KeyFromAddr (Addr6 b z) = addr_string (Addr6 (take 8 b @ replicate 8 0) []) @ ''/64''"
  by (simp add: KeyFromAddr_def del: addr_string.simps)

lemma v4_string_no_slash: "CHR ''/'' \<notin> set (v4_string b)"
  by (simp add: v4_string_def)

section \<open>The limiter as a transition system\<close>

type_synonym limiter_state = "Limiter option \<times> release list"

inductive limiter_step :: "limiter_state \<Rightarrow> limiter_state \<Rightarrow> bool" where
  acquired: "Acquire l addr = (l', Some r) \<Longrightarrow> limiter_step (l, rs) (l', rs @ [r])"
| refused: "Acquire l addr = (l', None) \<Longrightarrow> limiter_step (l, rs) (l', rs)"
| released: "i < length rs \<Longrightarrow> call_release l (rs ! i) = (l', r') \<Longrightarrow> limiter_step (l, rs) (l', rs[i := r'])"

inductive_cases limiter_stepE: "limiter_step s t"

text \<open>The slots a key holds: the release functions of the key that have not run yet.\<close>

definition held :: "string \<Rightarrow> release list \<Rightarrow> int" where
  "held k rs = int (count_list rs (ReleaseSlot k False))"

definition limiter_inv :: "int \<Rightarrow> limiter_state \<Rightarrow> bool" where
  "limiter_inv mx s = (case s of (lo, rs) \<Rightarrow>
     (case lo of None \<Rightarrow> mx \<le> 0 \<and> (\<forall>k. held k rs = 0)
      | Some l \<Rightarrow> lim_max l = mx \<and> 0 < mx \<and>
          (\<forall>k. map_of (lim_n l) k = (if held k rs = 0 then None else Some (held k rs)) \<and> held k rs \<le> mx)))"

lemma held_append [simp]: "held k (rs @ [r]) = held k rs + (if r = ReleaseSlot k False then 1 else 0)"
  by (simp add: held_def)

lemma held_nonneg [simp]: "0 \<le> held k rs"
  by (simp add: held_def)

lemma count_list_update:
  "i < length xs \<Longrightarrow> int (count_list (xs[i := y]) a) =
     int (count_list xs a) - (if xs ! i = a then 1 else 0) + (if y = a then 1 else 0)"
proof (induction xs arbitrary: i)
  case (Cons x xs)
  show ?case
  proof (cases i)
    case (Suc j)
    then show ?thesis using Cons.IH [of j] Cons.prems by (simp split: if_splits)
  qed simp
qed simp

lemma held_update:
  "i < length rs \<Longrightarrow> held k (rs[i := r']) =
     held k rs - (if rs ! i = ReleaseSlot k False then 1 else 0) + (if r' = ReleaseSlot k False then 1 else 0)"
  by (simp add: held_def count_list_update)

lemma held_pos: "i < length rs \<Longrightarrow> rs ! i = ReleaseSlot k False \<Longrightarrow> 0 < held k rs"
  unfolding held_def by (metis count_list_0_iff gr0I nth_mem of_nat_0_less_iff)

lemma slots_held: "limiter_inv mx (Some l, rs) \<Longrightarrow> slots l k = held k rs"
  by (auto simp: limiter_inv_def slots_def)

lemma limiter_inv_New: "limiter_inv mx (New mx, [])"
  by (simp add: limiter_inv_def New_def held_def)

lemma Acquire_cases:
  assumes "Acquire lo addr = (lo', ro)"
  obtains "lo' = lo" "ro = Some ReleaseNothing"
  | l key where "lo = Some l" "lo' = lo" "ro = None" "Key addr = Some key" "slots l key \<ge> lim_max l"
  | l key where "lo = Some l" "Key addr = Some key" "slots l key < lim_max l"
      "lo' = Some (l\<lparr>lim_n := AList.update key (slots l key + 1) (lim_n l)\<rparr>)"
      "ro = Some (ReleaseSlot key False)"
  using assms by (auto simp: Acquire_def split: option.splits if_splits)

lemma call_release_cases:
  assumes "call_release lo r = (lo', r')"
  obtains "lo' = lo" "r' = r" "\<And>k. lo \<noteq> None \<Longrightarrow> r \<noteq> ReleaseSlot k False"
  | l key where "lo = Some l" "r = ReleaseSlot key False" "r' = ReleaseSlot key True"
      "lo' = Some (l\<lparr>lim_n := if slots l key \<le> 1 then AList.delete key (lim_n l)
                              else AList.update key (slots l key - 1) (lim_n l)\<rparr>)"
  using assms by (cases "(lo, r)" rule: call_release.cases) auto

lemma limiter_inv_step: "limiter_step s t \<Longrightarrow> limiter_inv mx s \<Longrightarrow> limiter_inv mx t"
proof (induction rule: limiter_step.induct)
  case (acquired l addr l' r rs)
  from acquired.hyps show ?case
  proof (cases rule: Acquire_cases)
    case 1
    then show ?thesis using acquired.prems by (auto simp: limiter_inv_def split: option.splits)
  next
    case (3 l0 key)
    have "slots l0 key = held key rs" using slots_held acquired.prems 3 by blast
    moreover have "held key rs + 1 \<noteq> 0" using held_nonneg [of key rs] by linarith
    ultimately show ?thesis using acquired.prems 3
      by (auto simp: limiter_inv_def update_conv')
  qed simp
next
  case (refused l addr l' rs)
  from refused.hyps show ?case
    using refused.prems by (cases rule: Acquire_cases) auto
next
  case (released i rs l l' r')
  from released.hyps(2) show ?case
  proof (cases rule: call_release_cases)
    case 1
    then show ?thesis using released.prems list_update_id [of rs i] by simp
  next
    case (2 l0 key)
    have s: "slots l0 key = held key rs" using slots_held released.prems 2 by blast
    have p: "0 < held key rs" using held_pos released.hyps(1) 2 by blast
    have h: "held k (rs[i := ReleaseSlot key True]) = held k rs - (if k = key then 1 else 0)" for k
      using held_update released.hyps(1) 2 by auto
    have "held key rs \<le> mx" using released.prems 2 by (simp add: limiter_inv_def)
    then have m: "held key rs - 1 \<le> mx" by linarith
    show ?thesis using released.prems 2 p m
      by (auto simp: limiter_inv_def h s update_conv' delete_conv')
  qed
qed

lemma limiter_inv_reachable: "limiter_step\<^sup>*\<^sup>* (New mx, []) t \<Longrightarrow> limiter_inv mx t"
  by (induction rule: rtranclp_induct) (auto intro: limiter_inv_New limiter_inv_step)

text \<open>
  Property C9. However calls of \<open>Acquire\<close> and of release functions interleave, a limiter
  made by \<open>New\<close> with a positive bound never has more unreleased slots of one source than
  the bound, it counts exactly the unreleased ones (repeated release calls change
  nothing), and it refuses an address exactly when its source holds the bound.
\<close>

theorem iplimit_concurrency_bound:
  assumes "limiter_step\<^sup>*\<^sup>* (New mx, []) (lo, rs)" and "0 < mx" and "Key addr = Some k"
  shows "held k rs \<le> mx \<and> (snd (Acquire lo addr) = None \<longleftrightarrow> held k rs = mx)"
proof -
  have inv: "limiter_inv mx (lo, rs)" using limiter_inv_reachable assms(1) .
  then obtain l where l: "lo = Some l" "lim_max l = mx" using assms(2)
    by (auto simp: limiter_inv_def split: option.splits)
  have s: "slots l k = held k rs" and b: "held k rs \<le> mx"
    using inv slots_held l by (auto simp: limiter_inv_def)
  show ?thesis using l s b assms(3) by (simp add: Acquire_def)
qed

definition demo_addr :: net_addr where "demo_addr = TCPAddr [10, 0, 0, 1] 443 []"

lemma demo_addr_key: "Key demo_addr = Some ''10.0.0.1''"
  by code_simp

lemma demo_limiter_run:
  "limiter_step\<^sup>*\<^sup>* (New 1, []) (Some \<lparr>lim_max = 1, lim_n = [(''10.0.0.1'', 1)]\<rparr>, [ReleaseSlot ''10.0.0.1'' False])"
proof -
  have "Acquire (New 1) demo_addr =
      (Some \<lparr>lim_max = 1, lim_n = [(''10.0.0.1'', 1)]\<rparr>, Some (ReleaseSlot ''10.0.0.1'' False))"
    by (simp add: Acquire_def New_def demo_addr_key slots_def)
  from limiter_step.acquired [OF this, of "[]"] show ?thesis by auto
qed

theorem iplimit_concurrency_bound_witness:
  "held ''10.0.0.1'' [ReleaseSlot ''10.0.0.1'' False] = 1 \<and>
   snd (Acquire (Some \<lparr>lim_max = 1, lim_n = [(''10.0.0.1'', 1)]\<rparr>) demo_addr) = None"
  using iplimit_concurrency_bound [OF demo_limiter_run _ demo_addr_key] by (simp add: held_def)

text \<open>
  Source keys aggregate exactly as documented: an IPv4 address and its
  IPv4-mapped IPv6 form share a key whatever the zone, two different IPv4 addresses never
  do, two IPv6 addresses that agree on their first eight bytes share a key whatever their
  zones, and no IPv6 source has the key of an IPv4 source.
\<close>

theorem iplimit_keys:
  assumes "length a = 4" "length b = 4" "length c = 16" "length d = 16"
    "take 12 c \<noteq> v4InV6Prefix" "take 12 d \<noteq> v4InV6Prefix"
  shows "Key (TCPAddr (v4InV6Prefix @ a) p z) = Key (UDPAddr a q y) \<and>
    (Key (TCPAddr a p z) = Key (TCPAddr b q y) \<longleftrightarrow> a = b) \<and>
    (take 8 c = take 8 d \<longrightarrow> Key (TCPAddr c p z) = Key (UDPAddr d q y)) \<and>
    Key (TCPAddr a p z) \<noteq> Key (TCPAddr c q y)"
proof -
  have 4: "Key (TCPAddr x p z) = Some (v4_string x)" "Key (UDPAddr x p z) = Some (v4_string x)"
    if "length x = 4" for x p z
    using that by (simp_all add: Key_def AddrFromSlice_def KeyFromAddr_v4)
  have 6: "Key (TCPAddr x p z) = Some (addr_string (Addr6 (take 8 x @ replicate 8 0) []) @ ''/64'')"
    "Key (UDPAddr x p z) = Some (addr_string (Addr6 (take 8 x @ replicate 8 0) []) @ ''/64'')"
    if "length x = 16" "take 12 x \<noteq> v4InV6Prefix" for x p z
    using that by (simp_all add: Key_def AddrFromSlice_def KeyFromAddr_v6 del: addr_string.simps)
  have "length (v4InV6Prefix @ a) = 16" using assms by (simp add: v4InV6Prefix_def)
  then have m: "Key (TCPAddr (v4InV6Prefix @ a) p z) = Some (v4_string a)"
    using assms by (simp add: Key_def AddrFromSlice_def KeyFromAddr_mapped)
  have "v4_string a \<noteq> s @ ''/64''" for s
    using v4_string_no_slash [of a] by (metis in_set_conv_decomp)
  then show ?thesis using assms m addr_string_v4_inj [of a b] by (simp add: 4 6 del: addr_string.simps(3))
qed

theorem iplimit_keys_witness:
  "Key (TCPAddr (v4InV6Prefix @ [10,0,0,1]) 1 ''eth0'') = Key (UDPAddr [10,0,0,1] 2 []) \<and>
   Key (TCPAddr [0x20,1,0xd,0xb8,0,0,0,0,0,0,0,0,0,0,0,1] 1 ''eth0'') =
   Key (UDPAddr [0x20,1,0xd,0xb8,0,0,0,0,0xff,0,0,0,0,0,0,2] 2 [])"
  using iplimit_keys [of "[10,0,0,1]" "[10,0,0,2]" "[0x20,1,0xd,0xb8,0,0,0,0,0,0,0,0,0,0,0,1]"
      "[0x20,1,0xd,0xb8,0,0,0,0,0xff,0,0,0,0,0,0,2]" 1 "''eth0''" 2 "[]"]
  by (simp add: v4InV6Prefix_def)

end
