(* ===== verification/Auth_Config.thy ===== *)
theory Auth_Config
  imports Frame_V1 Envelope_V2 Replay Policy IP_Limit "HOL-Library.List_Lexorder" "HOL-Library.Char_ord"
begin

text \<open>
  auth/types.go: server and client configuration with defaults and validation, peers and
  frame metadata, and the static and rotating secret resolvers. The objects a server
  configuration points to and mutates (replay cache, knock store, policy, event sink) live
  in the record \<open>world\<close>; interfaces implemented elsewhere are function arguments.
\<close>

section \<open>Types\<close>

definition DefaultAuthTimeout :: duration where "DefaultAuthTimeout = 3 * second"
definition DefaultMaxAuthAttempts :: int where "DefaultMaxAuthAttempts = 64"

type_synonym AuthProtocol = string

definition AuthProtocolFrameV1 :: AuthProtocol where "AuthProtocolFrameV1 = ''tcp-auth-frame-v1''"
definition AuthProtocolEnvelopeV2 :: AuthProtocol where "AuthProtocolEnvelopeV2 = ''tcp-auth-envelope-v2''"
definition DefaultAuthProtocol :: AuthProtocol where "DefaultAuthProtocol = AuthProtocolEnvelopeV2"

lemmas auth_protocols = AuthProtocolFrameV1_def AuthProtocolEnvelopeV2_def DefaultAuthProtocol_def

record PeerInfo =
  p_ClientID :: string
  p_ClientIDHash :: bytes
  p_KeyHint :: u64
  p_Nonce :: bytes
  p_Timestamp :: i64
  p_ServerPort :: int
  p_Method :: string
  p_SessionID :: bytes
  p_Extensions :: bytes
  p_RemoteAddr :: net_addr
  p_Protocol :: AuthProtocol
  p_Flags :: byte

record FrameMeta =
  fm_Hint :: u64
  fm_Nonce :: bytes
  fm_ServerPort :: int
  fm_Protocol :: AuthProtocol
  fm_HintMode :: string
  fm_PrefixRandom :: bytes

record SecretCandidate =
  cand_ClientID :: string
  cand_Secret :: bytes

text \<open>
  A \<open>SecretResolver\<close>: the nil interface, one of the two resolvers of the package, or any
  other implementation given by its \<open>ResolveCandidates\<close>. Go maps are association lists.
\<close>

datatype SecretResolver = is_NilResolver: NilResolver
  | StaticSecrets "(string \<times> bytes) list"
  | RotatingSecrets "(string \<times> bytes list) list"
  | CustomResolver "FrameMeta \<Rightarrow> SecretCandidate list result"

declare is_NilResolver_def [simp]

text \<open>A \<open>ReplayCache\<close>: nil, the cache of the package, or another implementation with its state.\<close>

datatype 'r ReplayCache = NilReplayCache | MemoryCache MemoryReplayCache
  | CustomCache 'r "time \<Rightarrow> string \<Rightarrow> bytes \<Rightarrow> 'r \<Rightarrow> error option \<times> 'r" "'r \<Rightarrow> (int \<times> int) option"

datatype event = OnAccept net_addr | OnAuthOK PeerInfo | OnAuthFail net_addr error
  | OnReplay net_addr u64 | OnReplayCacheFull net_addr u64 int int | OnRateLimited net_addr
  | OnAuthenticated PeerInfo

record ('r, 'k, 'p) world =
  w_replay :: "'r ReplayCache"
  w_knock :: 'k
  w_policy :: 'p
  w_events :: "event list"

text \<open>
  \<open>s_KnockStore\<close> and \<open>s_Policy\<close> are the methods \<open>CheckAndConsume\<close> and \<open>Allow\<close> of the
  configured objects, None for a nil interface; their clock is an argument. \<open>s_Events\<close> and
  \<open>s_OnAuthenticated\<close> say whether a sink and a callback are configured.
\<close>

record ('k, 'p) ServerConfig =
  s_ServerPort :: int
  s_Secrets :: SecretResolver
  s_AuthTimeout :: duration
  s_TimeWindow :: duration
  s_MaxFrameSize :: int
  s_Protocol :: AuthProtocol
  s_AcceptProtocols :: "AuthProtocol list"
  s_EnvelopeV2 :: EnvelopeV2Config
  s_RequireKnock :: bool
  s_KnockStore :: "(time \<Rightarrow> PeerInfo \<Rightarrow> net_addr \<Rightarrow> 'k \<Rightarrow> error option \<times> 'k) option"
  s_ServerProof :: bool
  s_FailDelayJitterMin :: duration
  s_FailDelayJitterMax :: duration
  s_DrainOnFailBytes :: int
  s_DrainOnFailTimeout :: duration
  s_MaxAuthAttempts :: int
  s_Events :: bool
  s_Policy :: "(string \<Rightarrow> time \<Rightarrow> 'p \<Rightarrow> bool \<times> 'p) option"
  s_OnAuthenticated :: bool

record ClientConfig =
  cl_ClientID :: string
  cl_Secret :: bytes
  cl_ServerPort :: int
  cl_AuthTimeout :: duration
  cl_Protocol :: AuthProtocol
  cl_EnvelopeV2 :: EnvelopeV2Config
  cl_Method :: string
  cl_SessionID :: bytes
  cl_Extensions :: bytes
  cl_RequireServerProof :: bool

section \<open>Secret resolvers\<close>

definition sorted_ids :: "(string \<times> 'a) list \<Rightarrow> string list" where
  "sorted_ids s = sort (remdups (map fst s))"

text \<open>The condition under which the loops of both resolvers keep a secret.\<close>

definition secret_matches :: "crypto \<Rightarrow> FrameMeta \<Rightarrow> bytes \<Rightarrow> bool" where
  "secret_matches cr meta secret =
     (if secret = [] then False
      else if fm_Protocol meta = AuthProtocolEnvelopeV2 then
        (if fm_HintMode meta \<noteq> EnvelopeV2HintModeNone then
           (if length (fm_PrefixRandom meta) \<noteq> EnvelopeV2PrefixSize then False
            else ComputeEnvelopeV2RouteHint cr secret (fm_PrefixRandom meta) (fm_ServerPort meta) = fm_Hint meta)
         else True)
      else ComputeKeyHint cr secret (fm_Nonce meta) (fm_ServerPort meta) = fm_Hint meta)"

definition NewStaticSecretResolver :: "(string \<times> bytes) list \<Rightarrow> SecretResolver" where
  "NewStaticSecretResolver secrets = StaticSecrets (map (\<lambda>(i, s). (i, s)) secrets)"

definition static_ResolveCandidates ::
    "crypto \<Rightarrow> (string \<times> bytes) list \<Rightarrow> FrameMeta \<Rightarrow> SecretCandidate list" where
  "static_ResolveCandidates cr s meta =
     concat (map (\<lambda>ident. case map_of s ident of None \<Rightarrow> []
       | Some secret \<Rightarrow> if secret_matches cr meta secret
           then [\<lparr>cand_ClientID = ident, cand_Secret = secret\<rparr>] else []) (sorted_ids s))"

definition NewRotatingSecretResolver :: "(string \<times> bytes list) list \<Rightarrow> SecretResolver" where
  "NewRotatingSecretResolver secrets = RotatingSecrets (map (\<lambda>(i, vs). (i, map (\<lambda>s. s) vs)) secrets)"

definition rotating_ResolveCandidates ::
    "crypto \<Rightarrow> (string \<times> bytes list) list \<Rightarrow> FrameMeta \<Rightarrow> SecretCandidate list" where
  "rotating_ResolveCandidates cr s meta =
     concat (map (\<lambda>ident. case map_of s ident of None \<Rightarrow> []
       | Some versions \<Rightarrow> map (\<lambda>secret. \<lparr>cand_ClientID = ident, cand_Secret = secret\<rparr>)
           (filter (secret_matches cr meta) versions)) (sorted_ids s))"

text \<open>Calling \<open>ResolveCandidates\<close> through the interface; the server never does so on nil.\<close>

fun ResolveCandidates :: "crypto \<Rightarrow> SecretResolver \<Rightarrow> FrameMeta \<Rightarrow> SecretCandidate list result" where
  "ResolveCandidates cr NilResolver meta = Inl (Errorf ''nil SecretResolver'')"
| "ResolveCandidates cr (StaticSecrets s) meta = Inr (static_ResolveCandidates cr s meta)"
| "ResolveCandidates cr (RotatingSecrets s) meta = Inr (rotating_ResolveCandidates cr s meta)"
| "ResolveCandidates cr (CustomResolver f) meta = f meta"

section \<open>Server configuration\<close>

definition acceptsProtocol :: "AuthProtocol list \<Rightarrow> AuthProtocol \<Rightarrow> bool" where
  "acceptsProtocol ps p = list_ex (\<lambda>v. v = p) ps"

text \<open>The two steps of \<open>WithDefaults\<close>: limits and protocols, then the failure behaviour.\<close>

definition server_defaults_auth :: "('k, 'p) ServerConfig \<Rightarrow> ('k, 'p) ServerConfig" where
  "server_defaults_auth c =
     (let c = (if s_AuthTimeout c \<le> 0 then c\<lparr>s_AuthTimeout := DefaultAuthTimeout\<rparr> else c);
          c = (if s_TimeWindow c \<le> 0 then c\<lparr>s_TimeWindow := DefaultTimeWindow\<rparr> else c);
          c = (if s_MaxFrameSize c \<le> 0 then c\<lparr>s_MaxFrameSize := DefaultMaxFrameSize\<rparr> else c);
          c = (if s_Protocol c = [] then c\<lparr>s_Protocol := DefaultAuthProtocol\<rparr> else c);
          c = (if s_AcceptProtocols c = [] then c\<lparr>s_AcceptProtocols := [s_Protocol c]\<rparr> else c)
      in c\<lparr>s_EnvelopeV2 := WithDefaults (s_EnvelopeV2 c)\<rparr>)"

definition server_defaults_fail :: "('k, 'p) ServerConfig \<Rightarrow> ('k, 'p) ServerConfig" where
  "server_defaults_fail c =
     (let c = (if s_FailDelayJitterMin c < 0 then c\<lparr>s_FailDelayJitterMin := 0\<rparr> else c);
          c = (if s_FailDelayJitterMax c < 0 then c\<lparr>s_FailDelayJitterMax := 0\<rparr> else c);
          c = (if s_FailDelayJitterMax c > 0 \<and> s_FailDelayJitterMin c > s_FailDelayJitterMax c
               then c\<lparr>s_FailDelayJitterMin := s_FailDelayJitterMax c, s_FailDelayJitterMax := s_FailDelayJitterMin c\<rparr>
               else c);
          c = (if s_DrainOnFailBytes c < 0 then c\<lparr>s_DrainOnFailBytes := 0\<rparr> else c);
          c = (if s_DrainOnFailTimeout c < 0 then c\<lparr>s_DrainOnFailTimeout := 0\<rparr> else c)
      in if s_MaxAuthAttempts c \<le> 0 then c\<lparr>s_MaxAuthAttempts := DefaultMaxAuthAttempts\<rparr> else c)"

definition server_WithDefaults :: "('k, 'p) ServerConfig \<Rightarrow> ('k, 'p) ServerConfig" where
  "server_WithDefaults c = server_defaults_fail (server_defaults_auth c)"

fun staticCandidateCount :: "SecretResolver \<Rightarrow> int" where
  "staticCandidateCount (StaticSecrets s) = int (length (sorted_ids s))"
| "staticCandidateCount (RotatingSecrets s) =
     sum_list (map (\<lambda>ident. case map_of s ident of None \<Rightarrow> 0 | Some versions \<Rightarrow> int (length versions)) (sorted_ids s))"
| "staticCandidateCount r = 0"

definition envelopeV2NoneAttemptCost :: "SecretResolver \<Rightarrow> EnvelopeV2Config \<Rightarrow> int \<Rightarrow> int" where
  "envelopeV2NoneAttemptCost resolver envelope maxFrameSize =
     (let candidates = staticCandidateCount resolver
      in if candidates = 0 then 0
         else candidates * int (length (filter (\<lambda>bucket. bucket \<le> maxFrameSize)
                (EnvelopeV2Buckets (c_FrameSizeBuckets (WithDefaults envelope))))))"

definition server_Validate :: "('k, 'p) ServerConfig \<Rightarrow> unit result" where
  "server_Validate c0 =
     (let c = server_WithDefaults c0;
          c = (if s_MaxFrameSize c \<le> 0 then c\<lparr>s_MaxFrameSize := DefaultMaxFrameSize\<rparr> else c)
      in if s_MaxFrameSize c < int HeaderSize then Inl AuthErrFrameTooLarge
         else if s_Protocol c \<noteq> [] \<and> s_Protocol c \<noteq> AuthProtocolFrameV1 \<and> s_Protocol c \<noteq> AuthProtocolEnvelopeV2
         then Inl AuthErrUnsupportedVersion
         else if list_ex (\<lambda>p. p \<noteq> AuthProtocolFrameV1 \<and> p \<noteq> AuthProtocolEnvelopeV2) (s_AcceptProtocols c)
         then Inl AuthErrUnsupportedVersion
         else if s_Protocol c = AuthProtocolEnvelopeV2 \<or> s_AcceptProtocols c = [] \<or>
                 acceptsProtocol (s_AcceptProtocols c) AuthProtocolEnvelopeV2
         then rbind (Validate (WithDefaults (s_EnvelopeV2 c)) (s_MaxFrameSize c)) (\<lambda>_.
                if c_HintMode (WithDefaults (s_EnvelopeV2 c)) = EnvelopeV2HintModeNone \<and>
                   envelopeV2NoneAttemptCost (s_Secrets c) (s_EnvelopeV2 c) (s_MaxFrameSize c) > s_MaxAuthAttempts c
                then Inl AuthErrHintModeNoneTooBroad else Inr ())
         else Inr ())"

section \<open>Client configuration\<close>

definition client_WithDefaults :: "ClientConfig \<Rightarrow> ClientConfig" where
  "client_WithDefaults c =
     (let c = (if cl_AuthTimeout c \<le> 0 then c\<lparr>cl_AuthTimeout := DefaultAuthTimeout\<rparr> else c);
          c = (if cl_Protocol c = [] then c\<lparr>cl_Protocol := DefaultAuthProtocol\<rparr> else c)
      in c\<lparr>cl_EnvelopeV2 := WithDefaults (cl_EnvelopeV2 c)\<rparr>)"

definition ValidateRuntime :: "ClientConfig \<Rightarrow> unit result" where
  "ValidateRuntime c0 =
     (let c = client_WithDefaults c0
      in if cl_ClientID c = [] \<or> int (length (cl_ClientID c)) > 65535 \<or> CHR 0x00 \<in> set (cl_ClientID c)
         then Inl AuthErrInvalidClientID
         else if length (cl_Secret c) < MinSecretSize then Inl AuthErrInvalidSecret
         else if cl_ServerPort c < 0 \<or> cl_ServerPort c > 65535 then Inl AuthErrInvalidFrame
         else if cl_AuthTimeout c \<le> 0 then Inl AuthErrInvalidFrame
         else if cl_Protocol c \<noteq> AuthProtocolFrameV1 \<and> cl_Protocol c \<noteq> AuthProtocolEnvelopeV2
         then Inl AuthErrUnsupportedVersion
         else if cl_Protocol c = AuthProtocolEnvelopeV2
         then Validate (WithDefaults (cl_EnvelopeV2 c)) EnvelopeV2DefaultMaxSize
         else Inr ())"

definition client_Validate :: "ClientConfig \<Rightarrow> unit result" where
  "client_Validate c = ValidateRuntime c"

definition ValidateClientAuthConfig :: "ClientConfig \<Rightarrow> unit result" where
  "ValidateClientAuthConfig c = ValidateRuntime c"

section \<open>Replay caches behind the interface\<close>

fun hasReplayCache :: "'r ReplayCache \<Rightarrow> bool" where
  "hasReplayCache NilReplayCache = False" | "hasReplayCache c = True"

fun replay_CheckAndMark ::
    "time \<Rightarrow> string \<Rightarrow> bytes \<Rightarrow> 'r ReplayCache \<Rightarrow> error option \<times> 'r ReplayCache" where
  "replay_CheckAndMark now clientID nonce (MemoryCache c) =
     (let (e, c) = mrc_CheckAndMark now clientID nonce c in (e, MemoryCache c))"
| "replay_CheckAndMark now clientID nonce (CustomCache s check stats) =
     (let (e, s) = check now clientID nonce s in (e, CustomCache s check stats))"
| "replay_CheckAndMark now clientID nonce NilReplayCache = (Some (Errorf ''nil ReplayCache''), NilReplayCache)"

fun replayCacheStats :: "'r ReplayCache \<Rightarrow> int \<times> int" where
  "replayCacheStats (MemoryCache c) = (mrc_Len c, mrc_Cap c)"
| "replayCacheStats (CustomCache s check stats) = (case stats s of None \<Rightarrow> (0, 0) | Some lc \<Rightarrow> lc)"
| "replayCacheStats NilReplayCache = (0, 0)"

section \<open>Lemmas on configurations\<close>

lemma acceptsProtocol_iff: "acceptsProtocol ps p \<longleftrightarrow> p \<in> set ps"
  by (auto simp: acceptsProtocol_def list_ex_iff)

text \<open>What holds of every configuration \<open>WithDefaults\<close> returns.\<close>

definition server_config_ok :: "('k, 'p) ServerConfig \<Rightarrow> bool" where
  "server_config_ok c \<longleftrightarrow> 0 < s_AuthTimeout c \<and> 0 < s_TimeWindow c \<and> 0 < s_MaxFrameSize c \<and>
     s_Protocol c \<noteq> [] \<and> s_AcceptProtocols c \<noteq> [] \<and> WithDefaults (s_EnvelopeV2 c) = s_EnvelopeV2 c \<and>
     0 \<le> s_FailDelayJitterMin c \<and> 0 \<le> s_FailDelayJitterMax c \<and>
     (0 < s_FailDelayJitterMax c \<longrightarrow> s_FailDelayJitterMin c \<le> s_FailDelayJitterMax c) \<and>
     0 \<le> s_DrainOnFailBytes c \<and> 0 \<le> s_DrainOnFailTimeout c \<and> 0 < s_MaxAuthAttempts c"

lemma server_defaults_fail_keeps [simp]:
  "s_AuthTimeout (server_defaults_fail c) = s_AuthTimeout c" "s_TimeWindow (server_defaults_fail c) = s_TimeWindow c"
  "s_MaxFrameSize (server_defaults_fail c) = s_MaxFrameSize c" "s_Protocol (server_defaults_fail c) = s_Protocol c"
  "s_AcceptProtocols (server_defaults_fail c) = s_AcceptProtocols c" "s_EnvelopeV2 (server_defaults_fail c) = s_EnvelopeV2 c"
  "s_Secrets (server_defaults_fail c) = s_Secrets c" "s_ServerPort (server_defaults_fail c) = s_ServerPort c"
  by (simp_all add: server_defaults_fail_def Let_def)

lemma server_defaults_auth_keeps [simp]:
  "s_FailDelayJitterMin (server_defaults_auth c) = s_FailDelayJitterMin c"
  "s_FailDelayJitterMax (server_defaults_auth c) = s_FailDelayJitterMax c"
  "s_DrainOnFailBytes (server_defaults_auth c) = s_DrainOnFailBytes c"
  "s_DrainOnFailTimeout (server_defaults_auth c) = s_DrainOnFailTimeout c"
  "s_MaxAuthAttempts (server_defaults_auth c) = s_MaxAuthAttempts c"
  "s_Secrets (server_defaults_auth c) = s_Secrets c" "s_ServerPort (server_defaults_auth c) = s_ServerPort c"
  by (simp_all add: server_defaults_auth_def Let_def)

lemma server_config_ok_WithDefaults: "server_config_ok (server_WithDefaults c)"
proof -
  have "0 < s_AuthTimeout (server_defaults_auth c)" "0 < s_TimeWindow (server_defaults_auth c)"
    "0 < s_MaxFrameSize (server_defaults_auth c)" "s_Protocol (server_defaults_auth c) \<noteq> []"
    "s_AcceptProtocols (server_defaults_auth c) \<noteq> []"
    "WithDefaults (s_EnvelopeV2 (server_defaults_auth c)) = s_EnvelopeV2 (server_defaults_auth c)"
    by (simp_all add: server_defaults_auth_def Let_def DefaultAuthTimeout_def DefaultTimeWindow_def
        DefaultMaxFrameSize_def auth_protocols time_defs)
  moreover have "0 \<le> s_FailDelayJitterMin (server_defaults_fail d) \<and> 0 \<le> s_FailDelayJitterMax (server_defaults_fail d) \<and>
     (0 < s_FailDelayJitterMax (server_defaults_fail d) \<longrightarrow>
       s_FailDelayJitterMin (server_defaults_fail d) \<le> s_FailDelayJitterMax (server_defaults_fail d)) \<and>
     0 \<le> s_DrainOnFailBytes (server_defaults_fail d) \<and> 0 \<le> s_DrainOnFailTimeout (server_defaults_fail d) \<and>
     0 < s_MaxAuthAttempts (server_defaults_fail d)" for d :: "('a, 'b) ServerConfig"
    by (simp add: server_defaults_fail_def Let_def DefaultMaxAuthAttempts_def not_less)
  ultimately show ?thesis by (simp add: server_config_ok_def server_WithDefaults_def)
qed

lemma server_WithDefaults_id: "server_config_ok c \<Longrightarrow> server_WithDefaults c = c"
proof -
  assume ok: "server_config_ok c"
  then have "\<not> s_AuthTimeout c \<le> 0" "\<not> s_TimeWindow c \<le> 0" "\<not> s_MaxFrameSize c \<le> 0"
    "s_Protocol c \<noteq> []" "s_AcceptProtocols c \<noteq> []" "WithDefaults (s_EnvelopeV2 c) = s_EnvelopeV2 c"
    by (simp_all add: server_config_ok_def)
  then have "server_defaults_auth c = c" by (simp add: server_defaults_auth_def Let_def)
  moreover have "\<not> s_FailDelayJitterMin c < 0" "\<not> s_FailDelayJitterMax c < 0"
    "\<not> (s_FailDelayJitterMax c > 0 \<and> s_FailDelayJitterMin c > s_FailDelayJitterMax c)"
    "\<not> s_DrainOnFailBytes c < 0" "\<not> s_DrainOnFailTimeout c < 0" "\<not> s_MaxAuthAttempts c \<le> 0"
    using ok by (auto simp: server_config_ok_def)
  then have "server_defaults_fail c = c" by (simp only: server_defaults_fail_def Let_def if_False)
  ultimately show ?thesis by (simp add: server_WithDefaults_def)
qed

text \<open>When \<open>Validate\<close> accepts, with the defaults already filled in.\<close>

definition server_config_valid :: "('k, 'p) ServerConfig \<Rightarrow> bool" where
  "server_config_valid c \<longleftrightarrow> int HeaderSize \<le> s_MaxFrameSize c \<and>
     s_Protocol c \<in> {AuthProtocolFrameV1, AuthProtocolEnvelopeV2} \<and>
     set (s_AcceptProtocols c) \<subseteq> {AuthProtocolFrameV1, AuthProtocolEnvelopeV2} \<and>
     (AuthProtocolEnvelopeV2 \<in> insert (s_Protocol c) (set (s_AcceptProtocols c)) \<longrightarrow>
        Validate (s_EnvelopeV2 c) (s_MaxFrameSize c) = Inr () \<and>
        (c_HintMode (s_EnvelopeV2 c) = EnvelopeV2HintModeNone \<longrightarrow>
           envelopeV2NoneAttemptCost (s_Secrets c) (s_EnvelopeV2 c) (s_MaxFrameSize c) \<le> s_MaxAuthAttempts c))"

lemma server_Validate_iff:
  "server_Validate c = Inr () \<longleftrightarrow> server_config_valid (server_WithDefaults c)"
proof -
  let ?c = "server_WithDefaults c"
  have ok: "\<not> s_MaxFrameSize ?c \<le> 0" "s_Protocol ?c \<noteq> []" "s_AcceptProtocols ?c \<noteq> []"
      "WithDefaults (s_EnvelopeV2 ?c) = s_EnvelopeV2 ?c"
    using server_config_ok_WithDefaults [of c] by (auto simp: server_config_ok_def)
  show ?thesis
    unfolding server_Validate_def server_config_valid_def Let_def
    using ok by (auto simp: acceptsProtocol_iff list_ex_iff rbind_eq_Inr not_less)
qed

lemma client_Validate_iff:
  "ValidateRuntime c = Inr () \<longleftrightarrow>
     cl_ClientID c \<noteq> [] \<and> int (length (cl_ClientID c)) \<le> 65535 \<and> CHR 0x00 \<notin> set (cl_ClientID c) \<and>
     MinSecretSize \<le> length (cl_Secret c) \<and> 0 \<le> cl_ServerPort c \<and> cl_ServerPort c \<le> 65535 \<and>
     cl_Protocol (client_WithDefaults c) \<in> {AuthProtocolFrameV1, AuthProtocolEnvelopeV2} \<and>
     (cl_Protocol (client_WithDefaults c) = AuthProtocolEnvelopeV2 \<longrightarrow>
        Validate (cl_EnvelopeV2 c) EnvelopeV2DefaultMaxSize = Inr ())"
proof -
  have "0 < cl_AuthTimeout (client_WithDefaults c)" "cl_ClientID (client_WithDefaults c) = cl_ClientID c"
    "cl_Secret (client_WithDefaults c) = cl_Secret c" "cl_ServerPort (client_WithDefaults c) = cl_ServerPort c"
    "cl_EnvelopeV2 (client_WithDefaults c) = WithDefaults (cl_EnvelopeV2 c)"
    by (simp_all add: client_WithDefaults_def Let_def DefaultAuthTimeout_def time_defs)
  then show ?thesis
    unfolding ValidateRuntime_def Let_def by (auto simp: Validate_iff not_less not_le)
qed

section \<open>Lemmas on secret resolvers\<close>

lemma set_sorted_ids [simp]: "set (sorted_ids s) = dom (map_of s)"
  by (simp add: sorted_ids_def dom_map_of_conv_image_fst)

lemma static_candidates_iff:
  "c \<in> set (static_ResolveCandidates cr s meta) \<longleftrightarrow>
     map_of s (cand_ClientID c) = Some (cand_Secret c) \<and> secret_matches cr meta (cand_Secret c)"
  by (cases c) (auto simp: static_ResolveCandidates_def split: option.splits if_splits)

lemma rotating_candidates_iff:
  "c \<in> set (rotating_ResolveCandidates cr s meta) \<longleftrightarrow>
     (\<exists>versions. map_of s (cand_ClientID c) = Some versions \<and> cand_Secret c \<in> set versions) \<and>
     secret_matches cr meta (cand_Secret c)"
proof -
  have "c \<in> set (rotating_ResolveCandidates cr s meta) \<longleftrightarrow>
    (\<exists>ident versions. map_of s ident = Some versions \<and>
      (\<exists>secret \<in> set versions. secret_matches cr meta secret \<and> c = \<lparr>cand_ClientID = ident, cand_Secret = secret\<rparr>))"
    by (auto simp: rotating_ResolveCandidates_def dom_def split: option.splits)
  then show ?thesis by (cases c) auto
qed

lemma static_candidates_count:
  "int (length (static_ResolveCandidates cr s meta)) \<le> staticCandidateCount (StaticSecrets s)"
proof -
  have "length (concat (map f xs)) \<le> length xs" if "\<And>x. length (f x) \<le> 1" for f :: "string \<Rightarrow> SecretCandidate list" and xs
  proof (induction xs)
    case (Cons x xs)
    then show ?case using that [of x] by simp
  qed simp
  from this [of "\<lambda>ident. case map_of s ident of None \<Rightarrow> []
       | Some secret \<Rightarrow> if secret_matches cr meta secret
           then [\<lparr>cand_ClientID = ident, cand_Secret = secret\<rparr>] else []"]
  show ?thesis by (simp add: static_ResolveCandidates_def split: option.splits)
qed

lemma rotating_candidates_count:
  "int (length (rotating_ResolveCandidates cr s meta)) \<le> staticCandidateCount (RotatingSecrets s)"
proof -
  have "int (length (concat (map f xs))) \<le> sum_list (map g xs)"
    if "\<And>x. int (length (f x)) \<le> g x" for f :: "string \<Rightarrow> SecretCandidate list" and g xs
  proof (induction xs)
    case (Cons x xs)
    then show ?case using that [of x] by simp
  qed simp
  from this [of "\<lambda>ident. case map_of s ident of None \<Rightarrow> []
       | Some versions \<Rightarrow> map (\<lambda>secret. \<lparr>cand_ClientID = ident, cand_Secret = secret\<rparr>)
           (filter (secret_matches cr meta) versions)"]
  show ?thesis by (simp add: rotating_ResolveCandidates_def split: option.splits)
qed

lemma resolver_count:
  assumes "ResolveCandidates cr r meta = Inr cs" "\<And>f. r \<noteq> CustomResolver f"
  shows "int (length cs) \<le> staticCandidateCount r"
  using assms static_candidates_count rotating_candidates_count by (cases r) auto

text \<open>
  \<open>WithDefaults\<close> returns a configuration with positive timeout, time window,
  frame size and attempt limit, a non-empty list of accepted protocols and an ordered pair
  of jitter bounds whenever jitter is on; applying it again changes nothing; and
  \<open>Validate\<close> accepts exactly the configurations whose filled-in form names known protocols,
  fits a frame header and, if it accepts envelopes, has a valid envelope configuration whose
  cost without route hints is within the attempt limit.
\<close>

theorem server_config_normalised:
  "server_config_ok (server_WithDefaults c) \<and>
   server_WithDefaults (server_WithDefaults c) = server_WithDefaults c \<and>
   (server_Validate c = Inr () \<longleftrightarrow> server_config_valid (server_WithDefaults c))"
  using server_config_ok_WithDefaults server_WithDefaults_id server_Validate_iff by blast

end
