(* ===== verification/Auth_Server.thy ===== *)
theory Auth_Server
  imports Auth_Config
begin

text \<open>
  auth/server.go and auth/buffered_conn.go: authentication of one accepted connection. A
  connection is a record of the bytes still to be read, the bytes written, its addresses,
  its deadline and whether it is closed. The instants at which the code reads the clock and
  the random bytes of the failure delay are the record \<open>server_clock\<close>.
\<close>

section \<open>Connections, clocks and results\<close>

record conn =
  cn_in :: stream
  cn_out :: bytes
  cn_closed :: bool
  cn_local :: net_addr
  cn_remote :: net_addr
  cn_deadline :: "time option"
  cn_werr :: "error option"
  cn_delay :: duration

definition conn_Close :: "conn \<Rightarrow> conn" where "conn_Close c = c\<lparr>cn_closed := True\<rparr>"

text \<open>\<open>Write\<close> sends all bytes or fails with the error of the connection.\<close>

definition conn_Write :: "bytes \<Rightarrow> conn \<Rightarrow> error option \<times> conn" where
  "conn_Write b c = (case cn_werr c of Some e \<Rightarrow> (Some e, c) | None \<Rightarrow> (None, c\<lparr>cn_out := cn_out c @ b\<rparr>))"

record server_clock =
  t_policy :: time
  t_start :: time
  t_age :: time
  t_replay :: time
  t_knock :: time
  t_drain :: time
  ctx_deadline :: "time option"
  rnd_delay :: "u64 option"

record authResult =
  r_peer :: PeerInfo
  r_hint :: u64
  r_serverProofRequested :: bool
  r_serverProof :: bytes

text \<open>
  A failed attempt carries its error and the peer, if the frame was opened. (The key hint
  that the source also returns is passed to \<open>fail\<close>, which does not use it.)
\<close>

type_synonym auth_outcome = "(PeerInfo option \<times> error) + authResult"

section \<open>Errors\<close>

definition mapProtocolError :: "error \<Rightarrow> error" where
  "mapProtocolError err =
     (if errors_Is err ProtocolErrFrameTooLarge then AuthErrFrameTooLarge
      else if errors_Is err ProtocolErrUnsupportedVersion then AuthErrUnsupportedVersion
      else if errors_Is err ProtocolErrUnsupportedFlags then AuthErrUnsupportedFlags
      else if errors_Is err ProtocolErrInvalidFrame then AuthErrInvalidFrame
      else err)"

definition public_errors :: "error list" where
  "public_errors = [AuthErrNilConn, AuthErrInvalidFrame, AuthErrFrameTooLarge, AuthErrUnknownClient,
     AuthErrAuthFailed, AuthErrReplayDetected, AuthErrTimeSkew, AuthErrKnockRequired,
     AuthErrUnsupportedVersion, AuthErrUnsupportedFlags, AuthErrSecretResolverFailed,
     AuthErrRateLimited, AuthErrServerProofRequired, AuthErrServerProofFailed,
     AuthErrTooManyCandidates, AuthErrHintModeNoneTooBroad]"

definition publicError :: "error \<Rightarrow> error" where
  "publicError err = (if list_ex (errors_Is err) public_errors then err else AuthErrAuthFailed)"

section \<open>Candidates\<close>

definition newPeerInfoFromV1 :: "SecretCandidate \<Rightarrow> Payload \<Rightarrow> Header \<Rightarrow> net_addr \<Rightarrow> PeerInfo" where
  "newPeerInfoFromV1 candidate payload h remote =
     \<lparr>p_ClientID = cand_ClientID candidate, p_ClientIDHash = ClientIDHash payload, p_KeyHint = h_KeyHint h,
      p_Nonce = h_Nonce h, p_Timestamp = TimestampUnixMS payload, p_ServerPort = ServerPort payload,
      p_Method = Method payload, p_SessionID = SessionID payload, p_Extensions = Extensions payload,
      p_RemoteAddr = remote, p_Protocol = [], p_Flags = 0\<rparr>"

definition authenticateCandidate ::
    "crypto \<Rightarrow> SecretCandidate \<Rightarrow> Header \<Rightarrow> bytes \<Rightarrow> int \<Rightarrow> net_addr \<Rightarrow> PeerInfo result" where
  "authenticateCandidate cr candidate h sealed serverPort remote =
     (if cand_ClientID candidate = [] \<or> length (cand_Secret candidate) < MinSecretSize then Inl AuthErrAuthFailed
      else if ComputeKeyHint cr (cand_Secret candidate) (h_Nonce h) serverPort \<noteq> h_KeyHint h then Inl AuthErrAuthFailed
      else case OpenPayload cr (cand_Secret candidate) h sealed of
        Inl _ \<Rightarrow> Inl AuthErrAuthFailed
      | Inr plain \<Rightarrow> (case DecodePayload plain of
          Inl err \<Rightarrow> Inl (mapProtocolError err)
        | Inr payload \<Rightarrow>
            if \<not> ConstantTimeEqual (ClientIDHash payload)
                 (ComputeClientIDHash cr (cand_Secret candidate) (cand_ClientID candidate))
            then Inl AuthErrAuthFailed
            else Inr (newPeerInfoFromV1 candidate payload h remote)))"

definition newPeerInfoFromEnvelopeV2 ::
    "SecretCandidate \<Rightarrow> EnvelopeV2Payload \<Rightarrow> EnvelopeV2Header \<Rightarrow> net_addr \<Rightarrow> PeerInfo" where
  "newPeerInfoFromEnvelopeV2 candidate payload h remote =
     \<lparr>p_ClientID = cand_ClientID candidate, p_ClientIDHash = e_ClientIDHash payload, p_KeyHint = RouteHint h,
      p_Nonce = PrefixRandom h, p_Timestamp = e_TimestampUnixMS payload, p_ServerPort = e_ServerPort payload,
      p_Method = e_Method payload, p_SessionID = e_SessionID payload, p_Extensions = e_Extensions payload,
      p_RemoteAddr = remote, p_Protocol = AuthProtocolEnvelopeV2, p_Flags = e_Flags payload\<rparr>"

definition authenticateEnvelopeV2Candidate ::
    "crypto \<Rightarrow> SecretCandidate \<Rightarrow> EnvelopeV2Header \<Rightarrow> bytes \<Rightarrow> int \<Rightarrow> net_addr \<Rightarrow> PeerInfo result" where
  "authenticateEnvelopeV2Candidate cr candidate h sealed serverPort remote =
     (if cand_ClientID candidate = [] \<or> length (cand_Secret candidate) < MinSecretSize then Inl AuthErrAuthFailed
      else if HintMode h = EnvelopeV2HintModeRouteHint \<and>
              ComputeEnvelopeV2RouteHint cr (cand_Secret candidate) (PrefixRandom h) serverPort \<noteq> RouteHint h
      then Inl AuthErrAuthFailed
      else case OpenEnvelopeV2Payload cr (cand_Secret candidate) h serverPort sealed of
        Inl err \<Rightarrow> Inl (mapProtocolError err)
      | Inr payload \<Rightarrow>
          if \<not> ConstantTimeEqual (e_ClientIDHash payload)
               (ComputeClientIDHash cr (cand_Secret candidate) (cand_ClientID candidate))
          then Inl AuthErrAuthFailed
          else Inr (newPeerInfoFromEnvelopeV2 candidate payload h remote))"

section \<open>Checks common to both protocols\<close>

definition log_event :: "bool \<Rightarrow> event \<Rightarrow> ('r, 'k, 'p) world \<Rightarrow> ('r, 'k, 'p) world" where
  "log_event on ev w = (if on then w\<lparr>w_events := w_events w @ [ev]\<rparr> else w)"

definition validatePeerCommon ::
    "('k, 'p) ServerConfig \<Rightarrow> server_clock \<Rightarrow> PeerInfo \<Rightarrow> int \<Rightarrow> net_addr \<Rightarrow> u64 \<Rightarrow>
     ('r, 'k, 'p) world \<Rightarrow> error option \<times> ('r, 'k, 'p) world" where
  "validatePeerCommon cfg clk peer serverPort remote hint w =
     (if serverPort > 0 \<and> p_ServerPort peer \<noteq> serverPort then (Some AuthErrAuthFailed, w)
      else
        let age = time_Sub (t_age clk) (time_UnixMilli (p_Timestamp peer))
        in if age < - s_TimeWindow cfg \<or> age > s_TimeWindow cfg then (Some AuthErrTimeSkew, w)
        else case replay_CheckAndMark (t_replay clk) (p_ClientID peer) (p_Nonce peer) (w_replay w) of
          (None, rc) \<Rightarrow> (None, w\<lparr>w_replay := rc\<rparr>)
        | (Some err, rc) \<Rightarrow>
            let w = w\<lparr>w_replay := rc\<rparr>
            in if errors_Is err AuthErrReplayDetected
               then (Some err, log_event (s_Events cfg) (OnReplay remote hint) w)
               else if errors_Is err AuthErrReplayCacheFull
               then let (len, cap) = replayCacheStats rc
                    in (Some err, log_event (s_Events cfg) (OnReplayCacheFull remote hint len cap) w)
               else (Some err, w))"

section \<open>Frame v1\<close>

text \<open>The loop over the candidates: the first one that authenticates the frame.\<close>

fun first_candidate ::
    "crypto \<Rightarrow> Header \<Rightarrow> bytes \<Rightarrow> int \<Rightarrow> net_addr \<Rightarrow> SecretCandidate list \<Rightarrow> (SecretCandidate \<times> PeerInfo) option" where
  "first_candidate cr h sealed serverPort remote [] = None"
| "first_candidate cr h sealed serverPort remote (c # cs) =
     (case authenticateCandidate cr c h sealed serverPort remote of
        Inr p \<Rightarrow> Some (c, p)
      | Inl _ \<Rightarrow> first_candidate cr h sealed serverPort remote cs)"

definition v1_meta :: "Header \<Rightarrow> int \<Rightarrow> FrameMeta" where
  "v1_meta h serverPort = \<lparr>fm_Hint = h_KeyHint h, fm_Nonce = h_Nonce h, fm_ServerPort = serverPort,
     fm_Protocol = [], fm_HintMode = [], fm_PrefixRandom = []\<rparr>"

definition authenticateFrameV1 ::
    "crypto \<Rightarrow> ('k, 'p) ServerConfig \<Rightarrow> server_clock \<Rightarrow> int \<Rightarrow> net_addr \<Rightarrow> stream \<Rightarrow>
     ('r, 'k, 'p) world \<Rightarrow> auth_outcome \<times> stream \<times> ('r, 'k, 'p) world" where
  "authenticateFrameV1 cr cfg clk serverPort remote br w =
     (case ReadFrame br (s_MaxFrameSize cfg) of
        Inl err \<Rightarrow> (Inl (None, mapProtocolError err), br, w)
      | Inr (h, sealed, br) \<Rightarrow>
        (case ResolveCandidates cr (s_Secrets cfg) (v1_meta h serverPort) of
           Inl err \<Rightarrow> (Inl (None, JoinErr AuthErrSecretResolverFailed err), br, w)
         | Inr candidates \<Rightarrow>
           if candidates = [] then (Inl (None, AuthErrUnknownClient), br, w)
           else case first_candidate cr h sealed serverPort remote candidates of
             None \<Rightarrow> (Inl (None, AuthErrAuthFailed), br, w)
           | Some (candidate, peer) \<Rightarrow>
             (case validatePeerCommon cfg clk peer serverPort remote (h_KeyHint h) w of
                (Some err, w) \<Rightarrow> (Inl (Some peer, err), br, w)
              | (None, w) \<Rightarrow>
                  let requested = h_Flags h AND FlagServerProof \<noteq> 0
                  in (Inr \<lparr>r_peer = peer, r_hint = h_KeyHint h, r_serverProofRequested = requested,
                           r_serverProof = (if requested then BuildServerProof cr (cand_Secret candidate) h serverPort
                                            else [])\<rparr>, br, w))))"

section \<open>Envelope v2\<close>

datatype attempt = NextBucket int | AttemptsExceeded | Authenticated SecretCandidate PeerInfo

fun try_candidates ::
    "crypto \<Rightarrow> ('k, 'p) ServerConfig \<Rightarrow> EnvelopeV2Header \<Rightarrow> bytes \<Rightarrow> int \<Rightarrow> net_addr \<Rightarrow>
     int \<Rightarrow> SecretCandidate list \<Rightarrow> attempt" where
  "try_candidates cr cfg h sealed serverPort remote attempts [] = NextBucket attempts"
| "try_candidates cr cfg h sealed serverPort remote attempts (c # cs) =
     (if attempts \<ge> s_MaxAuthAttempts cfg then AttemptsExceeded
      else case authenticateEnvelopeV2Candidate cr c h sealed serverPort remote of
        Inl _ \<Rightarrow> try_candidates cr cfg h sealed serverPort remote (attempts + 1) cs
      | Inr p \<Rightarrow> Authenticated c p)"

text \<open>The loop over the buckets, with the number of decryption attempts so far.\<close>

fun try_buckets ::
    "crypto \<Rightarrow> ('k, 'p) ServerConfig \<Rightarrow> server_clock \<Rightarrow> EnvelopeV2Header \<Rightarrow> SecretCandidate list \<Rightarrow> int \<Rightarrow>
     int \<Rightarrow> net_addr \<Rightarrow> int \<Rightarrow> int list \<Rightarrow> stream \<Rightarrow> ('r, 'k, 'p) world \<Rightarrow>
     auth_outcome \<times> stream \<times> ('r, 'k, 'p) world" where
  "try_buckets cr cfg clk h candidates prefixLen serverPort remote attempts [] br w =
     (Inl (None, AuthErrAuthFailed), br, w)"
| "try_buckets cr cfg clk h candidates prefixLen serverPort remote attempts (bucket # buckets) br w =
     (if bucket > s_MaxFrameSize cfg \<or> bucket < prefixLen + int Overhead
      then try_buckets cr cfg clk h candidates prefixLen serverPort remote attempts buckets br w
      else
        let need = nat (bucket - prefixLen)
        in case bufio_Peek need br of
          Inl err \<Rightarrow> (Inl (None, mapProtocolError err), br, w)
        | Inr sealed \<Rightarrow>
          let h = h\<lparr>BucketSize := bucket\<rparr>
          in case try_candidates cr cfg h sealed serverPort remote attempts candidates of
            AttemptsExceeded \<Rightarrow> (Inl (None, AuthErrTooManyCandidates), br, w)
          | NextBucket attempts \<Rightarrow>
              try_buckets cr cfg clk h candidates prefixLen serverPort remote attempts buckets br w
          | Authenticated candidate p \<Rightarrow>
              let br = bufio_Discard need br
              in (case validatePeerCommon cfg clk p serverPort remote (RouteHint h) w of
                    (Some err, w) \<Rightarrow> (Inl (Some p, err), br, w)
                  | (None, w) \<Rightarrow>
                      let requested = p_Flags p AND EnvelopeV2FlagServerProof \<noteq> 0
                      in (Inr \<lparr>r_peer = p, r_hint = RouteHint h, r_serverProofRequested = requested,
                               r_serverProof = (if requested
                                 then BuildEnvelopeV2ServerProof cr (cand_Secret candidate) h serverPort else [])\<rparr>,
                          br, w)))"

definition v2_meta :: "EnvelopeV2Header \<Rightarrow> string \<Rightarrow> int \<Rightarrow> FrameMeta" where
  "v2_meta h mode serverPort =
     (if mode = EnvelopeV2HintModeRouteHint
      then \<lparr>fm_Hint = RouteHint h, fm_Nonce = take 16 (PrefixRandom h), fm_ServerPort = serverPort,
            fm_Protocol = AuthProtocolEnvelopeV2, fm_HintMode = mode, fm_PrefixRandom = PrefixRandom h\<rparr>
      else \<lparr>fm_Hint = 0, fm_Nonce = replicate 16 0, fm_ServerPort = serverPort,
            fm_Protocol = AuthProtocolEnvelopeV2, fm_HintMode = mode, fm_PrefixRandom = PrefixRandom h\<rparr>)"

definition authenticateEnvelopeV2 ::
    "crypto \<Rightarrow> ('k, 'p) ServerConfig \<Rightarrow> server_clock \<Rightarrow> int \<Rightarrow> net_addr \<Rightarrow> stream \<Rightarrow>
     ('r, 'k, 'p) world \<Rightarrow> auth_outcome \<times> stream \<times> ('r, 'k, 'p) world" where
  "authenticateEnvelopeV2 cr cfg clk serverPort remote br w =
     (let envCfg = WithDefaults (s_EnvelopeV2 cfg); mode = c_HintMode envCfg
      in case ReadEnvelopeV2Prefix br mode of
        Inl err \<Rightarrow> (Inl (None, mapProtocolError err), br, w)
      | Inr (h, br) \<Rightarrow>
        (case ResolveCandidates cr (s_Secrets cfg) (v2_meta h mode serverPort) of
           Inl err \<Rightarrow> (Inl (None, JoinErr AuthErrSecretResolverFailed err), br, w)
         | Inr candidates \<Rightarrow>
           if candidates = [] then (Inl (None, AuthErrUnknownClient), br, w)
           else if mode = EnvelopeV2HintModeNone \<and> int (length candidates) > s_MaxAuthAttempts cfg
           then (Inl (None, AuthErrTooManyCandidates), br, w)
           else try_buckets cr cfg clk h candidates (envelope_prefix_size mode) serverPort remote 0
                  (EnvelopeV2Buckets (c_FrameSizeBuckets envCfg)) br w))"

section \<open>The handshake\<close>

definition authenticateConfiguredProtocol ::
    "crypto \<Rightarrow> ('k, 'p) ServerConfig \<Rightarrow> server_clock \<Rightarrow> conn \<Rightarrow> ('r, 'k, 'p) world \<Rightarrow>
     auth_outcome \<times> stream \<times> ('r, 'k, 'p) world" where
  "authenticateConfiguredProtocol cr cfg clk conn w =
     (let serverPort = effectivePort (s_ServerPort cfg) (cn_local conn);
          v1 = acceptsProtocol (s_AcceptProtocols cfg) AuthProtocolFrameV1;
          v2 = acceptsProtocol (s_AcceptProtocols cfg) AuthProtocolEnvelopeV2;
          br = cn_in conn
      in if v2 \<and> \<not> v1 then authenticateEnvelopeV2 cr cfg clk serverPort (cn_remote conn) br w
         else if v1 \<and> \<not> v2 then authenticateFrameV1 cr cfg clk serverPort (cn_remote conn) br w
         else if \<not> v1 \<and> \<not> v2 then (Inl (None, AuthErrUnsupportedVersion), br, w)
         else case bufio_Peek 1 br of
           Inl err \<Rightarrow> (Inl (None, err), br, w)
         | Inr b \<Rightarrow> if b ! 0 = Version then authenticateFrameV1 cr cfg clk serverPort (cn_remote conn) br w
                    else authenticateEnvelopeV2 cr cfg clk serverPort (cn_remote conn) br w)"

definition policyKey :: "net_addr \<Rightarrow> string" where
  "policyKey addr = (if addr = AddrNil then ''unknown:nil'' else
     (case Key addr of
        Some key \<Rightarrow> key
      | None \<Rightarrow> (case addr of TCPAddr _ _ _ \<Rightarrow> ''unknown:tcp''
          | _ \<Rightarrow> if net_addr_String addr = [] then ''unknown:'' @ net_addr_Network addr
                 else net_addr_Network addr @ '':'' @ net_addr_String addr)))"

text \<open>The read deadline while draining; what is drained is lost with the connection.\<close>

definition drainOnFail :: "server_clock \<Rightarrow> ('k, 'p) ServerConfig \<Rightarrow> conn \<Rightarrow> conn" where
  "drainOnFail clk cfg conn =
     (if s_DrainOnFailBytes cfg \<le> 0 \<or> s_DrainOnFailTimeout cfg \<le> 0 then conn
      else
        let mx = t_drain clk + s_DrainOnFailTimeout cfg
        in conn\<lparr>cn_deadline := Some (case ctx_deadline clk of
             Some deadline \<Rightarrow> if mx < deadline then mx else deadline
           | None \<Rightarrow> mx)\<rparr>)"

definition delayOnFail :: "server_clock \<Rightarrow> ('k, 'p) ServerConfig \<Rightarrow> duration" where
  "delayOnFail clk cfg =
     (let mx = s_FailDelayJitterMax cfg
      in if mx \<le> 0 then 0
         else
           let mn = s_FailDelayJitterMin cfg;
               (mn, mx) = (if mn > mx then (mx, mn) else (mn, mx));
               spread = mx - mn
           in if spread > 0 then (case rnd_delay clk of
                None \<Rightarrow> mn
              | Some r \<Rightarrow> mn + uint r mod (spread + 1))
              else mn)"

definition fail ::
    "server_clock \<Rightarrow> ('k, 'p) ServerConfig \<Rightarrow> PeerInfo option \<Rightarrow> error \<Rightarrow> conn \<Rightarrow> ('r, 'k, 'p) world \<Rightarrow>
     PeerInfo result \<times> conn \<times> ('r, 'k, 'p) world" where
  "fail clk cfg peer err0 conn w =
     (let err = publicError err0;
          remote = (case peer of Some p \<Rightarrow> if p_RemoteAddr p \<noteq> AddrNil then p_RemoteAddr p else cn_remote conn
                    | None \<Rightarrow> cn_remote conn);
          w = log_event (s_Events cfg) (OnAuthFail remote err) w;
          conn = drainOnFail clk cfg conn;
          conn = conn\<lparr>cn_delay := delayOnFail clk cfg\<rparr>
      in (Inl err, conn_Close conn, w))"

definition check_knock ::
    "('k, 'p) ServerConfig \<Rightarrow> server_clock \<Rightarrow> PeerInfo \<Rightarrow> net_addr \<Rightarrow> ('r, 'k, 'p) world \<Rightarrow>
     error option \<times> ('r, 'k, 'p) world" where
  "check_knock cfg clk peer remote w =
     (if \<not> s_RequireKnock cfg then (None, w)
      else case s_KnockStore cfg of
        None \<Rightarrow> (Some AuthErrKnockRequired, w)
      | Some checkAndConsume \<Rightarrow>
          (case checkAndConsume (t_knock clk) peer remote (w_knock w) of
             (None, k) \<Rightarrow> (None, w\<lparr>w_knock := k\<rparr>)
           | (Some err, k) \<Rightarrow> (Some (JoinErr AuthErrKnockRequired err), w\<lparr>w_knock := k\<rparr>)))"

definition send_proof :: "('k, 'p) ServerConfig \<Rightarrow> authResult \<Rightarrow> conn \<Rightarrow> error option \<times> conn" where
  "send_proof cfg res conn =
     (if \<not> r_serverProofRequested res then (None, conn)
      else if \<not> s_ServerProof cfg then (Some AuthErrServerProofRequired, conn)
      else conn_Write (r_serverProof res) conn)"

definition policy_gate ::
    "('k, 'p) ServerConfig \<Rightarrow> server_clock \<Rightarrow> net_addr \<Rightarrow> ('r, 'k, 'p) world \<Rightarrow> bool \<times> ('r, 'k, 'p) world" where
  "policy_gate cfg clk remote w =
     (case s_Policy cfg of
        None \<Rightarrow> (True, w)
      | Some allow \<Rightarrow>
          let (ok, p) = allow (policyKey remote) (t_policy clk) (w_policy w);
              w = w\<lparr>w_policy := p\<rparr>
          in if ok then (True, w) else (False, log_event (s_Events cfg) (OnRateLimited remote) w))"

text \<open>The handshake deadline: the configured timeout, or an earlier one of the context.\<close>

definition auth_deadline :: "('k, 'p) ServerConfig \<Rightarrow> server_clock \<Rightarrow> time" where
  "auth_deadline cfg clk =
     (let authDeadline = t_start clk + s_AuthTimeout cfg
      in case ctx_deadline clk of
           Some deadline \<Rightarrow> if deadline < authDeadline then deadline else authDeadline
         | None \<Rightarrow> authDeadline)"

text \<open>
  The connection returned on success is the accepted one, its unread bytes being those the
  buffered reader still holds followed by those of the socket.
\<close>

definition serverAuthNormalized ::
    "crypto \<Rightarrow> ('k, 'p) ServerConfig \<Rightarrow> server_clock \<Rightarrow> conn \<Rightarrow> ('r, 'k, 'p) world \<Rightarrow>
     PeerInfo result \<times> conn \<times> ('r, 'k, 'p) world" where
  "serverAuthNormalized cr cfg clk conn w =
     (if is_NilResolver (s_Secrets cfg) then (Inl AuthErrMissingSecretResolver, conn_Close conn, w)
      else
        case policy_gate cfg clk (cn_remote conn) (log_event (s_Events cfg) (OnAccept (cn_remote conn)) w) of
          (False, w) \<Rightarrow> fail clk cfg None AuthErrRateLimited conn w
        | (True, w) \<Rightarrow>
             let conn = conn\<lparr>cn_deadline := Some (auth_deadline cfg clk)\<rparr>
             in case authenticateConfiguredProtocol cr cfg clk conn w of
               (Inl (peer, err), br, w) \<Rightarrow> fail clk cfg peer err (conn\<lparr>cn_in := br\<rparr>) w
             | (Inr res, br, w) \<Rightarrow>
                 let conn = conn\<lparr>cn_in := br\<rparr>; peer = r_peer res
                 in (case check_knock cfg clk peer (cn_remote conn) w of
                   (Some err, w) \<Rightarrow> fail clk cfg (Some peer) err conn w
                 | (None, w) \<Rightarrow>
                     (case send_proof cfg res conn of
                       (Some err, conn) \<Rightarrow> fail clk cfg (Some peer) err conn w
                     | (None, conn) \<Rightarrow>
                         let w = log_event (s_Events cfg) (OnAuthOK peer) w;
                             w = log_event (s_OnAuthenticated cfg) (OnAuthenticated peer) w
                         in (Inr peer, conn\<lparr>cn_deadline := None\<rparr>, w))))"

definition NewServer ::
    "('k, 'p) ServerConfig \<Rightarrow> 'r ReplayCache \<Rightarrow> (('k, 'p) ServerConfig \<times> 'r ReplayCache) result" where
  "NewServer cfg0 rc =
     (let cfg = server_WithDefaults cfg0
      in rbind (server_Validate cfg) (\<lambda>_.
        if is_NilResolver (s_Secrets cfg) then Inl AuthErrMissingSecretResolver
        else Inr (cfg, if \<not> hasReplayCache rc
                       then MemoryCache (NewMemoryReplayCache (dur_wrap (s_TimeWindow cfg * 2))) else rc)))"

text \<open>\<open>Server.Auth\<close> and \<open>ServerAuth\<close> on an optional connection; None is nil.\<close>

definition Server_Auth ::
    "crypto \<Rightarrow> ('k, 'p) ServerConfig option \<Rightarrow> server_clock \<Rightarrow> conn option \<Rightarrow> ('r, 'k, 'p) world \<Rightarrow>
     PeerInfo result \<times> conn option \<times> ('r, 'k, 'p) world" where
  "Server_Auth cr s clk conn w = (case conn of None \<Rightarrow> (Inl AuthErrNilConn, None, w)
     | Some conn \<Rightarrow> (case s of
         None \<Rightarrow> (Inl AuthErrMissingSecretResolver, Some (conn_Close conn), w)
       | Some cfg \<Rightarrow> let (r, conn, w) = serverAuthNormalized cr cfg clk conn w in (r, Some conn, w)))"

definition ServerAuth ::
    "crypto \<Rightarrow> ('k, 'p) ServerConfig \<Rightarrow> server_clock \<Rightarrow> conn option \<Rightarrow> ('r, 'k, 'p) world \<Rightarrow>
     PeerInfo result \<times> conn option \<times> ('r, 'k, 'p) world" where
  "ServerAuth cr cfg0 clk conn w = (case conn of None \<Rightarrow> (Inl AuthErrNilConn, None, w)
     | Some conn \<Rightarrow>
         let cfg = server_WithDefaults cfg0
         in case server_Validate cfg of
           Inl err \<Rightarrow> (Inl err, Some (conn_Close conn), w)
         | Inr _ \<Rightarrow>
             if \<not> hasReplayCache (w_replay w) then (Inl AuthErrMissingReplayCache, Some (conn_Close conn), w)
             else let (r, conn, w) = serverAuthNormalized cr cfg clk conn w in (r, Some conn, w))"

section \<open>What an accepted frame is\<close>

text \<open>The bytes of a v1 frame that the holder of a candidate's secret has sealed.\<close>

definition genuine_v1 :: "crypto \<Rightarrow> SecretCandidate \<Rightarrow> int \<Rightarrow> Header \<Rightarrow> Payload \<Rightarrow> bytes \<Rightarrow> bool" where
  "genuine_v1 cr c port h payload raw \<longleftrightarrow>
     cand_ClientID c \<noteq> [] \<and> MinSecretSize \<le> length (cand_Secret c) \<and> header_ok h \<and>
     h_KeyHint h = ComputeKeyHint cr (cand_Secret c) (h_Nonce h) port \<and> payload_ok payload \<and>
     ClientIDHash payload = ComputeClientIDHash cr (cand_Secret c) (cand_ClientID c) \<and>
     (\<exists>sealed. SealPayload cr (cand_Secret c) h (payload_bytes payload) = Inr sealed \<and>
        raw = header_bytes h @ sealed)"

text \<open>The same for an envelope; the port is authenticated as associated data.\<close>

definition genuine_v2 :: "crypto \<Rightarrow> SecretCandidate \<Rightarrow> int \<Rightarrow> EnvelopeV2Header \<Rightarrow> EnvelopeV2Payload \<Rightarrow> bytes \<Rightarrow> bool" where
  "genuine_v2 cr c port h payload raw \<longleftrightarrow>
     cand_ClientID c \<noteq> [] \<and> MinSecretSize \<le> length (cand_Secret c) \<and> envelope_header_ok h \<and>
     (HintMode h = EnvelopeV2HintModeRouteHint \<longrightarrow>
        RouteHint h = ComputeEnvelopeV2RouteHint cr (cand_Secret c) (PrefixRandom h) port) \<and>
     envelope_payload_ok payload \<and> e_Version payload = EnvelopeV2Version \<and>
     e_Flags payload AND NOT EnvelopeV2FlagServerProof = 0 \<and>
     e_ClientIDHash payload = ComputeClientIDHash cr (cand_Secret c) (cand_ClientID c) \<and>
     int (length raw) = BucketSize h \<and>
     (\<exists>padding sealed. length padding \<le> 65535 \<and>
        SealEnvelopeV2Payload cr (cand_Secret c) h port (envelope_payload_bytes payload @ var16_bytes padding) = Inr sealed \<and>
        raw = envelope_clear h @ sealed)"

text \<open>The peer a frame names and the proof it asks for, if any.\<close>

definition sealed_by :: "crypto \<Rightarrow> SecretCandidate \<Rightarrow> int \<Rightarrow> net_addr \<Rightarrow> PeerInfo \<Rightarrow> bytes \<Rightarrow> bytes option \<Rightarrow> bool" where
  "sealed_by cr c port remote peer raw reply \<longleftrightarrow>
     (\<exists>h payload. genuine_v1 cr c port h payload raw \<and> peer = newPeerInfoFromV1 c payload h remote \<and>
        reply = (if h_Flags h AND FlagServerProof \<noteq> 0 then Some (BuildServerProof cr (cand_Secret c) h port) else None)) \<or>
     (\<exists>h payload. genuine_v2 cr c port h payload raw \<and> peer = newPeerInfoFromEnvelopeV2 c payload h remote \<and>
        reply = (if e_Flags payload AND EnvelopeV2FlagServerProof \<noteq> 0
                 then Some (BuildEnvelopeV2ServerProof cr (cand_Secret c) h port) else None))"

lemma sealed_by_v1:
  "genuine_v1 cr c port h payload raw \<Longrightarrow>
   sealed_by cr c port remote (newPeerInfoFromV1 c payload h remote) raw
     (if h_Flags h AND FlagServerProof \<noteq> 0 then Some (BuildServerProof cr (cand_Secret c) h port) else None)"
  unfolding sealed_by_def by blast

lemma sealed_by_v2:
  "genuine_v2 cr c port h payload raw \<Longrightarrow>
   sealed_by cr c port remote (newPeerInfoFromEnvelopeV2 c payload h remote) raw
     (if e_Flags payload AND EnvelopeV2FlagServerProof \<noteq> 0
      then Some (BuildEnvelopeV2ServerProof cr (cand_Secret c) h port) else None)"
  unfolding sealed_by_def by blast

lemma ConstantTimeEqual_iff [simp]: "ConstantTimeEqual a b \<longleftrightarrow> a = b"
  by (simp add: ConstantTimeEqual_def)

lemma authenticateCandidate_iff:
  assumes "crypto_ok cr" "header_ok h"
  shows "authenticateCandidate cr c h sealed port remote = Inr p \<longleftrightarrow>
    (\<exists>payload. genuine_v1 cr c port h payload (header_bytes h @ sealed) \<and> p = newPeerInfoFromV1 c payload h remote)"
proof -
  have g: "genuine_v1 cr c port h payload (header_bytes h @ sealed) \<longleftrightarrow>
      cand_ClientID c \<noteq> [] \<and> MinSecretSize \<le> length (cand_Secret c) \<and>
      h_KeyHint h = ComputeKeyHint cr (cand_Secret c) (h_Nonce h) port \<and>
      ClientIDHash payload = ComputeClientIDHash cr (cand_Secret c) (cand_ClientID c) \<and>
      (\<exists>plain. OpenPayload cr (cand_Secret c) h sealed = Inr plain \<and> DecodePayload plain = Inr payload)" for payload
    by (auto simp: genuine_v1_def OpenPayload_iff [OF assms] DecodePayload_iff assms(2))
  show ?thesis
    unfolding authenticateCandidate_def g by (auto simp: not_less split: sum.splits if_splits)
qed

lemma authenticateEnvelopeV2Candidate_iff:
  assumes "crypto_ok cr" "envelope_header_ok h"
  shows "authenticateEnvelopeV2Candidate cr c h sealed port remote = Inr p \<longleftrightarrow>
    cand_ClientID c \<noteq> [] \<and> MinSecretSize \<le> length (cand_Secret c) \<and>
    (HintMode h = EnvelopeV2HintModeRouteHint \<longrightarrow>
        RouteHint h = ComputeEnvelopeV2RouteHint cr (cand_Secret c) (PrefixRandom h) port) \<and>
    (\<exists>payload. OpenEnvelopeV2Payload cr (cand_Secret c) h port sealed = Inr payload \<and>
       e_ClientIDHash payload = ComputeClientIDHash cr (cand_Secret c) (cand_ClientID c) \<and>
       p = newPeerInfoFromEnvelopeV2 c payload h remote)"
  unfolding authenticateEnvelopeV2Candidate_def
  by (auto simp: not_less split: sum.splits if_splits)

lemma first_candidate_Some:
  "first_candidate cr h sealed port remote cs = Some (c, p) \<Longrightarrow>
     c \<in> set cs \<and> authenticateCandidate cr c h sealed port remote = Inr p"
  by (induction cs) (auto split: sum.splits)

lemma try_candidates_Authenticated:
  "try_candidates cr cfg h sealed port remote n cs = Authenticated c p \<Longrightarrow>
     c \<in> set cs \<and> authenticateEnvelopeV2Candidate cr c h sealed port remote = Inr p"
  by (induction cs arbitrary: n) (auto split: sum.splits if_splits)

section \<open>Peer checks\<close>

text \<open>When the common checks let a peer pass, and what they leave of the world.\<close>

definition peer_timely :: "('k, 'p) ServerConfig \<Rightarrow> server_clock \<Rightarrow> PeerInfo \<Rightarrow> bool" where
  "peer_timely cfg clk peer \<longleftrightarrow>
     - s_TimeWindow cfg \<le> time_Sub (t_age clk) (time_UnixMilli (p_Timestamp peer)) \<and>
     time_Sub (t_age clk) (time_UnixMilli (p_Timestamp peer)) \<le> s_TimeWindow cfg"

lemma validatePeerCommon_None:
  "validatePeerCommon cfg clk peer port remote hint w = (None, w') \<longleftrightarrow>
     (port > 0 \<longrightarrow> p_ServerPort peer = port) \<and> peer_timely cfg clk peer \<and>
     (\<exists>rc. replay_CheckAndMark (t_replay clk) (p_ClientID peer) (p_Nonce peer) (w_replay w) = (None, rc) \<and>
        w' = w\<lparr>w_replay := rc\<rparr>)"
  by (auto simp: validatePeerCommon_def peer_timely_def Let_def not_less split: prod.splits option.splits if_splits)

text \<open>The replay cache sees at most one call, and only for a peer that passes the other checks.\<close>

definition replay_touched :: "server_clock \<Rightarrow> 'r ReplayCache \<Rightarrow> 'r ReplayCache \<Rightarrow> bool" where
  "replay_touched clk rc rc' \<longleftrightarrow>
     rc' = rc \<or> (\<exists>ident n e. replay_CheckAndMark (t_replay clk) ident n rc = (e, rc'))"

lemma log_event_keeps [simp]:
  "w_replay (log_event on ev w) = w_replay w" "w_knock (log_event on ev w) = w_knock w"
  by (simp_all add: log_event_def)

lemma validatePeerCommon_replay:
  "validatePeerCommon cfg clk peer port remote hint w = (e, w') \<Longrightarrow>
     replay_touched clk (w_replay w) (w_replay w')"
  by (auto simp: validatePeerCommon_def replay_touched_def Let_def split: prod.splits option.splits if_splits)

section \<open>Accepted handshakes\<close>

text \<open>
  What a successful authentication of the stream \<open>st\<close> means: the stream starts with a frame
  that a resolved candidate has sealed, exactly that frame is consumed, and the peer passed
  the port, time and replay checks.
\<close>

definition accepted ::
    "crypto \<Rightarrow> ('k, 'p) ServerConfig \<Rightarrow> server_clock \<Rightarrow> int \<Rightarrow> net_addr \<Rightarrow> stream \<Rightarrow> ('r, 'k, 'p) world \<Rightarrow>
     authResult \<Rightarrow> stream \<Rightarrow> ('r, 'k, 'p) world \<Rightarrow> bool" where
  "accepted cr cfg clk port remote st w res st' w' \<longleftrightarrow>
     (\<exists>meta cs c raw. ResolveCandidates cr (s_Secrets cfg) meta = Inr cs \<and> c \<in> set cs \<and>
        sealed_by cr c port remote (r_peer res) raw
          (if r_serverProofRequested res then Some (r_serverProof res) else None) \<and>
        sdata st = raw @ sdata st') \<and>
     (port > 0 \<longrightarrow> p_ServerPort (r_peer res) = port) \<and> peer_timely cfg clk (r_peer res) \<and>
     (\<exists>rc. replay_CheckAndMark (t_replay clk) (p_ClientID (r_peer res)) (p_Nonce (r_peer res)) (w_replay w) = (None, rc) \<and>
        w' = w\<lparr>w_replay := rc\<rparr>)"

lemma acceptedI:
  assumes "ResolveCandidates cr (s_Secrets cfg) meta = Inr cs" "c \<in> set cs"
    "sealed_by cr c port remote (r_peer res) raw (if r_serverProofRequested res then Some (r_serverProof res) else None)"
    "sdata st = raw @ sdata st'" "validatePeerCommon cfg clk (r_peer res) port remote hint w = (None, w')"
  shows "accepted cr cfg clk port remote st w res st' w'"
  using assms unfolding accepted_def validatePeerCommon_None by blast

lemma ReadEnvelopeV2Prefix_Inr:
  assumes "ReadEnvelopeV2Prefix st mode = Inr (h, st')"
  shows "envelope_header_ok h" "HintMode h = mode" "sdata st = envelope_clear h @ sdata st'" "serr st' = serr st"
    "int (length (envelope_clear h)) = envelope_prefix_size mode"
    "mode = EnvelopeV2HintModeRouteHint \<or> mode = EnvelopeV2HintModeNone \<and> RouteHint h = 0"
proof -
  from assms obtain prefix st1 where p: "io_ReadFull EnvelopeV2PrefixSize st = Inr (prefix, st1)"
    and r: "(if mode = EnvelopeV2HintModeRouteHint
          then rbind (io_ReadFull EnvelopeV2RouteHintSize st1) (\<lambda>(raw, r).
            Inr (\<lparr>PrefixRandom = prefix, RouteHint = 0, BucketSize = 0, HintMode = mode\<rparr>\<lparr>RouteHint := get64 raw\<rparr>, r))
          else if mode \<noteq> EnvelopeV2HintModeNone then Inl ProtocolErrInvalidFrame
          else Inr (\<lparr>PrefixRandom = prefix, RouteHint = 0, BucketSize = 0, HintMode = mode\<rparr>, st1)) = Inr (h, st')"
    by (auto simp: ReadEnvelopeV2Prefix_def Let_def rbind_eq_Inr)
  note pf = p [unfolded io_ReadFull_Inr]
  have "envelope_header_ok h \<and> HintMode h = mode \<and> sdata st = envelope_clear h @ sdata st' \<and> serr st' = serr st \<and>
    int (length (envelope_clear h)) = envelope_prefix_size mode \<and>
    (mode = EnvelopeV2HintModeRouteHint \<or> mode = EnvelopeV2HintModeNone \<and> RouteHint h = 0)"
  proof (cases "mode = EnvelopeV2HintModeRouteHint")
    case True
    then obtain raw where "length raw = 8" "sdata st1 = raw @ sdata st'" "serr st' = serr st1"
      "h = \<lparr>PrefixRandom = prefix, RouteHint = get64 raw, BucketSize = 0, HintMode = mode\<rparr>"
      using r by (auto simp: rbind_eq_Inr io_ReadFull_Inr env_sizes)
    then show ?thesis using True pf
      by (simp add: envelope_header_ok_def envelope_clear_def envelope_prefix_size_def env_sizes put_get64)
  next
    case False
    then have "mode = EnvelopeV2HintModeNone" "st1 = st'"
      "h = \<lparr>PrefixRandom = prefix, RouteHint = 0, BucketSize = 0, HintMode = mode\<rparr>"
      using r by (auto split: if_splits)
    then show ?thesis using False pf
      by (simp add: envelope_header_ok_def envelope_clear_def envelope_prefix_size_def env_sizes)
  qed
  then show "envelope_header_ok h" "HintMode h = mode" "sdata st = envelope_clear h @ sdata st'" "serr st' = serr st"
    "int (length (envelope_clear h)) = envelope_prefix_size mode"
    "mode = EnvelopeV2HintModeRouteHint \<or> mode = EnvelopeV2HintModeNone \<and> RouteHint h = 0" by blast+
qed

lemma authenticateFrameV1_Inr:
  assumes cr: "crypto_ok cr"
    and run: "authenticateFrameV1 cr cfg clk port remote st w = (Inr res, st', w')"
  shows "accepted cr cfg clk port remote st w res st' w'"
proof -
  from run obtain h sealed cs c peer where
    rd: "ReadFrame st (s_MaxFrameSize cfg) = Inr (h, sealed, st')"
    and rs: "ResolveCandidates cr (s_Secrets cfg) (v1_meta h port) = Inr cs"
    and fc: "first_candidate cr h sealed port remote cs = Some (c, peer)"
    and vp: "validatePeerCommon cfg clk peer port remote (h_KeyHint h) w = (None, w')"
    and res: "res = \<lparr>r_peer = peer, r_hint = h_KeyHint h, r_serverProofRequested = h_Flags h AND FlagServerProof \<noteq> 0,
      r_serverProof = if h_Flags h AND FlagServerProof \<noteq> 0 then BuildServerProof cr (cand_Secret c) h port else []\<rparr>"
    by (auto simp: authenticateFrameV1_def Let_def split: sum.splits prod.splits option.splits if_splits)
  have h: "header_ok h" and st: "sdata st = (header_bytes h @ sealed) @ sdata st'"
    using rd by (auto simp: ReadFrame_iff header_accepted_def)
  from first_candidate_Some [OF fc] obtain payload where c: "c \<in> set cs"
    and g: "genuine_v1 cr c port h payload (header_bytes h @ sealed)" "peer = newPeerInfoFromV1 c payload h remote"
    unfolding authenticateCandidate_iff [OF cr h] by blast
  have "sealed_by cr c port remote (r_peer res) (header_bytes h @ sealed)
      (if r_serverProofRequested res then Some (r_serverProof res) else None)"
    using sealed_by_v1 [OF g(1), of remote] g(2) by (simp add: res split: if_splits)
  moreover have "validatePeerCommon cfg clk (r_peer res) port remote (h_KeyHint h) w = (None, w')"
    using vp by (simp add: res)
  ultimately show ?thesis by (rule acceptedI [OF rs c _ st])
qed

lemma try_buckets_Inr:
  assumes cr: "crypto_ok cr" and h: "envelope_header_ok h"
    and rs: "ResolveCandidates cr (s_Secrets cfg) meta = Inr cs"
    and st0: "sdata st0 = envelope_clear h @ sdata st"
    and len: "int (length (envelope_clear h)) = prefixLen"
    and run: "try_buckets cr cfg clk h cs prefixLen port remote n buckets st w = (Inr res, st', w')"
  shows "accepted cr cfg clk port remote st0 w res st' w'"
  using run h st0 len
proof (induction buckets arbitrary: n h)
  case Nil
  then show ?case by simp
next
  case (Cons b bs)
  show ?case
  proof (cases "b > s_MaxFrameSize cfg \<or> b < prefixLen + int Overhead")
    case True
    then show ?thesis using Cons.IH Cons.prems by simp
  next
    case False
    let ?need = "nat (b - prefixLen)" and ?h = "h\<lparr>BucketSize := b\<rparr>"
    obtain sealed where pk: "bufio_Peek ?need st = Inr sealed"
      using Cons.prems(1) False by (auto simp: Let_def split: sum.splits)
    then have sl: "length sealed = ?need" "sdata st = sealed @ sdata (bufio_Discard ?need st)"
      by (auto simp: bufio_Peek_def bufio_Discard_def split: if_splits)
    have hok: "envelope_header_ok ?h" "envelope_clear ?h = envelope_clear h"
      using Cons.prems(2) by (simp_all add: envelope_header_ok_def envelope_clear_def)
    show ?thesis
    proof (cases "try_candidates cr cfg ?h sealed port remote n cs")
      case (NextBucket m)
      then have "try_buckets cr cfg clk ?h cs prefixLen port remote m bs st w = (Inr res, st', w')"
        using Cons.prems(1) False pk by simp
      then show ?thesis using Cons.IH [OF _ hok(1)] hok(2) Cons.prems(3,4) by simp
    next
      case AttemptsExceeded
      then show ?thesis using Cons.prems(1) False pk by simp
    next
      case (Authenticated c p)
      from Cons.prems(1) False pk Authenticated
      have vp: "validatePeerCommon cfg clk p port remote (RouteHint ?h) w = (None, w')"
        and st': "st' = bufio_Discard ?need st"
        and res: "res = \<lparr>r_peer = p, r_hint = RouteHint h, r_serverProofRequested = p_Flags p AND EnvelopeV2FlagServerProof \<noteq> 0,
          r_serverProof = if p_Flags p AND EnvelopeV2FlagServerProof \<noteq> 0
            then BuildEnvelopeV2ServerProof cr (cand_Secret c) ?h port else []\<rparr>"
        by (auto simp: Let_def split: prod.splits option.splits)
      from try_candidates_Authenticated [OF Authenticated] obtain payload where
        c: "c \<in> set cs" "cand_ClientID c \<noteq> []" "MinSecretSize \<le> length (cand_Secret c)"
          "HintMode h = EnvelopeV2HintModeRouteHint \<longrightarrow>
             RouteHint h = ComputeEnvelopeV2RouteHint cr (cand_Secret c) (PrefixRandom h) port"
        and op: "OpenEnvelopeV2Payload cr (cand_Secret c) ?h port sealed = Inr payload"
        and hash: "e_ClientIDHash payload = ComputeClientIDHash cr (cand_Secret c) (cand_ClientID c)"
        and p: "p = newPeerInfoFromEnvelopeV2 c payload ?h remote"
        unfolding authenticateEnvelopeV2Candidate_iff [OF cr hok(1)] by auto
      have "int (length (envelope_clear ?h @ sealed)) = b"
        using False sl(1) Cons.prems(4) hok(2) by simp
      then have g: "genuine_v2 cr c port ?h payload (envelope_clear ?h @ sealed)"
        using c hash op hok(1) unfolding genuine_v2_def OpenEnvelopeV2Payload_iff [OF cr hok(1)] by auto
      have "p_Flags p = e_Flags payload" by (simp add: p newPeerInfoFromEnvelopeV2_def)
      then have sb: "sealed_by cr c port remote (r_peer res) (envelope_clear ?h @ sealed)
          (if r_serverProofRequested res then Some (r_serverProof res) else None)"
        using sealed_by_v2 [OF g, of remote] p by (simp add: res split: if_splits)
      have "sdata st0 = (envelope_clear ?h @ sealed) @ sdata st'"
        using Cons.prems(3) sl(2) hok(2) by (simp add: st')
      moreover have "validatePeerCommon cfg clk (r_peer res) port remote (RouteHint ?h) w = (None, w')"
        using vp by (simp add: res)
      ultimately show ?thesis by (rule acceptedI [OF rs c(1) sb])
    qed
  qed
qed

lemma authenticateEnvelopeV2_Inr:
  assumes cr: "crypto_ok cr"
    and run: "authenticateEnvelopeV2 cr cfg clk port remote st w = (Inr res, st', w')"
  shows "accepted cr cfg clk port remote st w res st' w'"
proof -
  let ?mode = "c_HintMode (WithDefaults (s_EnvelopeV2 cfg))"
  from run obtain h br cs where rd: "ReadEnvelopeV2Prefix st ?mode = Inr (h, br)"
    and rs: "ResolveCandidates cr (s_Secrets cfg) (v2_meta h ?mode port) = Inr cs"
    and tb: "try_buckets cr cfg clk h cs (envelope_prefix_size ?mode) port remote 0
      (EnvelopeV2Buckets (c_FrameSizeBuckets (WithDefaults (s_EnvelopeV2 cfg)))) br w = (Inr res, st', w')"
    by (auto simp: authenticateEnvelopeV2_def Let_def split: sum.splits prod.splits if_splits)
  note r = ReadEnvelopeV2Prefix_Inr [OF rd]
  show ?thesis by (rule try_buckets_Inr [OF cr r(1) rs r(3) r(5) tb])
qed

lemma authenticateConfiguredProtocol_Inr:
  assumes cr: "crypto_ok cr"
    and run: "authenticateConfiguredProtocol cr cfg clk conn w = (Inr res, st', w')"
  shows "accepted cr cfg clk (effectivePort (s_ServerPort cfg) (cn_local conn)) (cn_remote conn) (cn_in conn) w res st' w'"
proof -
  let ?port = "effectivePort (s_ServerPort cfg) (cn_local conn)"
  from run consider
    "authenticateFrameV1 cr cfg clk ?port (cn_remote conn) (cn_in conn) w = (Inr res, st', w')"
  | "authenticateEnvelopeV2 cr cfg clk ?port (cn_remote conn) (cn_in conn) w = (Inr res, st', w')"
    unfolding authenticateConfiguredProtocol_def Let_def by (auto split: if_splits sum.splits)
  then show ?thesis
    by cases (rule authenticateFrameV1_Inr [OF cr], assumption, rule authenticateEnvelopeV2_Inr [OF cr], assumption)
qed

section \<open>The whole handshake\<close>

lemma policy_gate_keeps:
  "policy_gate cfg clk remote w = (ok, w') \<Longrightarrow> w_replay w' = w_replay w \<and> w_knock w' = w_knock w"
  by (auto simp: policy_gate_def log_event_def Let_def split: option.splits prod.splits if_splits)

lemma check_knock_keeps: "check_knock cfg clk peer remote w = (e, w') \<Longrightarrow> w_replay w' = w_replay w"
  by (auto simp: check_knock_def split: option.splits prod.splits if_splits)

lemma send_proof_None:
  "send_proof cfg res conn = (None, conn') \<longleftrightarrow>
     (if r_serverProofRequested res
      then s_ServerProof cfg \<and> cn_werr conn = None \<and> conn' = conn\<lparr>cn_out := cn_out conn @ r_serverProof res\<rparr>
      else conn' = conn)"
  by (auto simp: send_proof_def conn_Write_def split: option.splits)

lemma send_proof_Some: "send_proof cfg res conn = (Some e, conn') \<Longrightarrow> conn' = conn"
  by (auto simp: send_proof_def conn_Write_def split: option.splits if_splits)

lemma fail_result:
  "fail clk cfg peer err conn w = (r, conn', w') \<Longrightarrow>
     r = Inl (publicError err) \<and> cn_closed conn' \<and> cn_out conn' = cn_out conn \<and>
     cn_delay conn' = delayOnFail clk cfg \<and> w_replay w' = w_replay w"
  by (auto simp: fail_def Let_def conn_Close_def drainOnFail_def)

lemma serverAuth_cases:
  assumes "serverAuthNormalized cr cfg clk conn w = (r, conn', w')"
  obtains (no_resolver) "s_Secrets cfg = NilResolver" "r = Inl AuthErrMissingSecretResolver" "conn' = conn_Close conn" "w' = w"
  | (limited) w1 where "w_replay w1 = w_replay w" "fail clk cfg None AuthErrRateLimited conn w1 = (r, conn', w')"
  | (rejected) w1 peer err br w2 where "w_replay w1 = w_replay w"
      "authenticateConfiguredProtocol cr cfg clk (conn\<lparr>cn_deadline := Some (auth_deadline cfg clk)\<rparr>) w1 = (Inl (peer, err), br, w2)"
      "fail clk cfg peer err (conn\<lparr>cn_deadline := Some (auth_deadline cfg clk), cn_in := br\<rparr>) w2 = (r, conn', w')"
  | (refused) w1 res br w2 w3 peer err conn2 where "w_replay w1 = w_replay w"
      "authenticateConfiguredProtocol cr cfg clk (conn\<lparr>cn_deadline := Some (auth_deadline cfg clk)\<rparr>) w1 = (Inr res, br, w2)"
      "w_replay w3 = w_replay w2" "cn_out conn2 = cn_out conn"
      "fail clk cfg peer err conn2 w3 = (r, conn', w')"
  | (success) w1 res br w2 w3 conn2 where "w_replay w1 = w_replay w" "w_knock w1 = w_knock w"
      "authenticateConfiguredProtocol cr cfg clk (conn\<lparr>cn_deadline := Some (auth_deadline cfg clk)\<rparr>) w1 = (Inr res, br, w2)"
      "check_knock cfg clk (r_peer res) (cn_remote conn) w2 = (None, w3)"
      "send_proof cfg res (conn\<lparr>cn_deadline := Some (auth_deadline cfg clk), cn_in := br\<rparr>) = (None, conn2)"
      "r = Inr (r_peer res)" "conn' = conn2\<lparr>cn_deadline := None\<rparr>" "w_replay w' = w_replay w3" "w_knock w' = w_knock w3"
proof (cases "s_Secrets cfg = NilResolver")
  case True
  then show ?thesis using assms no_resolver by (simp add: serverAuthNormalized_def)
next
  case sec: False
  let ?w0 = "log_event (s_Events cfg) (OnAccept (cn_remote conn)) w"
  let ?conn = "conn\<lparr>cn_deadline := Some (auth_deadline cfg clk)\<rparr>"
  obtain ok w1 where pg: "policy_gate cfg clk (cn_remote conn) ?w0 = (ok, w1)" by (rule prod.exhaust)
  have w1: "w_replay w1 = w_replay w" "w_knock w1 = w_knock w"
    using policy_gate_keeps [OF pg] by (simp_all add: log_event_def)
  show ?thesis
  proof (cases ok)
    case False
    then show ?thesis using assms sec pg limited [OF w1(1)] by (simp add: serverAuthNormalized_def)
  next
    case True
    note run = assms [unfolded serverAuthNormalized_def is_NilResolver_def Let_def, simplified sec if_False pg True prod.case bool.case]
    obtain out br w2 where ac: "authenticateConfiguredProtocol cr cfg clk ?conn w1 = (out, br, w2)"
      by (rule prod_cases3)
    show ?thesis
    proof (cases out)
      case (Inl a)
      then show ?thesis using run ac rejected [OF w1(1)] by (cases a) simp
    next
      case (Inr res)
      obtain ko w3 where ck: "check_knock cfg clk (r_peer res) (cn_remote conn) w2 = (ko, w3)" by (rule prod.exhaust)
      obtain so conn2 where sp: "send_proof cfg res (?conn\<lparr>cn_in := br\<rparr>) = (so, conn2)" by (rule prod.exhaust)
      show ?thesis
      proof (cases ko)
        case (Some err)
        then show ?thesis using run ac Inr ck refused [OF w1(1), of res br w2 w3 "?conn\<lparr>cn_in := br\<rparr>"] check_knock_keeps [OF ck] by simp
      next
        case None
        show ?thesis
        proof (cases so)
          case (Some err)
          then have "cn_out conn2 = cn_out conn" using send_proof_Some [of cfg res _ err conn2] sp by fastforce
          then show ?thesis
            using run ac Inr ck None Some sp refused [OF w1(1), of res br w2 w3 conn2] check_knock_keeps [OF ck] by simp
        next
          case so: None
          then show ?thesis
            using run ac Inr ck None sp success [OF w1, of res br w2 w3 conn2] by auto
        qed
      qed
    qed
  qed
qed

text \<open>
  Property C10. Authenticity. Whenever the server accepts a connection, the bytes it consumed
  are exactly one frame or envelope sealed with the secret of a candidate that the resolver
  returned, the peer it reports is that candidate with the sealed fields, the sealed port is
  the server's, the sealed time is within the window, the replay cache had not seen the
  nonce for that client, and the knock store granted the peer when a knock is required. The
  connection handed to the application starts right behind the frame, has received nothing
  but the proof the frame asked for, and was not closed.
\<close>

theorem server_authenticity:
  assumes cr: "crypto_ok cr"
    and run: "serverAuthNormalized cr cfg clk conn w = (Inr peer, conn', w')"
  defines "port \<equiv> effectivePort (s_ServerPort cfg) (cn_local conn)"
  shows "(\<exists>meta cs c raw reply. ResolveCandidates cr (s_Secrets cfg) meta = Inr cs \<and> c \<in> set cs \<and>
      sealed_by cr c port (cn_remote conn) peer raw reply \<and> p_ClientID peer = cand_ClientID c \<and>
      sdata (cn_in conn) = raw @ sdata (cn_in conn') \<and>
      cn_out conn' = cn_out conn @ (case reply of None \<Rightarrow> [] | Some prf \<Rightarrow> prf)) \<and>
    cn_closed conn' = cn_closed conn \<and>
    (port > 0 \<longrightarrow> p_ServerPort peer = port) \<and> peer_timely cfg clk peer \<and>
    fst (replay_CheckAndMark (t_replay clk) (p_ClientID peer) (p_Nonce peer) (w_replay w)) = None \<and>
    (s_RequireKnock cfg \<longrightarrow> (\<exists>check. s_KnockStore cfg = Some check \<and>
       fst (check (t_knock clk) peer (cn_remote conn) (w_knock w)) = None))"
  using run
proof (cases rule: serverAuth_cases)
  case (success w1 res br w2 w3 conn2)
  have acc: "accepted cr cfg clk port (cn_remote conn) (cn_in conn) w1 res br w2"
    using authenticateConfiguredProtocol_Inr [OF cr success(3)] by (simp add: port_def)
  then obtain meta cs c raw where rs: "ResolveCandidates cr (s_Secrets cfg) meta = Inr cs" "c \<in> set cs"
    and sb: "sealed_by cr c port (cn_remote conn) peer raw (if r_serverProofRequested res then Some (r_serverProof res) else None)"
    and st: "sdata (cn_in conn) = raw @ sdata br"
    using success(6) by (auto simp: accepted_def)
  have ident: "p_ClientID peer = cand_ClientID c"
    using sb by (auto simp: sealed_by_def newPeerInfoFromV1_def newPeerInfoFromEnvelopeV2_def)
  have conn': "cn_in conn' = br" "cn_closed conn' = cn_closed conn"
    "cn_out conn' = cn_out conn @ (case (if r_serverProofRequested res then Some (r_serverProof res) else None) of
       None \<Rightarrow> [] | Some prf \<Rightarrow> prf)"
    using success(5,7) by (auto simp: send_proof_None split: if_splits)
  have "w_knock w2 = w_knock w" using acc success(2) by (auto simp: accepted_def)
  then have knock: "s_RequireKnock cfg \<longrightarrow> (\<exists>check. s_KnockStore cfg = Some check \<and>
       fst (check (t_knock clk) peer (cn_remote conn) (w_knock w)) = None)"
    using success(4,6) by (auto simp: check_knock_def split: option.splits prod.splits if_splits)
  have "\<exists>meta cs c raw reply. ResolveCandidates cr (s_Secrets cfg) meta = Inr cs \<and> c \<in> set cs \<and>
      sealed_by cr c port (cn_remote conn) peer raw reply \<and> p_ClientID peer = cand_ClientID c \<and>
      sdata (cn_in conn) = raw @ sdata (cn_in conn') \<and>
      cn_out conn' = cn_out conn @ (case reply of None \<Rightarrow> [] | Some prf \<Rightarrow> prf)"
    using rs sb ident st conn' by metis
  then show ?thesis using acc success(1,6) conn'(2) knock by (auto simp: accepted_def)
qed (auto dest!: fail_result)

section \<open>Failures\<close>

lemma publicError_public: "\<exists>e \<in> set public_errors. errors_Is (publicError err) e"
proof -
  have "AuthErrAuthFailed \<in> set public_errors" by (simp add: public_errors_def)
  then show ?thesis by (auto simp: publicError_def list_ex_iff)
qed

lemma delayOnFail_bounds:
  assumes "server_config_ok cfg"
  shows "if s_FailDelayJitterMax cfg = 0 then delayOnFail clk cfg = 0
    else s_FailDelayJitterMin cfg \<le> delayOnFail clk cfg \<and> delayOnFail clk cfg \<le> s_FailDelayJitterMax cfg"
proof (cases "s_FailDelayJitterMax cfg = 0")
  case True
  then show ?thesis by (simp add: delayOnFail_def)
next
  case False
  let ?mn = "s_FailDelayJitterMin cfg" and ?mx = "s_FailDelayJitterMax cfg"
  have b: "0 \<le> ?mn" "?mn \<le> ?mx" "0 < ?mx" using assms False by (auto simp: server_config_ok_def)
  have "0 \<le> x mod (?mx - ?mn + 1) \<and> x mod (?mx - ?mn + 1) \<le> ?mx - ?mn" for x
    using b pos_mod_bound [of "?mx - ?mn + 1" x] by auto
  then show ?thesis using b False
    by (auto simp: delayOnFail_def Let_def split: option.splits)
       (smt (verit, best))+
qed


section \<open>Attempts\<close>

lemma WithDefaults_buckets: "c_FrameSizeBuckets (WithDefaults c) \<noteq> []"
  by (simp add: WithDefaults_def Let_def EnvelopeV2DefaultBuckets_def)

lemma try_candidates_attempts:
  assumes "n + int (length cs) \<le> s_MaxAuthAttempts cfg"
  shows "try_candidates cr cfg h sealed port remote n cs \<noteq> AttemptsExceeded \<and>
    (\<forall>m. try_candidates cr cfg h sealed port remote n cs = NextBucket m \<longrightarrow> m = n + int (length cs))"
  using assms
proof (induction cs arbitrary: n)
  case (Cons c cs)
  have "n + 1 + int (length cs) = n + int (length (c # cs))" by simp
  then show ?case using Cons.IH [of "n + 1"] Cons.prems by (auto split: sum.splits)
qed simp

lemma mapProtocolError_EOF: "mapProtocolError IoEOF = IoEOF" "mapProtocolError BufioErrBufferFull = BufioErrBufferFull"
  by (simp_all add: mapProtocolError_def)

lemma try_buckets_attempts:
  assumes "n + int (length cs) * int (length (filter (\<lambda>b. b \<le> s_MaxFrameSize cfg) buckets)) \<le> s_MaxAuthAttempts cfg"
    and "serr st = IoEOF"
  shows "fst (try_buckets cr cfg clk h cs prefixLen port remote n buckets st w) \<noteq> Inl (None, AuthErrTooManyCandidates)"
  using assms(1)
proof (induction buckets arbitrary: n h)
  case Nil
  then show ?case by simp
next
  case (Cons b bs)
  show ?case
  proof (cases "b > s_MaxFrameSize cfg \<or> b < prefixLen + int Overhead")
    case True
    have "n + int (length cs) * int (length (filter (\<lambda>b. b \<le> s_MaxFrameSize cfg) bs)) \<le> s_MaxAuthAttempts cfg"
    proof (cases "b > s_MaxFrameSize cfg")
      case False
      then have "int (length cs) * int (length (filter (\<lambda>b. b \<le> s_MaxFrameSize cfg) bs)) \<le>
          int (length cs) * int (length (filter (\<lambda>b. b \<le> s_MaxFrameSize cfg) (b # bs)))"
        by (intro mult_left_mono) auto
      then show ?thesis using Cons.prems by linarith
    qed (use Cons.prems in simp)
    then show ?thesis using Cons.IH True by simp
  next
    case False
    let ?h = "h\<lparr>BucketSize := b\<rparr>" and ?need = "nat (b - prefixLen)"
    have tot: "n + int (length cs) + int (length cs) * int (length (filter (\<lambda>b. b \<le> s_MaxFrameSize cfg) bs)) \<le> s_MaxAuthAttempts cfg"
      using Cons.prems False by (simp add: algebra_simps)
    then have "n + int (length cs) \<le> s_MaxAuthAttempts cfg"
      by (smt (verit) mult_nonneg_nonneg of_nat_0_le_iff)
    note tc = try_candidates_attempts [OF this, of cr ?h _ port remote]
    show ?thesis
    proof (cases "bufio_Peek ?need st")
      case (Inl e)
      then have "e = IoEOF \<or> e = BufioErrBufferFull"
        using assms(2) by (auto simp: bufio_Peek_def split: if_splits)
      then show ?thesis using False Inl mapProtocolError_EOF by auto
    next
      case (Inr sealed)
      show ?thesis
      proof (cases "try_candidates cr cfg ?h sealed port remote n cs")
        case (NextBucket m)
        then show ?thesis using tc [of sealed] Cons.IH [of m ?h] tot False Inr by simp
      next
        case AttemptsExceeded
        then show ?thesis using tc [of sealed] by simp
      next
        case (Authenticated c p)
        then show ?thesis using False Inr by (auto simp: Let_def split: prod.splits option.splits)
      qed
    qed
  qed
qed


end
