(* ===== verification/Auth_Client.thy ===== *)
theory Auth_Client
  imports Auth_Server
begin

text \<open>
  auth/client.go: the client side of the handshake, and the peer lookup of
  auth/buffered_conn.go. The random sources of the two frame formats are arguments; None
  is an envelope build whose prefix loop has not ended on the listed draws.
\<close>

section \<open>Client handshake\<close>

record client_env =
  ce_start :: time
  ce_now :: time
  ce_deadline :: "time option"
  ce_nonce :: "bytes result"
  ce_rand :: envelope_rand

definition buildClientFrameOptions ::
    "crypto \<Rightarrow> bytes result \<Rightarrow> ClientConfig \<Rightarrow> int \<Rightarrow> time \<Rightarrow> byte \<Rightarrow> (bytes \<times> Header) result" where
  "buildClientFrameOptions cr rand cfg serverPort now flags =
     BuildFrame cr rand (cl_ClientID cfg) (cl_Secret cfg) serverPort now flags (cl_Method cfg)
       (cl_SessionID cfg) (cl_Extensions cfg)"

definition buildEnvelopeOptions ::
    "crypto \<Rightarrow> envelope_rand \<Rightarrow> ClientConfig \<Rightarrow> int \<Rightarrow> time \<Rightarrow> byte \<Rightarrow> (bytes \<times> EnvelopeV2Header) result option" where
  "buildEnvelopeOptions cr rs cfg serverPort now flags =
     BuildEnvelopeV2 cr rs (cl_ClientID cfg) (cl_Secret cfg) serverPort now flags (cl_Method cfg)
       (cl_SessionID cfg) (cl_Extensions cfg) (cl_EnvelopeV2 cfg)"

definition newClientFramePeer :: "crypto \<Rightarrow> ClientConfig \<Rightarrow> Header \<Rightarrow> int \<Rightarrow> time \<Rightarrow> net_addr \<Rightarrow> PeerInfo" where
  "newClientFramePeer cr cfg h serverPort now remote =
     \<lparr>p_ClientID = cl_ClientID cfg, p_ClientIDHash = ComputeClientIDHash cr (cl_Secret cfg) (cl_ClientID cfg),
      p_KeyHint = h_KeyHint h, p_Nonce = h_Nonce h, p_Timestamp = UnixMilli now, p_ServerPort = serverPort,
      p_Method = cl_Method cfg, p_SessionID = cl_SessionID cfg, p_Extensions = cl_Extensions cfg,
      p_RemoteAddr = remote, p_Protocol = [], p_Flags = 0\<rparr>"

definition newClientEnvelopePeer ::
    "crypto \<Rightarrow> ClientConfig \<Rightarrow> EnvelopeV2Header \<Rightarrow> int \<Rightarrow> time \<Rightarrow> byte \<Rightarrow> net_addr \<Rightarrow> PeerInfo" where
  "newClientEnvelopePeer cr cfg h serverPort now flags remote =
     \<lparr>p_ClientID = cl_ClientID cfg, p_ClientIDHash = ComputeClientIDHash cr (cl_Secret cfg) (cl_ClientID cfg),
      p_KeyHint = RouteHint h, p_Nonce = PrefixRandom h, p_Timestamp = UnixMilli now, p_ServerPort = serverPort,
      p_Method = cl_Method cfg, p_SessionID = cl_SessionID cfg, p_Extensions = cl_Extensions cfg,
      p_RemoteAddr = remote, p_Protocol = AuthProtocolEnvelopeV2, p_Flags = flags\<rparr>"

text \<open>Writing the frame and, if required, reading and verifying the proof of the server.\<close>

definition client_exchange ::
    "ClientConfig \<Rightarrow> bytes \<Rightarrow> (bytes \<Rightarrow> unit result) \<Rightarrow> PeerInfo \<Rightarrow> conn \<Rightarrow> PeerInfo result \<times> conn" where
  "client_exchange cfg frame verify peer conn =
     (case conn_Write frame conn of
        (Some err, conn) \<Rightarrow> (Inl err, conn_Close conn)
      | (None, conn) \<Rightarrow>
          if \<not> cl_RequireServerProof cfg then (Inr peer, conn\<lparr>cn_deadline := None\<rparr>)
          else case io_ReadFull ServerProofSize (cn_in conn) of
            Inl _ \<Rightarrow> (Inl AuthErrServerProofFailed, conn_Close conn)
          | Inr (pf, st) \<Rightarrow>
              let conn = conn\<lparr>cn_in := st\<rparr>
              in case verify pf of
                Inl _ \<Rightarrow> (Inl AuthErrServerProofFailed, conn_Close conn)
              | Inr _ \<Rightarrow> (Inr peer, conn\<lparr>cn_deadline := None\<rparr>))"

definition client_flags :: "ClientConfig \<Rightarrow> byte" where
  "client_flags cfg = (if cl_RequireServerProof cfg then FlagServerProof else 0)"

definition ClientAuthWithInfo ::
    "crypto \<Rightarrow> client_env \<Rightarrow> ClientConfig \<Rightarrow> conn option \<Rightarrow> (PeerInfo result \<times> conn option) option" where
  "ClientAuthWithInfo cr ce cfg0 conn0 = (case conn0 of
     None \<Rightarrow> Some (Inl AuthErrNilConn, None)
   | Some conn \<Rightarrow>
     let cfg = client_WithDefaults cfg0
     in case ValidateRuntime cfg of
       Inl err \<Rightarrow> Some (Inl err, Some (conn_Close conn))
     | Inr _ \<Rightarrow>
       let deadline = (case ce_deadline ce of Some d \<Rightarrow> d | None \<Rightarrow> ce_start ce + cl_AuthTimeout cfg);
           conn = conn\<lparr>cn_deadline := Some deadline\<rparr>;
           serverPort = effectivePort (cl_ServerPort cfg) (cn_remote conn);
           flags = client_flags cfg;
           now = ce_now ce
       in if cl_Protocol cfg = AuthProtocolEnvelopeV2 then
            (case buildEnvelopeOptions cr (ce_rand ce) cfg serverPort now flags of
               None \<Rightarrow> None
             | Some (Inl err) \<Rightarrow> Some (Inl (mapProtocolError err), Some (conn_Close conn))
             | Some (Inr (frame, header)) \<Rightarrow>
                 let (r, conn) = client_exchange cfg frame
                       (\<lambda>pf. VerifyEnvelopeV2ServerProof cr pf (cl_Secret cfg) header serverPort)
                       (newClientEnvelopePeer cr cfg header serverPort now flags (cn_remote conn)) conn
                 in Some (r, Some conn))
          else
            (case buildClientFrameOptions cr (ce_nonce ce) cfg serverPort now flags of
               Inl err \<Rightarrow> Some (Inl (mapProtocolError err), Some (conn_Close conn))
             | Inr (frame, header) \<Rightarrow>
                 let (r, conn) = client_exchange cfg frame
                       (\<lambda>pf. VerifyServerProof cr pf (cl_Secret cfg) header serverPort)
                       (newClientFramePeer cr cfg header serverPort now (cn_remote conn)) conn
                 in Some (r, Some conn)))"

definition ClientAuth ::
    "crypto \<Rightarrow> client_env \<Rightarrow> ClientConfig \<Rightarrow> conn option \<Rightarrow> (error option \<times> conn option) option" where
  "ClientAuth cr ce cfg conn = (case ClientAuthWithInfo cr ce cfg conn of
     None \<Rightarrow> None
   | Some (Inl err, conn) \<Rightarrow> Some (Some err, conn)
   | Some (Inr _, conn) \<Rightarrow> Some (None, conn))"

section \<open>Lemmas\<close>

lemma BuildFrame_Inr:
  assumes cr: "crypto_ok cr" and n: "length nonce = 16"
    and b: "BuildFrame cr (Inr nonce) clientID secret port now flags meth sessionID extensions = Inr (raw, h)"
  defines "p \<equiv> frame_payload cr clientID secret port now meth sessionID extensions"
  obtains sealed where "clientID \<noteq> []" "MinSecretSize \<le> length secret" "flags AND NOT FlagServerProof = 0"
    "payload_ok p" "h = frame_header cr nonce secret port flags (length (payload_bytes p) + Overhead)"
    "SealPayload cr secret h (payload_bytes p) = Inr sealed" "raw = header_bytes h @ sealed" "header_ok h"
    "int (length raw) \<le> DefaultMaxFrameSize"
proof -
  from b [unfolded BuildFrame_iff [OF cr n] Let_def p_def [symmetric]] obtain sealed where
    f: "clientID \<noteq> []" "MinSecretSize \<le> length secret" "flags AND NOT FlagServerProof = 0" "payload_ok p"
      "h = frame_header cr nonce secret port flags (length (payload_bytes p) + Overhead)"
      "SealPayload cr secret h (payload_bytes p) = Inr sealed" "raw = header_bytes h @ sealed"
    by blast
  have "header_ok h" using n by (simp add: f(5) header_ok_def frame_header_def)
  then show ?thesis using that f frame_size [OF cr n b] by blast
qed

lemma client_exchange_Inr:
  "client_exchange cfg frame verify peer conn = (Inr p, conn') \<longleftrightarrow>
     p = peer \<and> cn_werr conn = None \<and>
     (if cl_RequireServerProof cfg
      then \<exists>pf st. io_ReadFull ServerProofSize (cn_in conn) = Inr (pf, st) \<and> verify pf = Inr () \<and>
        conn' = conn\<lparr>cn_out := cn_out conn @ frame, cn_in := st, cn_deadline := None\<rparr>
      else conn' = conn\<lparr>cn_out := cn_out conn @ frame, cn_deadline := None\<rparr>)"
  by (auto simp: client_exchange_def conn_Write_def Let_def split: option.splits sum.splits)

lemma client_exchange_Inl:
  "client_exchange cfg frame verify peer conn = (Inl e, conn') \<Longrightarrow>
     cn_closed conn' \<and> (cn_werr conn = Some e \<or> e = AuthErrServerProofFailed)"
  by (auto simp: client_exchange_def conn_Write_def Let_def conn_Close_def
      split: option.splits sum.splits if_splits prod.splits)

lemma client_flags_ok: "client_flags cfg AND NOT FlagServerProof = 0"
  by (simp add: client_flags_def flags_supported_iff)

text \<open>
  Property C14. A client that requires a server proof succeeds only after reading, as the
  next fifty bytes of the connection, exactly the proof that the holder of its secret
  computes for the frame it has just sent and the port it dialled; everything behind the
  proof is left for the application, and exactly one frame has been written.
\<close>

theorem client_accepts_only_genuine_proof:
  assumes cr: "crypto_ok cr" and nonce: "\<And>n. ce_nonce ce = Inr n \<Longrightarrow> length n = 16"
    and rand: "envelope_rand_ok (ce_rand ce)" and proof_required: "cl_RequireServerProof cfg"
    and run: "ClientAuthWithInfo cr ce cfg (Some conn) = Some (Inr peer, Some conn')"
  defines "port \<equiv> effectivePort (cl_ServerPort cfg) (cn_remote conn)" and "c \<equiv> client_WithDefaults cfg"
  shows "\<exists>frame pf. cn_out conn' = cn_out conn @ frame \<and> sdata (cn_in conn) = pf @ sdata (cn_in conn') \<and>
    ((\<exists>h. buildEnvelopeOptions cr (ce_rand ce) c port (ce_now ce) FlagServerProof = Some (Inr (frame, h)) \<and>
        pf = BuildEnvelopeV2ServerProof cr (cl_Secret cfg) h port) \<or>
     (\<exists>h. buildClientFrameOptions cr (ce_nonce ce) c port (ce_now ce) FlagServerProof = Inr (frame, h) \<and>
        pf = BuildServerProof cr (cl_Secret cfg) h port))"
proof -
  have keep: "cl_RequireServerProof c" "cl_Secret c = cl_Secret cfg" "cl_ServerPort c = cl_ServerPort cfg"
    using proof_required by (simp_all add: c_def client_WithDefaults_def Let_def)
  have fl: "client_flags c = FlagServerProof" using keep by (simp add: client_flags_def)
  let ?d = "Some (case ce_deadline ce of Some d \<Rightarrow> d | None \<Rightarrow> ce_start ce + cl_AuthTimeout c)"
  let ?conn = "conn\<lparr>cn_deadline := ?d\<rparr>"
  have val: "ValidateRuntime c = Inr ()"
    using run by (auto simp: ClientAuthWithInfo_def Let_def c_def [symmetric] split: sum.splits)
  note run' = run [unfolded ClientAuthWithInfo_def Let_def option.case c_def [symmetric] val sum.case]
  show ?thesis
  proof (cases "cl_Protocol c = AuthProtocolEnvelopeV2")
    case True
    then obtain frame h where b: "buildEnvelopeOptions cr (ce_rand ce) c port (ce_now ce) FlagServerProof = Some (Inr (frame, h))"
      and ex: "client_exchange c frame (\<lambda>pf. VerifyEnvelopeV2ServerProof cr pf (cl_Secret c) h port)
        (newClientEnvelopePeer cr c h port (ce_now ce) FlagServerProof (cn_remote conn)) ?conn = (Inr peer, conn')"
      using run' by (auto simp: port_def keep fl split: option.splits sum.splits prod.splits)
    have "envelope_header_ok h"
      by (rule BuildEnvelopeV2_Inr [OF cr rand b [unfolded buildEnvelopeOptions_def]])
    then have "VerifyEnvelopeV2ServerProof cr pf (cl_Secret c) h port = Inr () \<Longrightarrow>
        pf = BuildEnvelopeV2ServerProof cr (cl_Secret c) h port" for pf
      using VerifyEnvelopeV2ServerProof_iff [OF cr] by (auto simp: envelope_header_ok_def)
    then show ?thesis using ex b keep by (auto simp: client_exchange_Inr io_ReadFull_Inr)
  next
    case False
    then obtain frame h where b: "buildClientFrameOptions cr (ce_nonce ce) c port (ce_now ce) FlagServerProof = Inr (frame, h)"
      and ex: "client_exchange c frame (\<lambda>pf. VerifyServerProof cr pf (cl_Secret c) h port)
        (newClientFramePeer cr c h port (ce_now ce) (cn_remote conn)) ?conn = (Inr peer, conn')"
      using run' by (auto simp: port_def keep fl split: sum.splits prod.splits)
    obtain n where n: "ce_nonce ce = Inr n" "length n = 16"
      using b nonce by (cases "ce_nonce ce") (auto simp: buildClientFrameOptions_def BuildFrame_def split: if_splits)
    have "length (h_Nonce h) = 16"
      by (rule BuildFrame_Inr [OF cr n(2) b [unfolded buildClientFrameOptions_def n(1)]]) (simp add: header_ok_def)
    then have "VerifyServerProof cr pf (cl_Secret c) h port = Inr () \<Longrightarrow>
        pf = BuildServerProof cr (cl_Secret c) h port" for pf
      using VerifyServerProof_iff [OF cr] by auto
    then show ?thesis using ex b keep by (auto simp: client_exchange_Inr io_ReadFull_Inr)
  qed
qed

end
