(* ===== verification/Auth_Handshake.thy ===== *)
theory Auth_Handshake
  imports Auth_Client
begin

text \<open>
  Client and server together: an honest client completes the handshake in both protocols,
  and along any sequence of connections one frame is accepted at most once.
\<close>

section \<open>Candidates of an honest client\<close>

lemma concat_map_single:
  assumes "distinct xs" "x \<in> set xs" "f x = [c]" "\<And>y. y \<in> set xs \<Longrightarrow> y \<noteq> x \<Longrightarrow> f y = []"
  shows "concat (map f xs) = [c]"
  using assms
proof (induction xs)
  case (Cons y ys)
  show ?case
  proof (cases "y = x")
    case True
    then have "concat (map f ys) = []" using Cons.prems by auto
    then show ?thesis using Cons.prems(3) True by simp
  next
    case False
    then show ?thesis using Cons by auto
  qed
qed simp

lemma distinct_sorted_ids [simp]: "distinct (sorted_ids s)"
  by (simp add: sorted_ids_def)

lemma static_single:
  assumes "map_of s ident = Some secret" "secret_matches cr meta secret"
    "\<And>i k. map_of s i = Some k \<Longrightarrow> i \<noteq> ident \<Longrightarrow> \<not> secret_matches cr meta k"
  shows "static_ResolveCandidates cr s meta = [\<lparr>cand_ClientID = ident, cand_Secret = secret\<rparr>]"
  unfolding static_ResolveCandidates_def
proof (rule concat_map_single [where x = ident])
  show "ident \<in> set (sorted_ids s)" using assms(1) by auto
qed (use assms in \<open>auto split: option.splits\<close>)

section \<open>The server accepts an honest frame\<close>

lemma server_accepts_v1:
  fixes remote :: net_addr
  assumes cr: "crypto_ok cr" and n: "length nonce = 16"
    and b: "BuildFrame cr (Inr nonce) ident secret port now flags meth sessionID extensions = Inr (raw, h)"
    and sec: "s_Secrets cfg = StaticSecrets s" "map_of s ident = Some secret"
    and uniq: "\<And>i k. map_of s i = Some k \<Longrightarrow> i \<noteq> ident \<Longrightarrow>
      ComputeKeyHint cr k nonce port \<noteq> ComputeKeyHint cr secret nonce port"
    and mx: "DefaultMaxFrameSize \<le> s_MaxFrameSize cfg"
    and st: "sdata st = raw @ rest"
  defines "peer \<equiv> newPeerInfoFromV1 \<lparr>cand_ClientID = ident, cand_Secret = secret\<rparr>
      (frame_payload cr ident secret port now meth sessionID extensions) h remote"
  assumes timely: "peer_timely cfg clk peer"
    and rc: "replay_CheckAndMark (t_replay clk) ident nonce (w_replay w) = (None, rc)"
  shows "authenticateFrameV1 cr cfg clk port remote st w =
    (Inr \<lparr>r_peer = peer, r_hint = h_KeyHint h, r_serverProofRequested = flags AND FlagServerProof \<noteq> 0,
       r_serverProof = if flags AND FlagServerProof \<noteq> 0 then BuildServerProof cr secret h port else []\<rparr>,
     st\<lparr>sdata := rest\<rparr>, w\<lparr>w_replay := rc\<rparr>)"
proof -
  let ?c = "\<lparr>cand_ClientID = ident, cand_Secret = secret\<rparr>"
  let ?p = "frame_payload cr ident secret port now meth sessionID extensions"
  obtain sealed where f: "ident \<noteq> []" "MinSecretSize \<le> length secret" "flags AND NOT FlagServerProof = 0"
    "payload_ok ?p" "h = frame_header cr nonce secret port flags (length (payload_bytes ?p) + Overhead)"
    "SealPayload cr secret h (payload_bytes ?p) = Inr sealed" "raw = header_bytes h @ sealed" "header_ok h"
    "int (length raw) \<le> DefaultMaxFrameSize"
    by (rule BuildFrame_Inr [OF cr n b])
  have hf: "h_Nonce h = nonce" "h_KeyHint h = ComputeKeyHint cr secret nonce port" "h_Flags h = flags"
    "h_Version h = Version" "h_Reserved h = 0"
    by (simp_all add: f(5) frame_header_def)
  have len: "length sealed = length (payload_bytes ?p) + Overhead"
    using SealPayload_length [OF cr f(8) f(6)] .
  have sz: "length (payload_bytes ?p) + Overhead \<le> 1024" "0 < length (payload_bytes ?p) + Overhead"
    using f(9) len f(8) by (auto simp: f(7) DefaultMaxFrameSize_def Overhead_def)
  have sl: "h_SealedLen h \<noteq> 0" "unat (h_SealedLen h) = length sealed"
    using small_word16 [OF sz(2,1)] len by (auto simp: f(5) frame_header_def)
  have rd: "ReadFrame st (s_MaxFrameSize cfg) = Inr (h, sealed, st\<lparr>sdata := rest\<rparr>)"
    using f(3,7,8,9) sl hf mx st
    by (simp add: ReadFrame_iff header_accepted_def max_frame_def DefaultMaxFrameSize_def)
  have "secret \<noteq> []" using f(2) by (auto simp: MinSecretSize_def)
  then have "static_ResolveCandidates cr s (v1_meta h port) = [?c]"
    using sec(2) uniq
    by (intro static_single) (auto simp: secret_matches_def v1_meta_def hf auth_protocols)
  then have cs: "ResolveCandidates cr (s_Secrets cfg) (v1_meta h port) = Inr [?c]" by (simp add: sec(1))
  have "genuine_v1 cr ?c port h ?p (header_bytes h @ sealed)"
    using f hf by (simp add: genuine_v1_def frame_payload_def)
  then have "authenticateCandidate cr ?c h sealed port remote = Inr peer"
    unfolding authenticateCandidate_iff [OF cr f(8)] peer_def by blast
  moreover have "validatePeerCommon cfg clk peer port remote (h_KeyHint h) w = (None, w\<lparr>w_replay := rc\<rparr>)"
    unfolding validatePeerCommon_None using timely rc hf
    by (simp add: peer_def newPeerInfoFromV1_def frame_payload_def)
  ultimately show ?thesis by (simp add: authenticateFrameV1_def rd cs hf Let_def)
qed

lemma try_buckets_reaches:
  assumes "sorted buckets" "distinct buckets" "B \<in> set buckets" "B \<le> s_MaxFrameSize cfg"
    "prefixLen + int Overhead \<le> B" "B \<le> 4096" "0 \<le> prefixLen"
    "n + int (length buckets) \<le> s_MaxAuthAttempts cfg"
    "B - prefixLen \<le> int (length (sdata st))"
    and short: "\<And>b h'. b \<in> set buckets \<Longrightarrow> b < B \<Longrightarrow> h' = h\<lparr>BucketSize := b\<rparr> \<Longrightarrow>
      isl (authenticateEnvelopeV2Candidate cr c h' (take (nat (b - prefixLen)) (sdata st)) port remote)"
    and ok: "authenticateEnvelopeV2Candidate cr c (h\<lparr>BucketSize := B\<rparr>) (take (nat (B - prefixLen)) (sdata st)) port remote = Inr p"
    and vp: "validatePeerCommon cfg clk p port remote (RouteHint h) w = (None, w')"
  shows "try_buckets cr cfg clk h [c] prefixLen port remote n buckets st w =
    (Inr \<lparr>r_peer = p, r_hint = RouteHint h, r_serverProofRequested = p_Flags p AND EnvelopeV2FlagServerProof \<noteq> 0,
       r_serverProof = if p_Flags p AND EnvelopeV2FlagServerProof \<noteq> 0
         then BuildEnvelopeV2ServerProof cr (cand_Secret c) (h\<lparr>BucketSize := B\<rparr>) port else []\<rparr>,
     bufio_Discard (nat (B - prefixLen)) st, w')"
  using assms
proof (induction buckets arbitrary: n h)
  case Nil
  then show ?case by simp
next
  case (Cons b bs)
  have peek: "bufio_Peek (nat (x - prefixLen)) st = Inr (take (nat (x - prefixLen)) (sdata st))" if "x \<le> B" for x
  proof -
    have "nat (x - prefixLen) \<le> 4096" "nat (x - prefixLen) \<le> length (sdata st)" using that Cons.prems by auto
    then show ?thesis by (simp add: bufio_Peek_def bufio_size_def)
  qed
  have h2: "h\<lparr>BucketSize := b, BucketSize := x\<rparr> = h\<lparr>BucketSize := x\<rparr>" for x by simp
  show ?case
  proof (cases "b = B")
    case True
    then show ?thesis using Cons.prems peek [of B] by (simp add: Let_def)
  next
    case False
    then have B: "B \<in> set bs" "b < B" using Cons.prems(1,3) by auto
    have IH: "try_buckets cr cfg clk h' [c] prefixLen port remote m bs st w =
      (Inr \<lparr>r_peer = p, r_hint = RouteHint h, r_serverProofRequested = p_Flags p AND EnvelopeV2FlagServerProof \<noteq> 0,
         r_serverProof = if p_Flags p AND EnvelopeV2FlagServerProof \<noteq> 0
           then BuildEnvelopeV2ServerProof cr (cand_Secret c) (h\<lparr>BucketSize := B\<rparr>) port else []\<rparr>,
       bufio_Discard (nat (B - prefixLen)) st, w')"
      if "m \<le> n + 1" "h' = h \<or> h' = h\<lparr>BucketSize := b\<rparr>" for m h'
    proof -
      have e: "h'\<lparr>BucketSize := x\<rparr> = h\<lparr>BucketSize := x\<rparr>" "RouteHint h' = RouteHint h" for x using that(2) by auto
      have short': "isl (authenticateEnvelopeV2Candidate cr c g (take (nat (x - prefixLen)) (sdata st)) port remote)"
        if "x \<in> set bs" "x < B" "g = h'\<lparr>BucketSize := x\<rparr>" for x g
        using Cons.prems(10) [of x g] that by (simp add: e)
      show ?thesis
        using Cons.IH [of m h'] Cons.prems(1,2,4-9,11,12) B(1) that(1) short' unfolding e by simp
    qed
    show ?thesis
    proof (cases "b > s_MaxFrameSize cfg \<or> b < prefixLen + int Overhead")
      case True
      then show ?thesis using IH [of n h] by simp
    next
      case False
      have "isl (authenticateEnvelopeV2Candidate cr c (h\<lparr>BucketSize := b\<rparr>) (take (nat (b - prefixLen)) (sdata st)) port remote)"
        using Cons.prems(10) [of b] B(2) by simp
      then have "try_candidates cr cfg (h\<lparr>BucketSize := b\<rparr>) (take (nat (b - prefixLen)) (sdata st)) port remote n [c] = NextBucket (n + 1)"
        using Cons.prems(8) by (auto simp: isl_def split: sum.splits)
      then show ?thesis
        using False peek [of b] B(2) IH [of "n + 1" "h\<lparr>BucketSize := b\<rparr>"] by (simp add: Let_def)
    qed
  qed
qed

lemma BuildEnvelopeV2_ids:
  assumes "BuildEnvelopeV2 cr rs ident secret port now flags meth sessionID extensions ecfg = Some (Inr (raw, h))"
  shows "ident \<noteq> [] \<and> MinSecretSize \<le> length secret \<and> flags AND NOT EnvelopeV2FlagServerProof = 0"
  using assms by (auto simp: BuildEnvelopeV2_def Let_def not_less split: sum.splits if_splits option.splits)

lemma server_accepts_v2:
  fixes remote :: net_addr
  assumes cr: "crypto_ok cr" and rs: "envelope_rand_ok rs"
    and b: "BuildEnvelopeV2 cr rs ident secret port now flags meth sessionID extensions ecfg = Some (Inr (raw, h))"
    and sec: "s_Secrets cfg = StaticSecrets s" "map_of s ident = Some secret"
    and mode: "HintMode h = EnvelopeV2HintModeRouteHint" "c_HintMode (WithDefaults (s_EnvelopeV2 cfg)) = HintMode h"
    and uniq: "\<And>i k. map_of s i = Some k \<Longrightarrow> i \<noteq> ident \<Longrightarrow>
      ComputeEnvelopeV2RouteHint cr k (PrefixRandom h) port \<noteq> ComputeEnvelopeV2RouteHint cr secret (PrefixRandom h) port"
    and bucket: "BucketSize h \<in> set (EnvelopeV2Buckets (c_FrameSizeBuckets (WithDefaults (s_EnvelopeV2 cfg))))"
      "BucketSize h \<le> s_MaxFrameSize cfg"
    and attempts: "int (length (EnvelopeV2Buckets (c_FrameSizeBuckets (WithDefaults (s_EnvelopeV2 cfg))))) \<le> s_MaxAuthAttempts cfg"
    and short: "\<And>x. x \<in> set (EnvelopeV2Buckets (c_FrameSizeBuckets (WithDefaults (s_EnvelopeV2 cfg)))) \<Longrightarrow>
      x < BucketSize h \<Longrightarrow> isl (OpenEnvelopeV2Payload cr secret (h\<lparr>BucketSize := x\<rparr>) port (slice raw 32 (nat x)))"
    and st: "sdata st = raw @ rest"
  defines "peer \<equiv> newPeerInfoFromEnvelopeV2 \<lparr>cand_ClientID = ident, cand_Secret = secret\<rparr>
      (envelope_payload cr ident secret port now flags meth sessionID extensions) h remote"
  assumes timely: "peer_timely cfg clk peer"
    and rc: "replay_CheckAndMark (t_replay clk) ident (PrefixRandom h) (w_replay w) = (None, rc)"
  shows "authenticateEnvelopeV2 cr cfg clk port remote st w =
    (Inr \<lparr>r_peer = peer, r_hint = RouteHint h, r_serverProofRequested = flags AND EnvelopeV2FlagServerProof \<noteq> 0,
       r_serverProof = if flags AND EnvelopeV2FlagServerProof \<noteq> 0 then BuildEnvelopeV2ServerProof cr secret h port else []\<rparr>,
     st\<lparr>sdata := rest\<rparr>, w\<lparr>w_replay := rc\<rparr>)"
proof -
  let ?c = "\<lparr>cand_ClientID = ident, cand_Secret = secret\<rparr>"
  let ?p = "envelope_payload cr ident secret port now flags meth sessionID extensions"
  let ?bs = "EnvelopeV2Buckets (c_FrameSizeBuckets (WithDefaults (s_EnvelopeV2 cfg)))"
  let ?h0 = "h\<lparr>BucketSize := 0\<rparr>" and ?st1 = "st\<lparr>sdata := drop 32 raw @ rest\<rparr>"
  obtain padding sealed where f: "envelope_header_ok h"
      "RouteHint h = envelope_route_hint cr (HintMode h) secret (PrefixRandom h) port"
      "envelope_payload_ok ?p" "length padding \<le> 65535"
      "SealEnvelopeV2Payload cr secret h port (envelope_payload_bytes ?p @ var16_bytes padding) = Inr sealed"
      "raw = envelope_clear h @ sealed" "int (length raw) = BucketSize h"
      "BucketSize h \<in> set (EnvelopeV2Buckets (c_FrameSizeBuckets (WithDefaults ecfg)))"
    by (rule BuildEnvelopeV2_Inr [OF cr rs b])
  note ids = BuildEnvelopeV2_ids [OF b]
  have hint: "RouteHint h = ComputeEnvelopeV2RouteHint cr secret (PrefixRandom h) port"
    using f(2) by (simp add: envelope_route_hint_def mode(1))
  have clear: "length (envelope_clear h) = 32" "envelope_prefix_size (HintMode h) = 32"
    using f(1) by (simp_all add: envelope_clear_def envelope_header_ok_def mode(1) env_sizes envelope_prefix_size_def)
  then have sealed: "drop 32 raw = sealed" by (simp add: f(6))
  have "st = \<lparr>sdata = envelope_clear h @ (sealed @ rest), serr = serr st\<rparr>" using st by (cases st) (simp add: f(6))
  then have rd: "ReadEnvelopeV2Prefix st (HintMode h) = Inr (?h0, ?st1)"
    using ReadEnvelopeV2Prefix_clear [OF f(1), of "sealed @ rest" "serr st"] mode(1) sealed
    by (cases st) (auto simp: env_modes)
  have "secret \<noteq> []" using ids by (auto simp: MinSecretSize_def)
  moreover have "v2_meta ?h0 (HintMode h) port = \<lparr>fm_Hint = RouteHint h, fm_Nonce = take 16 (PrefixRandom h),
      fm_ServerPort = port, fm_Protocol = AuthProtocolEnvelopeV2, fm_HintMode = HintMode h, fm_PrefixRandom = PrefixRandom h\<rparr>"
    by (simp add: v2_meta_def mode(1))
  moreover have "HintMode h \<noteq> EnvelopeV2HintModeNone" using mode(1) by (simp add: env_modes)
  moreover have "length (PrefixRandom h) = EnvelopeV2PrefixSize" using f(1) by (simp add: envelope_header_ok_def)
  ultimately have "static_ResolveCandidates cr s (v2_meta ?h0 (HintMode h) port) = [?c]"
    using sec(2) uniq hint by (intro static_single) (auto simp: secret_matches_def)
  then have cs: "ResolveCandidates cr (s_Secrets cfg) (v2_meta ?h0 (HintMode h) port) = Inr [?c]" by (simp add: sec(1))
  have op: "OpenEnvelopeV2Payload cr secret h port sealed = Inr ?p"
    using f(3-5) ids by (auto simp: OpenEnvelopeV2Payload_iff [OF cr f(1)] envelope_payload_def)
  have hB: "?h0\<lparr>BucketSize := BucketSize h\<rparr> = h" by simp
  have need: "nat (BucketSize h - 32) = length sealed" using f(7) clear by (simp add: f(6))
  have ok: "authenticateEnvelopeV2Candidate cr ?c (?h0\<lparr>BucketSize := BucketSize h\<rparr>)
      (take (nat (BucketSize h - 32)) (sdata ?st1)) port remote = Inr peer"
    unfolding hB need using op ids hint sealed
    by (auto simp: authenticateEnvelopeV2Candidate_iff [OF cr f(1)] peer_def envelope_payload_def)
  have vp: "validatePeerCommon cfg clk peer port remote (RouteHint ?h0) w = (None, w\<lparr>w_replay := rc\<rparr>)"
    unfolding validatePeerCommon_None using timely rc
    by (simp add: peer_def newPeerInfoFromEnvelopeV2_def envelope_payload_def)
  have fl: "p_Flags peer = flags" by (simp add: peer_def newPeerInfoFromEnvelopeV2_def envelope_payload_def)
  have b512: "BucketSize h \<le> 512" "128 \<le> BucketSize h"
    using EnvelopeV2Buckets_supported [OF f(8)] supported_bounds by auto
  have sh: "isl (authenticateEnvelopeV2Candidate cr ?c g (take (nat (x - 32)) (sdata ?st1)) port remote)"
    if "x \<in> set ?bs" "x < BucketSize h" "g = ?h0\<lparr>BucketSize := x\<rparr>" for x g
  proof -
    have g: "g = h\<lparr>BucketSize := x\<rparr>" using that(3) by simp
    have "x - 32 \<le> int (length sealed)" using that(2) f(7) clear by (simp add: f(6))
    moreover have "nat (x - 32) = nat x - 32" by arith
    ultimately have "take (nat (x - 32)) (sdata ?st1) = slice raw 32 (nat x)"
      by (simp add: sealed slice_def)
    then show ?thesis using short [OF that(1,2)]
      by (auto simp: authenticateEnvelopeV2Candidate_def g isl_def split: sum.splits if_splits)
  qed
  have "try_buckets cr cfg clk ?h0 [?c] 32 port remote 0 ?bs ?st1 w =
    (Inr \<lparr>r_peer = peer, r_hint = RouteHint ?h0, r_serverProofRequested = p_Flags peer AND EnvelopeV2FlagServerProof \<noteq> 0,
       r_serverProof = if p_Flags peer AND EnvelopeV2FlagServerProof \<noteq> 0
         then BuildEnvelopeV2ServerProof cr (cand_Secret ?c) (?h0\<lparr>BucketSize := BucketSize h\<rparr>) port else []\<rparr>,
     bufio_Discard (nat (BucketSize h - 32)) ?st1, w\<lparr>w_replay := rc\<rparr>)"
  proof (rule try_buckets_reaches [OF _ _ bucket _ _ _ _ _ sh ok vp])
    show "sorted ?bs" "distinct ?bs" using EnvelopeV2Buckets_spec by blast+
    show "32 + int Overhead \<le> BucketSize h" "BucketSize h \<le> 4096" using b512 by (simp_all add: Overhead_def)
    show "0 + int (length ?bs) \<le> s_MaxAuthAttempts cfg" using attempts by simp
    show "BucketSize h - 32 \<le> int (length (sdata ?st1))" using need by (simp add: sealed)
  qed simp
  moreover have "bufio_Discard (nat (BucketSize h - 32)) ?st1 = st\<lparr>sdata := rest\<rparr>"
    unfolding need by (simp add: bufio_Discard_def sealed)
  moreover have "HintMode h \<noteq> EnvelopeV2HintModeNone" using mode(1) by (simp add: env_modes)
  ultimately show ?thesis
    by (simp add: authenticateEnvelopeV2_def Let_def mode(2) rd cs clear(2) fl hB)
qed

section \<open>Complete handshakes\<close>

text \<open>A server that demands neither a policy decision nor a knock and can send proofs.\<close>

definition open_server :: "('k, 'p) ServerConfig \<Rightarrow> conn \<Rightarrow> bool" where
  "open_server cfg conn \<longleftrightarrow> s_Policy cfg = None \<and> \<not> s_RequireKnock cfg \<and> s_ServerProof cfg \<and> cn_werr conn = None"

lemma serverAuth_success:
  assumes "open_server cfg conn" "s_Secrets cfg \<noteq> NilResolver"
    and ac: "\<And>w1. w_replay w1 = w_replay w \<Longrightarrow>
      authenticateConfiguredProtocol cr cfg clk (conn\<lparr>cn_deadline := Some (auth_deadline cfg clk)\<rparr>) w1 =
        (Inr res, br, w1\<lparr>w_replay := rc\<rparr>)"
  shows "\<exists>conn' w'. serverAuthNormalized cr cfg clk conn w = (Inr (r_peer res), conn', w') \<and>
    cn_in conn' = br \<and> cn_closed conn' = cn_closed conn \<and> w_replay w' = rc \<and>
    cn_out conn' = cn_out conn @ (if r_serverProofRequested res then r_serverProof res else [])"
proof -
  have "policy_gate cfg clk (cn_remote conn) w0 = (True, w0)" for w0 :: "('c, 'a, 'b) world"
    using assms(1) by (simp add: policy_gate_def open_server_def)
  moreover have "check_knock cfg clk p a w0 = (None, w0)" for p a and w0 :: "('c, 'a, 'b) world"
    using assms(1) by (simp add: check_knock_def open_server_def)
  ultimately show ?thesis using assms(1,2) ac
    by (auto simp: serverAuthNormalized_def Let_def send_proof_def conn_Write_def open_server_def)
qed

lemma client_success:
  assumes "ValidateRuntime cfg = Inr ()" "cn_werr conn = None"
    and st: "cl_RequireServerProof cfg \<Longrightarrow> sdata (cn_in conn) = pf @ later \<and> length pf = ServerProofSize \<and> verify pf = Inr ()"
      "\<not> cl_RequireServerProof cfg \<Longrightarrow> sdata (cn_in conn) = later"
  shows "\<exists>conn'. client_exchange cfg frame verify peer conn = (Inr peer, conn') \<and>
    cn_out conn' = cn_out conn @ frame \<and> sdata (cn_in conn') = later \<and> cn_closed conn' = cn_closed conn"
proof (cases "cl_RequireServerProof cfg")
  case True
  then have "io_ReadFull ServerProofSize (cn_in conn) = Inr (pf, (cn_in conn)\<lparr>sdata := later\<rparr>)"
    using st by (simp add: io_ReadFull_Inr)
  then show ?thesis using True assms by (auto simp: client_exchange_def conn_Write_def)
next
  case False
  then show ?thesis using assms by (simp add: client_exchange_def conn_Write_def)
qed

lemma length_BuildServerProof:
  assumes "crypto_ok cr" "header_ok h" "\<not> port_out_of_range port"
  shows "length (BuildServerProof cr secret h port) = ServerProofSize"
    "VerifyServerProof cr (BuildServerProof cr secret h port) secret h port = Inr ()"
  using VerifyServerProof_iff [OF assms(1)] assms by (auto simp: BuildServerProof_def header_ok_def ServerProofSize_def Let_def)

lemma length_BuildEnvelopeV2ServerProof:
  assumes "crypto_ok cr" "envelope_header_ok h" "\<not> port_out_of_range port"
  shows "length (BuildEnvelopeV2ServerProof cr secret h port) = ServerProofSize"
    "VerifyEnvelopeV2ServerProof cr (BuildEnvelopeV2ServerProof cr secret h port) secret h port = Inr ()"
  using VerifyEnvelopeV2ServerProof_iff [OF assms(1,2)] assms
  by (auto simp: BuildEnvelopeV2ServerProof_def ServerProofSize_def Let_def)

lemma client_WithDefaults_idem: "client_WithDefaults (client_WithDefaults c) = client_WithDefaults c"
  by (simp add: client_WithDefaults_def Let_def DefaultAuthTimeout_def auth_protocols time_defs)

lemma ValidateRuntime_defaults: "ValidateRuntime (client_WithDefaults c) = ValidateRuntime c"
  by (simp add: ValidateRuntime_def client_WithDefaults_idem)

lemma client_flags_requested: "client_flags cfg AND FlagServerProof \<noteq> 0 \<longleftrightarrow> cl_RequireServerProof cfg"
  by (simp add: client_flags_def FlagServerProof_def)

text \<open>
  Clocks that agree: the server checks the age of a frame at most the time window (less the
  millisecond that the timestamp rounds off) after it was built, and at most the time window
  before.
\<close>

definition clocks_agree :: "('k, 'p) ServerConfig \<Rightarrow> server_clock \<Rightarrow> time \<Rightarrow> bool" where
  "clocks_agree cfg clk now \<longleftrightarrow> s_TimeWindow cfg \<le> maxDuration \<and> \<bar>now\<bar> \<le> maxDuration \<and>
     now - s_TimeWindow cfg \<le> t_age clk \<and> t_age clk \<le> now + s_TimeWindow cfg - millisecond"

lemma UnixMilli_roundtrip:
  assumes "\<bar>now\<bar> \<le> maxDuration"
  shows "time_UnixMilli (UnixMilli now) = now - now mod millisecond"
proof -
  have "- 9223372036854775808 \<le> now div 1000000" "now div 1000000 \<le> 9223372036854775807"
    using assms unfolding maxDuration_def by linarith+
  then have "sint (of_int (now div 1000000) :: i64) = now div 1000000"
    by (simp add: signed_of_int signed_take_bit_int_eq_self)
  then show ?thesis
    by (simp add: time_UnixMilli_def UnixMilli_def millisecond_def minus_mod_eq_div_mult)
qed

lemma clocks_agree_timely:
  assumes "clocks_agree cfg clk now" "p_Timestamp p = UnixMilli now"
  shows "peer_timely cfg clk p"
proof -
  have b: "0 \<le> now mod millisecond" "now mod millisecond < millisecond" by (simp_all add: millisecond_def)
  have t: "time_UnixMilli (p_Timestamp p) = now - now mod millisecond"
    using assms UnixMilli_roundtrip by (simp add: clocks_agree_def)
  let ?d = "t_age clk - (now - now mod millisecond)"
  have d: "- s_TimeWindow cfg \<le> ?d" "?d \<le> s_TimeWindow cfg" "s_TimeWindow cfg \<le> maxDuration"
    using assms(1) b unfolding clocks_agree_def by linarith+
  then have "time_Sub (t_age clk) (now - now mod millisecond) = ?d"
    by (intro time_Sub_in_range) (auto simp: time_defs)
  then show ?thesis using d by (simp add: peer_timely_def t)
qed

lemma client_defaults_keep [simp]:
  "cl_ClientID (client_WithDefaults c) = cl_ClientID c" "cl_Secret (client_WithDefaults c) = cl_Secret c"
  "cl_Method (client_WithDefaults c) = cl_Method c" "cl_SessionID (client_WithDefaults c) = cl_SessionID c"
  "cl_Extensions (client_WithDefaults c) = cl_Extensions c" "cl_ServerPort (client_WithDefaults c) = cl_ServerPort c"
  "cl_RequireServerProof (client_WithDefaults c) = cl_RequireServerProof c"
  "client_flags (client_WithDefaults c) = client_flags c"
  by (simp_all add: client_WithDefaults_def Let_def client_flags_def)

text \<open>The client accepts what the server answers to its frame.\<close>

lemma client_completes_v2:
  assumes cr: "crypto_ok cr" and h: "envelope_header_ok h" and port: "\<not> port_out_of_range port"
    and client: "ValidateRuntime cl = Inr ()" "cl_Protocol (client_WithDefaults cl) = AuthProtocolEnvelopeV2"
      "effectivePort (cl_ServerPort cl) (cn_remote connC) = port" "cn_werr connC = None"
    and build: "buildEnvelopeOptions cr (ce_rand ce) (client_WithDefaults cl) port (ce_now ce) (client_flags cl) = Some (Inr (frame, h))"
    and st: "sdata (cn_in connC) = (if cl_RequireServerProof cl then BuildEnvelopeV2ServerProof cr (cl_Secret cl) h port else []) @ later"
  shows "\<exists>connC'. ClientAuthWithInfo cr ce cl (Some connC) =
      Some (Inr (newClientEnvelopePeer cr (client_WithDefaults cl) h port (ce_now ce) (client_flags cl) (cn_remote connC)), Some connC') \<and>
    cn_out connC' = cn_out connC @ frame \<and> sdata (cn_in connC') = later"
proof -
  let ?c = "client_WithDefaults cl"
  let ?peer = "newClientEnvelopePeer cr ?c h port (ce_now ce) (client_flags cl) (cn_remote connC)"
  let ?d = "Some (case ce_deadline ce of Some d \<Rightarrow> d | None \<Rightarrow> ce_start ce + cl_AuthTimeout ?c)"
  let ?verify = "\<lambda>pf. VerifyEnvelopeV2ServerProof cr pf (cl_Secret cl) h port"
  have ok: "ValidateRuntime ?c = Inr ()" using client(1) by (simp add: ValidateRuntime_defaults)
  obtain connC' where "client_exchange ?c frame ?verify ?peer (connC\<lparr>cn_deadline := ?d\<rparr>) = (Inr ?peer, connC')"
    "cn_out connC' = cn_out connC @ frame" "sdata (cn_in connC') = later"
    using client_success [OF ok, of "connC\<lparr>cn_deadline := ?d\<rparr>" "BuildEnvelopeV2ServerProof cr (cl_Secret cl) h port" later ?verify frame ?peer]
      client(4) st length_BuildEnvelopeV2ServerProof [OF cr h port, of "cl_Secret cl"]
    by (auto split: if_splits)
  then show ?thesis using ok client(2,3) build by (simp add: ClientAuthWithInfo_def Let_def)
qed

lemma client_completes_v1:
  assumes cr: "crypto_ok cr" and h: "header_ok h" and port: "\<not> port_out_of_range port"
    and client: "ValidateRuntime cl = Inr ()" "cl_Protocol (client_WithDefaults cl) = AuthProtocolFrameV1"
      "effectivePort (cl_ServerPort cl) (cn_remote connC) = port" "cn_werr connC = None"
    and build: "buildClientFrameOptions cr (ce_nonce ce) (client_WithDefaults cl) port (ce_now ce) (client_flags cl) = Inr (frame, h)"
    and st: "sdata (cn_in connC) = (if cl_RequireServerProof cl then BuildServerProof cr (cl_Secret cl) h port else []) @ later"
  shows "\<exists>connC'. ClientAuthWithInfo cr ce cl (Some connC) =
      Some (Inr (newClientFramePeer cr (client_WithDefaults cl) h port (ce_now ce) (cn_remote connC)), Some connC') \<and>
    cn_out connC' = cn_out connC @ frame \<and> sdata (cn_in connC') = later"
proof -
  let ?c = "client_WithDefaults cl"
  let ?peer = "newClientFramePeer cr ?c h port (ce_now ce) (cn_remote connC)"
  let ?d = "Some (case ce_deadline ce of Some d \<Rightarrow> d | None \<Rightarrow> ce_start ce + cl_AuthTimeout ?c)"
  let ?verify = "\<lambda>pf. VerifyServerProof cr pf (cl_Secret cl) h port"
  have ok: "ValidateRuntime ?c = Inr ()" using client(1) by (simp add: ValidateRuntime_defaults)
  obtain connC' where "client_exchange ?c frame ?verify ?peer (connC\<lparr>cn_deadline := ?d\<rparr>) = (Inr ?peer, connC')"
    "cn_out connC' = cn_out connC @ frame" "sdata (cn_in connC') = later"
    using client_success [OF ok, of "connC\<lparr>cn_deadline := ?d\<rparr>" "BuildServerProof cr (cl_Secret cl) h port" later ?verify frame ?peer]
      client(4) st length_BuildServerProof [OF cr h port, of "cl_Secret cl"]
    by (auto split: if_splits)
  moreover have "cl_Protocol ?c \<noteq> AuthProtocolEnvelopeV2" using client(2) by (simp add: auth_protocols)
  ultimately show ?thesis using ok client(3) build by (simp add: ClientAuthWithInfo_def Let_def)
qed

text \<open>
  Property C11. Handshake of the envelope protocol. A client with a valid configuration that
  builds an envelope completes the handshake with a server that has its secret, for the same
  port, with clocks that agree, buckets and hint mode in common and a replay cache that
  accepts the prefix, provided no other configured secret has the same route hint and no
  shorter bucket of the envelope opens: the server accepts and reports the client's identity
  and session, leaving the application bytes unread, and the client, reading what the server
  wrote, accepts with the same view of the peer. With a server that also accepts v1 frames
  the first byte of the envelope selects the right protocol.
\<close>

theorem handshake_v2_completes:
  fixes cfg :: "('k, 'p) ServerConfig" and w :: "('r, 'k, 'p) world"
  defines "buckets cf \<equiv> set (EnvelopeV2Buckets (c_FrameSizeBuckets (WithDefaults (s_EnvelopeV2 cf))))"
  assumes cr: "crypto_ok cr" and rand: "envelope_rand_ok (ce_rand ce)"
    and client: "ValidateRuntime cl = Inr ()" "cl_Protocol (client_WithDefaults cl) = AuthProtocolEnvelopeV2"
      "effectivePort (cl_ServerPort cl) (cn_remote connC) = port" "cn_werr connC = None"
    and build: "buildEnvelopeOptions cr (ce_rand ce) (client_WithDefaults cl) port (ce_now ce) (client_flags cl) = Some (Inr (frame, h))"
    and server: "open_server cfg connS" "acceptsProtocol (s_AcceptProtocols cfg) AuthProtocolEnvelopeV2"
      "effectivePort (s_ServerPort cfg) (cn_local connS) = port"
      "s_Secrets cfg = StaticSecrets s" "map_of s (cl_ClientID cl) = Some (cl_Secret cl)"
      "HintMode h = EnvelopeV2HintModeRouteHint" "c_HintMode (WithDefaults (s_EnvelopeV2 cfg)) = HintMode h"
      "BucketSize h \<in> buckets cfg" "BucketSize h \<le> s_MaxFrameSize cfg"
      "int (length (EnvelopeV2Buckets (c_FrameSizeBuckets (WithDefaults (s_EnvelopeV2 cfg))))) \<le> s_MaxAuthAttempts cfg"
    and hints: "\<And>i k. map_of s i = Some k \<Longrightarrow> i \<noteq> cl_ClientID cl \<Longrightarrow>
      ComputeEnvelopeV2RouteHint cr k (PrefixRandom h) port \<noteq> ComputeEnvelopeV2RouteHint cr (cl_Secret cl) (PrefixRandom h) port"
    and short: "\<And>x. x \<in> buckets cfg \<Longrightarrow> x < BucketSize h \<Longrightarrow>
      isl (OpenEnvelopeV2Payload cr (cl_Secret cl) (h\<lparr>BucketSize := x\<rparr>) port (slice frame 32 (nat x)))"
    and clock: "clocks_agree cfg clk (ce_now ce)"
    and fresh: "replay_CheckAndMark (t_replay clk) (cl_ClientID cl) (PrefixRandom h) (w_replay w) = (None, rc)"
    and wire: "sdata (cn_in connS) = frame @ rest"
  shows "\<exists>peer connS' w' reply. serverAuthNormalized cr cfg clk connS w = (Inr peer, connS', w') \<and>
    p_ClientID peer = cl_ClientID cl \<and> p_SessionID peer = cl_SessionID cl \<and> w_replay w' = rc \<and>
    sdata (cn_in connS') = rest \<and> cn_out connS' = cn_out connS @ reply \<and>
    (sdata (cn_in connC) = reply @ later \<longrightarrow>
      (\<exists>connC'. ClientAuthWithInfo cr ce cl (Some connC) = Some (Inr (peer\<lparr>p_RemoteAddr := cn_remote connC\<rparr>), Some connC') \<and>
        cn_out connC' = cn_out connC @ frame \<and> sdata (cn_in connC') = later))"
proof -
  let ?c = "client_WithDefaults cl" and ?flags = "client_flags cl"
  note b = build [unfolded buildEnvelopeOptions_def client_defaults_keep]
  obtain padding sealed where f: "envelope_header_ok h" "PrefixRandom h ! 0 \<noteq> Version"
      "envelope_payload_ok (envelope_payload cr (cl_ClientID cl) (cl_Secret cl) port (ce_now ce) ?flags (cl_Method cl) (cl_SessionID cl) (cl_Extensions cl))"
      "frame = envelope_clear h @ sealed"
    by (rule BuildEnvelopeV2_Inr [OF cr rand b])
  have port: "\<not> port_out_of_range port" using f(3) by (simp add: envelope_payload_ok_def envelope_payload_def)
  let ?cand = "\<lparr>cand_ClientID = cl_ClientID cl, cand_Secret = cl_Secret cl\<rparr>"
  let ?pl = "envelope_payload cr (cl_ClientID cl) (cl_Secret cl) port (ce_now ce) ?flags (cl_Method cl) (cl_SessionID cl) (cl_Extensions cl)"
  let ?peer = "newPeerInfoFromEnvelopeV2 ?cand ?pl h (cn_remote connS)"
  have req: "?flags AND EnvelopeV2FlagServerProof \<noteq> 0 \<longleftrightarrow> cl_RequireServerProof cl"
    using client_flags_requested by (simp add: EnvelopeV2FlagServerProof_def)
  let ?reply = "if cl_RequireServerProof cl then BuildEnvelopeV2ServerProof cr (cl_Secret cl) h port else []"
  let ?res = "\<lparr>r_peer = ?peer, r_hint = RouteHint h, r_serverProofRequested = cl_RequireServerProof cl, r_serverProof = ?reply\<rparr>"
  let ?conn = "connS\<lparr>cn_deadline := Some (auth_deadline cfg clk)\<rparr>"
  have timely: "peer_timely cfg clk ?peer"
    by (rule clocks_agree_timely [OF clock]) (simp add: newPeerInfoFromEnvelopeV2_def envelope_payload_def)
  have v2: "authenticateEnvelopeV2 cr cfg clk port (cn_remote connS) (cn_in connS) w1 =
      (Inr ?res, (cn_in connS)\<lparr>sdata := rest\<rparr>, w1\<lparr>w_replay := rc\<rparr>)"
    if "w_replay w1 = w_replay w" for w1 :: "('r, 'k, 'p) world"
    using server_accepts_v2 [where clk = clk and remote = "cn_remote connS" and w = w1 and rc = rc, OF cr rand b
        server(4-7) hints server(8) [unfolded buckets_def] server(9,10) short [unfolded buckets_def] wire] timely fresh that
    unfolding req by (simp split: if_splits)
  have "bufio_Peek 1 (cn_in connS) = Inr [PrefixRandom h ! 0]"
    using f(1,4) wire by (cases "PrefixRandom h") (auto simp: bufio_Peek_def bufio_size_def envelope_clear_def envelope_header_ok_def env_sizes)
  then have ac: "authenticateConfiguredProtocol cr cfg clk ?conn w1 =
      (Inr ?res, (cn_in connS)\<lparr>sdata := rest\<rparr>, w1\<lparr>w_replay := rc\<rparr>)"
    if "w_replay w1 = w_replay w" for w1 :: "('r, 'k, 'p) world"
    using v2 [OF that] server(2,3) f(2) by (simp add: authenticateConfiguredProtocol_def Let_def)
  have sec: "s_Secrets cfg \<noteq> NilResolver" by (simp add: server(4))
  from serverAuth_success [where w = w, OF server(1) sec ac] obtain connS' w' where
    S: "serverAuthNormalized cr cfg clk connS w = (Inr ?peer, connS', w')"
      "cn_in connS' = (cn_in connS)\<lparr>sdata := rest\<rparr>" "w_replay w' = rc" "cn_out connS' = cn_out connS @ ?reply"
    by (auto split: if_splits)
  have cpeer: "newClientEnvelopePeer cr ?c h port (ce_now ce) ?flags (cn_remote connC) = ?peer\<lparr>p_RemoteAddr := cn_remote connC\<rparr>"
    by (simp add: newClientEnvelopePeer_def newPeerInfoFromEnvelopeV2_def envelope_payload_def)
  have C: "\<exists>connC'. ClientAuthWithInfo cr ce cl (Some connC) = Some (Inr (?peer\<lparr>p_RemoteAddr := cn_remote connC\<rparr>), Some connC') \<and>
        cn_out connC' = cn_out connC @ frame \<and> sdata (cn_in connC') = later"
    if "sdata (cn_in connC) = ?reply @ later"
    using client_completes_v2 [OF cr f(1) port client build that] unfolding cpeer .
  show ?thesis
    using S C by (intro exI [of _ ?peer] exI [of _ connS'] exI [of _ w'] exI [of _ ?reply])
      (simp add: newPeerInfoFromEnvelopeV2_def envelope_payload_def)
qed

text \<open>
  Property C12. Handshake of the frame protocol: the same for a client that sends a v1 frame,
  with key hints in the place of route hints.
\<close>

theorem handshake_v1_completes:
  fixes cfg :: "('k, 'p) ServerConfig" and w :: "('r, 'k, 'p) world"
  assumes cr: "crypto_ok cr" and nonce: "ce_nonce ce = Inr nonce" "length nonce = 16"
    and client: "ValidateRuntime cl = Inr ()" "cl_Protocol (client_WithDefaults cl) = AuthProtocolFrameV1"
      "effectivePort (cl_ServerPort cl) (cn_remote connC) = port" "cn_werr connC = None"
    and build: "buildClientFrameOptions cr (ce_nonce ce) (client_WithDefaults cl) port (ce_now ce) (client_flags cl) = Inr (frame, h)"
    and server: "open_server cfg connS" "acceptsProtocol (s_AcceptProtocols cfg) AuthProtocolFrameV1"
      "effectivePort (s_ServerPort cfg) (cn_local connS) = port"
      "s_Secrets cfg = StaticSecrets s" "map_of s (cl_ClientID cl) = Some (cl_Secret cl)"
      "DefaultMaxFrameSize \<le> s_MaxFrameSize cfg"
    and hints: "\<And>i k. map_of s i = Some k \<Longrightarrow> i \<noteq> cl_ClientID cl \<Longrightarrow>
      ComputeKeyHint cr k nonce port \<noteq> ComputeKeyHint cr (cl_Secret cl) nonce port"
    and clock: "clocks_agree cfg clk (ce_now ce)"
    and fresh: "replay_CheckAndMark (t_replay clk) (cl_ClientID cl) nonce (w_replay w) = (None, rc)"
    and wire: "sdata (cn_in connS) = frame @ rest"
  shows "\<exists>peer connS' w' reply. serverAuthNormalized cr cfg clk connS w = (Inr peer, connS', w') \<and>
    p_ClientID peer = cl_ClientID cl \<and> p_SessionID peer = cl_SessionID cl \<and> w_replay w' = rc \<and>
    sdata (cn_in connS') = rest \<and> cn_out connS' = cn_out connS @ reply \<and>
    (sdata (cn_in connC) = reply @ later \<longrightarrow>
      (\<exists>connC'. ClientAuthWithInfo cr ce cl (Some connC) = Some (Inr (peer\<lparr>p_RemoteAddr := cn_remote connC\<rparr>), Some connC') \<and>
        cn_out connC' = cn_out connC @ frame \<and> sdata (cn_in connC') = later))"
proof -
  let ?flags = "client_flags cl"
  let ?pl = "frame_payload cr (cl_ClientID cl) (cl_Secret cl) port (ce_now ce) (cl_Method cl) (cl_SessionID cl) (cl_Extensions cl)"
  note b = build [unfolded buildClientFrameOptions_def client_defaults_keep nonce(1)]
  obtain sealed where f: "header_ok h" "payload_ok ?pl" "frame = header_bytes h @ sealed"
      "h = frame_header cr nonce (cl_Secret cl) port ?flags (length (payload_bytes ?pl) + Overhead)"
    by (rule BuildFrame_Inr [OF cr nonce(2) b])
  have port: "\<not> port_out_of_range port" using f(2) by (simp add: payload_ok_def frame_payload_def)
  let ?peer = "newPeerInfoFromV1 \<lparr>cand_ClientID = cl_ClientID cl, cand_Secret = cl_Secret cl\<rparr> ?pl h (cn_remote connS)"
  let ?reply = "if cl_RequireServerProof cl then BuildServerProof cr (cl_Secret cl) h port else []"
  let ?res = "\<lparr>r_peer = ?peer, r_hint = h_KeyHint h, r_serverProofRequested = cl_RequireServerProof cl, r_serverProof = ?reply\<rparr>"
  have timely: "peer_timely cfg clk ?peer"
    by (rule clocks_agree_timely [OF clock]) (simp add: newPeerInfoFromV1_def frame_payload_def)
  have v1: "authenticateFrameV1 cr cfg clk port (cn_remote connS) (cn_in connS) w1 =
      (Inr ?res, (cn_in connS)\<lparr>sdata := rest\<rparr>, w1\<lparr>w_replay := rc\<rparr>)"
    if "w_replay w1 = w_replay w" for w1 :: "('r, 'k, 'p) world"
    using server_accepts_v1 [where clk = clk and remote = "cn_remote connS" and w = w1 and rc = rc, OF cr nonce(2) b
        server(4,5) hints server(6) wire] timely fresh that
    unfolding client_flags_requested by (simp split: if_splits)
  have "bufio_Peek 1 (cn_in connS) = Inr [Version]"
    using f(3,4) wire by (auto simp: bufio_Peek_def bufio_size_def header_bytes_def frame_header_def)
  then have ac: "authenticateConfiguredProtocol cr cfg clk (connS\<lparr>cn_deadline := Some (auth_deadline cfg clk)\<rparr>) w1 =
      (Inr ?res, (cn_in connS)\<lparr>sdata := rest\<rparr>, w1\<lparr>w_replay := rc\<rparr>)"
    if "w_replay w1 = w_replay w" for w1 :: "('r, 'k, 'p) world"
    using v1 [OF that] server(2,3) by (simp add: authenticateConfiguredProtocol_def Let_def)
  have sec: "s_Secrets cfg \<noteq> NilResolver" by (simp add: server(4))
  from serverAuth_success [where w = w, OF server(1) sec ac] obtain connS' w' where
    S: "serverAuthNormalized cr cfg clk connS w = (Inr ?peer, connS', w')"
      "cn_in connS' = (cn_in connS)\<lparr>sdata := rest\<rparr>" "w_replay w' = rc" "cn_out connS' = cn_out connS @ ?reply"
    by (auto split: if_splits)
  have cpeer: "newClientFramePeer cr (client_WithDefaults cl) h port (ce_now ce) (cn_remote connC) = ?peer\<lparr>p_RemoteAddr := cn_remote connC\<rparr>"
    by (simp add: newClientFramePeer_def newPeerInfoFromV1_def frame_payload_def)
  have C: "\<exists>connC'. ClientAuthWithInfo cr ce cl (Some connC) = Some (Inr (?peer\<lparr>p_RemoteAddr := cn_remote connC\<rparr>), Some connC') \<and>
        cn_out connC' = cn_out connC @ frame \<and> sdata (cn_in connC') = later"
    if "sdata (cn_in connC) = ?reply @ later"
    using client_completes_v1 [OF cr f(1) port client build that] unfolding cpeer .
  show ?thesis
    using S C by (intro exI [of _ ?peer] exI [of _ connS'] exI [of _ w'] exI [of _ ?reply])
      (simp add: newPeerInfoFromV1_def frame_payload_def)
qed

section \<open>Examples\<close>

definition demo_client :: "string \<Rightarrow> ClientConfig" where
  "demo_client proto = \<lparr>cl_ClientID = ''a'', cl_Secret = demo_secret, cl_ServerPort = 443, cl_AuthTimeout = 0,
     cl_Protocol = proto, cl_EnvelopeV2 = demo_config, cl_Method = ''t'', cl_SessionID = [9], cl_Extensions = [],
     cl_RequireServerProof = True\<rparr>"

definition demo_server :: "string list \<Rightarrow> (unit, unit) ServerConfig" where
  "demo_server protos = \<lparr>s_ServerPort = 443, s_Secrets = StaticSecrets [(''a'', demo_secret)], s_AuthTimeout = 3 * second,
     s_TimeWindow = 30 * second, s_MaxFrameSize = 1024, s_Protocol = AuthProtocolEnvelopeV2, s_AcceptProtocols = protos,
     s_EnvelopeV2 = WithDefaults demo_config,
     s_RequireKnock = False, s_KnockStore = None, s_ServerProof = True, s_FailDelayJitterMin = 0,
     s_FailDelayJitterMax = 10, s_DrainOnFailBytes = 0, s_DrainOnFailTimeout = 0, s_MaxAuthAttempts = 64,
     s_Events = True, s_Policy = None, s_OnAuthenticated = True\<rparr>"

definition demo_env :: client_env where
  "demo_env = \<lparr>ce_start = 5 * second, ce_now = 5 * second, ce_deadline = None, ce_nonce = Inr demo_nonce, ce_rand = demo_rand 0\<rparr>"

definition demo_clock :: "time \<Rightarrow> server_clock" where
  "demo_clock t = \<lparr>t_policy = t, t_start = t, t_age = t, t_replay = t, t_knock = t, t_drain = t,
     ctx_deadline = None, rnd_delay = Some 7\<rparr>"

definition demo_conn :: "bytes \<Rightarrow> conn" where
  "demo_conn inp = \<lparr>cn_in = \<lparr>sdata = inp, serr = IoEOF\<rparr>, cn_out = [], cn_closed = False,
     cn_local = TCPAddr [10, 0, 0, 2] 443 [], cn_remote = demo_addr, cn_deadline = None, cn_werr = None, cn_delay = 0\<rparr>"

definition demo_world :: "(unit, unit, unit) world" where
  "demo_world = \<lparr>w_replay = MemoryCache (NewMemoryReplayCacheWithLimit (60 * second) 4), w_knock = (), w_policy = (), w_events = []\<rparr>"

lemma demo_server_fields:
  "open_server (demo_server protos) (demo_conn inp)" "s_Secrets (demo_server protos) = StaticSecrets [(''a'', demo_secret)]"
  "s_ServerPort (demo_server protos) = 443" "s_TimeWindow (demo_server protos) = 30 * second"
  "s_MaxFrameSize (demo_server protos) = 1024" "s_MaxAuthAttempts (demo_server protos) = 64"
  "s_AcceptProtocols (demo_server protos) = protos" "s_EnvelopeV2 (demo_server protos) = WithDefaults demo_config"
  by (simp_all add: demo_server_def open_server_def demo_conn_def)

lemma demo_clocks: "clocks_agree (demo_server protos) (demo_clock (6 * second)) (ce_now demo_env)"
  by (simp add: clocks_agree_def demo_server_fields demo_clock_def demo_env_def time_defs)

lemma demo_port: "effectivePort 443 a = 443"
  by (simp add: effectivePort_def)

definition demo_frame :: "(bytes \<times> Header) result" where
  "demo_frame = buildClientFrameOptions demo_crypto (ce_nonce demo_env) (client_WithDefaults (demo_client AuthProtocolFrameV1))
     443 (ce_now demo_env) (client_flags (demo_client AuthProtocolFrameV1))"

definition demo_env_frame :: "(bytes \<times> EnvelopeV2Header) result option" where
  "demo_env_frame = buildEnvelopeOptions demo_crypto (ce_rand demo_env) (client_WithDefaults (demo_client []))
     443 (ce_now demo_env) (client_flags (demo_client []))"

lemma demo_client_ok:
  "ValidateRuntime (demo_client []) = Inr ()" "ValidateRuntime (demo_client AuthProtocolFrameV1) = Inr ()"
  "cl_Protocol (client_WithDefaults (demo_client [])) = AuthProtocolEnvelopeV2"
  "cl_Protocol (client_WithDefaults (demo_client AuthProtocolFrameV1)) = AuthProtocolFrameV1"
  by code_simp+

lemma demo_fresh:
  "\<exists>rc. replay_CheckAndMark (6 * second) ''a'' demo_nonce (w_replay demo_world) = (None, rc)"
  "\<exists>rc. replay_CheckAndMark (6 * second) ''a'' (replicate 24 5) (w_replay demo_world) = (None, rc)"
proof -
  have "fst (replay_CheckAndMark (6 * second) ''a'' demo_nonce (w_replay demo_world)) = None"
    "fst (replay_CheckAndMark (6 * second) ''a'' (replicate 24 5) (w_replay demo_world)) = None"
    by code_simp+
  then show "\<exists>rc. replay_CheckAndMark (6 * second) ''a'' demo_nonce (w_replay demo_world) = (None, rc)"
    "\<exists>rc. replay_CheckAndMark (6 * second) ''a'' (replicate 24 5) (w_replay demo_world) = (None, rc)"
    by (metis prod.collapse)+
qed

lemma demo_env_frame_ok:
  obtains frame h where "demo_env_frame = Some (Inr (frame, h))" "HintMode h = EnvelopeV2HintModeRouteHint"
    "BucketSize h = 128" "PrefixRandom h = replicate 24 5"
proof -
  have "case demo_env_frame of Some (Inr (frame, h)) \<Rightarrow> HintMode h = EnvelopeV2HintModeRouteHint \<and> BucketSize h = 128 \<and>
      PrefixRandom h = replicate 24 5 | _ \<Rightarrow> False"
    by code_simp
  then show ?thesis using that by (auto split: option.splits sum.splits)
qed

lemma demo_frame_eq:
  "demo_frame = BuildFrame demo_crypto (Inr demo_nonce) ''a'' demo_secret 443 (5 * second) FlagServerProof ''t'' [9] []"
  by (simp add: demo_frame_def buildClientFrameOptions_def demo_env_def demo_client_def client_flags_def)

lemma demo_frame_ok: obtains frame h where "demo_frame = Inr (frame, h)"
proof -
  show ?thesis
    by (rule BuildFrame_succeeds [OF crypto_ok_demo_crypto, of demo_nonce "''a''" demo_secret FlagServerProof 443 "''t''" "[9]" "[]" "5 * second"])
      (simp_all add: demo_nonce_def demo_secret_def MinSecretSize_def FlagServerProof_def port_out_of_range_def that demo_frame_eq)
qed

lemma demo_fields:
  "cl_ClientID (demo_client p) = ''a''" "cl_Secret (demo_client p) = demo_secret" "cl_ServerPort (demo_client p) = 443"
  "cn_werr (demo_conn x) = None" "sdata (cn_in (demo_conn x)) = x" "cn_out (demo_conn x) = []"
  "t_replay (demo_clock t) = t" "cl_SessionID (demo_client p) = [9]"
  by (simp_all add: demo_client_def demo_conn_def demo_clock_def)

theorem handshake_v2_completes_witness:
  "\<exists>frame h peer connS' w'. demo_env_frame = Some (Inr (frame, h)) \<and>
    serverAuthNormalized demo_crypto (demo_server [AuthProtocolFrameV1, AuthProtocolEnvelopeV2]) (demo_clock (6 * second))
      (demo_conn (frame @ [42])) demo_world = (Inr peer, connS', w') \<and>
    p_ClientID peer = ''a'' \<and> p_SessionID peer = [9] \<and> sdata (cn_in connS') = [42]"
proof -
  obtain frame h where e: "demo_env_frame = Some (Inr (frame, h))" "HintMode h = EnvelopeV2HintModeRouteHint"
    "BucketSize h = 128" "PrefixRandom h = replicate 24 5" by (rule demo_env_frame_ok)
  obtain rc where fresh: "replay_CheckAndMark (6 * second) ''a'' (replicate 24 5) (w_replay demo_world) = (None, rc)"
    using demo_fresh(2) by blast
  let ?srv = "demo_server [AuthProtocolFrameV1, AuthProtocolEnvelopeV2]"
  let ?bs = "EnvelopeV2Buckets (c_FrameSizeBuckets (WithDefaults (s_EnvelopeV2 ?srv)))"
  have bs: "?bs = [128, 192, 256, 384, 512]" "c_HintMode (WithDefaults (s_EnvelopeV2 ?srv)) = EnvelopeV2HintModeRouteHint"
    unfolding demo_server_fields by code_simp+
  have rnd: "envelope_rand_ok (ce_rand demo_env)" by (simp add: demo_env_def demo_rand_ok)
  have acc: "acceptsProtocol (s_AcceptProtocols ?srv) AuthProtocolEnvelopeV2" unfolding demo_server_fields by code_simp
  note run = handshake_v2_completes [where cl = "demo_client []" and ce = demo_env and connC = "demo_conn []" and port = 443 and
      frame = frame and h = h and cfg = ?srv and connS = "demo_conn (frame @ [42])" and s = "[(''a'', demo_secret)]" and
      clk = "demo_clock (6 * second)" and w = demo_world and rc = rc and rest = "[42]" and later = "[]",
      OF crypto_ok_demo_crypto rnd demo_client_ok(1,3) _ _ e(1) [unfolded demo_env_frame_def] demo_server_fields(1) acc _ demo_server_fields(2)]
  obtain peer connS' w' where "serverAuthNormalized demo_crypto ?srv (demo_clock (6 * second)) (demo_conn (frame @ [42])) demo_world =
      (Inr peer, connS', w')" "p_ClientID peer = ''a''" "p_SessionID peer = [9]" "sdata (cn_in connS') = [42]"
    using run by (simp add: demo_fields demo_port demo_server_fields(3,5,6) e bs demo_clocks fresh) blast
  then show ?thesis using e(1) by (intro exI conjI)
qed

lemma demo_nonce_ok: "ce_nonce demo_env = Inr demo_nonce" "length demo_nonce = 16"
  by (simp_all add: demo_env_def demo_nonce_def)

theorem handshake_v1_completes_witness:
  "\<exists>frame h peer connS' w'. demo_frame = Inr (frame, h) \<and>
    serverAuthNormalized demo_crypto (demo_server [AuthProtocolFrameV1, AuthProtocolEnvelopeV2]) (demo_clock (6 * second))
      (demo_conn (frame @ [42])) demo_world = (Inr peer, connS', w') \<and>
    p_ClientID peer = ''a'' \<and> p_SessionID peer = [9] \<and> sdata (cn_in connS') = [42]"
proof -
  obtain frame h where e: "demo_frame = Inr (frame, h)" by (rule demo_frame_ok)
  obtain rc where fresh: "replay_CheckAndMark (6 * second) ''a'' demo_nonce (w_replay demo_world) = (None, rc)"
    using demo_fresh(1) by blast
  let ?srv = "demo_server [AuthProtocolFrameV1, AuthProtocolEnvelopeV2]"
  have acc: "acceptsProtocol (s_AcceptProtocols ?srv) AuthProtocolFrameV1" unfolding demo_server_fields by code_simp
  note run = handshake_v1_completes [where cl = "demo_client AuthProtocolFrameV1" and ce = demo_env and connC = "demo_conn []" and port = 443 and
      frame = frame and h = h and cfg = ?srv and connS = "demo_conn (frame @ [42])" and s = "[(''a'', demo_secret)]" and
      clk = "demo_clock (6 * second)" and w = demo_world and rc = rc and rest = "[42]" and later = "[]" and nonce = demo_nonce,
      OF crypto_ok_demo_crypto demo_nonce_ok demo_client_ok(2,4) _ _ e(1) [unfolded demo_frame_def] demo_server_fields(1) acc _ demo_server_fields(2)]
  obtain peer connS' w' where "serverAuthNormalized demo_crypto ?srv (demo_clock (6 * second)) (demo_conn (frame @ [42])) demo_world =
      (Inr peer, connS', w')" "p_ClientID peer = ''a''" "p_SessionID peer = [9]" "sdata (cn_in connS') = [42]"
    using run by (simp add: demo_fields demo_port demo_server_fields(3,5,6) demo_clocks fresh DefaultMaxFrameSize_def) blast
  then show ?thesis using e(1) by (intro exI conjI)
qed

lemma demo_accepts_at:
  fixes w :: "(unit, unit, unit) world"
  assumes b: "BuildFrame demo_crypto (Inr demo_nonce) ''a'' demo_secret 443 now FlagServerProof ''t'' [9] [] = Inr (frame, h)"
    and timely: "\<And>p. p_Timestamp p = UnixMilli now \<Longrightarrow> peer_timely (demo_server [AuthProtocolFrameV1]) (demo_clock t) p"
    and fresh: "replay_CheckAndMark t ''a'' demo_nonce (w_replay w) = (None, rc)"
  obtains peer conn' w' where
    "serverAuthNormalized demo_crypto (demo_server [AuthProtocolFrameV1]) (demo_clock t) (demo_conn (frame @ [42])) w =
      (Inr peer, conn', w')"
    "p_ClientID peer = ''a''" "w_replay w' = rc" "p_Nonce peer = demo_nonce" "p_Timestamp peer = UnixMilli now"
proof -
  let ?srv = "demo_server [AuthProtocolFrameV1]" and ?clk = "demo_clock t" and ?conn = "demo_conn (frame @ [42])"
  let ?pl = "frame_payload demo_crypto ''a'' demo_secret 443 now ''t'' [9] []"
  let ?peer = "newPeerInfoFromV1 \<lparr>cand_ClientID = ''a'', cand_Secret = demo_secret\<rparr> ?pl h demo_addr"
  have n: "h_Nonce h = demo_nonce"
    by (rule BuildFrame_Inr [OF crypto_ok_demo_crypto demo_nonce_ok(2) b]) (simp add: frame_header_def)
  have "peer_timely ?srv ?clk ?peer" by (rule timely) (simp add: newPeerInfoFromV1_def frame_payload_def)
  then obtain res where res: "r_peer res = ?peer"
    "\<And>w1 :: (unit, unit, unit) world. w_replay w1 = w_replay w \<Longrightarrow>
      authenticateFrameV1 demo_crypto ?srv ?clk 443 demo_addr (cn_in ?conn) w1 = (Inr res, (cn_in ?conn)\<lparr>sdata := [42]\<rparr>, w1\<lparr>w_replay := rc\<rparr>)"
    using server_accepts_v1 [where clk = ?clk and remote = demo_addr and rc = rc and rest = "[42]" and st = "cn_in ?conn",
        OF crypto_ok_demo_crypto demo_nonce_ok(2) b demo_server_fields(2)] fresh
    by (simp add: demo_fields demo_server_fields(5) DefaultMaxFrameSize_def) (metis authResult.select_convs(1))
  have acc: "acceptsProtocol (s_AcceptProtocols ?srv) AuthProtocolFrameV1"
      "\<not> acceptsProtocol (s_AcceptProtocols ?srv) AuthProtocolEnvelopeV2" unfolding demo_server_fields by code_simp+
  have ac: "authenticateConfiguredProtocol demo_crypto ?srv ?clk (?conn\<lparr>cn_deadline := Some (auth_deadline ?srv ?clk)\<rparr>) w1 =
      (Inr res, (cn_in ?conn)\<lparr>sdata := [42]\<rparr>, w1\<lparr>w_replay := rc\<rparr>)" if "w_replay w1 = w_replay w" for w1 :: "(unit, unit, unit) world"
    using res(2) [OF that] acc by (simp add: authenticateConfiguredProtocol_def Let_def demo_server_fields(3) demo_port) (simp add: demo_conn_def)
  have sec: "s_Secrets ?srv \<noteq> NilResolver" by (simp add: demo_server_fields)
  from serverAuth_success [where w = w, OF demo_server_fields(1) sec ac] show ?thesis
    using that res(1) n by (auto simp: newPeerInfoFromV1_def frame_payload_def)
qed

lemma demo_accepts:
  assumes "demo_frame = Inr (frame, h)"
  obtains peer conn' w' where
    "serverAuthNormalized demo_crypto (demo_server [AuthProtocolFrameV1]) (demo_clock (6 * second)) (demo_conn (frame @ [42])) demo_world =
      (Inr peer, conn', w')"
proof -
  obtain rc where fresh: "replay_CheckAndMark (6 * second) ''a'' demo_nonce (w_replay demo_world) = (None, rc)"
    using demo_fresh(1) by blast
  show ?thesis
    by (rule demo_accepts_at [OF assms [unfolded demo_frame_eq] _ fresh])
      (auto intro: that clocks_agree_timely [OF demo_clocks] simp: demo_env_def)
qed

theorem server_authenticity_witness:
  "\<exists>frame h peer conn' w'. demo_frame = Inr (frame, h) \<and>
    serverAuthNormalized demo_crypto (demo_server [AuthProtocolFrameV1]) (demo_clock (6 * second)) (demo_conn (frame @ [42])) demo_world =
      (Inr peer, conn', w') \<and>
    peer_timely (demo_server [AuthProtocolFrameV1]) (demo_clock (6 * second)) peer \<and> \<not> cn_closed conn'"
proof -
  obtain frame h where f: "demo_frame = Inr (frame, h)" by (rule demo_frame_ok)
  obtain peer conn' w' where run: "serverAuthNormalized demo_crypto (demo_server [AuthProtocolFrameV1]) (demo_clock (6 * second))
      (demo_conn (frame @ [42])) demo_world = (Inr peer, conn', w')"
    by (rule demo_accepts [OF f])
  from server_authenticity [OF crypto_ok_demo_crypto run]
  have "peer_timely (demo_server [AuthProtocolFrameV1]) (demo_clock (6 * second)) peer \<and> \<not> cn_closed conn'"
    by (elim conjE) (simp add: demo_conn_def)
  then show ?thesis using f run by blast
qed

lemma demo_server_ok:
  "server_config_ok (demo_server [AuthProtocolFrameV1])"
  by (simp add: server_config_ok_def demo_server_def auth_protocols time_defs)


definition demo_hintless :: "(unit, unit) ServerConfig" where
  "demo_hintless = (demo_server [AuthProtocolEnvelopeV2])\<lparr>s_EnvelopeV2 := WithDefaults (demo_config\<lparr>c_HintMode := EnvelopeV2HintModeNone\<rparr>)\<rparr>"

lemma demo_hintless_ok: "server_config_ok demo_hintless" "server_config_valid demo_hintless"
proof -
  show "server_config_ok demo_hintless"
    by (simp add: server_config_ok_def demo_hintless_def demo_server_def auth_protocols time_defs)
  show "server_config_valid demo_hintless"
    by code_simp
qed


theorem client_accepts_only_genuine_proof_witness:
  "\<exists>frame h peer conn'. demo_frame = Inr (frame, h) \<and>
    ClientAuthWithInfo demo_crypto demo_env (demo_client AuthProtocolFrameV1)
      (Some (demo_conn (BuildServerProof demo_crypto demo_secret h 443 @ [42]))) = Some (Inr peer, Some conn') \<and>
    (\<exists>sent pf. cn_out conn' = sent \<and> BuildServerProof demo_crypto demo_secret h 443 @ [42] = pf @ sdata (cn_in conn'))"
proof -
  obtain frame h where f: "demo_frame = Inr (frame, h)" by (rule demo_frame_ok)
  let ?cl = "demo_client AuthProtocolFrameV1" and ?conn = "demo_conn (BuildServerProof demo_crypto demo_secret h 443 @ [42])"
  have h: "header_ok h"
    by (rule BuildFrame_Inr [OF crypto_ok_demo_crypto demo_nonce_ok(2) f [unfolded demo_frame_eq]])
  have p: "\<not> port_out_of_range 443" by (simp add: port_out_of_range_def)
  have st: "sdata (cn_in ?conn) = (if cl_RequireServerProof ?cl then BuildServerProof demo_crypto (cl_Secret ?cl) h 443 else []) @ [42]"
    by (simp add: demo_client_def demo_conn_def)
  obtain peer conn' where run: "ClientAuthWithInfo demo_crypto demo_env ?cl (Some ?conn) = Some (Inr peer, Some conn')"
    using client_completes_v1 [OF crypto_ok_demo_crypto h p demo_client_ok(2,4) _ _ f [unfolded demo_frame_def] st]
    by (auto simp: demo_fields demo_port)
  have "\<And>n. ce_nonce demo_env = Inr n \<Longrightarrow> length n = 16" "envelope_rand_ok (ce_rand demo_env)" "cl_RequireServerProof ?cl"
    using demo_nonce_ok by (auto simp: demo_env_def demo_rand_ok demo_client_def)
  from client_accepts_only_genuine_proof [OF crypto_ok_demo_crypto this run]
  have "\<exists>sent pf. cn_out conn' = sent \<and> BuildServerProof demo_crypto demo_secret h 443 @ [42] = pf @ sdata (cn_in conn')"
    by (auto simp: demo_fields)
  then show ?thesis using f run by blast
qed

end
