(* ===== verification/Auth_Replay.thy ===== *)
theory Auth_Replay
  imports Auth_Handshake
begin

text \<open>
  Sequences of connections on one server: what each handshake does to the replay cache, and
  how often one frame can be accepted.
\<close>

section \<open>Histories\<close>

fun server_run ::
    "crypto \<Rightarrow> ('k, 'p) ServerConfig \<Rightarrow> ('r, 'k, 'p) world \<Rightarrow> (server_clock \<times> conn) list \<Rightarrow> PeerInfo result list" where
  "server_run cr cfg w [] = []"
| "server_run cr cfg w ((clk, conn) # evs) =
     (case serverAuthNormalized cr cfg clk conn w of (r, _, w') \<Rightarrow> r # server_run cr cfg w' evs)"

lemma length_server_run [simp]: "length (server_run cr cfg w evs) = length evs"
  by (induction cr cfg w evs rule: server_run.induct) (auto split: prod.splits)

section \<open>The replay cache across one handshake\<close>

lemma replay_touched_refl [simp]: "replay_touched clk rc rc"
  by (simp add: replay_touched_def)

lemma authenticateFrameV1_replay:
  "authenticateFrameV1 cr cfg clk port remote st w = (out, st', w') \<Longrightarrow> replay_touched clk (w_replay w) (w_replay w')"
  by (auto simp: authenticateFrameV1_def Let_def dest: validatePeerCommon_replay
      split: sum.splits prod.splits option.splits if_splits)

lemma try_buckets_replay:
  "try_buckets cr cfg clk h cs prefixLen port remote n buckets st w = (out, st', w') \<Longrightarrow>
     replay_touched clk (w_replay w) (w_replay w')"
proof (induction buckets arbitrary: n h)
  case (Cons b bs)
  show ?case
  proof (cases "b > s_MaxFrameSize cfg \<or> b < prefixLen + int Overhead")
    case True
    then show ?thesis using Cons by simp
  next
    case False
    then show ?thesis using Cons.prems Cons.IH
      by (auto simp: Let_def dest: validatePeerCommon_replay split: sum.splits attempt.splits prod.splits option.splits)
  qed
qed simp

lemma authenticateEnvelopeV2_replay:
  "authenticateEnvelopeV2 cr cfg clk port remote st w = (out, st', w') \<Longrightarrow> replay_touched clk (w_replay w) (w_replay w')"
  by (auto simp: authenticateEnvelopeV2_def Let_def dest: try_buckets_replay split: sum.splits prod.splits if_splits)

lemma authenticateConfiguredProtocol_replay:
  assumes "authenticateConfiguredProtocol cr cfg clk conn w = (out, st', w')"
  shows "replay_touched clk (w_replay w) (w_replay w')"
proof -
  let ?port = "effectivePort (s_ServerPort cfg) (cn_local conn)"
  from assms consider
    "authenticateFrameV1 cr cfg clk ?port (cn_remote conn) (cn_in conn) w = (out, st', w')"
  | "authenticateEnvelopeV2 cr cfg clk ?port (cn_remote conn) (cn_in conn) w = (out, st', w')"
  | "w' = w"
    unfolding authenticateConfiguredProtocol_def Let_def by (auto split: if_splits sum.splits)
  then show ?thesis by cases (auto dest: authenticateFrameV1_replay authenticateEnvelopeV2_replay)
qed

lemma serverAuth_replay:
  assumes "serverAuthNormalized cr cfg clk conn w = (r, conn', w')"
  shows "replay_touched clk (w_replay w) (w_replay w')"
  using assms
proof (cases rule: serverAuth_cases)
  case (rejected w1 peer err br w2)
  then show ?thesis using authenticateConfiguredProtocol_replay [OF rejected(2)] by (auto dest!: fail_result)
next
  case (refused w1 res br w2 w3 peer err conn2)
  then show ?thesis using authenticateConfiguredProtocol_replay [OF refused(2)] by (auto dest!: fail_result)
next
  case (success w1 res br w2 w3 conn2)
  then show ?thesis
    using authenticateConfiguredProtocol_replay [OF success(3)] check_knock_keeps [OF success(4)] by simp
qed (auto dest!: fail_result)

lemma serverAuth_marks:
  assumes cr: "crypto_ok cr" and "serverAuthNormalized cr cfg clk conn w = (Inr peer, conn', w')"
  shows "replay_CheckAndMark (t_replay clk) (p_ClientID peer) (p_Nonce peer) (w_replay w) = (None, w_replay w') \<and>
    peer_timely cfg clk peer"
  using assms(2)
proof (cases rule: serverAuth_cases)
  case (success w1 res br w2 w3 conn2)
  then show ?thesis
    using authenticateConfiguredProtocol_Inr [OF cr success(3)] check_knock_keeps [OF success(4)]
    by (auto simp: accepted_def)
qed (auto dest!: fail_result)

lemma replay_memory_iff:
  "replay_CheckAndMark t ident n (MemoryCache c) = (e, rc) \<longleftrightarrow>
     (\<exists>c'. mrc_CheckAndMark t ident n c = (e, c') \<and> rc = MemoryCache c')"
  by (cases "mrc_CheckAndMark t ident n c") auto

text \<open>With the cache of the package, a handshake keeps the cache's invariant and its live nonces.\<close>

lemma serverAuth_memory:
  assumes run: "serverAuthNormalized cr cfg clk conn w = (r, conn', w')"
    and c: "w_replay w = MemoryCache c" "mrc_ok c"
  obtains c' where "w_replay w' = MemoryCache c'" "mrc_ok c'" "mrc_ttl c' = mrc_ttl c"
    "\<And>ident n. unexpired (t_replay clk) (mrc_seen c ident n) \<Longrightarrow> mrc_seen c' ident n = mrc_seen c ident n"
proof -
  from serverAuth_replay [OF run] c(1) consider "w_replay w' = MemoryCache c"
  | ident n e c' where "mrc_CheckAndMark (t_replay clk) ident n c = (e, c')" "w_replay w' = MemoryCache c'"
    by (auto simp: replay_touched_def replay_memory_iff simp del: replay_CheckAndMark.simps)
  then show ?thesis
  proof cases
    case 1
    then show ?thesis using that c(2) by simp
  next
    case (2 ident n e c')
    then show ?thesis
      using that memory_replay.check_inv [OF c(2) 2(1)] memory_replay.check_keep [OF c(2) 2(1)] by blast
  qed
qed

lemma serverAuth_memory_accept:
  assumes cr: "crypto_ok cr" and run: "serverAuthNormalized cr cfg clk conn w = (Inr peer, conn', w')"
    and c: "w_replay w = MemoryCache c" "mrc_ok c"
  obtains c' where "w_replay w' = MemoryCache c'" "mrc_ok c'" "mrc_ttl c' = mrc_ttl c"
    "mrc_seen c' (p_ClientID peer) (p_Nonce peer) = Some (t_replay clk + mrc_ttl c)"
    "\<not> unexpired (t_replay clk) (mrc_seen c (p_ClientID peer) (p_Nonce peer))"
proof -
  from serverAuth_marks [OF cr run] c(1) obtain c' where
    ch: "mrc_CheckAndMark (t_replay clk) (p_ClientID peer) (p_Nonce peer) c = (None, c')" and w': "w_replay w' = MemoryCache c'"
    by (auto split: prod.splits)
  have "\<not> unexpired (t_replay clk) (mrc_seen c (p_ClientID peer) (p_Nonce peer))"
    using memory_replay.check_replay [OF c(2) ch] by auto
  then show ?thesis
    using that w' memory_replay.check_inv [OF c(2) ch] memory_replay.check_accept [OF c(2) ch] by blast
qed

section \<open>One frame, one acceptance\<close>

lemma seen_refused:
  assumes cr: "crypto_ok cr" and "w_replay w = MemoryCache c" "mrc_ok c" "mrc_seen c ident n = Some e"
    "sorted (map (\<lambda>(clk, _). t_replay clk) evs)" "j < length evs" "server_run cr cfg w evs ! j = Inr q"
    "p_ClientID q = ident" "p_Nonce q = n"
  shows "e \<le> t_replay (fst (evs ! j))"
  using assms(2-)
proof (induction evs arbitrary: w c j)
  case (Cons ev evs)
  obtain clk conn where ev: "ev = (clk, conn)" by (rule prod.exhaust)
  obtain r conn' w' where run: "serverAuthNormalized cr cfg clk conn w = (r, conn', w')" by (rule prod_cases3)
  show ?case
  proof (cases j)
    case 0
    then have "serverAuthNormalized cr cfg clk conn w = (Inr q, conn', w')" using Cons.prems(6) ev run by simp
    from serverAuth_memory_accept [OF cr this Cons.prems(1,2)] Cons.prems(3,7,8) have "\<not> t_replay clk < e" by auto
    then show ?thesis using 0 ev by simp
  next
    case (Suc i)
    show ?thesis
    proof (rule ccontr)
      assume late: "\<not> ?thesis"
      have i: "i < length evs" "server_run cr cfg w' evs ! i = Inr q" using Cons.prems(5,6) Suc ev run by simp_all
      have "t_replay clk \<le> t_replay (fst (evs ! i))"
        using Cons.prems(4) i(1) ev nth_mem [OF i(1)] by (auto simp: case_prod_beta)
      then have live: "unexpired (t_replay clk) (mrc_seen c ident n)" using late Suc Cons.prems(3) by simp
      obtain c' where "w_replay w' = MemoryCache c'" "mrc_ok c'" "mrc_seen c' ident n = Some e"
        by (rule serverAuth_memory [OF run Cons.prems(1,2)]) (use live Cons.prems(3) in auto)
      from Cons.IH [OF this _ i Cons.prems(7,8)] Cons.prems(4) late Suc show False by simp
    qed
  qed
qed simp

lemma server_double_accept:
  assumes cr: "crypto_ok cr" and "w_replay w = MemoryCache c" "mrc_ok c"
    "sorted (map (\<lambda>(clk, _). t_replay clk) evs)" "i < j" "j < length evs"
    "server_run cr cfg w evs ! i = Inr p" "server_run cr cfg w evs ! j = Inr q"
    "p_ClientID p = p_ClientID q" "p_Nonce p = p_Nonce q"
  shows "t_replay (fst (evs ! i)) + mrc_ttl c \<le> t_replay (fst (evs ! j))"
  using assms(2-)
proof (induction evs arbitrary: w c i j)
  case (Cons ev evs)
  obtain clk conn where ev: "ev = (clk, conn)" by (rule prod.exhaust)
  obtain r conn' w' where run: "serverAuthNormalized cr cfg clk conn w = (r, conn', w')" by (rule prod_cases3)
  obtain j' where j: "j = Suc j'" using Cons.prems(4) by (cases j) auto
  show ?case
  proof (cases i)
    case 0
    then have "serverAuthNormalized cr cfg clk conn w = (Inr p, conn', w')" using Cons.prems(6) ev run by simp
    then obtain c' where "w_replay w' = MemoryCache c'" "mrc_ok c'"
      "mrc_seen c' (p_ClientID q) (p_Nonce q) = Some (t_replay clk + mrc_ttl c)"
      using serverAuth_memory_accept [OF cr _ Cons.prems(1,2)] Cons.prems(8,9) by metis
    from seen_refused [OF cr this, of evs j' cfg q] show ?thesis
      using Cons.prems(3,5,7) 0 j ev run by simp
  next
    case (Suc i')
    obtain c' where c': "w_replay w' = MemoryCache c'" "mrc_ok c'" "mrc_ttl c' = mrc_ttl c"
      by (rule serverAuth_memory [OF run Cons.prems(1,2)]) blast
    from Cons.IH [OF c'(1,2), of i' j'] Cons.prems Suc j ev run c'(3) show ?thesis by simp
  qed
qed simp

text \<open>
  Property C13. A server made by \<open>NewServer\<close> without a replay cache of its own accepts one
  frame (one client, one nonce, one timestamp) at most once, along any sequence of
  connections whose cache accesses are in time order, unless the client's clock was ahead: a
  second acceptance requires that the timestamp was ahead of the server's clock at the first
  acceptance by at least the time window, less the time that passes between the age check
  and the cache access of the second handshake.
\<close>

theorem server_replay_once:
  assumes cr: "crypto_ok cr" and new: "NewServer cfg0 NilReplayCache = Inr (cfg, rc)"
    and window: "s_TimeWindow cfg * 2 \<le> maxDuration" and w: "w_replay w = rc"
    and order: "sorted (map (\<lambda>(clk, _). t_replay clk) evs)" and ij: "i < j" "j < length evs"
    and acc: "server_run cr cfg w evs ! i = Inr p" "server_run cr cfg w evs ! j = Inr q"
    and same: "p_ClientID p = p_ClientID q" "p_Nonce p = p_Nonce q" "p_Timestamp p = p_Timestamp q"
  shows "t_replay (fst (evs ! i)) + s_TimeWindow cfg - (t_replay (fst (evs ! j)) - t_age (fst (evs ! j)))
    \<le> time_UnixMilli (p_Timestamp p)"
proof -
  let ?W = "s_TimeWindow cfg" and ?clk = "fst (evs ! j)"
  have rc: "rc = MemoryCache (NewMemoryReplayCache (dur_wrap (?W * 2)))" and cfg: "cfg = server_WithDefaults cfg0"
    using new by (auto simp: NewServer_def Let_def rbind_eq_Inr split: if_splits)
  have W: "0 < ?W" using server_config_ok_WithDefaults [of cfg0] by (simp add: cfg server_config_ok_def)
  then have "dur_wrap (?W * 2) = ?W * 2" using window by (intro dur_wrap_id) (auto simp: time_defs)
  then have c: "w_replay w = MemoryCache (NewMemoryReplayCacheWithLimit (?W * 2) DefaultReplayCacheMaxEntries)"
    using w rc W by (simp add: NewMemoryReplayCache_def)
  have "t_replay (fst (evs ! i)) + ?W * 2 \<le> t_replay ?clk"
    using server_double_accept [OF cr c mrc_ok_New order ij acc same(1,2)] W by (simp add: mrc_ttl_New)
  moreover have "peer_timely cfg ?clk q"
    using acc(2) ij(2)
  proof (induction evs arbitrary: w j)
    case (Cons ev evs)
    obtain clk conn where ev: "ev = (clk, conn)" by (rule prod.exhaust)
    obtain r conn' w' where run: "serverAuthNormalized cr cfg clk conn w = (r, conn', w')" by (rule prod_cases3)
    show ?case
    proof (cases j)
      case 0
      then show ?thesis using Cons.prems(1) ev run serverAuth_marks [OF cr, of cfg clk conn w q] by simp
    next
      case (Suc j')
      then show ?thesis using Cons.IH [of w' j'] Cons.prems ev run by simp
    qed
  qed simp
  then have "t_age ?clk - time_UnixMilli (p_Timestamp q) \<le> ?W"
    using window W time_Sub_gt [of ?W "t_age ?clk" "time_UnixMilli (p_Timestamp q)"]
    by (auto simp: peer_timely_def time_defs not_less [symmetric])
  ultimately show ?thesis using same(3) by simp
qed

section \<open>The instant at the end of the window\<close>

lemma demo_boundary_cache:
  obtains rc rc' :: "unit ReplayCache" where
    "replay_CheckAndMark (70 * second) ''a'' demo_nonce (MemoryCache (NewMemoryReplayCache (60 * second))) = (None, rc)"
    "replay_CheckAndMark (130 * second) ''a'' demo_nonce rc = (None, rc')"
proof -
  let ?c = "MemoryCache (NewMemoryReplayCache (60 * second)) :: unit ReplayCache"
  have "fst (replay_CheckAndMark (70 * second) ''a'' demo_nonce ?c) = None"
    "fst (replay_CheckAndMark (130 * second) ''a'' demo_nonce (snd (replay_CheckAndMark (70 * second) ''a'' demo_nonce ?c))) = None"
    by code_simp+
  then show ?thesis using that by (metis prod.collapse)
qed

lemma demo_boundary_timely:
  assumes "t = 70 * second \<or> t = 130 * second" "p_Timestamp p = UnixMilli (100 * second)"
  shows "peer_timely (demo_server [AuthProtocolFrameV1]) (demo_clock t) p"
proof -
  have "time_UnixMilli (UnixMilli (100 * second)) = 100 * second"
    by (subst UnixMilli_roundtrip) (simp_all add: time_defs)
  then show ?thesis using assms
    by (auto simp: peer_timely_def demo_server_fields demo_clock_def time_Sub_def time_defs)
qed

lemma demo_new_server:
  "NewServer (demo_server [AuthProtocolFrameV1]) (NilReplayCache :: unit ReplayCache) =
     Inr (demo_server [AuthProtocolFrameV1], MemoryCache (NewMemoryReplayCache (60 * second)))"
proof -
  let ?srv = "demo_server [AuthProtocolFrameV1]"
  have "server_config_valid ?srv" by code_simp
  then have v: "server_Validate ?srv = Inr ()"
    by (simp add: server_Validate_iff server_WithDefaults_id [OF demo_server_ok])
  have "dur_wrap (s_TimeWindow ?srv * 2) = 60 * second"
    by (subst dur_wrap_id) (simp_all add: demo_server_fields time_defs)
  then show ?thesis
    by (simp add: NewServer_def Let_def server_WithDefaults_id [OF demo_server_ok] v demo_server_fields)
qed

definition demo_boundary_world :: "(unit, unit, unit) world" where
  "demo_boundary_world = demo_world\<lparr>w_replay := MemoryCache (NewMemoryReplayCache (60 * second))\<rparr>"

definition demo_boundary :: "bytes \<Rightarrow> (server_clock \<times> conn) list" where
  "demo_boundary frame = [(demo_clock (70 * second), demo_conn frame), (demo_clock (130 * second), demo_conn frame)]"

lemma demo_boundary_run:
  obtains frame h p q where
    "BuildFrame demo_crypto (Inr demo_nonce) ''a'' demo_secret 443 (100 * second) FlagServerProof ''t'' [9] [] = Inr (frame, h)"
    "server_run demo_crypto (demo_server [AuthProtocolFrameV1]) demo_boundary_world (demo_boundary (frame @ [42])) = [Inr p, Inr q]"
    "p_ClientID p = p_ClientID q" "p_Nonce p = p_Nonce q" "p_Timestamp p = p_Timestamp q"
    "p_Timestamp p = UnixMilli (100 * second)"
proof -
  let ?srv = "demo_server [AuthProtocolFrameV1]"
  obtain frame h where b: "BuildFrame demo_crypto (Inr demo_nonce) ''a'' demo_secret 443 (100 * second) FlagServerProof ''t'' [9] [] = Inr (frame, h)"
    by (rule BuildFrame_succeeds [OF crypto_ok_demo_crypto, of demo_nonce "''a''" demo_secret FlagServerProof 443 "''t''" "[9]" "[]" "100 * second"])
      (simp_all add: demo_nonce_def demo_secret_def MinSecretSize_def FlagServerProof_def port_out_of_range_def)
  obtain rc rc' where c: "replay_CheckAndMark (70 * second) ''a'' demo_nonce (MemoryCache (NewMemoryReplayCache (60 * second))) = (None, rc)"
    and r2: "replay_CheckAndMark (130 * second) ''a'' demo_nonce rc = (None, rc' :: unit ReplayCache)"
    by (rule demo_boundary_cache)
  have r1: "replay_CheckAndMark (70 * second) ''a'' demo_nonce (w_replay demo_boundary_world) = (None, rc)"
    using c by (simp add: demo_boundary_world_def del: replay_CheckAndMark.simps)
  obtain p conn1 w1 where p: "serverAuthNormalized demo_crypto ?srv (demo_clock (70 * second)) (demo_conn (frame @ [42])) demo_boundary_world = (Inr p, conn1, w1)"
    "p_ClientID p = ''a''" "w_replay w1 = rc" "p_Nonce p = demo_nonce" "p_Timestamp p = UnixMilli (100 * second)"
    by (rule demo_accepts_at [OF b _ r1]) (use demo_boundary_timely in blast)
  obtain q conn2 w2 where q: "serverAuthNormalized demo_crypto ?srv (demo_clock (130 * second)) (demo_conn (frame @ [42])) w1 = (Inr q, conn2, w2)"
    "p_ClientID q = ''a''" "p_Nonce q = demo_nonce" "p_Timestamp q = UnixMilli (100 * second)"
    by (rule demo_accepts_at [OF b _ r2 [folded p(3)]]) (use demo_boundary_timely in blast)
  show ?thesis by (rule that [of frame h p q, OF b]) (simp_all add: demo_boundary_def p q)
qed

theorem server_replay_once_witness:
  "\<exists>frame h p q. BuildFrame demo_crypto (Inr demo_nonce) ''a'' demo_secret 443 (100 * second) FlagServerProof ''t'' [9] [] = Inr (frame, h) \<and>
    server_run demo_crypto (demo_server [AuthProtocolFrameV1]) demo_boundary_world (demo_boundary (frame @ [42])) = [Inr p, Inr q] \<and>
    70 * second + 30 * second \<le> time_UnixMilli (p_Timestamp p)"
proof -
  obtain frame h p q where
    b: "BuildFrame demo_crypto (Inr demo_nonce) ''a'' demo_secret 443 (100 * second) FlagServerProof ''t'' [9] [] = Inr (frame, h)"
    and run: "server_run demo_crypto (demo_server [AuthProtocolFrameV1]) demo_boundary_world (demo_boundary (frame @ [42])) = [Inr p, Inr q]"
    and same: "p_ClientID p = p_ClientID q" "p_Nonce p = p_Nonce q" "p_Timestamp p = p_Timestamp q"
    by (rule demo_boundary_run)
  have "w_replay demo_boundary_world = MemoryCache (NewMemoryReplayCache (60 * second))"
    by (simp add: demo_boundary_world_def)
  from server_replay_once [where evs = "demo_boundary (frame @ [42])" and i = 0 and j = 1 and p = p and q = q,
      OF crypto_ok_demo_crypto demo_new_server _ this _ _ _ _ _ same]
  have "70 * second + 30 * second \<le> time_UnixMilli (p_Timestamp p)"
    using run by (simp add: demo_server_fields demo_boundary_def demo_clock_def time_defs)
  then show ?thesis using b run by blast
qed


end
