(* ===== verification/Knock_Frame.thy ===== *)
theory Knock_Frame
  imports Auth_Config
begin

text \<open>
  Package knock: the UDP knock frame (binary_frame.go), client secrets (types.go) and method
  names (methods.go, client.go, sequence.go). Randomness and the instants at which the code
  reads the clock are arguments; the replay cache is the interface of the auth package.
\<close>

section \<open>Constants, methods and secrets\<close>

definition KnockFrameVersion :: byte where "KnockFrameVersion = 1"
definition KnockFrameHeaderSize :: nat where "KnockFrameHeaderSize = 16 + 8 + 2 + 1 + 1"
definition DefaultMaxKnockFrameSize :: int where "DefaultMaxKnockFrameSize = 1024"
definition KnockNonceBytes :: nat where "KnockNonceBytes = 16"
definition KnockSessionIDMinBytes :: nat where "KnockSessionIDMinBytes = 16"
definition KnockSequenceIDBytes :: nat where "KnockSequenceIDBytes = 16"
definition KnockClientRandomBytes :: nat where "KnockClientRandomBytes = 16"
definition KnockFrameTypeUDP :: byte where "KnockFrameTypeUDP = 1"
definition KnockFrameTypeUDPSequence :: byte where "KnockFrameTypeUDPSequence = 2"
definition KnockFlagSequence :: byte where "KnockFlagSequence = 1"
definition KnockFlagSession :: byte where "KnockFlagSession = 2"
definition KnockFlagExtensions :: byte where "KnockFlagExtensions = 4"
definition allowedKnockFlags :: byte where
  "allowedKnockFlags = KnockFlagSequence OR KnockFlagSession OR KnockFlagExtensions"
definition DefaultSequenceMaxParts :: int where "DefaultSequenceMaxParts = 8"

lemmas knock_consts = KnockFrameVersion_def KnockFrameHeaderSize_def DefaultMaxKnockFrameSize_def
  KnockNonceBytes_def KnockSessionIDMinBytes_def KnockSequenceIDBytes_def KnockClientRandomBytes_def
  KnockFrameTypeUDP_def KnockFrameTypeUDPSequence_def KnockFlagSequence_def KnockFlagSession_def
  KnockFlagExtensions_def allowedKnockFlags_def DefaultSequenceMaxParts_def

definition UDPMethod :: string where "UDPMethod = ''udp''"
definition UDPPassiveMethod :: string where "UDPPassiveMethod = ''udp-passive''"
definition TCPSYNMethod :: string where "TCPSYNMethod = ''tcp-syn''"
definition UDPSeqMethod :: string where "UDPSeqMethod = ''udp-seq''"
definition UDPPassiveSeq :: string where "UDPPassiveSeq = ''udp-passive-seq''"
definition TCP_SYNSeqMethod :: string where "TCP_SYNSeqMethod = ''tcp-syn-seq''"

lemmas knock_methods = UDPMethod_def UDPPassiveMethod_def TCPSYNMethod_def UDPSeqMethod_def
  UDPPassiveSeq_def TCP_SYNSeqMethod_def

definition activeUDPMethods :: "string list" where
  "activeUDPMethods = [UDPMethod, UDPSeqMethod]"

definition relayServerMethods :: "string list" where
  "relayServerMethods = [TCPSYNMethod, TCP_SYNSeqMethod, UDPMethod, UDPSeqMethod, UDPPassiveMethod, UDPPassiveSeq]"

definition NormalizeMethod :: "string \<Rightarrow> string" where
  "NormalizeMethod meth = (if meth = ''udp-sequence'' then UDPSeqMethod
     else if meth = ''udp-passive-sequence'' then UDPPassiveSeq else meth)"

definition IsActiveUDPMethod :: "string \<Rightarrow> bool" where
  "IsActiveUDPMethod meth = (NormalizeMethod meth \<in> set activeUDPMethods)"

definition IsRelayServerMethod :: "string \<Rightarrow> bool" where
  "IsRelayServerMethod meth = (NormalizeMethod meth \<in> set relayServerMethods)"

definition ValidateRelayServerMethod :: "string \<Rightarrow> error option" where
  "ValidateRelayServerMethod meth =
     (if IsRelayServerMethod meth then None else Some (Errorf ''unsupported knock method''))"

record ClientSecret =
  cs_ClientID :: string
  cs_Secret :: bytes

definition ValidateClientSecret :: "ClientSecret \<Rightarrow> error option" where
  "ValidateClientSecret client =
     (if cs_ClientID client = [] \<or> int (length (cs_ClientID client)) > 65535 \<or> CHR 0x00 \<in> set (cs_ClientID client)
      then Some AuthErrInvalidClientID
      else if length (cs_Secret client) < MinSecretSize then Some AuthErrInvalidSecret
      else None)"

fun first_error :: "('a \<Rightarrow> error option) \<Rightarrow> 'a list \<Rightarrow> error option" where
  "first_error f [] = None"
| "first_error f (x # xs) = (case f x of Some e \<Rightarrow> Some e | None \<Rightarrow> first_error f xs)"

definition ValidateClientSecrets :: "ClientSecret list \<Rightarrow> error option" where
  "ValidateClientSecrets clients =
     (if clients = [] then Some AuthErrMissingSecretResolver else first_error ValidateClientSecret clients)"

definition validateProtectedPort :: "int \<Rightarrow> error option" where
  "validateProtectedPort port =
     (if port < 1 \<or> port > 65535 then Some (Errorf ''protected port must be in 1..65535'') else None)"

section \<open>Frame types\<close>

record KnockFrameOptions =
  ko_ClientID :: string
  ko_Secret :: bytes
  ko_Method :: string
  ko_ServerPort :: int
  ko_SessionID :: bytes
  ko_SequenceID :: bytes
  ko_SequenceIndex :: int
  ko_SequenceTotal :: int
  ko_ClientRandom :: bytes
  ko_Extensions :: "TLV list"
  ko_Nonce :: bytes
  ko_KeyHint :: u64
  ko_Timestamp :: time
  ko_MaxFrameSize :: int

record KnockServerConfig =
  ks_Clients :: "ClientSecret list"
  ks_ServerPort :: int
  ks_Method :: string
  ks_TimeWindow :: duration
  ks_MaxFrameSize :: int
  ks_AllowSequence :: bool

record KnockInfo =
  ki_ClientID :: string
  ki_ClientIDHash :: bytes
  ki_Method :: string
  ki_ServerPort :: int
  ki_Timestamp :: time
  ki_SessionID :: bytes
  ki_SequenceID :: bytes
  ki_SequenceIndex :: int
  ki_SequenceTotal :: int
  ki_ClientRandom :: bytes
  ki_Extensions :: "TLV list"
  ki_Nonce :: bytes
  ki_KeyHint :: u64
  ki_FrameType :: byte
  ki_Flags :: byte

record knockFrameHeader =
  kh_Nonce :: bytes
  kh_KeyHint :: u64
  kh_SealedLen :: u16
  kh_Flags :: byte
  kh_Reserved :: byte

record knockPayload =
  kp_FrameType :: byte
  kp_ClientIDHash :: bytes
  kp_TimestampMS :: i64
  kp_Method :: string
  kp_ServerPort :: int
  kp_SessionID :: bytes
  kp_SequenceID :: bytes
  kp_SequenceIndex :: int
  kp_SequenceTotal :: int
  kp_ClientRandom :: bytes
  kp_Extensions :: "TLV list"

section \<open>Keys, header and sealing\<close>

definition ComputeKnockKeyHint :: "crypto \<Rightarrow> bytes \<Rightarrow> bytes \<Rightarrow> int \<Rightarrow> u64" where
  "ComputeKnockKeyHint cr secret nonce serverPort =
     (if serverPort < 1 \<or> serverPort > 65535 then 0
      else HMACTrunc64 cr secret (str_bytes ''libknock udp-knock hint v1'' @ nonce @ put16 (of_int serverPort)))"

definition ComputeKnockClientIDHash :: "crypto \<Rightarrow> bytes \<Rightarrow> string \<Rightarrow> bytes" where
  "ComputeKnockClientIDHash cr secret clientID =
     HMACTrunc128 cr secret (str_bytes ''libknock client-id v1'' @ str_bytes clientID)"

definition encodeKnockHeader :: "bytes \<Rightarrow> knockFrameHeader \<Rightarrow> bytes" where
  "encodeKnockHeader dst h =
     (if length dst < KnockFrameHeaderSize then dst
      else let dst = copy_at 0 (kh_Nonce h) dst;
               dst = copy_at 16 (put64 (kh_KeyHint h)) dst;
               dst = copy_at 24 (put16 (kh_SealedLen h)) dst
           in dst[26 := kh_Flags h, 27 := kh_Reserved h])"

definition decodeKnockHeader :: "bytes \<Rightarrow> knockFrameHeader" where
  "decodeKnockHeader src =
     (if length src < KnockFrameHeaderSize
      then \<lparr>kh_Nonce = replicate 16 0, kh_KeyHint = 0, kh_SealedLen = 0, kh_Flags = 0, kh_Reserved = 0\<rparr>
      else \<lparr>kh_Nonce = take 16 src, kh_KeyHint = get64 (slice src 16 24), kh_SealedLen = get16 (slice src 24 26),
            kh_Flags = src ! 26, kh_Reserved = src ! 27\<rparr>)"

definition deriveKnockAEADKey :: "crypto \<Rightarrow> bytes \<Rightarrow> bytes \<Rightarrow> bytes" where
  "deriveKnockAEADKey cr secret nonce =
     MustHKDFSHA256 cr secret nonce (str_bytes ''libknock udp-knock frame v1'') KeySize"

definition knockAAD :: "knockFrameHeader \<Rightarrow> int \<Rightarrow> bytes" where
  "knockAAD h serverPort = encodeKnockHeader (replicate KnockFrameHeaderSize 0) h @ [KnockFrameVersion] @ put16 (of_int serverPort)"

definition sealKnockPayload :: "crypto \<Rightarrow> bytes \<Rightarrow> knockFrameHeader \<Rightarrow> int \<Rightarrow> bytes \<Rightarrow> bytes result" where
  "sealKnockPayload cr secret h serverPort plain =
     New_Seal cr (deriveKnockAEADKey cr secret (kh_Nonce h)) (take NonceSize (kh_Nonce h)) plain (knockAAD h serverPort)"

definition openKnockPayload :: "crypto \<Rightarrow> bytes \<Rightarrow> knockFrameHeader \<Rightarrow> int \<Rightarrow> bytes \<Rightarrow> bytes result" where
  "openKnockPayload cr secret h serverPort sealed =
     New_Open cr (deriveKnockAEADKey cr secret (kh_Nonce h)) (take NonceSize (kh_Nonce h)) sealed (knockAAD h serverPort)"

definition mapProtocolFrameError :: "error \<Rightarrow> error" where
  "mapProtocolFrameError err =
     (if errors_Is err ProtocolErrFrameTooLarge then AuthErrFrameTooLarge
      else if errors_Is err ProtocolErrInvalidFrame then AuthErrInvalidFrame else err)"

section \<open>Payload codec\<close>

definition encodeKnockPayload :: "knockPayload \<Rightarrow> bytes result" where
  "encodeKnockPayload p =
     (if kp_Method p = [] \<or> int (length (kp_Method p)) > 255 \<or> int (length (kp_SessionID p)) > 255 \<or>
         int (length (kp_SequenceID p)) > 255 \<or> int (length (kp_ClientRandom p)) > 255
      then Inl AuthErrInvalidFrame
      else if kp_ServerPort p < 1 \<or> kp_ServerPort p > 65535 then Inl AuthErrInvalidFrame
      else case frame_EncodeTLVs (kp_Extensions p) of
        Inl err \<Rightarrow> Inl (mapProtocolFrameError err)
      | Inr ext \<Rightarrow>
          if int (length ext) > 65535 then Inl AuthErrFrameTooLarge
          else Inr ([kp_FrameType p] @ kp_ClientIDHash p @ put64 (kp_TimestampMS p) @
                 [of_nat (length (kp_Method p))] @ str_bytes (kp_Method p) @ put16 (of_int (kp_ServerPort p)) @
                 [of_nat (length (kp_SessionID p))] @ kp_SessionID p @
                 [of_nat (length (kp_SequenceID p))] @ kp_SequenceID p @
                 [of_int (kp_SequenceIndex p)] @ [of_int (kp_SequenceTotal p)] @
                 [of_nat (length (kp_ClientRandom p))] @ kp_ClientRandom p @
                 put16 (of_nat (length ext)) @ ext))"

definition readByteLen :: "BinaryReader \<Rightarrow> (bytes \<times> BinaryReader) result" where
  "readByteLen r = rbind (ReadByte r) (\<lambda>(n, r). ReadVarBytes (int (unat n)) True r)"

definition readSequenceIndexes :: "BinaryReader \<Rightarrow> ((int \<times> int) \<times> BinaryReader) result" where
  "readSequenceIndexes r =
     rbind (ReadByte r) (\<lambda>(idx, r). rbind (ReadByte r) (\<lambda>(tot, r). Inr ((uint idx, uint tot), r)))"

definition decodeKnockPayload :: "bytes \<Rightarrow> knockPayload result" where
  "decodeKnockPayload raw =
     rbind (ReadByte (NewReader raw AuthErrInvalidFrame)) (\<lambda>(frameType, r).
     rbind (ReadFixed 16 r) (\<lambda>(ident, r).
     rbind (ReadUint64 r) (\<lambda>(ts, r).
     rbind (ReadByte r) (\<lambda>(methodLen, r).
       if methodLen = 0 then Inl AuthErrInvalidFrame else
     rbind (ReadVarBytes (int (unat methodLen)) False r) (\<lambda>(meth, r).
     rbind (ReadUint16 r) (\<lambda>(port, r).
     rbind (readByteLen r) (\<lambda>(sess, r).
     rbind (readByteLen r) (\<lambda>(seqID, r).
     rbind (readSequenceIndexes r) (\<lambda>((idx, tot), r).
     rbind (readByteLen r) (\<lambda>(rnd, r).
     rbind (ReadUint16 r) (\<lambda>(extLen, r).
       if int (unat extLen) \<noteq> Remaining r then Inl AuthErrInvalidFrame else
     rbind (ReadFixed (int (unat extLen)) r) (\<lambda>(ext, r).
       case frame_DecodeTLVs ext of
         Inl err \<Rightarrow> Inl (mapProtocolFrameError err)
       | Inr tlvs \<Rightarrow>
           if sess \<noteq> [] \<and> length sess < KnockSessionIDMinBytes then Inl AuthErrInvalidFrame
           else Inr \<lparr>kp_FrameType = frameType, kp_ClientIDHash = ident, kp_TimestampMS = ts,
                  kp_Method = bytes_str meth, kp_ServerPort = uint port, kp_SessionID = sess, kp_SequenceID = seqID,
                  kp_SequenceIndex = idx, kp_SequenceTotal = tot, kp_ClientRandom = rnd, kp_Extensions = tlvs\<rparr>))))))))))))"

section \<open>Building a frame\<close>

text \<open>The payload of the options, or the refusal of a bad session or sequence.\<close>

definition sequence_out_of_range :: "int \<Rightarrow> int \<Rightarrow> bool" where
  "sequence_out_of_range tot idx \<longleftrightarrow> tot < 2 \<or> tot > DefaultSequenceMaxParts \<or> idx < 0 \<or> idx \<ge> tot"

definition knock_options_payload :: "crypto \<Rightarrow> KnockFrameOptions \<Rightarrow> knockPayload result" where
  "knock_options_payload cr opts =
     (let payload = \<lparr>kp_FrameType = KnockFrameTypeUDP, kp_ClientIDHash = ComputeKnockClientIDHash cr (ko_Secret opts) (ko_ClientID opts),
            kp_TimestampMS = UnixMilli (ko_Timestamp opts), kp_Method = ko_Method opts, kp_ServerPort = ko_ServerPort opts,
            kp_SessionID = ko_SessionID opts, kp_SequenceID = [], kp_SequenceIndex = 0, kp_SequenceTotal = 0,
            kp_ClientRandom = [], kp_Extensions = []\<rparr>
      in if ko_SessionID opts \<noteq> [] \<and> length (ko_SessionID opts) < KnockSessionIDMinBytes then Inl AuthErrInvalidFrame
         else if ko_SequenceTotal opts > 0 \<or> ko_SequenceID opts \<noteq> [] then
           (if length (ko_SequenceID opts) \<noteq> KnockSequenceIDBytes then Inl AuthErrInvalidFrame
            else if sequence_out_of_range (ko_SequenceTotal opts) (ko_SequenceIndex opts) then Inl AuthErrInvalidFrame
            else Inr (payload\<lparr>kp_FrameType := KnockFrameTypeUDPSequence, kp_SequenceID := ko_SequenceID opts,
                   kp_SequenceIndex := ko_SequenceIndex opts, kp_SequenceTotal := ko_SequenceTotal opts\<rparr>))
         else Inr payload)"

definition knock_flags :: "knockPayload \<Rightarrow> byte" where
  "knock_flags payload =
     (let f = 0;
          f = (if kp_FrameType payload = KnockFrameTypeUDPSequence then f OR KnockFlagSequence else f);
          f = (if kp_SessionID payload \<noteq> [] then f OR KnockFlagSession else f)
      in if kp_Extensions payload \<noteq> [] then f OR KnockFlagExtensions else f)"

definition knock_options_defaults :: "time \<Rightarrow> KnockFrameOptions \<Rightarrow> KnockFrameOptions" where
  "knock_options_defaults now opts =
     (let opts = (if ko_Method opts = [] then opts\<lparr>ko_Method := UDPMethod\<rparr> else opts);
          opts = (if ko_Timestamp opts = zero_time then opts\<lparr>ko_Timestamp := now\<rparr> else opts)
      in if ko_MaxFrameSize opts \<le> 0 then opts\<lparr>ko_MaxFrameSize := DefaultMaxKnockFrameSize\<rparr> else opts)"

definition BuildKnockFrame ::
    "crypto \<Rightarrow> time \<Rightarrow> bytes result \<Rightarrow> bytes result \<Rightarrow> KnockFrameOptions \<Rightarrow> bytes result" where
  "BuildKnockFrame cr now rndRandom rndNonce opts0 =
     (let opts = knock_options_defaults now opts0
      in case ValidateClientSecret \<lparr>cs_ClientID = ko_ClientID opts, cs_Secret = ko_Secret opts\<rparr> of Some err \<Rightarrow> Inl err | None \<Rightarrow>
      (case validateProtectedPort (ko_ServerPort opts) of Some err \<Rightarrow> Inl err | None \<Rightarrow>
      rbind (knock_options_payload cr opts) (\<lambda>payload.
      rbind (if ko_ClientRandom opts = [] then rndRandom else Inr (ko_ClientRandom opts)) (\<lambda>clientRandom.
        let payload = payload\<lparr>kp_ClientRandom := clientRandom, kp_Extensions := ko_Extensions opts\<rparr>
        in rbind (encodeKnockPayload payload) (\<lambda>plain.
        rbind (if ko_Nonce opts \<noteq> [] then
                 (if length (ko_Nonce opts) \<noteq> KnockNonceBytes then Inl AuthErrInvalidFrame else Inr (ko_Nonce opts))
               else rndNonce) (\<lambda>nonce.
          let hint = (if ko_KeyHint opts \<noteq> 0 then ko_KeyHint opts
                      else ComputeKnockKeyHint cr (ko_Secret opts) nonce (ko_ServerPort opts));
              sealedLen = int (length plain) + int Overhead
          in if sealedLen > 65535 \<or> int KnockFrameHeaderSize + sealedLen > ko_MaxFrameSize opts then Inl AuthErrFrameTooLarge
          else
            let h = \<lparr>kh_Nonce = nonce, kh_KeyHint = hint, kh_SealedLen = of_int sealedLen, kh_Flags = knock_flags payload, kh_Reserved = 0\<rparr>
            in rbind (sealKnockPayload cr (ko_Secret opts) h (ko_ServerPort opts) plain) (\<lambda>sealed.
              Inr (encodeKnockHeader (replicate KnockFrameHeaderSize 0) h @ sealed))))))))"

section \<open>Opening a frame\<close>

definition validateKnockFlags :: "byte \<Rightarrow> knockPayload \<Rightarrow> error option" where
  "validateKnockFlags flags payload =
     (if flags AND NOT allowedKnockFlags \<noteq> 0 then Some AuthErrUnsupportedFlags
      else if (flags AND KnockFlagSequence \<noteq> 0) \<noteq> (kp_FrameType payload = KnockFrameTypeUDPSequence) then Some AuthErrInvalidFrame
      else if (flags AND KnockFlagSession \<noteq> 0) \<noteq> (length (kp_SessionID payload) \<ge> KnockSessionIDMinBytes) then Some AuthErrInvalidFrame
      else if (flags AND KnockFlagExtensions \<noteq> 0) \<noteq> (kp_Extensions payload \<noteq> []) then Some AuthErrInvalidFrame
      else None)"

text \<open>The checks on a payload that opened, up to the replay cache.\<close>

definition check_knock_payload :: "KnockServerConfig \<Rightarrow> time \<Rightarrow> knockFrameHeader \<Rightarrow> knockPayload \<Rightarrow> error option" where
  "check_knock_payload cfg now h payload =
     (if kp_ServerPort payload \<noteq> ks_ServerPort cfg then Some AuthErrAuthFailed
      else case validateKnockFlags (kh_Flags h) payload of Some err \<Rightarrow> Some err | None \<Rightarrow>
      if ks_Method cfg \<noteq> [] \<and> kp_Method payload \<noteq> ks_Method cfg then Some AuthErrAuthFailed
      else if kp_FrameType payload = KnockFrameTypeUDPSequence \<and>
              (\<not> ks_AllowSequence cfg \<or> length (kp_SequenceID payload) \<noteq> KnockSequenceIDBytes \<or>
               sequence_out_of_range (kp_SequenceTotal payload) (kp_SequenceIndex payload))
      then Some AuthErrInvalidFrame
      else if kp_FrameType payload \<noteq> KnockFrameTypeUDPSequence \<and> kp_FrameType payload \<noteq> KnockFrameTypeUDP then Some AuthErrInvalidFrame
      else
        let age = time_Sub now (time_UnixMilli (kp_TimestampMS payload))
        in if age < - ks_TimeWindow cfg \<or> age > ks_TimeWindow cfg then Some AuthErrTimeSkew else None)"

definition knock_info :: "ClientSecret \<Rightarrow> knockFrameHeader \<Rightarrow> knockPayload \<Rightarrow> KnockInfo" where
  "knock_info client h payload =
     \<lparr>ki_ClientID = cs_ClientID client, ki_ClientIDHash = kp_ClientIDHash payload, ki_Method = kp_Method payload,
      ki_ServerPort = kp_ServerPort payload, ki_Timestamp = time_UnixMilli (kp_TimestampMS payload),
      ki_SessionID = kp_SessionID payload, ki_SequenceID = kp_SequenceID payload, ki_SequenceIndex = kp_SequenceIndex payload,
      ki_SequenceTotal = kp_SequenceTotal payload, ki_ClientRandom = kp_ClientRandom payload,
      ki_Extensions = kp_Extensions payload, ki_Nonce = kh_Nonce h, ki_KeyHint = kh_KeyHint h,
      ki_FrameType = kp_FrameType payload, ki_Flags = kh_Flags h\<rparr>"

text \<open>The loop over the clients. The replay cache may be nil on the path without protection.\<close>

fun open_clients ::
    "crypto \<Rightarrow> KnockServerConfig \<Rightarrow> time \<Rightarrow> time \<Rightarrow> knockFrameHeader \<Rightarrow> bytes \<Rightarrow> bool \<Rightarrow> ClientSecret list \<Rightarrow>
     'r ReplayCache \<Rightarrow> KnockInfo result \<times> 'r ReplayCache" where
  "open_clients cr cfg tAge tReplay h sealed sawHint [] rc =
     (Inl (if sawHint then AuthErrAuthFailed else AuthErrUnknownClient), rc)"
| "open_clients cr cfg tAge tReplay h sealed sawHint (client # clients) rc =
     (if ValidateClientSecret client \<noteq> None \<or>
         ComputeKnockKeyHint cr (cs_Secret client) (kh_Nonce h) (ks_ServerPort cfg) \<noteq> kh_KeyHint h
      then open_clients cr cfg tAge tReplay h sealed sawHint clients rc
      else case openKnockPayload cr (cs_Secret client) h (ks_ServerPort cfg) sealed of
        Inl _ \<Rightarrow> open_clients cr cfg tAge tReplay h sealed True clients rc
      | Inr plain \<Rightarrow> (case decodeKnockPayload plain of
          Inl err \<Rightarrow> (Inl err, rc)
        | Inr payload \<Rightarrow>
            if \<not> ConstantTimeEqual (kp_ClientIDHash payload) (ComputeKnockClientIDHash cr (cs_Secret client) (cs_ClientID client))
            then open_clients cr cfg tAge tReplay h sealed True clients rc
            else case check_knock_payload cfg tAge h payload of
              Some err \<Rightarrow> (Inl err, rc)
            | None \<Rightarrow>
                if hasReplayCache rc then
                  (case replay_CheckAndMark tReplay (cs_ClientID client) (kh_Nonce h) rc of
                     (Some err, rc) \<Rightarrow> (Inl err, rc)
                   | (None, rc) \<Rightarrow> (Inr (knock_info client h payload), rc))
                else (Inr (knock_info client h payload), rc)))"

definition knock_server_defaults :: "KnockServerConfig \<Rightarrow> KnockServerConfig" where
  "knock_server_defaults cfg =
     (let cfg = (if ks_MaxFrameSize cfg \<le> 0 then cfg\<lparr>ks_MaxFrameSize := DefaultMaxKnockFrameSize\<rparr> else cfg)
      in if ks_TimeWindow cfg \<le> 0 then cfg\<lparr>ks_TimeWindow := 30 * second\<rparr> else cfg)"

definition openKnockFrame ::
    "crypto \<Rightarrow> time \<Rightarrow> time \<Rightarrow> bytes \<Rightarrow> KnockServerConfig \<Rightarrow> 'r ReplayCache \<Rightarrow> KnockInfo result \<times> 'r ReplayCache" where
  "openKnockFrame cr tAge tReplay packet cfg0 rc =
     (let cfg = knock_server_defaults cfg0
      in case validateProtectedPort (ks_ServerPort cfg) of Some err \<Rightarrow> (Inl err, rc) | None \<Rightarrow>
      if length packet < KnockFrameHeaderSize then (Inl AuthErrInvalidFrame, rc)
      else if int (length packet) > ks_MaxFrameSize cfg then (Inl AuthErrFrameTooLarge, rc)
      else
        let h = decodeKnockHeader (take KnockFrameHeaderSize packet)
        in if kh_Reserved h \<noteq> 0 then (Inl AuthErrInvalidFrame, rc)
        else if kh_Flags h AND NOT allowedKnockFlags \<noteq> 0 then (Inl AuthErrUnsupportedFlags, rc)
        else if kh_SealedLen h = 0 then (Inl AuthErrInvalidFrame, rc)
        else if int KnockFrameHeaderSize + uint (kh_SealedLen h) \<noteq> int (length packet) then
          (Inl (if int KnockFrameHeaderSize + uint (kh_SealedLen h) > ks_MaxFrameSize cfg then AuthErrFrameTooLarge
                else AuthErrInvalidFrame), rc)
        else open_clients cr cfg tAge tReplay h (drop KnockFrameHeaderSize packet) False (ks_Clients cfg) rc)"

definition OpenKnockFrame ::
    "crypto \<Rightarrow> time \<Rightarrow> time \<Rightarrow> bytes \<Rightarrow> KnockServerConfig \<Rightarrow> 'r ReplayCache \<Rightarrow> KnockInfo result \<times> 'r ReplayCache" where
  "OpenKnockFrame cr tAge tReplay packet cfg rc =
     (if \<not> hasReplayCache rc then (Inl AuthErrMissingReplayCache, rc) else openKnockFrame cr tAge tReplay packet cfg rc)"

definition ParseKnockFrameUnsafe ::
    "crypto \<Rightarrow> time \<Rightarrow> time \<Rightarrow> bytes \<Rightarrow> KnockServerConfig \<Rightarrow> 'r ReplayCache \<Rightarrow> KnockInfo result \<times> 'r ReplayCache" where
  "ParseKnockFrameUnsafe cr tAge tReplay packet cfg rc = openKnockFrame cr tAge tReplay packet cfg rc"

definition requireSessionID :: "bytes \<Rightarrow> error option" where
  "requireSessionID sessionID =
     (if length sessionID < KnockSessionIDMinBytes then Some (Errorf ''session_id must be at least 16 bytes'') else None)"


section \<open>Header lemmas\<close>

definition knock_header_ok :: "knockFrameHeader \<Rightarrow> bool" where
  "knock_header_ok h \<longleftrightarrow> length (kh_Nonce h) = 16"

definition knock_header_bytes :: "knockFrameHeader \<Rightarrow> bytes" where
  "knock_header_bytes h = kh_Nonce h @ put64 (kh_KeyHint h) @ put16 (kh_SealedLen h) @ [kh_Flags h, kh_Reserved h]"

lemma length_knock_header_bytes [simp]:
  "knock_header_ok h \<Longrightarrow> length (knock_header_bytes h) = KnockFrameHeaderSize"
  by (simp add: knock_header_ok_def knock_header_bytes_def KnockFrameHeaderSize_def)

lemma list_split_28:
  assumes "length (dst :: 'a list) = KnockFrameHeaderSize"
  obtains a b c x y where "dst = a @ b @ c @ [x, y]" "length a = 16" "length b = 8" "length c = 2"
proof -
  have len: "length dst = 28" using assms by (simp add: KnockFrameHeaderSize_def)
  let ?t = "drop 26 dst"
  have "length ?t = Suc (Suc 0)" using len by simp
  then obtain x y where t: "?t = [x, y]" by (metis length_0_conv length_Suc_conv)
  have "take 16 dst @ slice dst 16 24 @ slice dst 24 26 = take 26 dst"
    using take_slice_join [of 16 24 dst] take_slice_join [of 24 26 dst] by (simp flip: append_assoc)
  then have "dst = take 16 dst @ slice dst 16 24 @ slice dst 24 26 @ ?t"
    by (metis append_assoc append_take_drop_id)
  then show ?thesis using that [of "take 16 dst" "slice dst 16 24" "slice dst 24 26" x y] len t by simp
qed

lemma encodeKnockHeader_eq:
  assumes "knock_header_ok h" "length dst = KnockFrameHeaderSize"
  shows "encodeKnockHeader dst h = knock_header_bytes h"
proof -
  from assms(2) obtain a b c x y where "dst = a @ b @ c @ [x, y]" "length a = 16" "length b = 8" "length c = 2"
    by (rule list_split_28)
  then show ?thesis
    using assms by (simp add: encodeKnockHeader_def knock_header_bytes_def knock_header_ok_def copy_at_def
        KnockFrameHeaderSize_def list_update_append)
qed

lemma decodeKnockHeader_bytes:
  assumes "knock_header_ok h"
  shows "decodeKnockHeader (knock_header_bytes h) = h"
  using assms by (simp add: decodeKnockHeader_def knock_header_bytes_def knock_header_ok_def KnockFrameHeaderSize_def
      nth_append)

lemma knock_header_ok_decode [simp]: "knock_header_ok (decodeKnockHeader src)"
  by (simp add: knock_header_ok_def decodeKnockHeader_def KnockFrameHeaderSize_def)

lemma knock_header_bytes_decode:
  assumes "length src = KnockFrameHeaderSize"
  shows "knock_header_bytes (decodeKnockHeader src) = src"
proof -
  from assms obtain a b c x y where "src = a @ b @ c @ [x, y]" "length a = 16" "length b = 8" "length c = 2"
    by (rule list_split_28)
  then show ?thesis
    by (simp add: decodeKnockHeader_def knock_header_bytes_def KnockFrameHeaderSize_def nth_append put_get16 put_get64)
qed

lemma knockAAD_eq:
  "knock_header_ok h \<Longrightarrow> knockAAD h port = knock_header_bytes h @ KnockFrameVersion # put16 (of_int port)"
  by (simp add: knockAAD_def encodeKnockHeader_eq)

section \<open>Payload lemmas\<close>

definition knock_payload_bytes :: "knockPayload \<Rightarrow> bytes" where
  "knock_payload_bytes p = [kp_FrameType p] @ kp_ClientIDHash p @ put64 (kp_TimestampMS p) @
     var8_bytes (str_bytes (kp_Method p)) @ put16 (of_int (kp_ServerPort p)) @ var8_bytes (kp_SessionID p) @
     var8_bytes (kp_SequenceID p) @ [of_int (kp_SequenceIndex p), of_int (kp_SequenceTotal p)] @
     var8_bytes (kp_ClientRandom p) @ var16_bytes (concat (map tlv_bytes (kp_Extensions p)))"

text \<open>The payloads the decoder can return, and those the encoder accepts.\<close>

definition knock_payload_fits :: "knockPayload \<Rightarrow> bool" where
  "knock_payload_fits p \<longleftrightarrow> kp_Method p \<noteq> [] \<and> length (kp_Method p) \<le> 255 \<and>
     length (kp_SessionID p) \<le> 255 \<and> length (kp_SequenceID p) \<le> 255 \<and> length (kp_ClientRandom p) \<le> 255 \<and>
     length (concat (map tlv_bytes (kp_Extensions p))) \<le> 65535"

definition knock_payload_ok :: "knockPayload \<Rightarrow> bool" where
  "knock_payload_ok p \<longleftrightarrow> knock_payload_fits p \<and> length (kp_ClientIDHash p) = 16 \<and>
     0 \<le> kp_ServerPort p \<and> kp_ServerPort p \<le> 65535 \<and> (kp_SessionID p = [] \<or> 16 \<le> length (kp_SessionID p)) \<and>
     0 \<le> kp_SequenceIndex p \<and> kp_SequenceIndex p \<le> 255 \<and> 0 \<le> kp_SequenceTotal p \<and> kp_SequenceTotal p \<le> 255"

lemma frame_TLVs_id: "map (\<lambda>t. \<lparr>tlv_Type = tlv_Type t, tlv_Value = tlv_Value t\<rparr>) ts = ts"
  by (induction ts) auto

lemma frame_EncodeTLVs_iff:
  "frame_EncodeTLVs ts = (if length (concat (map tlv_bytes ts)) \<le> 65535
     then Inr (concat (map tlv_bytes ts)) else Inl ProtocolErrFrameTooLarge)"
  by (simp add: frame_EncodeTLVs_def frame_TLVs_id EncodeTLVs_eq)

lemma frame_DecodeTLVs_eq: "frame_DecodeTLVs raw = DecodeTLVs raw ProtocolErrInvalidFrame"
  by (simp add: frame_DecodeTLVs_def frame_TLVs_id rbind_def split: sum.splits)

lemma encodeKnockPayload_iff:
  "encodeKnockPayload p = Inr raw \<longleftrightarrow>
     knock_payload_fits p \<and> 1 \<le> kp_ServerPort p \<and> kp_ServerPort p \<le> 65535 \<and> raw = knock_payload_bytes p"
  by (auto simp: encodeKnockPayload_def frame_EncodeTLVs_iff knock_payload_fits_def knock_payload_bytes_def
      var8_bytes_def var16_bytes_def split: if_splits)

lemma read_method_fold:
  "rbind (ReadByte (rd pre zs e)) (\<lambda>(n, r). if n = 0 then Inl e else rbind (ReadVarBytes (int (unat n)) c r) f) =
   rbind (read_var8 c (rd pre zs e)) (\<lambda>(v, r). if v = [] then Inl e else f (v, r))"
proof (cases zs)
  case Nil
  then show ?thesis by (simp add: read_var8_def ReadByte_rd)
next
  case (Cons n ys)
  have "n \<noteq> 0 \<Longrightarrow> unat n \<noteq> 0 \<and> 0 < uint n" by (simp add: unat_eq_zero word_neq_0_conv word_less_def)
  then show ?thesis
    by (auto simp: read_var8_def ReadByte_rd Cons ReadVarBytes_eq ReadFixed_uint ReadFixed_rd)
qed

lemma rbind_cong_Inr: "(\<And>x. m = Inr x \<Longrightarrow> f x = g x) \<Longrightarrow> rbind m f = rbind m g"
  by (cases m) simp_all

lemma readByteLen_var8: "readByteLen = read_var8 True"
  by (intro ext) (simp add: readByteLen_def read_var8_def)

definition decode_knock_tail :: "byte \<Rightarrow> bytes \<Rightarrow> u64 \<Rightarrow> bytes \<times> BinaryReader \<Rightarrow> knockPayload result" where
  "decode_knock_tail frameType ident ts = (\<lambda>(meth, r).
     rbind (ReadUint16 r) (\<lambda>(port, r).
     rbind (read_var8 True r) (\<lambda>(sess, r).
     rbind (read_var8 True r) (\<lambda>(seqID, r).
     rbind (ReadByte r) (\<lambda>(idx, r).
     rbind (ReadByte r) (\<lambda>(tot, r).
     rbind (read_var8 True r) (\<lambda>(rnd, r).
     rbind (ReadUint16 r) (\<lambda>(extLen, r).
       if int (unat extLen) \<noteq> Remaining r then Inl AuthErrInvalidFrame else
     rbind (ReadFixed (int (unat extLen)) r) (\<lambda>(ext, r).
       case DecodeTLVs ext ProtocolErrInvalidFrame of
         Inl err \<Rightarrow> Inl (mapProtocolFrameError err)
       | Inr tlvs \<Rightarrow>
           if sess \<noteq> [] \<and> length sess < KnockSessionIDMinBytes then Inl AuthErrInvalidFrame
           else Inr \<lparr>kp_FrameType = frameType, kp_ClientIDHash = ident, kp_TimestampMS = ts,
                  kp_Method = bytes_str meth, kp_ServerPort = uint port, kp_SessionID = sess, kp_SequenceID = seqID,
                  kp_SequenceIndex = uint idx, kp_SequenceTotal = uint tot, kp_ClientRandom = rnd, kp_Extensions = tlvs\<rparr>)))))))))"

lemma rbind_assoc_pair:
  "rbind (rbind m f) g = rbind m (\<lambda>x. rbind (f x) g)"
  by (cases m) simp_all

lemma decodeKnockPayload_var8:
  "decodeKnockPayload raw =
     rbind (ReadByte (rd [] raw AuthErrInvalidFrame)) (\<lambda>(frameType, r).
     rbind (ReadFixed 16 r) (\<lambda>(ident, r).
     rbind (ReadUint64 r) (\<lambda>(ts, r).
     rbind (read_var8 False r) (\<lambda>(meth, r).
       if meth = [] then Inl AuthErrInvalidFrame else decode_knock_tail frameType ident ts (meth, r)))))"
proof -
  have tl: "decodeKnockPayload raw =
     rbind (ReadByte (rd [] raw AuthErrInvalidFrame)) (\<lambda>(frameType, r).
     rbind (ReadFixed 16 r) (\<lambda>(ident, r).
     rbind (ReadUint64 r) (\<lambda>(ts, r).
     rbind (ReadByte r) (\<lambda>(n, r).
       if n = 0 then Inl AuthErrInvalidFrame
       else rbind (ReadVarBytes (int (unat n)) False r) (decode_knock_tail frameType ident ts)))))"
    unfolding decodeKnockPayload_def decode_knock_tail_def NewReader_rd readByteLen_var8 frame_DecodeTLVs_eq
      readSequenceIndexes_def
    by (simp only: rbind_assoc_pair split_def rbind_simps fst_conv snd_conv)
  show ?thesis
    unfolding tl
    by (intro rbind_cong_Inr)
      (clarsimp simp: byte_fmt.get_iff intro!: rbind_cong_Inr, clarsimp simp: fix16_fmt.get_iff intro!: rbind_cong_Inr,
       clarsimp simp: u64_fmt.get_iff read_method_fold)
qed


lemma uint_of_int_byte: "0 \<le> n \<Longrightarrow> n \<le> 255 \<Longrightarrow> uint (of_int n :: byte) = n"
  by (simp add: unsigned_of_int take_bit_int_eq_self)

lemma uint_of_int_u16: "0 \<le> n \<Longrightarrow> n \<le> 65535 \<Longrightarrow> uint (of_int n :: u16) = n"
  by (simp add: unsigned_of_int take_bit_int_eq_self)

lemma uint_bounds: "uint (b :: byte) \<le> 255" "uint (v :: u16) \<le> 65535"
  using unsigned_less [of b, where 'a = int] unsigned_less [of v, where 'a = int] by simp_all

lemma DecodeTLVs_concat:
  "length (concat (map tlv_bytes ts)) \<le> 65535 \<Longrightarrow> DecodeTLVs (concat (map tlv_bytes ts)) e = Inr ts"
  using tlv_ok_of_total by (simp add: DecodeTLVs_iff)

lemma decodeKnockPayload_bytes:
  assumes "knock_payload_ok p"
  shows "decodeKnockPayload (knock_payload_bytes p) = Inr p"
proof -
  note ok = assms [unfolded knock_payload_ok_def knock_payload_fits_def]
  let ?ext = "concat (map tlv_bytes (kp_Extensions p))"
  have n: "int (unat (of_nat (length ?ext) :: u16)) = int (length ?ext)"
    using ok by (intro int_unat_of_nat16) simp
  have dec: "DecodeTLVs ?ext ProtocolErrInvalidFrame = Inr (kp_Extensions p)"
    using ok by (intro DecodeTLVs_concat) simp
  have nums: "uint (of_int (kp_ServerPort p) :: u16) = kp_ServerPort p"
    "uint (of_int (kp_SequenceIndex p) :: byte) = kp_SequenceIndex p"
    "uint (of_int (kp_SequenceTotal p) :: byte) = kp_SequenceTotal p"
    using ok by (simp_all add: uint_of_int_byte uint_of_int_u16)
  have lens: "length (str_bytes (kp_Method p)) \<le> 255" "str_bytes (kp_Method p) \<noteq> []" "length (kp_SessionID p) \<le> 255"
    "length (kp_SequenceID p) \<le> 255" "length (kp_ClientRandom p) \<le> 255" "length (kp_ClientIDHash p) = 16"
    "\<not> (kp_SessionID p \<noteq> [] \<and> length (kp_SessionID p) < KnockSessionIDMinBytes)"
    using ok by (auto simp: KnockSessionIDMinBytes_def)
  show ?thesis
    unfolding decodeKnockPayload_var8 knock_payload_bytes_def append_Cons append_Nil append_assoc var16_bytes_def
    by (simp only: codec_simps rbind_simps split fix16_fmt.get_put_rd u64_fmt.get_put_rd u16_fmt.get_put_rd
        var8_fmt.get_put_rd decode_knock_tail_def n dec nums lens bytes_str_bytes if_False simp_thms sum.case) simp
qed

lemma case_sum_eq_Inr:
  "(case m of Inl e \<Rightarrow> Inl (g e) | Inr x \<Rightarrow> f x) = Inr y \<longleftrightarrow> (\<exists>x. m = Inr x \<and> f x = Inr y)"
  by (cases m) simp_all

lemma decode_knock_tail_Inr:
  assumes "decode_knock_tail frameType ident ts (meth, rd pre zs AuthErrInvalidFrame) = Inr p"
    "length ident = 16" "length meth \<le> 255" "meth \<noteq> []"
  shows "knock_payload_ok p \<and>
    frameType # ident @ put64 ts @ var8_bytes meth @ zs = knock_payload_bytes p"
proof -
  from assms(1) obtain port sess seqID idx tot rnd extLen ext tlvs
    where zs: "zs = put16 port @ var8_bytes sess @ var8_bytes seqID @ [idx, tot] @ var8_bytes rnd @ put16 extLen @ ext"
    and lens: "length sess \<le> 255" "length seqID \<le> 255" "length rnd \<le> 255"
    and len: "uint extLen = int (length ext)"
    and tlvs: "DecodeTLVs ext ProtocolErrInvalidFrame = Inr tlvs"
    and sess: "\<not> (sess \<noteq> [] \<and> length sess < KnockSessionIDMinBytes)"
    and p: "p = \<lparr>kp_FrameType = frameType, kp_ClientIDHash = ident, kp_TimestampMS = ts,
                  kp_Method = bytes_str meth, kp_ServerPort = uint port, kp_SessionID = sess, kp_SequenceID = seqID,
                  kp_SequenceIndex = uint idx, kp_SequenceTotal = uint tot, kp_ClientRandom = rnd, kp_Extensions = tlvs\<rparr>"
    by (auto simp: decode_knock_tail_def result_splits byte_fmt.get_iff u16_fmt.get_iff var8_fmt.get_iff codec_simps
        case_sum_eq_Inr ReadFixed_rd split: if_splits)
  have ext: "ext = concat (map tlv_bytes tlvs)" using tlvs by (simp add: DecodeTLVs_iff)
  have n: "length ext = unat extLen" using len by (metis nat_int unat_eq_nat_uint)
  moreover have "unat extLen \<le> 65535"
    using unsigned_less [of extLen, where 'a = nat] by simp
  ultimately show ?thesis
    using lens sess assms(2-) uint_bounds
    by (simp add: knock_payload_ok_def knock_payload_fits_def knock_payload_bytes_def var16_bytes_def p zs ext [symmetric]
        KnockSessionIDMinBytes_def) linarith
qed

lemma decodeKnockPayload_iff:
  "decodeKnockPayload raw = Inr p \<longleftrightarrow> knock_payload_ok p \<and> raw = knock_payload_bytes p"
proof
  assume "decodeKnockPayload raw = Inr p"
  then obtain frameType ident ts meth pre zs
    where raw: "raw = frameType # ident @ put64 ts @ var8_bytes meth @ zs"
    and lens: "length ident = 16" "length meth \<le> 255" "meth \<noteq> []"
    and tail: "decode_knock_tail frameType ident ts (meth, rd pre zs AuthErrInvalidFrame) = Inr p"
    by (auto simp: decodeKnockPayload_var8 result_splits byte_fmt.get_iff fix16_fmt.get_iff u64_fmt.get_iff
        var8_fmt.get_iff split: if_splits)
  from decode_knock_tail_Inr [OF tail lens] show "knock_payload_ok p \<and> raw = knock_payload_bytes p"
    by (simp add: raw)
qed (auto simp: decodeKnockPayload_bytes)

lemma knock_payload_bytes_inj:
  "knock_payload_ok p \<Longrightarrow> knock_payload_ok q \<Longrightarrow> knock_payload_bytes p = knock_payload_bytes q \<Longrightarrow> p = q"
  by (metis decodeKnockPayload_bytes sum.inject(2))

section \<open>Sealing lemmas\<close>

lemma knock_seal_lengths:
  assumes "crypto_ok cr" "knock_header_ok h"
  shows "length (deriveKnockAEADKey cr secret (kh_Nonce h)) = KeySize" "length (take NonceSize (kh_Nonce h)) = NonceSize"
  using assms by (simp_all add: deriveKnockAEADKey_def knock_header_ok_def NonceSize_def)

lemma openKnockPayload_iff:
  assumes "crypto_ok cr" "knock_header_ok h"
  shows "openKnockPayload cr secret h port sealed = Inr plain \<longleftrightarrow> sealKnockPayload cr secret h port plain = Inr sealed"
  unfolding openKnockPayload_def sealKnockPayload_def
  by (rule New_Open_iff) (use assms knock_seal_lengths in auto)

lemma sealKnockPayload_Inr:
  assumes "crypto_ok cr" "knock_header_ok h"
  obtains sealed where "sealKnockPayload cr secret h port plain = Inr sealed" "length sealed = length plain + Overhead"
proof -
  obtain sealed where s: "sealKnockPayload cr secret h port plain = Inr sealed"
    using knock_seal_lengths [OF assms] by (auto simp: sealKnockPayload_def New_Seal_def)
  then have "length sealed = length plain + Overhead"
    using New_Seal_length [OF assms(1) knock_seal_lengths [OF assms]] by (simp add: sealKnockPayload_def)
  with s show thesis by (rule that)
qed


section \<open>What opening accepts\<close>

text \<open>
  \<open>genuine_knock cr cfg client h payload packet\<close>: the packet is the header \<open>h\<close> followed by
  the payload sealed under the client's secret, for the configured port, with the key hint and
  the identity hash of that client.
\<close>

definition genuine_knock ::
    "crypto \<Rightarrow> int \<Rightarrow> ClientSecret \<Rightarrow> knockFrameHeader \<Rightarrow> knockPayload \<Rightarrow> bytes \<Rightarrow> bool" where
  "genuine_knock cr port client h payload packet \<longleftrightarrow>
     knock_header_ok h \<and> knock_payload_ok payload \<and> ValidateClientSecret client = None \<and>
     kh_KeyHint h = ComputeKnockKeyHint cr (cs_Secret client) (kh_Nonce h) port \<and>
     kp_ClientIDHash payload = ComputeKnockClientIDHash cr (cs_Secret client) (cs_ClientID client) \<and>
     (\<exists>sealed. sealKnockPayload cr (cs_Secret client) h port (knock_payload_bytes payload) = Inr sealed \<and>
        packet = knock_header_bytes h @ sealed)"

text \<open>The replay decision: a configured cache must accept the nonce, a nil one is not asked.\<close>

definition knock_replay ::
    "time \<Rightarrow> string \<Rightarrow> bytes \<Rightarrow> 'r ReplayCache \<Rightarrow> error option \<times> 'r ReplayCache" where
  "knock_replay tReplay ident nonce rc =
     (if hasReplayCache rc then replay_CheckAndMark tReplay ident nonce rc else (None, rc))"

lemma open_clients_Inr:
  assumes "open_clients cr cfg tAge tReplay h sealed saw clients rc = (Inr info, rc')"
  shows "\<exists>client \<in> set clients. \<exists>plain payload.
    ValidateClientSecret client = None \<and>
    kh_KeyHint h = ComputeKnockKeyHint cr (cs_Secret client) (kh_Nonce h) (ks_ServerPort cfg) \<and>
    openKnockPayload cr (cs_Secret client) h (ks_ServerPort cfg) sealed = Inr plain \<and>
    decodeKnockPayload plain = Inr payload \<and>
    kp_ClientIDHash payload = ComputeKnockClientIDHash cr (cs_Secret client) (cs_ClientID client) \<and>
    check_knock_payload cfg tAge h payload = None \<and> info = knock_info client h payload \<and>
    knock_replay tReplay (cs_ClientID client) (kh_Nonce h) rc = (None, rc')"
  using assms
proof (induction clients arbitrary: saw)
  case Nil
  then show ?case by simp
next
  case (Cons client clients)
  let ?skip = "\<lambda>saw'. open_clients cr cfg tAge tReplay h sealed saw' clients rc = (Inr info, rc')"
  from Cons.prems consider (later) saw' where "?skip saw'" |
    (here) plain payload where "ValidateClientSecret client = None"
      "ComputeKnockKeyHint cr (cs_Secret client) (kh_Nonce h) (ks_ServerPort cfg) = kh_KeyHint h"
      "openKnockPayload cr (cs_Secret client) h (ks_ServerPort cfg) sealed = Inr plain"
      "decodeKnockPayload plain = Inr payload"
      "kp_ClientIDHash payload = ComputeKnockClientIDHash cr (cs_Secret client) (cs_ClientID client)"
      "check_knock_payload cfg tAge h payload = None" "info = knock_info client h payload"
      "knock_replay tReplay (cs_ClientID client) (kh_Nonce h) rc = (None, rc')"
    by (auto simp: ConstantTimeEqual_def knock_replay_def split: if_splits sum.splits option.splits prod.splits)
  then show ?case
  proof cases
    case later
    from Cons.IH [OF this] show ?thesis by auto
  next
    case here
    then show ?thesis by (intro bexI [of _ client] exI [of _ plain] exI [of _ payload]) auto
  qed
qed

lemma openKnockFrame_Inr:
  assumes "crypto_ok cr" "openKnockFrame cr tAge tReplay packet cfg rc = (Inr info, rc')"
  shows "\<exists>client \<in> set (ks_Clients cfg). \<exists>h payload.
    genuine_knock cr (ks_ServerPort cfg) client h payload packet \<and> info = knock_info client h payload \<and>
    kh_Reserved h = 0 \<and> uint (kh_SealedLen h) + int KnockFrameHeaderSize = int (length packet) \<and>
    check_knock_payload (knock_server_defaults cfg) tAge h payload = None \<and>
    validateProtectedPort (ks_ServerPort cfg) = None \<and>
    int (length packet) \<le> ks_MaxFrameSize (knock_server_defaults cfg) \<and>
    knock_replay tReplay (cs_ClientID client) (kh_Nonce h) rc = (None, rc')"
proof -
  have dflt: "ks_Clients (knock_server_defaults cfg) = ks_Clients cfg"
    "ks_ServerPort (knock_server_defaults cfg) = ks_ServerPort cfg"
    by (simp_all add: knock_server_defaults_def Let_def)
  let ?h = "decodeKnockHeader (take KnockFrameHeaderSize packet)"
  from assms(2) have pre: "validateProtectedPort (ks_ServerPort cfg) = None" "KnockFrameHeaderSize \<le> length packet"
    "int (length packet) \<le> ks_MaxFrameSize (knock_server_defaults cfg)" "kh_Reserved ?h = 0"
    "int KnockFrameHeaderSize + uint (kh_SealedLen ?h) = int (length packet)"
    and run: "open_clients cr (knock_server_defaults cfg) tAge tReplay ?h (drop KnockFrameHeaderSize packet) False
      (ks_Clients cfg) rc = (Inr info, rc')"
    by (auto simp: openKnockFrame_def Let_def dflt split: option.splits if_splits)
  have packet: "packet = knock_header_bytes ?h @ drop KnockFrameHeaderSize packet"
    using pre(2) by (simp add: knock_header_bytes_decode)
  have ok: "knock_header_ok ?h" by simp
  from open_clients_Inr [OF run, unfolded dflt openKnockPayload_iff [OF assms(1) ok] decodeKnockPayload_iff]
  show ?thesis
    using pre packet ok unfolding genuine_knock_def by (metis add.commute)
qed


lemma open_clients_hit:
  assumes "\<forall>c \<in> set pre. ComputeKnockKeyHint cr (cs_Secret c) (kh_Nonce h) (ks_ServerPort cfg) \<noteq> kh_KeyHint h"
    and "ValidateClientSecret client = None"
    and "kh_KeyHint h = ComputeKnockKeyHint cr (cs_Secret client) (kh_Nonce h) (ks_ServerPort cfg)"
    and "openKnockPayload cr (cs_Secret client) h (ks_ServerPort cfg) sealed = Inr plain"
    and "decodeKnockPayload plain = Inr payload"
    and "kp_ClientIDHash payload = ComputeKnockClientIDHash cr (cs_Secret client) (cs_ClientID client)"
    and "check_knock_payload cfg tAge h payload = None"
    and "knock_replay tReplay (cs_ClientID client) (kh_Nonce h) rc = (None, rc')"
  shows "open_clients cr cfg tAge tReplay h sealed saw (pre @ client # post) rc = (Inr (knock_info client h payload), rc')"
  using assms(1)
proof (induction pre arbitrary: saw)
  case Nil
  show ?case
    using assms(2-) by (auto simp: ConstantTimeEqual_def knock_replay_def split: if_splits)
qed simp

lemma openKnockFrame_genuine:
  assumes ok: "crypto_ok cr" and g: "genuine_knock cr (ks_ServerPort cfg) client h payload packet"
    and h: "kh_Reserved h = 0" "uint (kh_SealedLen h) + int KnockFrameHeaderSize = int (length packet)"
    and chk: "check_knock_payload (knock_server_defaults cfg) tAge h payload = None"
    and port: "validateProtectedPort (ks_ServerPort cfg) = None"
    and size: "int (length packet) \<le> ks_MaxFrameSize (knock_server_defaults cfg)"
    and first: "ks_Clients cfg = pre @ client # post"
      "\<forall>c \<in> set pre. ComputeKnockKeyHint cr (cs_Secret c) (kh_Nonce h) (ks_ServerPort cfg) \<noteq> kh_KeyHint h"
    and replay: "knock_replay tReplay (cs_ClientID client) (kh_Nonce h) rc = (None, rc')"
  shows "openKnockFrame cr tAge tReplay packet cfg rc = (Inr (knock_info client h payload), rc')"
proof -
  have dflt: "ks_Clients (knock_server_defaults cfg) = ks_Clients cfg"
    "ks_ServerPort (knock_server_defaults cfg) = ks_ServerPort cfg"
    by (simp_all add: knock_server_defaults_def Let_def)
  from g obtain sealed where hok: "knock_header_ok h" and pok: "knock_payload_ok payload"
    and seal: "sealKnockPayload cr (cs_Secret client) h (ks_ServerPort cfg) (knock_payload_bytes payload) = Inr sealed"
    and packet: "packet = knock_header_bytes h @ sealed"
    by (auto simp: genuine_knock_def)
  have hdr: "decodeKnockHeader (take KnockFrameHeaderSize packet) = h" "drop KnockFrameHeaderSize packet = sealed"
    "\<not> length packet < KnockFrameHeaderSize"
    using hok by (simp_all add: packet decodeKnockHeader_bytes)
  have flags: "kh_Flags h AND NOT allowedKnockFlags = 0"
    using chk by (auto simp: check_knock_payload_def validateKnockFlags_def split: if_splits option.splits)
  have "length sealed \<noteq> 0"
    using sealKnockPayload_Inr [OF ok hok, of "cs_Secret client" "ks_ServerPort cfg" "knock_payload_bytes payload"] seal
    by (force simp: Overhead_def)
  then have len: "kh_SealedLen h \<noteq> 0" using h(2) hok by (auto simp: packet)
  have run: "open_clients cr (knock_server_defaults cfg) tAge tReplay h sealed False (pre @ client # post) rc =
      (Inr (knock_info client h payload), rc')"
    using g first(2) chk replay openKnockPayload_iff [OF ok hok] seal decodeKnockPayload_bytes [OF pok]
    by (intro open_clients_hit) (auto simp: genuine_knock_def dflt)
  show ?thesis
    using port size h flags len run by (simp add: openKnockFrame_def Let_def dflt hdr first(1) add.commute)
qed

section \<open>What building makes\<close>

definition built_payload :: "crypto \<Rightarrow> KnockFrameOptions \<Rightarrow> bytes \<Rightarrow> knockPayload" where
  "built_payload cr opts clientRandom =
     (let sq = (ko_SequenceTotal opts > 0 \<or> ko_SequenceID opts \<noteq> [])
      in \<lparr>kp_FrameType = (if sq then KnockFrameTypeUDPSequence else KnockFrameTypeUDP),
          kp_ClientIDHash = ComputeKnockClientIDHash cr (ko_Secret opts) (ko_ClientID opts),
          kp_TimestampMS = UnixMilli (ko_Timestamp opts), kp_Method = ko_Method opts, kp_ServerPort = ko_ServerPort opts,
          kp_SessionID = ko_SessionID opts, kp_SequenceID = (if sq then ko_SequenceID opts else []),
          kp_SequenceIndex = (if sq then ko_SequenceIndex opts else 0),
          kp_SequenceTotal = (if sq then ko_SequenceTotal opts else 0),
          kp_ClientRandom = clientRandom, kp_Extensions = ko_Extensions opts\<rparr>)"

definition built_sequence_ok :: "KnockFrameOptions \<Rightarrow> bool" where
  "built_sequence_ok opts \<longleftrightarrow> (ko_SequenceTotal opts > 0 \<or> ko_SequenceID opts \<noteq> []) \<longrightarrow>
     length (ko_SequenceID opts) = KnockSequenceIDBytes \<and>
     \<not> sequence_out_of_range (ko_SequenceTotal opts) (ko_SequenceIndex opts)"

lemma knock_options_payload_Inr:
  "knock_options_payload cr opts = Inr payload \<Longrightarrow>
     payload\<lparr>kp_ClientRandom := rnd, kp_Extensions := ko_Extensions opts\<rparr> = built_payload cr opts rnd \<and>
     built_sequence_ok opts \<and> (ko_SessionID opts = [] \<or> 16 \<le> length (ko_SessionID opts))"
  by (auto simp: knock_options_payload_def built_payload_def built_sequence_ok_def Let_def KnockSessionIDMinBytes_def
      split: if_splits)

lemma BuildKnockFrame_parts:
  assumes ok: "crypto_ok cr" and b: "BuildKnockFrame cr now rndRandom rndNonce opts0 = Inr packet"
    and rnd: "\<And>n. rndNonce = Inr n \<Longrightarrow> length n = KnockNonceBytes"
  defines "opts \<equiv> knock_options_defaults now opts0"
  obtains nonce clientRandom plain sealed h where
    "length nonce = KnockNonceBytes" "ko_Nonce opts0 \<noteq> [] \<longrightarrow> nonce = ko_Nonce opts0"
    "ko_ClientRandom opts0 \<noteq> [] \<longrightarrow> clientRandom = ko_ClientRandom opts0"
    "ValidateClientSecret \<lparr>cs_ClientID = ko_ClientID opts, cs_Secret = ko_Secret opts\<rparr> = None"
    "validateProtectedPort (ko_ServerPort opts) = None" "built_sequence_ok opts"
    "knock_payload_ok (built_payload cr opts clientRandom)"
    "plain = knock_payload_bytes (built_payload cr opts clientRandom)"
    "h = \<lparr>kh_Nonce = nonce, kh_KeyHint = (if ko_KeyHint opts \<noteq> 0 then ko_KeyHint opts
             else ComputeKnockKeyHint cr (ko_Secret opts) nonce (ko_ServerPort opts)),
          kh_SealedLen = of_int (int (length plain) + int Overhead),
          kh_Flags = knock_flags (built_payload cr opts clientRandom), kh_Reserved = 0\<rparr>"
    "sealKnockPayload cr (ko_Secret opts) h (ko_ServerPort opts) plain = Inr sealed"
    "packet = knock_header_bytes h @ sealed" "int (length plain) + int Overhead \<le> 65535"
    "int KnockFrameHeaderSize + (int (length plain) + int Overhead) \<le> ko_MaxFrameSize opts"
proof -
  have dflt: "ko_Nonce opts = ko_Nonce opts0" "ko_ClientRandom opts = ko_ClientRandom opts0"
    by (simp_all add: opts_def knock_options_defaults_def Let_def)
  obtain payload clientRandom plain nonce sealed h where
    v: "ValidateClientSecret \<lparr>cs_ClientID = ko_ClientID opts, cs_Secret = ko_Secret opts\<rparr> = None"
      "validateProtectedPort (ko_ServerPort opts) = None"
    and payload: "knock_options_payload cr opts = Inr payload"
    and crnd: "(if ko_ClientRandom opts = [] then rndRandom else Inr (ko_ClientRandom opts)) = Inr clientRandom"
    and plain: "encodeKnockPayload (payload\<lparr>kp_ClientRandom := clientRandom, kp_Extensions := ko_Extensions opts\<rparr>) = Inr plain"
    and nonce: "(if ko_Nonce opts \<noteq> [] then
                 (if length (ko_Nonce opts) \<noteq> KnockNonceBytes then Inl AuthErrInvalidFrame else Inr (ko_Nonce opts))
               else rndNonce) = Inr nonce"
    and sz: "int (length plain) + int Overhead \<le> 65535"
      "int KnockFrameHeaderSize + (int (length plain) + int Overhead) \<le> ko_MaxFrameSize opts"
    and h: "h = \<lparr>kh_Nonce = nonce, kh_KeyHint = (if ko_KeyHint opts \<noteq> 0 then ko_KeyHint opts
             else ComputeKnockKeyHint cr (ko_Secret opts) nonce (ko_ServerPort opts)),
          kh_SealedLen = of_int (int (length plain) + int Overhead),
          kh_Flags = knock_flags (payload\<lparr>kp_ClientRandom := clientRandom, kp_Extensions := ko_Extensions opts\<rparr>), kh_Reserved = 0\<rparr>"
    and seal: "sealKnockPayload cr (ko_Secret opts) h (ko_ServerPort opts) plain = Inr sealed"
    and packet: "packet = encodeKnockHeader (replicate KnockFrameHeaderSize 0) h @ sealed"
    using b unfolding BuildKnockFrame_def opts_def [symmetric] Let_def
    by (fastforce simp: rbind_eq_Inr not_less not_le split: option.splits if_splits)
  note bp = knock_options_payload_Inr [OF payload, of clientRandom]
  have nlen: "length nonce = KnockNonceBytes" using nonce rnd by (auto split: if_splits)
  have hok: "knock_header_ok h" using nlen by (simp add: h knock_header_ok_def KnockNonceBytes_def)
  have fits: "knock_payload_fits (built_payload cr opts clientRandom)" "plain = knock_payload_bytes (built_payload cr opts clientRandom)"
    using plain bp by (simp_all add: encodeKnockPayload_iff)
  have "length (ComputeKnockClientIDHash cr s i) = 16" for s i
    using ok by (simp add: ComputeKnockClientIDHash_def)
  then have pok: "knock_payload_ok (built_payload cr opts clientRandom)"
    using fits bp v(2) by (auto simp: knock_payload_ok_def built_payload_def Let_def validateProtectedPort_def
        built_sequence_ok_def sequence_out_of_range_def DefaultSequenceMaxParts_def split: if_splits)
  show thesis
    using bp nonce crnd dflt encodeKnockHeader_eq [OF hok] packet h
    by (intro that [OF nlen _ _ v _ pok fits(2) _ seal _ sz]) (auto split: if_splits)
qed


lemma knock_flag_bits:
  "(0 :: byte) AND NOT 7 = 0" "(1 :: byte) AND NOT 7 = 0" "(2 :: byte) AND NOT 7 = 0" "(3 :: byte) AND NOT 7 = 0"
  "(4 :: byte) AND NOT 7 = 0" "(5 :: byte) AND NOT 7 = 0" "(6 :: byte) AND NOT 7 = 0" "(7 :: byte) AND NOT 7 = 0"
  by simp_all

lemma validateKnockFlags_built:
  assumes "kp_SessionID payload = [] \<or> 16 \<le> length (kp_SessionID payload)"
  shows "validateKnockFlags (knock_flags payload) payload = None"
proof -
  have "(16 \<le> length (kp_SessionID payload)) = (kp_SessionID payload \<noteq> [])" using assms by auto
  then show ?thesis
    by (simp add: validateKnockFlags_def knock_flags_def knock_consts Let_def)
qed

lemma check_built_payload:
  assumes "kp_ServerPort (built_payload cr opts rnd) = ks_ServerPort cfg"
    "ks_Method cfg = [] \<or> ks_Method cfg = ko_Method opts" "built_sequence_ok opts"
    "ko_SequenceTotal opts > 0 \<or> ko_SequenceID opts \<noteq> [] \<Longrightarrow> ks_AllowSequence cfg"
    "ko_SessionID opts = [] \<or> 16 \<le> length (ko_SessionID opts)"
    "kh_Flags h = knock_flags (built_payload cr opts rnd)"
    "time_Sub now (time_UnixMilli (UnixMilli (ko_Timestamp opts))) \<le> ks_TimeWindow cfg"
    "- ks_TimeWindow cfg \<le> time_Sub now (time_UnixMilli (UnixMilli (ko_Timestamp opts)))"
  shows "check_knock_payload cfg now h (built_payload cr opts rnd) = None"
proof -
  have "validateKnockFlags (kh_Flags h) (built_payload cr opts rnd) = None"
    unfolding assms(6) using assms(5) by (intro validateKnockFlags_built) (simp add: built_payload_def Let_def)
  then show ?thesis
    using assms(1-4,7,8)
    by (auto simp: check_knock_payload_def built_payload_def built_sequence_ok_def Let_def KnockFrameTypeUDP_def
        KnockFrameTypeUDPSequence_def not_less)
qed

lemma open_built_knock:
  assumes ok: "crypto_ok cr"
    and b: "BuildKnockFrame cr now rndRandom rndNonce opts0 = Inr packet" "ko_KeyHint opts0 = 0"
    and rnd: "\<And>n. rndNonce = Inr n \<Longrightarrow> length n = KnockNonceBytes"
    and opts: "opts = knock_options_defaults now opts0"
    and port: "ks_ServerPort cfg = ko_ServerPort opts"
    and meth: "ks_Method cfg = [] \<or> ks_Method cfg = ko_Method opts"
    and sq: "ko_SequenceTotal opts > 0 \<or> ko_SequenceID opts \<noteq> [] \<Longrightarrow> ks_AllowSequence cfg"
    and size: "ko_MaxFrameSize opts \<le> ks_MaxFrameSize (knock_server_defaults cfg)"
    and age: "\<bar>time_Sub tAge (time_UnixMilli (UnixMilli (ko_Timestamp opts)))\<bar> \<le> ks_TimeWindow (knock_server_defaults cfg)"
    and nonce: "nonce = take KnockNonceBytes packet"
    and first: "ks_Clients cfg = pre @ \<lparr>cs_ClientID = ko_ClientID opts, cs_Secret = ko_Secret opts\<rparr> # post"
      "\<forall>c \<in> set pre. ComputeKnockKeyHint cr (cs_Secret c) nonce (ks_ServerPort cfg) \<noteq>
         ComputeKnockKeyHint cr (ko_Secret opts) nonce (ks_ServerPort cfg)"
    and replay: "hasReplayCache rc" "replay_CheckAndMark tReplay (ko_ClientID opts) nonce rc = (None, rc')"
  shows "\<exists>h rnd. OpenKnockFrame cr tAge tReplay packet cfg rc =
      (Inr (knock_info \<lparr>cs_ClientID = ko_ClientID opts, cs_Secret = ko_Secret opts\<rparr> h (built_payload cr opts rnd)), rc') \<and>
    kh_Nonce h = nonce \<and> (ko_ClientRandom opts \<noteq> [] \<longrightarrow> rnd = ko_ClientRandom opts)"
proof -
  have dflt: "ks_Method (knock_server_defaults cfg) = ks_Method cfg" "ks_ServerPort (knock_server_defaults cfg) = ks_ServerPort cfg"
    "ks_AllowSequence (knock_server_defaults cfg) = ks_AllowSequence cfg"
    "ko_KeyHint opts = ko_KeyHint opts0" "ko_ClientRandom opts = ko_ClientRandom opts0"
    by (simp_all add: opts knock_server_defaults_def knock_options_defaults_def Let_def)
  obtain nonce' rnd' plain sealed h where
    nlen: "length nonce' = KnockNonceBytes" and "ko_Nonce opts0 \<noteq> [] \<longrightarrow> nonce' = ko_Nonce opts0"
    and cr': "ko_ClientRandom opts0 \<noteq> [] \<longrightarrow> rnd' = ko_ClientRandom opts0"
    and v: "ValidateClientSecret \<lparr>cs_ClientID = ko_ClientID opts, cs_Secret = ko_Secret opts\<rparr> = None"
      "validateProtectedPort (ko_ServerPort opts) = None" "built_sequence_ok opts"
    and pok: "knock_payload_ok (built_payload cr opts rnd')" and plain: "plain = knock_payload_bytes (built_payload cr opts rnd')"
    and h: "h = \<lparr>kh_Nonce = nonce', kh_KeyHint = (if ko_KeyHint opts \<noteq> 0 then ko_KeyHint opts
             else ComputeKnockKeyHint cr (ko_Secret opts) nonce' (ko_ServerPort opts)),
          kh_SealedLen = of_int (int (length plain) + int Overhead),
          kh_Flags = knock_flags (built_payload cr opts rnd'), kh_Reserved = 0\<rparr>"
    and seal: "sealKnockPayload cr (ko_Secret opts) h (ko_ServerPort opts) plain = Inr sealed"
    and packet: "packet = knock_header_bytes h @ sealed" and sz: "int (length plain) + int Overhead \<le> 65535"
      "int KnockFrameHeaderSize + (int (length plain) + int Overhead) \<le> ko_MaxFrameSize opts"
    by (rule BuildKnockFrame_parts [OF ok b(1) rnd, folded opts])
  let ?c = "\<lparr>cs_ClientID = ko_ClientID opts, cs_Secret = ko_Secret opts\<rparr>"
  have hok: "knock_header_ok h" using nlen by (simp add: h knock_header_ok_def KnockNonceBytes_def)
  have n: "kh_Nonce h = nonce" "nonce' = nonce" using nlen by (simp_all add: h nonce packet knock_header_bytes_def)
  have sess: "ko_SessionID opts = [] \<or> 16 \<le> length (ko_SessionID opts)"
    using pok by (simp add: knock_payload_ok_def built_payload_def Let_def)
  have slen: "length sealed = length plain + Overhead"
    using sealKnockPayload_Inr [OF ok hok, of "ko_Secret opts" "ko_ServerPort opts" plain] seal by auto
  have hint: "kh_KeyHint h = ComputeKnockKeyHint cr (ko_Secret opts) nonce (ks_ServerPort cfg)"
    using b(2) by (simp add: h dflt n port)
  have len: "uint (kh_SealedLen h) + int KnockFrameHeaderSize = int (length packet)"
  proof -
    have "kh_SealedLen h = of_int (int (length plain) + int Overhead)" unfolding h by (simp only: knockFrameHeader.simps)
    then have "uint (kh_SealedLen h) = int (length plain) + int Overhead" using sz(1) by (simp only: uint_of_int_u16)
    then show ?thesis using hok slen by (simp add: packet)
  qed
  have g: "genuine_knock cr (ks_ServerPort cfg) ?c h (built_payload cr opts rnd') packet"
    using hok pok v(1) hint seal packet n
    by (auto simp: genuine_knock_def port plain built_payload_def Let_def)
  have chk: "check_knock_payload (knock_server_defaults cfg) tAge h (built_payload cr opts rnd') = None"
    using meth v(3) sq sess age by (intro check_built_payload) (auto simp: dflt port built_payload_def Let_def h)
  have "openKnockFrame cr tAge tReplay packet cfg rc = (Inr (knock_info ?c h (built_payload cr opts rnd')), rc')"
    using v(2) sz(2) size replay first(2) hint slen hok
    by (intro openKnockFrame_genuine [OF ok g _ len chk _ _ first(1)])
      (auto simp: h port knock_replay_def n packet)
  then show ?thesis
    using replay(1) cr' n by (intro exI [of _ h] exI [of _ rnd']) (auto simp: OpenKnockFrame_def dflt)
qed

section \<open>Properties\<close>

text \<open>
  Property C18. A knock that \<open>OpenKnockFrame\<close> accepts is genuine: the packet is a header followed
  by a payload sealed under the secret of a configured, valid client for exactly the protected
  port (which the associated data binds together with the whole header), the header carries that
  client's key hint for the nonce, the payload carries its identity hash, the configured method
  and a time stamp within the time window of the clock, no more than the frame size allows was
  read, and the replay cache accepted the pair of client and nonce. The reported information is
  that of the sealed payload.
\<close>

theorem knock_open_authentic:
  assumes "crypto_ok cr" "OpenKnockFrame cr tAge tReplay packet cfg rc = (Inr info, rc')"
  shows "\<exists>client \<in> set (ks_Clients cfg). \<exists>h payload.
    genuine_knock cr (ks_ServerPort cfg) client h payload packet \<and> info = knock_info client h payload \<and>
    kp_ServerPort payload = ks_ServerPort cfg \<and> (ks_Method cfg = [] \<or> kp_Method payload = ks_Method cfg) \<and>
    (let window = ks_TimeWindow (knock_server_defaults cfg); age = time_Sub tAge (ki_Timestamp info)
     in - window \<le> age \<and> age \<le> window) \<and>
    (ki_FrameType info = KnockFrameTypeUDP \<or>
       ki_FrameType info = KnockFrameTypeUDPSequence \<and> ks_AllowSequence cfg \<and>
       \<not> sequence_out_of_range (ki_SequenceTotal info) (ki_SequenceIndex info)) \<and>
    int (length packet) \<le> ks_MaxFrameSize (knock_server_defaults cfg) \<and>
    replay_CheckAndMark tReplay (ki_ClientID info) (ki_Nonce info) rc = (None, rc')"
proof -
  have has: "hasReplayCache rc" and open': "openKnockFrame cr tAge tReplay packet cfg rc = (Inr info, rc')"
    using assms(2) by (auto simp: OpenKnockFrame_def split: if_splits)
  have dflt: "ks_Method (knock_server_defaults cfg) = ks_Method cfg" "ks_ServerPort (knock_server_defaults cfg) = ks_ServerPort cfg"
    "ks_AllowSequence (knock_server_defaults cfg) = ks_AllowSequence cfg"
    by (simp_all add: knock_server_defaults_def Let_def)
  from openKnockFrame_Inr [OF assms(1) open'] obtain client h payload where
    c: "client \<in> set (ks_Clients cfg)" "genuine_knock cr (ks_ServerPort cfg) client h payload packet"
      "info = knock_info client h payload" "int (length packet) \<le> ks_MaxFrameSize (knock_server_defaults cfg)"
    and chk: "check_knock_payload (knock_server_defaults cfg) tAge h payload = None"
    and rp: "knock_replay tReplay (cs_ClientID client) (kh_Nonce h) rc = (None, rc')"
    by blast
  have "kp_ServerPort payload = ks_ServerPort cfg \<and> (ks_Method cfg = [] \<or> kp_Method payload = ks_Method cfg) \<and>
    (let window = ks_TimeWindow (knock_server_defaults cfg); age = time_Sub tAge (ki_Timestamp info)
     in - window \<le> age \<and> age \<le> window) \<and>
    (ki_FrameType info = KnockFrameTypeUDP \<or>
       ki_FrameType info = KnockFrameTypeUDPSequence \<and> ks_AllowSequence cfg \<and>
       \<not> sequence_out_of_range (ki_SequenceTotal info) (ki_SequenceIndex info))"
    using chk unfolding check_knock_payload_def Let_def dflt
    by (auto simp: c(3) knock_info_def not_less split: if_splits option.splits)
  moreover have "replay_CheckAndMark tReplay (ki_ClientID info) (ki_Nonce info) rc = (None, rc')"
    using rp has by (simp add: knock_replay_def c(3) knock_info_def)
  ultimately show ?thesis using c by blast
qed

text \<open>
  Property C19. A knock built by a client is accepted by a server that knows the client: when the
  server protects the same port, expects no other method, allows sequences where the knock is part
  of one, accepts frames of that size, its clock is within the window of the frame's time stamp,
  no client listed before has the same key hint, and the replay cache accepts the nonce, then
  \<open>OpenKnockFrame\<close> returns the client's name and exactly the fields the client chose, the time
  stamp cut to milliseconds.
\<close>

theorem knock_build_open:
  assumes ok: "crypto_ok cr"
    and b: "BuildKnockFrame cr now rndRandom rndNonce opts0 = Inr packet" "ko_KeyHint opts0 = 0"
    and rnd: "\<And>n. rndNonce = Inr n \<Longrightarrow> length n = KnockNonceBytes"
    and opts: "opts = knock_options_defaults now opts0"
    and port: "ks_ServerPort cfg = ko_ServerPort opts"
    and meth: "ks_Method cfg = [] \<or> ks_Method cfg = ko_Method opts"
    and sq: "ko_SequenceTotal opts > 0 \<or> ko_SequenceID opts \<noteq> [] \<Longrightarrow> ks_AllowSequence cfg"
    and size: "ko_MaxFrameSize opts \<le> ks_MaxFrameSize (knock_server_defaults cfg)"
    and age: "\<bar>time_Sub tAge (time_UnixMilli (UnixMilli (ko_Timestamp opts)))\<bar> \<le> ks_TimeWindow (knock_server_defaults cfg)"
    and nonce: "nonce = take KnockNonceBytes packet"
    and first: "ks_Clients cfg = pre @ \<lparr>cs_ClientID = ko_ClientID opts, cs_Secret = ko_Secret opts\<rparr> # post"
      "\<forall>c \<in> set pre. ComputeKnockKeyHint cr (cs_Secret c) nonce (ks_ServerPort cfg) \<noteq>
         ComputeKnockKeyHint cr (ko_Secret opts) nonce (ks_ServerPort cfg)"
    and replay: "hasReplayCache rc" "replay_CheckAndMark tReplay (ko_ClientID opts) nonce rc = (None, rc')"
  shows "\<exists>info. OpenKnockFrame cr tAge tReplay packet cfg rc = (Inr info, rc') \<and>
    ki_ClientID info = ko_ClientID opts \<and> ki_Method info = ko_Method opts \<and> ki_ServerPort info = ko_ServerPort opts \<and>
    ki_SessionID info = ko_SessionID opts \<and> ki_Extensions info = ko_Extensions opts \<and> ki_Nonce info = nonce \<and>
    ki_Timestamp info = time_UnixMilli (UnixMilli (ko_Timestamp opts)) \<and>
    (ko_ClientRandom opts \<noteq> [] \<longrightarrow> ki_ClientRandom info = ko_ClientRandom opts) \<and>
    (ko_SequenceTotal opts > 0 \<or> ko_SequenceID opts \<noteq> [] \<longrightarrow> ki_SequenceID info = ko_SequenceID opts \<and>
       ki_SequenceIndex info = ko_SequenceIndex opts \<and> ki_SequenceTotal info = ko_SequenceTotal opts)"
proof -
  from open_built_knock [OF ok b rnd opts port meth sq size age nonce first replay]
  show ?thesis by (auto simp: knock_info_def built_payload_def Let_def)
qed

section \<open>Witnesses\<close>

definition demo_knock_options :: KnockFrameOptions where
  "demo_knock_options = \<lparr>ko_ClientID = ''a'', ko_Secret = demo_secret, ko_Method = [], ko_ServerPort = 443, ko_SessionID = [],
     ko_SequenceID = replicate 16 3, ko_SequenceIndex = 1, ko_SequenceTotal = 2, ko_ClientRandom = [], ko_Extensions = [],
     ko_Nonce = [], ko_KeyHint = 0, ko_Timestamp = zero_time, ko_MaxFrameSize = 0\<rparr>"

definition demo_knock_config :: KnockServerConfig where
  "demo_knock_config = \<lparr>ks_Clients = [\<lparr>cs_ClientID = ''b'', cs_Secret = replicate 16 9\<rparr>, \<lparr>cs_ClientID = ''a'', cs_Secret = demo_secret\<rparr>],
     ks_ServerPort = 443, ks_Method = ''udp'', ks_TimeWindow = 0, ks_MaxFrameSize = 0, ks_AllowSequence = True\<rparr>"

definition demo_knock_packet :: "bytes result" where
  "demo_knock_packet = BuildKnockFrame demo_crypto (5 * second) (Inr (replicate 16 4)) (Inr demo_nonce) demo_knock_options"

definition demo_replay :: "unit ReplayCache" where
  "demo_replay = MemoryCache (NewMemoryReplayCacheWithLimit (60 * second) 4)"

lemma demo_knock_built: "\<exists>packet. demo_knock_packet = Inr packet \<and> take 16 packet = demo_nonce"
proof -
  have "(case demo_knock_packet of Inl _ \<Rightarrow> False | Inr p \<Rightarrow> take 16 p = demo_nonce)"
    by code_simp
  then show ?thesis by (auto split: sum.splits)
qed

lemma demo_knock_fresh: "\<exists>rc. replay_CheckAndMark (6 * second) ''a'' demo_nonce demo_replay = (None, rc)"
proof -
  have "fst (replay_CheckAndMark (6 * second) ''a'' demo_nonce demo_replay) = None" by code_simp
  then show ?thesis by (metis prod.collapse)
qed

lemma demo_knock_accepted:
  "\<exists>packet info rc. demo_knock_packet = Inr packet \<and>
     OpenKnockFrame demo_crypto (6 * second) (6 * second) packet demo_knock_config demo_replay = (Inr info, rc)"
proof -
  obtain packet where p: "demo_knock_packet = Inr packet" using demo_knock_built by blast
  have "(case demo_knock_packet of Inl _ \<Rightarrow> False
     | Inr p \<Rightarrow> \<not> isl (fst (OpenKnockFrame demo_crypto (6 * second) (6 * second) p demo_knock_config demo_replay)))"
    by code_simp
  then have "\<not> isl (fst (OpenKnockFrame demo_crypto (6 * second) (6 * second) packet demo_knock_config demo_replay))"
    by (simp add: p)
  then show ?thesis using p by (metis isl_def prod.collapse sum.exhaust)
qed

theorem knock_open_authentic_witness:
  "\<exists>packet info rc'. OpenKnockFrame demo_crypto (6 * second) (6 * second) packet demo_knock_config demo_replay = (Inr info, rc') \<and>
    (\<exists>client \<in> set (ks_Clients demo_knock_config). \<exists>h payload.
       genuine_knock demo_crypto 443 client h payload packet \<and> info = knock_info client h payload)"
proof -
  obtain packet info rc' where
    o: "OpenKnockFrame demo_crypto (6 * second) (6 * second) packet demo_knock_config demo_replay = (Inr info, rc')"
    using demo_knock_accepted by blast
  have port: "ks_ServerPort demo_knock_config = 443" by (simp add: demo_knock_config_def)
  from knock_open_authentic [OF crypto_ok_demo_crypto o] o show ?thesis unfolding port by blast
qed

theorem knock_build_open_witness:
  "\<exists>packet info rc'. demo_knock_packet = Inr packet \<and>
    OpenKnockFrame demo_crypto (6 * second) (6 * second) packet demo_knock_config demo_replay = (Inr info, rc') \<and>
    ki_ClientID info = ''a'' \<and> ki_SequenceIndex info = 1"
proof -
  obtain packet where p: "demo_knock_packet = Inr packet" "take 16 packet = demo_nonce" using demo_knock_built by blast
  obtain rc' where r: "replay_CheckAndMark (6 * second) ''a'' demo_nonce demo_replay = (None, rc')" using demo_knock_fresh by blast
  let ?o = "knock_options_defaults (5 * second) demo_knock_options"
  have side: "ko_KeyHint demo_knock_options = 0" "ks_ServerPort demo_knock_config = ko_ServerPort ?o"
    "ks_Method demo_knock_config = [] \<or> ks_Method demo_knock_config = ko_Method ?o" "ks_AllowSequence demo_knock_config"
    "ko_MaxFrameSize ?o \<le> ks_MaxFrameSize (knock_server_defaults demo_knock_config)"
    "\<bar>time_Sub (6 * second) (time_UnixMilli (UnixMilli (ko_Timestamp ?o)))\<bar> \<le> ks_TimeWindow (knock_server_defaults demo_knock_config)"
    "ks_Clients demo_knock_config = [\<lparr>cs_ClientID = ''b'', cs_Secret = replicate 16 9\<rparr>] @
       \<lparr>cs_ClientID = ko_ClientID ?o, cs_Secret = ko_Secret ?o\<rparr> # []"
    "\<forall>c \<in> set [\<lparr>cs_ClientID = ''b'', cs_Secret = replicate 16 9\<rparr>].
       ComputeKnockKeyHint demo_crypto (cs_Secret c) demo_nonce (ks_ServerPort demo_knock_config) \<noteq>
       ComputeKnockKeyHint demo_crypto (ko_Secret ?o) demo_nonce (ks_ServerPort demo_knock_config)"
    "hasReplayCache demo_replay" "ko_ClientID ?o = ''a''" "ko_SequenceTotal ?o > 0" "ko_SequenceIndex ?o = 1"
    by code_simp+
  have n: "length n = KnockNonceBytes" if "Inr demo_nonce = (Inr n :: bytes result)" for n
    using that by (auto simp: demo_nonce_def KnockNonceBytes_def)
  have nonce: "demo_nonce = take KnockNonceBytes packet" using p(2) by (simp add: KnockNonceBytes_def)
  from knock_build_open [OF crypto_ok_demo_crypto p(1) [unfolded demo_knock_packet_def] side(1) n refl side(2,3) side(4)
      side(5,6) nonce side(7,8,9) r [folded side(10)]]
  show ?thesis using p(1) side(10-12) by auto
qed

end
