(* ===== verification/Knock_Sequence.thy ===== *)
theory Knock_Sequence
  imports Knock_Frame Net_Addr
begin

text \<open>
  Package knock: UDP knock sequences (udp_seq.go, sequence.go). The tracker collects the parts
  of a sequence per source, client and sequence and reports completion once. Its two Go maps are
  association lists, whose order stands for the order of a \<open>range\<close> loop; the completed
  sequences are the cache of \<open>TTL_LRU\<close>.
\<close>

section \<open>Options\<close>

record SequenceOptions =
  so_Length :: int
  so_SlotSeconds :: int
  so_Window :: duration
  so_PacketInterval :: duration
  so_MaxJitter :: duration
  so_MaxInflightPerIP :: int
  so_MaxTotalInflight :: int
  so_AllowLegacySYNSeq :: bool

definition normalizedSequenceOptions :: "SequenceOptions \<Rightarrow> SequenceOptions" where
  "normalizedSequenceOptions opts =
     (let opts = (if so_Length opts = 0 then opts\<lparr>so_Length := 3\<rparr> else opts);
          opts = (if so_SlotSeconds opts = 0 then opts\<lparr>so_SlotSeconds := 30\<rparr> else opts);
          opts = (if so_Window opts \<le> 0 then opts\<lparr>so_Window := 10 * second\<rparr> else opts);
          opts = (if so_PacketInterval opts \<le> 0 then opts\<lparr>so_PacketInterval := 80 * millisecond\<rparr> else opts);
          opts = (if so_MaxInflightPerIP opts = 0 then opts\<lparr>so_MaxInflightPerIP := 8\<rparr> else opts)
      in if so_MaxTotalInflight opts = 0 then opts\<lparr>so_MaxTotalInflight := 4096\<rparr> else opts)"

section \<open>The tracker\<close>

record seqState =
  st_firstSeen :: time
  st_lastSeen :: time
  st_parts :: "bool list"
  st_sessionID :: bytes
  st_total :: int

record sequenceTracker =
  sq_opts :: SequenceOptions
  sq_states :: "(string \<times> seqState) list"
  sq_perIP :: "(string \<times> int) list"
  sq_total :: int
  sq_completed :: "(string, unit) TTLLRU"
  sq_nonceTT :: duration

definition newSequenceTracker :: "SequenceOptions \<Rightarrow> duration \<Rightarrow> sequenceTracker" where
  "newSequenceTracker opts0 nonceTTL =
     (let opts = normalizedSequenceOptions opts0
      in \<lparr>sq_opts = opts, sq_states = [], sq_perIP = [], sq_total = 0,
          sq_completed = NewTTLLRU (so_MaxTotalInflight opts),
          sq_nonceTT = (if nonceTTL \<le> so_Window opts then 2 * minute else nonceTTL)\<rparr>)"

text \<open>Indexing a Go map of ints: an absent key counts zero.\<close>

definition ip_count :: "(string \<times> int) list \<Rightarrow> string \<Rightarrow> int" where
  "ip_count m ip = (case map_of m ip of None \<Rightarrow> 0 | Some n \<Rightarrow> n)"

text \<open>\<open>net.IP.String\<close>.\<close>

definition IP_String :: "bytes \<Rightarrow> string" where
  "IP_String ip = (if ip = [] then ''<nil>'' else ipEmptyString ip)"

definition sequenceStateKey :: "bytes \<Rightarrow> KnockInfo \<Rightarrow> string" where
  "sequenceStateKey src info =
     IP_String src @ [CHR 0x00] @ ki_ClientID info @ [CHR 0x00] @ hex_EncodeToString (ki_SequenceID info) @ [CHR 0x00] @
     Itoa (ki_ServerPort info) @ [CHR 0x00] @ ki_Method info"

text \<open>The loop of \<open>splitStateKey\<close>, with the part read so far.\<close>

fun split_key_walk :: "string \<Rightarrow> string \<Rightarrow> string list" where
  "split_key_walk cur [] = [cur]"
| "split_key_walk cur (c # cs) =
     (if c = CHR 0x00 then cur # split_key_walk [] cs else split_key_walk (cur @ [c]) cs)"

definition splitStateKey :: "string \<Rightarrow> string list" where
  "splitStateKey key = split_key_walk [] key"

definition markCompletedLocked :: "string \<Rightarrow> time \<Rightarrow> sequenceTracker \<Rightarrow> sequenceTracker" where
  "markCompletedLocked key now t =
     (let t = (if lru_Len (sq_completed t) \<ge> so_MaxTotalInflight (sq_opts t)
               then t\<lparr>sq_completed := snd (lru_Sweep now (sq_completed t))\<rparr> else t)
      in if lru_Len (sq_completed t) < so_MaxTotalInflight (sq_opts t)
         then t\<lparr>sq_completed := SetUntil key () (now + sq_nonceTT t) (sq_completed t)\<rparr> else t)"

definition seq_removeLocked :: "string \<Rightarrow> string \<Rightarrow> sequenceTracker \<Rightarrow> sequenceTracker" where
  "seq_removeLocked key ip t =
     (let t = t\<lparr>sq_states := AList.delete key (sq_states t)\<rparr>;
          t = (if ip_count (sq_perIP t) ip > 0
               then t\<lparr>sq_perIP := AList.update ip (ip_count (sq_perIP t) ip - 1) (sq_perIP t)\<rparr> else t)
      in if sq_total t > 0 then t\<lparr>sq_total := sq_total t - 1\<rparr> else t)"

fun seq_prune_walk :: "time \<Rightarrow> (string \<times> seqState) list \<Rightarrow> sequenceTracker \<Rightarrow> sequenceTracker" where
  "seq_prune_walk now [] t = t"
| "seq_prune_walk now ((key, state) # rest) t =
     (if time_Sub now (st_firstSeen state) > so_Window (sq_opts t) then
        (case splitStateKey key of
           [] \<Rightarrow> seq_prune_walk now rest t
         | ip # _ \<Rightarrow> seq_prune_walk now rest (seq_removeLocked key ip (markCompletedLocked key now t)))
      else seq_prune_walk now rest t)"

definition seq_pruneLocked :: "time \<Rightarrow> sequenceTracker \<Rightarrow> sequenceTracker" where
  "seq_pruneLocked now t =
     (let t = seq_prune_walk now (sq_states t) t
      in t\<lparr>sq_completed := snd (lru_Sweep now (sq_completed t))\<rparr>)"

text \<open>The part of \<open>add\<close> behind the lookup: the window, the session and the part itself.\<close>

definition seq_add_part ::
    "string \<Rightarrow> string \<Rightarrow> KnockInfo \<Rightarrow> time \<Rightarrow> seqState \<Rightarrow> sequenceTracker \<Rightarrow> bool result \<times> sequenceTracker" where
  "seq_add_part key ip info now state t =
     (if time_Sub now (st_firstSeen state) > so_Window (sq_opts t)
      then (Inl (Errorf ''sequence_timeout''), seq_removeLocked key ip t)
      else if st_total state \<noteq> ki_SequenceTotal info \<or> st_sessionID state \<noteq> ki_SessionID info then (Inl AuthErrAuthFailed, t)
      else if st_parts state ! nat (ki_SequenceIndex info) then (Inl (Errorf ''duplicate_part''), t)
      else
        let state = state\<lparr>st_parts := (st_parts state)[nat (ki_SequenceIndex info) := True], st_lastSeen := now\<rparr>;
            t = t\<lparr>sq_states := AList.update key state (sq_states t)\<rparr>
        in if \<not> list_all (\<lambda>seen. seen) (st_parts state) then (Inr False, t)
           else (Inr True, seq_removeLocked key ip (markCompletedLocked key now t)))"

definition seq_add :: "bytes \<Rightarrow> KnockInfo option \<Rightarrow> time \<Rightarrow> sequenceTracker \<Rightarrow> bool result \<times> sequenceTracker" where
  "seq_add src infop now t =
     (case infop of None \<Rightarrow> (Inl AuthErrInvalidFrame, t) | Some info \<Rightarrow>
      if ki_FrameType info \<noteq> KnockFrameTypeUDPSequence then (Inl AuthErrInvalidFrame, t)
      else
        let t = seq_pruneLocked now t
        in if ki_SequenceTotal info \<noteq> so_Length (sq_opts t) \<or>
              sequence_out_of_range (ki_SequenceTotal info) (ki_SequenceIndex info)
           then (Inl (Errorf ''invalid udp sequence index or total''), t)
           else
             let key = sequenceStateKey src info;
                 ip = IP_String src;
                 (done, completed) = GetAt key now (sq_completed t);
                 t = t\<lparr>sq_completed := completed\<rparr>
             in if done \<noteq> None then (Inl AuthErrReplayDetected, t)
                else case map_of (sq_states t) key of
                  Some state \<Rightarrow> seq_add_part key ip info now state t
                | None \<Rightarrow>
                    if ip_count (sq_perIP t) ip \<ge> so_MaxInflightPerIP (sq_opts t)
                    then (Inl (Errorf ''sequence_inflight_per_ip_exceeded''), t)
                    else if sq_total t \<ge> so_MaxTotalInflight (sq_opts t)
                    then (Inl (Errorf ''sequence_inflight_total_exceeded''), t)
                    else
                      let state = \<lparr>st_firstSeen = now, st_lastSeen = zero_time,
                             st_parts = replicate (nat (ki_SequenceTotal info)) False,
                             st_sessionID = ki_SessionID info, st_total = ki_SequenceTotal info\<rparr>;
                          t = t\<lparr>sq_states := AList.update key state (sq_states t),
                                sq_perIP := AList.update ip (ip_count (sq_perIP t) ip + 1) (sq_perIP t),
                                sq_total := sq_total t + 1\<rparr>
                      in seq_add_part key ip info now state t)"


section \<open>Keys\<close>

definition key_ip :: "string \<Rightarrow> string" where
  "key_ip key = takeWhile (\<lambda>c. c \<noteq> CHR 0x00) key"

lemma split_key_walk_Cons: "\<exists>rest. split_key_walk cur key = (cur @ key_ip key) # rest"
  by (induction cur key rule: split_key_walk.induct) (auto simp: key_ip_def)

lemma splitStateKey_Cons: "\<exists>rest. splitStateKey key = key_ip key # rest"
  using split_key_walk_Cons [of "[]" key] by (simp add: splitStateKey_def)

text \<open>No address text contains a NUL.\<close>

abbreviation "nul_free s \<equiv> CHR 0x00 \<notin> set s"

lemma nul_free_Itoa [simp]: "nul_free (Itoa n)"
  using Itoa_chars by (force simp: digit_val_def)

lemma hex_digit_nul: "n < 16 \<Longrightarrow> Net_Addr.hex_digit n \<noteq> CHR 0x00"
  using nth_mem [of n "''0123456789abcdef''"] unfolding Net_Addr.hex_digit_def by auto

lemma nibble_bound: "unat ((w :: 'a::len word) AND 15) < 16" "unat (drop_bit 4 (b :: byte)) < 16"
proof -
  have "w AND 15 = take_bit 4 w" by (simp add: take_bit_eq_mask mask_numeral)
  then have "unat (w AND 15) = take_bit 4 (unat w)" by (simp only: unsigned_take_bit_eq)
  then show "unat (w AND 15) < 16" using take_bit_nat_less_exp [of 4 "unat w"] by simp
next
  have "unat (drop_bit 4 b) = drop_bit 4 (unat b)" by (rule unat_drop_bit_eq)
  also have "\<dots> = unat b div 16" by (simp add: drop_bit_eq_div)
  finally show "unat (drop_bit 4 b) < 16" using unat_byte_less [of b] by linarith
qed

lemma nul_free_join: "(\<And>x. x \<in> set xs \<Longrightarrow> nul_free x) \<Longrightarrow> nul_free (join_colon xs)"
  by (induction xs rule: join_colon.induct) auto

lemma nul_free_group_hex: "nul_free (group_hex w)"
proof -
  let ?ds = "map (\<lambda>k. Net_Addr.hex_digit (unat ((drop_bit k w) AND 15))) [12, 8, 4, 0]"
  have "nul_free ?ds" using hex_digit_nul [OF nibble_bound(1)] by (force simp: eq_commute [of "CHR 0x00"])
  then have "nul_free (dropWhile (\<lambda>c. c = CHR ''0'') ?ds)" using set_dropWhileD by metis
  then show ?thesis by (auto simp: group_hex_def Let_def)
qed

lemma nul_free_v6: "nul_free (v6_string b)"
proof -
  have j: "nul_free (join_colon (map group_hex gs))" for gs
    by (rule nul_free_join) (auto simp: nul_free_group_hex)
  show ?thesis by (auto simp: v6_string_def Let_def j split: option.splits prod.splits)
qed

lemma nul_free_addr: "nul_free (addr_string (Unmap a))" if "AddrFromSlice ip = Some a"
  using that nul_free_v6
  by (auto simp: AddrFromSlice_def v4_string_def split: if_splits)

lemma nul_free_IP_String [simp]: "nul_free (IP_String ip)"
proof -
  have "nul_free (byte_hex b)" for b
    using hex_digit_nul [OF nibble_bound(1)] hex_digit_nul [OF nibble_bound(2)] by (simp add: byte_hex_def eq_commute [of "CHR 0x00"])
  then show ?thesis
    by (auto simp: IP_String_def ipEmptyString_def nul_free_addr split: option.splits)
qed

lemma key_ip_sequenceStateKey [simp]: "key_ip (sequenceStateKey src info) = IP_String src"
  unfolding key_ip_def sequenceStateKey_def by (subst takeWhile_append2) (use nul_free_IP_String in auto)

lemma Itoa_inj: "- 9223372036854775808 \<le> n \<Longrightarrow> n \<le> 9223372036854775807 \<Longrightarrow>
  - 9223372036854775808 \<le> m \<Longrightarrow> m \<le> 9223372036854775807 \<Longrightarrow> Itoa n = Itoa m \<longleftrightarrow> n = m"
  by (metis Atoi_Itoa option.inject)

text \<open>A key determines the source and everything that identifies the sequence.\<close>

lemma sequenceStateKey_inj:
  assumes "sequenceStateKey src info = sequenceStateKey src' info'" "nul_free (ki_ClientID info)" "nul_free (ki_ClientID info')"
    "\<bar>ki_ServerPort info\<bar> \<le> 65535" "\<bar>ki_ServerPort info'\<bar> \<le> 65535"
  shows "IP_String src = IP_String src' \<and> ki_ClientID info = ki_ClientID info' \<and> ki_SequenceID info = ki_SequenceID info' \<and>
    ki_ServerPort info = ki_ServerPort info' \<and> ki_Method info = ki_Method info'"
  using assms by (simp add: sequenceStateKey_def split_at_first hex_no_zero hex_inj Itoa_inj)


section \<open>The invariant\<close>

definition states_of_ip :: "string \<Rightarrow> sequenceTracker \<Rightarrow> nat" where
  "states_of_ip ip t = length (filter (\<lambda>k. key_ip k = ip) (map fst (sq_states t)))"

definition tracker_inv :: "sequenceTracker \<Rightarrow> bool" where
  "tracker_inv t \<longleftrightarrow> distinct (map fst (sq_states t)) \<and> sq_total t = int (length (sq_states t)) \<and>
     (\<forall>ip. ip_count (sq_perIP t) ip = int (states_of_ip ip t)) \<and>
     (\<forall>k st. map_of (sq_states t) k = Some st \<longrightarrow> length (st_parts st) = nat (st_total st)) \<and>
     lru_ok (sq_completed t) \<and> maxEntries (sq_completed t) = max 1 (so_MaxTotalInflight (sq_opts t))"

definition tracker_bounded :: "sequenceTracker \<Rightarrow> bool" where
  "tracker_bounded t \<longleftrightarrow> sq_total t \<le> max 0 (so_MaxTotalInflight (sq_opts t)) \<and>
     (\<forall>ip. int (states_of_ip ip t) \<le> max 0 (so_MaxInflightPerIP (sq_opts t)))"

lemma length_filter_removeAll:
  "distinct ks \<Longrightarrow> k \<in> set ks \<Longrightarrow>
     length (filter P ks) = length (filter P (removeAll k ks)) + (if P k then 1 else 0)"
proof (induction ks)
  case (Cons a ks)
  then show ?case by (cases "a = k") auto
qed simp

lemma length_removeAll: "distinct ks \<Longrightarrow> k \<in> set ks \<Longrightarrow> length ks = Suc (length (removeAll k ks))"
  using length_filter_removeAll [of ks k "\<lambda>_. True"] by simp

lemma ip_count_update: "ip_count (AList.update ip n m) ip' = (if ip' = ip then n else ip_count m ip')"
  by (simp add: ip_count_def AList.update_conv')

lemma markCompletedLocked_sel [simp]:
  "sq_opts (markCompletedLocked key now t) = sq_opts t" "sq_states (markCompletedLocked key now t) = sq_states t"
  "sq_perIP (markCompletedLocked key now t) = sq_perIP t" "sq_total (markCompletedLocked key now t) = sq_total t"
  "sq_nonceTT (markCompletedLocked key now t) = sq_nonceTT t"
  by (simp_all add: markCompletedLocked_def Let_def)

lemma markCompletedLocked_completed:
  fixes key k :: string and now :: time
  assumes "lru_ok (sq_completed t)" "maxEntries (sq_completed t) = max 1 (so_MaxTotalInflight (sq_opts t))"
  defines "c \<equiv> sq_completed (markCompletedLocked key now t)"
  shows "lru_ok c" "maxEntries c = maxEntries (sq_completed t)"
    "k \<noteq> key \<Longrightarrow> unexpired now (expiry c k) \<Longrightarrow> unexpired now (expiry (sq_completed t) k)"
proof -
  let ?s = "snd (lru_Sweep now (sq_completed t))"
  let ?m = "so_MaxTotalInflight (sq_opts t)"
  define c0 where "c0 = (if lru_Len (sq_completed t) \<ge> ?m then ?s else sq_completed t)"
  have c0: "lru_ok c0" "maxEntries c0 = maxEntries (sq_completed t)"
    "unexpired now (expiry c0 k) \<Longrightarrow> unexpired now (expiry (sq_completed t) k)"
    using expiry_sweep [OF assms(1)] by (auto simp: c0_def assms(1) split: if_splits)
  have c: "c = (if lru_Len c0 < ?m then SetUntil key () (now + sq_nonceTT t) c0 else c0)"
    by (simp add: c_def c0_def markCompletedLocked_def Let_def)
  have e: "expiry (setLocked key () u c0) = (expiry c0)(key \<mapsto> u)" if "lru_Len c0 < ?m" for u
    using that assms(2) c0 by (intro expiry_setLocked) (auto simp: lru_Cap_def)
  show "lru_ok c" "maxEntries c = maxEntries (sq_completed t)"
    using c0 by (auto simp: c SetUntil_def lru_ok_setLocked maxEntries_setLocked)
  show "k \<noteq> key \<Longrightarrow> unexpired now (expiry c k) \<Longrightarrow> unexpired now (expiry (sq_completed t) k)"
    using c0(3) e by (auto simp: c SetUntil_def split: if_splits)
qed

lemma tracker_inv_mark: "tracker_inv t \<Longrightarrow> tracker_inv (markCompletedLocked key now t)"
  using markCompletedLocked_completed(1,2) [of t key now] by (auto simp: tracker_inv_def states_of_ip_def)

lemma seq_removeLocked_sel [simp]:
  "sq_opts (seq_removeLocked key ip t) = sq_opts t" "sq_states (seq_removeLocked key ip t) = AList.delete key (sq_states t)"
  "sq_completed (seq_removeLocked key ip t) = sq_completed t" "sq_nonceTT (seq_removeLocked key ip t) = sq_nonceTT t"
  "sq_total (seq_removeLocked key ip t) = (if sq_total t > 0 then sq_total t - 1 else sq_total t)"
  by (simp_all add: seq_removeLocked_def Let_def)

lemma ip_count_remove:
  "ip_count (sq_perIP (seq_removeLocked key ip t)) ip' =
     (if ip' = ip \<and> ip_count (sq_perIP t) ip > 0 then ip_count (sq_perIP t) ip - 1 else ip_count (sq_perIP t) ip')"
  by (simp add: seq_removeLocked_def Let_def ip_count_update)

lemma remove_counts:
  assumes "tracker_inv t" "map_of (sq_states t) key = Some st" "ip = key_ip key"
  shows "length (sq_states t) = Suc (length (sq_states (seq_removeLocked key ip t)))"
    "states_of_ip ip' t = states_of_ip ip' (seq_removeLocked key ip t) + (if ip' = ip then 1 else 0)"
proof -
  have k: "distinct (map fst (sq_states t))" "key \<in> set (map fst (sq_states t))"
    using assms by (auto simp: tracker_inv_def dest: map_of_SomeD intro: rev_image_eqI)
  show "length (sq_states t) = Suc (length (sq_states (seq_removeLocked key ip t)))"
    using length_removeAll [OF k] by (simp flip: AList.delete_keys)
  show "states_of_ip ip' t = states_of_ip ip' (seq_removeLocked key ip t) + (if ip' = ip then 1 else 0)"
    using length_filter_removeAll [OF k, of "\<lambda>k. key_ip k = ip'"] assms(3)
    by (auto simp: states_of_ip_def AList.delete_keys)
qed

lemma tracker_inv_remove:
  assumes "tracker_inv t" "map_of (sq_states t) key = Some st" "ip = key_ip key"
  shows "tracker_inv (seq_removeLocked key ip t)"
proof -
  note c = remove_counts [OF assms]
  have "ip_count (sq_perIP t) ip' = int (states_of_ip ip' t)" for ip' using assms(1) by (simp add: tracker_inv_def)
  then have "ip_count (sq_perIP (seq_removeLocked key ip t)) ip' = int (states_of_ip ip' (seq_removeLocked key ip t))" for ip'
    using c(2) [of ip'] by (auto simp: ip_count_remove)
  then show ?thesis
    using assms(1) c(1) by (simp add: tracker_inv_def AList.distinct_delete AList.delete_conv')
qed


section \<open>Pruning\<close>

definition seq_live :: "time \<Rightarrow> SequenceOptions \<Rightarrow> seqState option \<Rightarrow> seqState option" where
  "seq_live now opts x = (case x of None \<Rightarrow> None
     | Some st \<Rightarrow> if time_Sub now (st_firstSeen st) > so_Window opts then None else Some st)"

text \<open>What pruning may do to a tracker: it keeps the invariant and only forgets.\<close>

definition seq_pruned :: "time \<Rightarrow> string set \<Rightarrow> sequenceTracker \<Rightarrow> sequenceTracker \<Rightarrow> bool" where
  "seq_pruned now ks t t' \<longleftrightarrow> tracker_inv t' \<and> sq_opts t' = sq_opts t \<and> sq_nonceTT t' = sq_nonceTT t \<and>
     (\<forall>k. map_of (sq_states t') k =
        (if k \<in> ks then seq_live now (sq_opts t) (map_of (sq_states t) k) else map_of (sq_states t) k)) \<and>
     (\<forall>k. (k \<in> ks \<longrightarrow> seq_live now (sq_opts t) (map_of (sq_states t) k) \<noteq> None) \<longrightarrow>
        unexpired now (expiry (sq_completed t') k) \<longrightarrow> unexpired now (expiry (sq_completed t) k)) \<and>
     length (sq_states t') \<le> length (sq_states t) \<and> (\<forall>ip. states_of_ip ip t' \<le> states_of_ip ip t)"

lemma seq_prune_walk_pruned:
  assumes "tracker_inv t" "distinct (map fst rest)" "\<forall>(k, st) \<in> set rest. map_of (sq_states t) k = Some st"
  shows "seq_pruned now (fst ` set rest) t (seq_prune_walk now rest t)"
  using assms
proof (induction rest arbitrary: t)
  case Nil
  then show ?case by (simp add: seq_pruned_def)
next
  case (Cons e rest)
  obtain key st where e: "e = (key, st)" by (cases e)
  have here: "map_of (sq_states t) key = Some st" and fresh: "key \<notin> fst ` set rest" using Cons.prems by (auto simp: e)
  show ?case
  proof (cases "time_Sub now (st_firstSeen st) > so_Window (sq_opts t)")
    case False
    have "seq_pruned now (fst ` set rest) t (seq_prune_walk now rest t)"
      using Cons.prems by (intro Cons.IH) auto
    moreover have "seq_live now (sq_opts t) (map_of (sq_states t) key) = map_of (sq_states t) key"
      using False here by (simp add: seq_live_def)
    ultimately show ?thesis using False fresh here by (auto simp: e seq_pruned_def)
  next
    case True
    let ?m = "markCompletedLocked key now t"
    let ?t = "seq_removeLocked key (key_ip key) ?m"
    obtain more' where "splitStateKey key = key_ip key # more'" using splitStateKey_Cons by blast
    then have walk: "seq_prune_walk now (e # rest) t = seq_prune_walk now rest ?t" using True by (simp add: e)
    have m: "tracker_inv ?m" "map_of (sq_states ?m) key = Some st"
      using Cons.prems(1) here by (simp_all add: tracker_inv_mark)
    have "\<forall>(k, st) \<in> set rest. map_of (sq_states ?t) k = Some st"
    proof clarify
      fix k s assume "(k, s) \<in> set rest"
      then have "k \<noteq> key" "map_of (sq_states t) k = Some s" using Cons.prems(3) fresh by (auto simp: rev_image_eqI)
      then show "map_of (sq_states ?t) k = Some s" by (simp add: AList.delete_conv')
    qed
    then have IH: "seq_pruned now (fst ` set rest) ?t (seq_prune_walk now rest ?t)"
      using Cons.prems(2) tracker_inv_remove [OF m refl] by (intro Cons.IH) (auto simp: e)
    note c = remove_counts [OF m refl]
    have compl: "unexpired now (expiry (sq_completed ?t) k) \<Longrightarrow> k \<noteq> key \<Longrightarrow> unexpired now (expiry (sq_completed t) k)" for k
      using markCompletedLocked_completed(3) [of t k key now] Cons.prems(1) by (simp add: tracker_inv_def)
    have gone: "seq_live now (sq_opts t) (map_of (sq_states t) key) = None"
      using True here by (simp add: seq_live_def)
    have ips: "states_of_ip ip ?m = states_of_ip ip t" for ip by (simp add: states_of_ip_def)
    have ips': "states_of_ip ip (seq_prune_walk now rest ?t) \<le> states_of_ip ip t" for ip
    proof -
      have "states_of_ip ip (seq_prune_walk now rest ?t) \<le> states_of_ip ip ?t" using IH by (simp add: seq_pruned_def)
      then show ?thesis using c(2) [of ip] ips [of ip] by simp
    qed
    have lens: "length (sq_states (seq_prune_walk now rest ?t)) \<le> length (sq_states t)"
    proof -
      have "length (sq_states (seq_prune_walk now rest ?t)) \<le> length (sq_states ?t)" using IH by (simp add: seq_pruned_def)
      then show ?thesis using c(1) by simp
    qed
    have keep: "map_of (sq_states ?t) k = map_of (sq_states t) k" if "k \<noteq> key" for k
      using that by (simp add: AList.delete_conv')
    have "unexpired now (expiry (sq_completed t) k)"
      if k: "k \<in> fst ` set (e # rest) \<longrightarrow> seq_live now (sq_opts t) (map_of (sq_states t) k) \<noteq> None"
        and u: "unexpired now (expiry (sq_completed (seq_prune_walk now rest ?t)) k)" for k
    proof -
      have "k \<noteq> key" using k gone by (auto simp: e)
      moreover have "unexpired now (expiry (sq_completed ?t) k)"
        using IH k u keep [OF \<open>k \<noteq> key\<close>] by (simp add: seq_pruned_def)
      ultimately show ?thesis using compl by blast
    qed
    then show ?thesis
      unfolding walk seq_pruned_def
      using IH gone fresh ips' lens
      by (simp add: seq_pruned_def e AList.delete_conv')
  qed
qed

lemma seq_pruneLocked_pruned:
  assumes "tracker_inv t"
  shows "seq_pruned now (fst ` set (sq_states t)) t (seq_pruneLocked now t)"
proof -
  let ?w = "seq_prune_walk now (sq_states t) t"
  have w: "seq_pruned now (fst ` set (sq_states t)) t ?w"
    using assms by (intro seq_prune_walk_pruned) (auto simp: tracker_inv_def)
  then have ok: "lru_ok (sq_completed ?w)" by (simp add: seq_pruned_def tracker_inv_def)
  show ?thesis
    using w expiry_sweep [OF ok, of now]
    by (auto simp: seq_pruneLocked_def Let_def seq_pruned_def tracker_inv_def states_of_ip_def split: if_splits)
qed

lemma seq_pruneLocked_facts:
  assumes "tracker_inv t"
  shows "tracker_inv (seq_pruneLocked now t)" "sq_opts (seq_pruneLocked now t) = sq_opts t"
    "map_of (sq_states (seq_pruneLocked now t)) k = seq_live now (sq_opts t) (map_of (sq_states t) k)"
    "map_of (sq_states t) k = None \<or> seq_live now (sq_opts t) (map_of (sq_states t) k) \<noteq> None \<Longrightarrow>
       unexpired now (expiry (sq_completed (seq_pruneLocked now t)) k) \<Longrightarrow> unexpired now (expiry (sq_completed t) k)"
    "tracker_bounded t \<Longrightarrow> tracker_bounded (seq_pruneLocked now t)"
    "sq_nonceTT (seq_pruneLocked now t) = sq_nonceTT t"
proof -
  note p = seq_pruneLocked_pruned [OF assms, of now, unfolded seq_pruned_def]
  show "tracker_inv (seq_pruneLocked now t)" "sq_opts (seq_pruneLocked now t) = sq_opts t"
    "sq_nonceTT (seq_pruneLocked now t) = sq_nonceTT t"
    using p by auto
  have k: "k \<in> fst ` set (sq_states t) \<longleftrightarrow> map_of (sq_states t) k \<noteq> None" by (auto simp: map_of_eq_None_iff)
  show "map_of (sq_states (seq_pruneLocked now t)) k = seq_live now (sq_opts t) (map_of (sq_states t) k)"
    using p k by (auto simp: seq_live_def)
  show "map_of (sq_states t) k = None \<or> seq_live now (sq_opts t) (map_of (sq_states t) k) \<noteq> None \<Longrightarrow>
       unexpired now (expiry (sq_completed (seq_pruneLocked now t)) k) \<Longrightarrow> unexpired now (expiry (sq_completed t) k)"
    using p k by metis
  show "tracker_bounded (seq_pruneLocked now t)" if b: "tracker_bounded t"
  proof -
    have "sq_total (seq_pruneLocked now t) = int (length (sq_states (seq_pruneLocked now t)))" "sq_total t = int (length (sq_states t))"
      using p assms by (auto simp: tracker_inv_def)
    then have "sq_total (seq_pruneLocked now t) \<le> sq_total t" using p by simp
    moreover have "int (states_of_ip ip (seq_pruneLocked now t)) \<le> max 0 (so_MaxInflightPerIP (sq_opts t))" for ip
    proof -
      have "int (states_of_ip ip (seq_pruneLocked now t)) \<le> int (states_of_ip ip t)" using p by simp
      then show ?thesis using b unfolding tracker_bounded_def by (meson order_trans)
    qed
    ultimately show ?thesis using p b by (auto simp: tracker_bounded_def)
  qed
qed


section \<open>Adding a part\<close>

lemma seq_live_Some: "seq_live now opts x = Some st \<longleftrightarrow> x = Some st \<and> \<not> time_Sub now (st_firstSeen st) > so_Window opts"
  by (auto simp: seq_live_def split: option.splits)

lemma tracker_inv_insert:
  assumes "tracker_inv t" "map_of (sq_states t) key = None" "length (st_parts st) = nat (st_total st)" "ip = key_ip key"
  defines "t' \<equiv> t\<lparr>sq_states := AList.update key st (sq_states t),
                   sq_perIP := AList.update ip (ip_count (sq_perIP t) ip + 1) (sq_perIP t), sq_total := sq_total t + 1\<rparr>"
  shows "tracker_inv t'" "states_of_ip ip' t' = states_of_ip ip' t + (if ip' = ip then 1 else 0)"
proof -
  have k: "key \<notin> set (map fst (sq_states t))" using assms(2) by (simp add: map_of_eq_None_iff)
  then have keys: "map fst (sq_states t') = map fst (sq_states t) @ [key]"
    by (simp add: t'_def AList.update_keys)
  show ips: "states_of_ip ip' t' = states_of_ip ip' t + (if ip' = ip then 1 else 0)" for ip'
    using assms(4) unfolding states_of_ip_def keys by auto
  have "length (sq_states t') = Suc (length (sq_states t))" using keys by (metis length_append_singleton length_map)
  moreover have "ip_count (sq_perIP t') ip' = int (states_of_ip ip' t')" for ip'
    using assms(1) unfolding ips by (simp add: t'_def ip_count_update tracker_inv_def)
  moreover have "distinct (map fst (sq_states t'))" using assms(1) k unfolding keys by (simp add: tracker_inv_def)
  ultimately show "tracker_inv t'"
    using assms(1,3) by (auto simp: tracker_inv_def t'_def AList.update_conv')
qed

lemma tracker_inv_modify:
  assumes "tracker_inv t" "map_of (sq_states t) key = Some st" "length (st_parts st') = nat (st_total st')"
  defines "t' \<equiv> t\<lparr>sq_states := AList.update key st' (sq_states t)\<rparr>"
  shows "tracker_inv t'" "states_of_ip ip t' = states_of_ip ip t"
proof -
  have "key \<in> set (map fst (sq_states t))" using assms(2) by (auto dest: map_of_SomeD intro: rev_image_eqI)
  then have keys: "map fst (sq_states t') = map fst (sq_states t)" by (simp add: t'_def AList.update_keys)
  then have len: "length (sq_states t') = length (sq_states t)" by (metis length_map)
  show ips: "states_of_ip ip t' = states_of_ip ip t" for ip unfolding states_of_ip_def keys ..
  have "distinct (map fst (sq_states t'))" using assms(1) unfolding keys by (simp add: tracker_inv_def)
  then show "tracker_inv t'"
    using assms(1,3) len ips by (auto simp: tracker_inv_def t'_def AList.update_conv')
qed

lemma tracker_bounded_remove:
  assumes "tracker_inv t" "map_of (sq_states t) key = Some st" "ip = key_ip key" "tracker_bounded t"
  shows "tracker_bounded (seq_removeLocked key ip t)"
proof -
  have "int (states_of_ip ip' (seq_removeLocked key ip t)) \<le> max 0 (so_MaxInflightPerIP (sq_opts t))" for ip'
    using remove_counts(2) [OF assms(1-3), of ip'] assms(4) unfolding tracker_bounded_def by (smt (verit) of_nat_add of_nat_0_le_iff)
  then show ?thesis using assms(4) by (simp add: tracker_bounded_def)
qed

text \<open>
  \<open>seq_add_part\<close> either refuses the part, forgetting the sequence at most, or records it; it
  reports completion exactly when the recorded part was the last one missing.
\<close>

lemma seq_add_part_cases:
  assumes inv: "tracker_inv t" and st: "map_of (sq_states t) key = Some st" and ip: "ip = key_ip key"
    and idx: "0 \<le> ki_SequenceIndex info" "ki_SequenceIndex info < ki_SequenceTotal info"
    and run: "seq_add_part key ip info now st t = (r, t')"
  defines "st' \<equiv> st\<lparr>st_parts := (st_parts st)[nat (ki_SequenceIndex info) := True], st_lastSeen := now\<rparr>"
  shows "tracker_inv t' \<and> sq_opts t' = sq_opts t \<and> (tracker_bounded t \<longrightarrow> tracker_bounded t') \<and>
    (\<forall>k. k \<noteq> key \<longrightarrow> map_of (sq_states t') k = map_of (sq_states t) k) \<and>
    (case r of Inl _ \<Rightarrow> map_of (sq_states t') key \<in> {None, Some st}
     | Inr done \<Rightarrow> \<not> time_Sub now (st_firstSeen st) > so_Window (sq_opts t) \<and> st_total st = ki_SequenceTotal info \<and>
         st_sessionID st = ki_SessionID info \<and> \<not> st_parts st ! nat (ki_SequenceIndex info) \<and>
         done = list_all (\<lambda>b. b) (st_parts st') \<and>
         map_of (sq_states t') key = (if done then None else Some st') \<and> (\<not> done \<longrightarrow> sq_completed t' = sq_completed t))"
proof -
  have len: "length (st_parts st') = nat (st_total st')" using inv st by (simp add: st'_def tracker_inv_def)
  let ?m = "t\<lparr>sq_states := AList.update key st' (sq_states t)\<rparr>"
  note m = tracker_inv_modify [OF inv st len]
  have mb: "tracker_bounded t \<Longrightarrow> tracker_bounded ?m" using m(2) by (simp add: tracker_bounded_def)
  let ?c = "markCompletedLocked key now ?m"
  have c: "tracker_inv ?c" "map_of (sq_states ?c) key = Some st'" "tracker_bounded ?m \<Longrightarrow> tracker_bounded ?c"
    using tracker_inv_mark [OF m(1)] by (simp_all add: AList.update_conv' tracker_bounded_def states_of_ip_def)
  consider (timeout) "time_Sub now (st_firstSeen st) > so_Window (sq_opts t)" "r = Inl (Errorf ''sequence_timeout'')"
      "t' = seq_removeLocked key ip t"
    | (refused) e where "r = Inl e" "t' = t"
    | (kept) "\<not> time_Sub now (st_firstSeen st) > so_Window (sq_opts t)" "st_total st = ki_SequenceTotal info"
      "st_sessionID st = ki_SessionID info" "\<not> st_parts st ! nat (ki_SequenceIndex info)"
      "\<not> list_all (\<lambda>b. b) (st_parts st')" "r = Inr False" "t' = ?m"
    | (complete) "\<not> time_Sub now (st_firstSeen st) > so_Window (sq_opts t)" "st_total st = ki_SequenceTotal info"
      "st_sessionID st = ki_SessionID info" "\<not> st_parts st ! nat (ki_SequenceIndex info)"
      "list_all (\<lambda>b. b) (st_parts st')" "r = Inr True" "t' = seq_removeLocked key ip ?c"
    using run unfolding seq_add_part_def Let_def st'_def by (auto split: if_splits)
  then show ?thesis
  proof cases
    case timeout
    then show ?thesis
      using tracker_inv_remove [OF inv st ip] tracker_bounded_remove [OF inv st ip] by (simp add: AList.delete_conv')
  next
    case refused
    then show ?thesis using inv st by simp
  next
    case kept
    then show ?thesis using m(1) mb by (simp add: AList.update_conv')
  next
    case complete
    then show ?thesis
      using tracker_inv_remove [OF c(1,2) ip] tracker_bounded_remove [OF c(1,2) ip] mb c(3)
      by (simp add: AList.delete_conv' AList.update_conv')
  qed
qed


definition fresh_state :: "KnockInfo \<Rightarrow> time \<Rightarrow> seqState" where
  "fresh_state info now = \<lparr>st_firstSeen = now, st_lastSeen = zero_time,
     st_parts = replicate (nat (ki_SequenceTotal info)) False, st_sessionID = ki_SessionID info, st_total = ki_SequenceTotal info\<rparr>"

text \<open>
  \<open>seq_add\<close> either refuses, keeping no state it did not have, or reaches \<open>seq_add_part\<close> with the
  live state of the sequence, or with a fresh one when it had none and there was room.
\<close>

lemma seq_add_reaches:
  assumes inv: "tracker_inv t" and run: "seq_add src (Some info) now t = (r, t')"
  obtains (refused) e where "r = Inl e" "tracker_inv t'" "sq_opts t' = sq_opts t" "tracker_bounded t \<longrightarrow> tracker_bounded t'"
      "\<forall>k st. map_of (sq_states t') k = Some st \<longrightarrow> map_of (sq_states t) k = Some st"
    | (part) st t1 where "seq_add_part (sequenceStateKey src info) (IP_String src) info now st t1 = (r, t')"
      "tracker_inv t1" "sq_opts t1 = sq_opts t" "tracker_bounded t \<longrightarrow> tracker_bounded t1"
      "map_of (sq_states t1) (sequenceStateKey src info) = Some st"
      "0 \<le> ki_SequenceIndex info" "ki_SequenceIndex info < ki_SequenceTotal info" "ki_SequenceTotal info = so_Length (sq_opts t)"
      "\<forall>k. k \<noteq> sequenceStateKey src info \<longrightarrow> map_of (sq_states t1) k = seq_live now (sq_opts t) (map_of (sq_states t) k)"
      "seq_live now (sq_opts t) (map_of (sq_states t) (sequenceStateKey src info)) = Some st \<or>
         seq_live now (sq_opts t) (map_of (sq_states t) (sequenceStateKey src info)) = None \<and> st = fresh_state info now"
      "sq_completed t1 = snd (GetAt (sequenceStateKey src info) now (sq_completed (seq_pruneLocked now t)))"
proof (cases "ki_FrameType info \<noteq> KnockFrameTypeUDPSequence")
  case True
  then have "r = Inl AuthErrInvalidFrame" "t' = t" using run by (simp_all add: seq_add_def)
  then show thesis using inv by (intro refused) auto
next
  case False
  let ?key = "sequenceStateKey src info" and ?ip = "IP_String src"
  define p where "p = seq_pruneLocked now t"
  have pf: "tracker_inv p" "sq_opts p = sq_opts t" "tracker_bounded t \<longrightarrow> tracker_bounded p"
    and pl: "\<And>k. map_of (sq_states p) k = seq_live now (sq_opts t) (map_of (sq_states t) k)"
    unfolding p_def using seq_pruneLocked_facts [OF inv] by auto
  obtain don c where g: "GetAt ?key now (sq_completed p) = (don, c)" by (rule prod.exhaust)
  define q where "q = p\<lparr>sq_completed := c\<rparr>"
  have lru: "lru_ok (sq_completed p)" using pf(1) by (simp add: tracker_inv_def)
  have qinv: "tracker_inv q" and qb: "tracker_bounded t \<longrightarrow> tracker_bounded q"
    using pf(1,3) GetAt_law(1,2) [OF lru g] by (auto simp: q_def tracker_inv_def tracker_bounded_def states_of_ip_def)
  have qo: "sq_opts q = sq_opts t" "sq_states q = sq_states p" "sq_completed q = c" using pf(2) by (simp_all add: q_def)
  have pst: "\<forall>k st. map_of (sq_states p) k = Some st \<longrightarrow> map_of (sq_states t) k = Some st"
    by (simp add: pl seq_live_Some)
  have stop: thesis if "r = Inl e" "t' = p \<or> t' = q" for e
    using that pf qinv qb qo pst by (intro refused [of e]) auto
  have body: "(if ki_SequenceTotal info \<noteq> so_Length (sq_opts p) \<or> sequence_out_of_range (ki_SequenceTotal info) (ki_SequenceIndex info)
     then (Inl (Errorf ''invalid udp sequence index or total''), p)
     else if don \<noteq> None then (Inl AuthErrReplayDetected, q)
     else case map_of (sq_states q) ?key of
        Some state \<Rightarrow> seq_add_part ?key ?ip info now state q
      | None \<Rightarrow>
          if ip_count (sq_perIP q) ?ip \<ge> so_MaxInflightPerIP (sq_opts q) then (Inl (Errorf ''sequence_inflight_per_ip_exceeded''), q)
          else if sq_total q \<ge> so_MaxTotalInflight (sq_opts q) then (Inl (Errorf ''sequence_inflight_total_exceeded''), q)
          else seq_add_part ?key ?ip info now (fresh_state info now)
                 (q\<lparr>sq_states := AList.update ?key (fresh_state info now) (sq_states q),
                    sq_perIP := AList.update ?ip (ip_count (sq_perIP q) ?ip + 1) (sq_perIP q), sq_total := sq_total q + 1\<rparr>)) = (r, t')"
    using run unfolding seq_add_def Let_def option.case if_not_P [OF False] p_def [symmetric] g prod.case
      q_def [symmetric] fresh_state_def [symmetric] by (auto split: if_splits option.splits)
  show thesis
  proof (cases "ki_SequenceTotal info \<noteq> so_Length (sq_opts p) \<or> sequence_out_of_range (ki_SequenceTotal info) (ki_SequenceIndex info) \<or> don \<noteq> None")
    case True
    then show ?thesis using body stop by (auto split: if_splits)
  next
    case idx: False
    then have range: "0 \<le> ki_SequenceIndex info" "ki_SequenceIndex info < ki_SequenceTotal info"
      "ki_SequenceTotal info = so_Length (sq_opts t)" "don = None"
      using pf(2) by (cases don; auto simp: sequence_out_of_range_def)+
    show ?thesis
    proof (cases "map_of (sq_states q) ?key")
      case (Some st)
      then have "seq_add_part ?key ?ip info now st q = (r, t')" using body idx by simp
      moreover have "seq_live now (sq_opts t) (map_of (sq_states t) ?key) = Some st" using Some pl [of ?key] qo(2) by simp
      ultimately show ?thesis using qinv qb qo range Some pl g by (intro part [of st q]) (auto simp: p_def)
    next
      case None
      let ?f = "fresh_state info now"
      let ?n = "q\<lparr>sq_states := AList.update ?key ?f (sq_states q),
                  sq_perIP := AList.update ?ip (ip_count (sq_perIP q) ?ip + 1) (sq_perIP q), sq_total := sq_total q + 1\<rparr>"
      show ?thesis
      proof (cases "ip_count (sq_perIP q) ?ip \<ge> so_MaxInflightPerIP (sq_opts q) \<or> sq_total q \<ge> so_MaxTotalInflight (sq_opts q)")
        case True
        then show ?thesis using body stop idx None by (auto split: if_splits)
      next
        case room: False
        then have go: "seq_add_part ?key ?ip info now ?f ?n = (r, t')" using body idx None by simp
        have n: "tracker_inv ?n" "states_of_ip ip' ?n = states_of_ip ip' q + (if ip' = ?ip then 1 else 0)" for ip'
          using tracker_inv_insert [OF qinv None, of ?f ?ip] by (simp_all add: fresh_state_def)
        have "ip_count (sq_perIP q) ?ip = int (states_of_ip ?ip q)" using qinv by (simp add: tracker_inv_def)
        then have nb: "tracker_bounded q \<Longrightarrow> tracker_bounded ?n"
          using room n(2) by (auto simp: tracker_bounded_def)
        have "seq_live now (sq_opts t) (map_of (sq_states t) ?key) = None" using None pl [of ?key] qo(2) by simp
        then show ?thesis
          using go n(1) nb qb qo range pl g by (intro part [of ?f ?n]) (auto simp: AList.update_conv' p_def)
      qed
    qed
  qed
qed

lemma seq_add_keeps:
  assumes "tracker_inv t" "tracker_bounded t" "seq_add src infop now t = (r, t')"
  shows "tracker_inv t' \<and> tracker_bounded t' \<and> sq_opts t' = sq_opts t"
proof (cases infop)
  case None
  then show ?thesis using assms by (simp add: seq_add_def)
next
  case (Some info)
  show ?thesis
  proof (rule seq_add_reaches [OF assms(1) assms(3) [unfolded Some]], goal_cases)
    case (1 e)
    then show ?case using assms(2) by simp
  next
    case (2 st t1)
    from seq_add_part_cases [OF 2(2,5) key_ip_sequenceStateKey [symmetric] 2(6,7,1)] 2(3,4) assms(2) show ?case by simp
  qed
qed


section \<open>Histories of packets\<close>

fun seq_run :: "(time \<times> bytes \<times> KnockInfo) list \<Rightarrow> sequenceTracker \<Rightarrow> bool result list \<times> sequenceTracker" where
  "seq_run [] t = ([], t)"
| "seq_run ((now, src, info) # evs) t =
     (let (r, t) = seq_add src (Some info) now t; (rs, t) = seq_run evs t in (r # rs, t))"

lemma seq_run_append:
  "seq_run (evs @ evs') t = (let (rs, t) = seq_run evs t; (rs', t) = seq_run evs' t in (rs @ rs', t))"
  by (induction evs arbitrary: t) (auto simp: split_def Let_def)

lemma tracker_inv_new: "tracker_inv (newSequenceTracker opts ttl)" "tracker_bounded (newSequenceTracker opts ttl)"
  by (simp_all add: newSequenceTracker_def Let_def tracker_inv_def tracker_bounded_def states_of_ip_def ip_count_def)

lemma seq_run_keeps:
  assumes "tracker_inv t" "tracker_bounded t"
  shows "tracker_inv (snd (seq_run evs t)) \<and> tracker_bounded (snd (seq_run evs t)) \<and> sq_opts (snd (seq_run evs t)) = sq_opts t"
  using assms
proof (induction evs t rule: seq_run.induct)
  case (2 now src info evs t)
  obtain r t1 where r: "seq_add src (Some info) now t = (r, t1)" by (rule prod.exhaust)
  from seq_add_keeps [OF 2(2,3) r] 2(1) [OF r [symmetric] refl] show ?case by (simp add: r split_def Let_def)
qed simp

text \<open>Where the parts of a pending sequence come from.\<close>

definition part_origin :: "(time \<times> bytes \<times> KnockInfo) list \<Rightarrow> time \<Rightarrow> string \<Rightarrow> seqState \<Rightarrow> nat \<Rightarrow> bool" where
  "part_origin evs now k st i \<longleftrightarrow> (\<exists>(tm, src, info) \<in> set evs. sequenceStateKey src info = k \<and>
     ki_SequenceIndex info = int i \<and> ki_SequenceTotal info = st_total st \<and> ki_SessionID info = st_sessionID st \<and>
     st_firstSeen st \<le> tm \<and> tm \<le> now)"

definition seq_hist :: "(time \<times> bytes \<times> KnockInfo) list \<Rightarrow> time \<Rightarrow> sequenceTracker \<Rightarrow> bool" where
  "seq_hist evs now t \<longleftrightarrow> (\<forall>k st. map_of (sq_states t) k = Some st \<longrightarrow> st_firstSeen st \<le> now \<and>
     (\<forall>i < length (st_parts st). st_parts st ! i \<longrightarrow> part_origin evs now k st i))"

lemma part_origin_mono:
  "part_origin evs now k st i \<Longrightarrow> set evs \<subseteq> set evs' \<Longrightarrow> now \<le> now' \<Longrightarrow> part_origin evs' now' k st i"
  unfolding part_origin_def by fastforce

lemma part_origin_cong:
  "st_total st' = st_total st \<Longrightarrow> st_sessionID st' = st_sessionID st \<Longrightarrow> st_firstSeen st' = st_firstSeen st \<Longrightarrow>
     part_origin evs now k st' i = part_origin evs now k st i"
  by (simp add: part_origin_def)

lemma part_recorded:
  assumes "length (st_parts st) = nat (st_total st)" "st_total st = ki_SequenceTotal info" "st_sessionID st = ki_SessionID info"
    "0 \<le> ki_SequenceIndex info" "ki_SequenceIndex info < ki_SequenceTotal info" "st_firstSeen st \<le> now"
    "\<forall>i < length (st_parts st). st_parts st ! i \<longrightarrow> part_origin evs now (sequenceStateKey src info) st i"
    "i < length (st_parts st)" "(st_parts st)[nat (ki_SequenceIndex info) := True] ! i"
  shows "part_origin (evs @ [(now, src, info)]) now (sequenceStateKey src info) st i"
proof (cases "i = nat (ki_SequenceIndex info)")
  case True
  then show ?thesis using assms(2-6) by (auto simp: part_origin_def)
next
  case False
  then have "part_origin evs now (sequenceStateKey src info) st i" using assms(7-9) by simp
  then show ?thesis by (rule part_origin_mono) auto
qed

lemma seq_add_hist:
  assumes inv: "tracker_inv t" and h: "seq_hist evs past t" "past \<le> now" and run: "seq_add src (Some info) now t = (r, t')"
  shows "seq_hist (evs @ [(now, src, info)]) now t' \<and>
    (r = Inr True \<longrightarrow> (\<exists>st. st_total st = so_Length (sq_opts t) \<and> st_sessionID st = ki_SessionID info \<and>
       time_Sub now (st_firstSeen st) \<le> so_Window (sq_opts t) \<and> ki_SequenceTotal info = so_Length (sq_opts t) \<and>
       (\<forall>i < nat (so_Length (sq_opts t)). part_origin (evs @ [(now, src, info)]) now (sequenceStateKey src info) st i)))"
proof -
  let ?evs = "evs @ [(now, src, info)]"
  have old: "st_firstSeen st \<le> now \<and> (\<forall>i < length (st_parts st). st_parts st ! i \<longrightarrow> part_origin evs now k st i \<and> part_origin ?evs now k st i)"
    if "map_of (sq_states t) k = Some st" for k st
  proof -
    have "part_origin evs past k st i \<Longrightarrow> part_origin evs now k st i \<and> part_origin ?evs now k st i" for i
      using part_origin_mono [of evs past k st i evs now] part_origin_mono [of evs past k st i ?evs now] h(2) by auto
    then show ?thesis using h that unfolding seq_hist_def by (meson order_trans)
  qed
  show ?thesis
  proof (rule seq_add_reaches [OF inv run], goal_cases)
    case (1 e)
    then show ?case using old by (auto simp: seq_hist_def)
  next
    case (2 st t1)
    let ?key = "sequenceStateKey src info"
    let ?st' = "st\<lparr>st_parts := (st_parts st)[nat (ki_SequenceIndex info) := True], st_lastSeen := now\<rparr>"
    have st: "st_firstSeen st \<le> now"
      "\<forall>i < length (st_parts st). st_parts st ! i \<longrightarrow> part_origin evs now ?key st i \<and> part_origin ?evs now ?key st i"
      using 2(10) old [of ?key st] by (auto simp: seq_live_Some fresh_state_def)
    have len: "length (st_parts st) = nat (st_total st)" using 2(2,5) by (simp add: tracker_inv_def)
    note c = seq_add_part_cases [OF 2(2,5) key_ip_sequenceStateKey [symmetric] 2(6,7,1)]
    have other: "st_firstSeen s \<le> now \<and> (\<forall>i < length (st_parts s). st_parts s ! i \<longrightarrow> part_origin ?evs now k s i)"
      if "k \<noteq> ?key" "map_of (sq_states t') k = Some s" for k s
      using that c 2(9) old [of k s] by (auto simp: seq_live_Some)
    show ?case
    proof (cases r)
      case (Inl e)
      then have "map_of (sq_states t') ?key \<in> {None, Some st}" using c by simp
      then show ?thesis using other st Inl unfolding seq_hist_def by (metis (no_types, lifting) Inl_Inr_False empty_iff insert_iff not_None_eq option.inject)
    next
      case (Inr d)
      then have d: "st_total st = ki_SequenceTotal info" "st_sessionID st = ki_SessionID info"
        "\<not> time_Sub now (st_firstSeen st) > so_Window (sq_opts t)" "d = list_all (\<lambda>b. b) (st_parts ?st')"
        "map_of (sq_states t') ?key = (if d then None else Some ?st')"
        using c 2(3) by simp_all
      have rec: "part_origin ?evs now ?key st i" if "i < length (st_parts st)" "st_parts ?st' ! i" for i
        using part_recorded [OF len d(1,2) 2(6,7) st(1) _ that(1), of evs src] st(2) that(2) by simp
      have rec': "part_origin ?evs now ?key ?st' i = part_origin ?evs now ?key st i" for i
        by (rule part_origin_cong) simp_all
      have here: "st_firstSeen s \<le> now \<and> (\<forall>i < length (st_parts s). st_parts s ! i \<longrightarrow> part_origin ?evs now ?key s i)"
        if "map_of (sq_states t') ?key = Some s" for s
      proof -
        have "s = ?st'" using that d(5) by (simp split: if_splits)
        then show ?thesis using rec st(1) by (simp add: rec')
      qed
      have hist: "seq_hist ?evs now t'" using other here unfolding seq_hist_def by metis
      show ?thesis
      proof (cases d)
        case True
        then have "\<forall>i < length (st_parts st). part_origin ?evs now ?key st i"
          using d(4) rec by (auto simp: list_all_length)
        then show ?thesis using hist d len 2(8) by (auto simp: not_less)
      next
        case False
        then show ?thesis using hist Inr by simp
      qed
    qed
  qed
qed


section \<open>A sequence that arrives\<close>

text \<open>The tracker after pruning and the lookup among the completed sequences.\<close>

definition seq_ready :: "string \<Rightarrow> time \<Rightarrow> sequenceTracker \<Rightarrow> sequenceTracker" where
  "seq_ready key now t = (let p = seq_pruneLocked now t in p\<lparr>sq_completed := snd (GetAt key now (sq_completed p))\<rparr>)"

lemma unexpired_later: "unexpired now' x \<Longrightarrow> now \<le> now' \<Longrightarrow> unexpired now x"
  by (auto simp: unexpired_def split: option.splits)

lemma seq_ready_facts:
  assumes inv: "tracker_inv t" and key: "map_of (sq_states t) key = None \<or> seq_live now (sq_opts t) (map_of (sq_states t) key) \<noteq> None"
    and fresh: "\<not> unexpired now (expiry (sq_completed t) key)"
  shows "tracker_inv (seq_ready key now t)" "sq_opts (seq_ready key now t) = sq_opts t"
    "map_of (sq_states (seq_ready key now t)) k = seq_live now (sq_opts t) (map_of (sq_states t) k)"
    "fst (GetAt key now (sq_completed (seq_pruneLocked now t))) = None"
    "expiry (sq_completed (seq_ready key now t)) key = None"
    "sq_total (seq_ready key now t) \<le> sq_total t" "states_of_ip ip (seq_ready key now t) \<le> states_of_ip ip t"
proof -
  let ?p = "seq_pruneLocked now t"
  note pf = seq_pruneLocked_facts [OF inv]
  have lru: "lru_ok (sq_completed ?p)" using pf(1) by (simp add: tracker_inv_def)
  obtain don c where g: "GetAt key now (sq_completed ?p) = (don, c)" by (rule prod.exhaust)
  note gl = GetAt_law [OF lru g]
  have none: "\<not> unexpired now (expiry (sq_completed ?p) key)" using pf(4) key fresh by blast
  then have don: "don = None" using gl(3) by blast
  then show "fst (GetAt key now (sq_completed ?p)) = None" using g by simp
  show "tracker_inv (seq_ready key now t)"
    using pf(1) gl(1,2) by (auto simp: seq_ready_def Let_def g tracker_inv_def states_of_ip_def)
  show "sq_opts (seq_ready key now t) = sq_opts t" using pf(2) by (simp add: seq_ready_def Let_def)
  show "map_of (sq_states (seq_ready key now t)) k = seq_live now (sq_opts t) (map_of (sq_states t) k)"
    using pf(3) by (simp add: seq_ready_def Let_def)
  have "expiry c key = None" using gl(4) [of key] don by (simp add: expiry_def)
  then show "expiry (sq_completed (seq_ready key now t)) key = None" by (simp add: seq_ready_def Let_def g)
  have b: "seq_pruned now (fst ` set (sq_states t)) t ?p" using inv by (rule seq_pruneLocked_pruned)
  show "states_of_ip ip (seq_ready key now t) \<le> states_of_ip ip t"
    using b by (simp add: seq_ready_def Let_def states_of_ip_def seq_pruned_def)
  have "sq_total ?p = int (length (sq_states ?p))" "sq_total t = int (length (sq_states t))"
    using pf(1) inv by (simp_all add: tracker_inv_def)
  then show "sq_total (seq_ready key now t) \<le> sq_total t"
    using b by (simp add: seq_ready_def Let_def seq_pruned_def)
qed

text \<open>A part of the sequence \<open>key\<close> of \<open>L\<close> parts in the session \<open>sid\<close>.\<close>

definition part_of :: "string \<Rightarrow> int \<Rightarrow> bytes \<Rightarrow> time \<times> bytes \<times> KnockInfo \<Rightarrow> bool" where
  "part_of key L sid = (\<lambda>(now, src, info). sequenceStateKey src info = key \<and> ki_FrameType info = KnockFrameTypeUDPSequence \<and>
     ki_SequenceTotal info = L \<and> ki_SessionID info = sid \<and> 0 \<le> ki_SequenceIndex info \<and> ki_SequenceIndex info < L)"

lemma seq_add_ready:
  assumes "part_of key L sid (now, src, info)" "2 \<le> L" "L \<le> 8" "so_Length (sq_opts t) = L" "tracker_inv t"
    "map_of (sq_states t) key = None \<or> seq_live now (sq_opts t) (map_of (sq_states t) key) \<noteq> None"
    "\<not> unexpired now (expiry (sq_completed t) key)"
  shows "seq_add src (Some info) now t = (let q = seq_ready key now t in case map_of (sq_states q) key of
        Some state \<Rightarrow> seq_add_part key (IP_String src) info now state q
      | None \<Rightarrow>
          if ip_count (sq_perIP q) (IP_String src) \<ge> so_MaxInflightPerIP (sq_opts q) then (Inl (Errorf ''sequence_inflight_per_ip_exceeded''), q)
          else if sq_total q \<ge> so_MaxTotalInflight (sq_opts q) then (Inl (Errorf ''sequence_inflight_total_exceeded''), q)
          else seq_add_part key (IP_String src) info now (fresh_state info now)
                 (q\<lparr>sq_states := AList.update key (fresh_state info now) (sq_states q),
                    sq_perIP := AList.update (IP_String src) (ip_count (sq_perIP q) (IP_String src) + 1) (sq_perIP q),
                    sq_total := sq_total q + 1\<rparr>))"
proof -
  have key: "sequenceStateKey src info = key" "\<not> ki_FrameType info \<noteq> KnockFrameTypeUDPSequence"
    "\<not> (ki_SequenceTotal info \<noteq> so_Length (sq_opts (seq_pruneLocked now t)) \<or>
        sequence_out_of_range (ki_SequenceTotal info) (ki_SequenceIndex info))"
    using assms(1-4) seq_pruneLocked_facts(2) [OF assms(5)]
    by (auto simp: part_of_def sequence_out_of_range_def DefaultSequenceMaxParts_def)
  have g: "GetAt key now (sq_completed (seq_pruneLocked now t)) = (None, snd (GetAt key now (sq_completed (seq_pruneLocked now t))))"
    using seq_ready_facts(4) [OF assms(5-7)] by (metis prod.collapse)
  show ?thesis
    unfolding seq_add_def option.case if_not_P [OF key(2)] Let_def if_not_P [OF key(3)] key(1) seq_ready_def
    by (subst g) (simp add: fresh_state_def cong: option.case_cong if_cong)
qed

lemma seq_add_part_live:
  assumes "\<not> time_Sub now (st_firstSeen st) > so_Window (sq_opts t)" "st_total st = ki_SequenceTotal info"
    "st_sessionID st = ki_SessionID info" "\<not> st_parts st ! nat (ki_SequenceIndex info)"
  defines "st' \<equiv> st\<lparr>st_parts := (st_parts st)[nat (ki_SequenceIndex info) := True], st_lastSeen := now\<rparr>"
  shows "fst (seq_add_part key ip info now st t) = Inr (list_all (\<lambda>b. b) (st_parts st'))"
  using assms by (simp add: seq_add_part_def Let_def)


abbreviation part_index :: "time \<times> bytes \<times> KnockInfo \<Rightarrow> int" where
  "part_index e \<equiv> ki_SequenceIndex (snd (snd e))"

definition missing_parts :: "seqState \<Rightarrow> int set" where
  "missing_parts st = {i. 0 \<le> i \<and> i < st_total st \<and> \<not> st_parts st ! nat i}"

lemma missing_parts_add:
  fixes now :: time
  assumes "length (st_parts st) = nat (st_total st)" "i \<in> missing_parts st"
  defines "st' \<equiv> st\<lparr>st_parts := (st_parts st)[nat i := True], st_lastSeen := now\<rparr>"
  shows "missing_parts st' = missing_parts st - {i}" "list_all (\<lambda>b. b) (st_parts st') \<longleftrightarrow> missing_parts st = {i}"
proof -
  show m: "missing_parts st' = missing_parts st - {i}"
    using assms(1,2) by (auto simp: missing_parts_def st'_def nth_list_update nat_eq_iff)
  have "list_all (\<lambda>b. b) (st_parts st') \<longleftrightarrow> missing_parts st' = {}"
  proof
    assume a: "missing_parts st' = {}"
    show "list_all (\<lambda>b. b) (st_parts st')"
      unfolding list_all_length
    proof (intro allI impI)
      fix j assume j: "j < length (st_parts st')"
      have "int j \<notin> missing_parts st'" using a by simp
      then show "st_parts st' ! j" using j assms(1) by (simp add: missing_parts_def st'_def)
    qed
  qed (use assms(1) in \<open>auto simp: list_all_length missing_parts_def st'_def\<close>)
  then show "list_all (\<lambda>b. b) (st_parts st') \<longleftrightarrow> missing_parts st = {i}" using m assms(2) by auto
qed

lemma seq_add_step:
  assumes p: "part_of key L sid (now, src, info)" and L: "so_Length (sq_opts t) = L" and t: "tracker_inv t"
    and st: "map_of (sq_states t) key = Some st" "st_total st = L" "st_sessionID st = sid"
    and w: "time_Sub now (st_firstSeen st) \<le> so_Window (sq_opts t)" and i: "ki_SequenceIndex info \<in> missing_parts st"
    and c: "expiry (sq_completed t) key = None" and ip: "IP_String src = key_ip key"
  defines "st' \<equiv> st\<lparr>st_parts := (st_parts st)[nat (ki_SequenceIndex info) := True], st_lastSeen := now\<rparr>"
  shows "\<exists>t'. seq_add_part key (IP_String src) info now st t = (Inr (missing_parts st = {ki_SequenceIndex info}), t') \<and>
    (missing_parts st \<noteq> {ki_SequenceIndex info} \<longrightarrow> tracker_inv t' \<and> sq_opts t' = sq_opts t \<and> map_of (sq_states t') key = Some st' \<and>
       missing_parts st' = missing_parts st - {ki_SequenceIndex info} \<and> expiry (sq_completed t') key = None)"
proof -
  obtain r t' where run: "seq_add_part key (IP_String src) info now st t = (r, t')" by (rule prod.exhaust)
  have len: "length (st_parts st) = nat (st_total st)" using t st(1) by (simp add: tracker_inv_def)
  note m = missing_parts_add [OF len i, of now, folded st'_def]
  have idx: "0 \<le> ki_SequenceIndex info" "ki_SequenceIndex info < ki_SequenceTotal info" "\<not> st_parts st ! nat (ki_SequenceIndex info)"
    using p i by (auto simp: part_of_def missing_parts_def)
  have r: "r = Inr (missing_parts st = {ki_SequenceIndex info})"
    using seq_add_part_live [where now = now and st = st and t = t and info = info and key = key and ip = "IP_String src"] run w st p idx(3) m(2) by (simp add: part_of_def st'_def not_less)
  from seq_add_part_cases [OF t st(1) ip idx(1,2) run] show ?thesis
    using run c m by (auto simp: r st'_def)
qed

lemma seq_run_collect:
  assumes "evs \<noteq> []" "2 \<le> L" "L \<le> 8" "so_Length (sq_opts t) = L" "tracker_inv t"
    "map_of (sq_states t) key = Some st" "st_total st = L" "st_sessionID st = sid" "expiry (sq_completed t) key = None"
    "\<forall>e \<in> set evs. part_of key L sid e \<and> time_Sub (fst e) (st_firstSeen st) \<le> so_Window (sq_opts t)"
    "distinct (map part_index evs)" "part_index ` set evs = missing_parts st"
  shows "fst (seq_run evs t) = replicate (length evs - 1) (Inr False) @ [Inr True]"
  using assms
proof (induction evs arbitrary: t st)
  case Nil
  then show ?case by simp
next
  case (Cons e evs)
  obtain now src info where e: "e = (now, src, info)" by (cases e)
  note L = Cons.prems(2-5)
  have p: "part_of key L sid (now, src, info)" and w: "time_Sub now (st_firstSeen st) \<le> so_Window (sq_opts t)"
    using Cons.prems(10) by (auto simp: e)
  have live: "seq_live now (sq_opts t) (map_of (sq_states t) key) = Some st" using w Cons.prems(6) by (simp add: seq_live_Some)
  then have ok: "map_of (sq_states t) key = None \<or> seq_live now (sq_opts t) (map_of (sq_states t) key) \<noteq> None"
    "\<not> unexpired now (expiry (sq_completed t) key)" using Cons.prems(9) by simp_all
  let ?q = "seq_ready key now t"
  note q = seq_ready_facts [OF L(4) ok]
  have st: "map_of (sq_states ?q) key = Some st" using q(3) live by simp
  have ip: "IP_String src = key_ip key" using p by (auto simp: part_of_def)
  have add: "seq_add src (Some info) now t = seq_add_part key (IP_String src) info now st ?q"
    using seq_add_ready [OF p L ok] st by simp
  have i: "ki_SequenceIndex info \<in> missing_parts st" using Cons.prems(12) by (auto simp: e)
  have "\<exists>t'. seq_add_part key (IP_String src) info now st ?q = (Inr (missing_parts st = {ki_SequenceIndex info}), t') \<and>
    (missing_parts st \<noteq> {ki_SequenceIndex info} \<longrightarrow> tracker_inv t' \<and> sq_opts t' = sq_opts ?q \<and>
       map_of (sq_states t') key = Some (st\<lparr>st_parts := (st_parts st)[nat (ki_SequenceIndex info) := True], st_lastSeen := now\<rparr>) \<and>
       missing_parts (st\<lparr>st_parts := (st_parts st)[nat (ki_SequenceIndex info) := True], st_lastSeen := now\<rparr>) =
         missing_parts st - {ki_SequenceIndex info} \<and> expiry (sq_completed t') key = None)"
    using p L(3) w i ip q st Cons.prems(7,8) by (intro seq_add_step) auto
  then obtain t' where r: "seq_add src (Some info) now t = (Inr (missing_parts st = {ki_SequenceIndex info}), t')"
    and t': "missing_parts st \<noteq> {ki_SequenceIndex info} \<Longrightarrow> tracker_inv t' \<and> sq_opts t' = sq_opts ?q \<and>
       map_of (sq_states t') key = Some (st\<lparr>st_parts := (st_parts st)[nat (ki_SequenceIndex info) := True], st_lastSeen := now\<rparr>) \<and>
       missing_parts (st\<lparr>st_parts := (st_parts st)[nat (ki_SequenceIndex info) := True], st_lastSeen := now\<rparr>) =
         missing_parts st - {ki_SequenceIndex info} \<and> expiry (sq_completed t') key = None"
    unfolding add by blast
  have rest: "part_index ` set evs = missing_parts st - {ki_SequenceIndex info}"
    using Cons.prems(11) Cons.prems(12) [symmetric] by (simp add: e)
  show ?case
  proof (cases "evs = []")
    case True
    then have "missing_parts st = {ki_SequenceIndex info}" using Cons.prems(12) by (simp add: e)
    then show ?thesis using True by (simp add: e r Let_def split_def)
  next
    case False
    then have ne: "missing_parts st \<noteq> {ki_SequenceIndex info}" using rest by auto
    let ?st' = "st\<lparr>st_parts := (st_parts st)[nat (ki_SequenceIndex info) := True], st_lastSeen := now\<rparr>"
    have "fst (seq_run evs t') = replicate (length evs - 1) (Inr False) @ [Inr True]"
      using False L(1,2,3) t' [OF ne] q(2) Cons.prems(7,8,10,11) rest by (intro Cons.IH [of t' ?st']) auto
    then show ?thesis using ne False by (cases evs) (simp_all add: e r Let_def split_def)
  qed
qed


section \<open>Properties\<close>

text \<open>
  Property C24. Whatever packets arrive, a tracker never holds more pending sequences than its
  total limit, none of its sources more than the limit per source, its two counters are exactly
  the numbers of pending sequences, and the memory of completed sequences stays within its
  capacity. (The limits are those after defaults; a negative limit admits nothing.)
\<close>

theorem sequence_tracker_bounded:
  fixes evs opts ttl
  defines "t \<equiv> snd (seq_run evs (newSequenceTracker opts ttl))" and "lim \<equiv> normalizedSequenceOptions opts"
  shows "sq_total t = int (length (sq_states t)) \<and> sq_total t \<le> max 0 (so_MaxTotalInflight lim) \<and>
    (\<forall>ip. ip_count (sq_perIP t) ip = int (states_of_ip ip t) \<and> ip_count (sq_perIP t) ip \<le> max 0 (so_MaxInflightPerIP lim)) \<and>
    lru_Len (sq_completed t) \<le> max 1 (so_MaxTotalInflight lim)"
proof -
  have "sq_opts (newSequenceTracker opts ttl) = lim" by (simp add: newSequenceTracker_def Let_def lim_def)
  then have t: "tracker_inv t" "tracker_bounded t" "sq_opts t = lim"
    using seq_run_keeps [OF tracker_inv_new, of evs opts ttl] by (simp_all add: t_def)
  have "lru_Len (sq_completed t) \<le> maxEntries (sq_completed t)"
    using t(1) by (simp add: tracker_inv_def lru_ok_def lru_Len_def)
  then show ?thesis using t by (auto simp: tracker_inv_def tracker_bounded_def)
qed

lemma seq_run_hist:
  assumes "sorted (map fst evs)" "\<forall>e \<in> set evs. past \<le> fst e" "tracker_inv t" "tracker_bounded t" "seq_hist evs0 past t" "evs \<noteq> []"
  shows "seq_hist (evs0 @ evs) (fst (last evs)) (snd (seq_run evs t))"
  using assms
proof (induction evs arbitrary: t evs0 past)
  case Nil
  then show ?case by simp
next
  case (Cons e evs)
  obtain now src info where e: "e = (now, src, info)" by (cases e)
  obtain r t1 where r: "seq_add src (Some info) now t = (r, t1)" by (rule prod.exhaust)
  have h: "seq_hist (evs0 @ [e]) now t1" using seq_add_hist [OF Cons.prems(3,5) _ r] Cons.prems(2) by (simp add: e)
  have k: "tracker_inv t1" "tracker_bounded t1" using seq_add_keeps [OF Cons.prems(3,4) r] by simp_all
  show ?case
  proof (cases "evs = []")
    case True
    then show ?thesis using h by (simp add: e r split_def Let_def)
  next
    case False
    have "seq_hist ((evs0 @ [e]) @ evs) (fst (last evs)) (snd (seq_run evs t1))"
      using Cons.prems(1) False by (intro Cons.IH [OF _ _ k h]) (auto simp: e)
    then show ?thesis using False by (simp add: e r split_def Let_def)
  qed
qed

lemma seq_run_hist_new:
  assumes "sorted (map fst evs)" "\<forall>e \<in> set evs. fst e \<le> now"
  shows "\<exists>past \<le> now. seq_hist evs past (snd (seq_run evs (newSequenceTracker opts ttl)))"
proof (cases "evs = []")
  case True
  then show ?thesis by (auto simp: seq_hist_def newSequenceTracker_def Let_def)
next
  case False
  have "seq_hist [] (fst (hd evs)) (newSequenceTracker opts ttl)" by (simp add: seq_hist_def newSequenceTracker_def Let_def)
  moreover have "\<forall>e \<in> set evs. fst (hd evs) \<le> fst e" using assms(1) False by (cases evs) auto
  ultimately have "seq_hist ([] @ evs) (fst (last evs)) (snd (seq_run evs (newSequenceTracker opts ttl)))"
    using assms(1) False by (intro seq_run_hist [where past = "fst (hd evs)"] tracker_inv_new) auto
  then show ?thesis using assms(2) False by auto
qed

text \<open>
  Property C22. A sequence is reported complete only when every one of its parts has arrived:
  for each index there was a packet (this one or an earlier one) from the same source, of the
  same client, sequence id, port, method, session and length, no longer ago than the sequence
  window. Parts of different sources, clients or sequences are never combined.
\<close>

theorem sequence_complete_sound:
  assumes sorted: "sorted (map fst (evs @ [(now, src, info)]))"
    and ids: "\<forall>(tm, s, i) \<in> set (evs @ [(now, src, info)]). nul_free (ki_ClientID i) \<and> \<bar>ki_ServerPort i\<bar> \<le> 65535"
    and complete: "fst (seq_add src (Some info) now (snd (seq_run evs (newSequenceTracker opts ttl)))) = Inr True"
  shows "\<forall>i < nat (so_Length (normalizedSequenceOptions opts)). \<exists>(tm, s, inf) \<in> set (evs @ [(now, src, info)]).
    IP_String s = IP_String src \<and> ki_ClientID inf = ki_ClientID info \<and> ki_SequenceID inf = ki_SequenceID info \<and>
    ki_ServerPort inf = ki_ServerPort info \<and> ki_Method inf = ki_Method info \<and> ki_SessionID inf = ki_SessionID info \<and>
    ki_SequenceTotal inf = ki_SequenceTotal info \<and> ki_SequenceIndex inf = int i \<and>
    time_Sub now tm \<le> so_Window (normalizedSequenceOptions opts)"
proof (intro allI impI)
  fix i assume i: "i < nat (so_Length (normalizedSequenceOptions opts))"
  let ?t = "snd (seq_run evs (newSequenceTracker opts ttl))" and ?evs = "evs @ [(now, src, info)]"
  have opts: "sq_opts ?t = normalizedSequenceOptions opts" "tracker_inv ?t"
    using seq_run_keeps [OF tracker_inv_new, of evs opts ttl] by (simp_all add: newSequenceTracker_def Let_def)
  have "\<forall>e \<in> set evs. fst e \<le> now" "sorted (map fst evs)" using sorted by (auto simp: sorted_append)
  then obtain past where past: "past \<le> now" "seq_hist evs past ?t" using seq_run_hist_new by blast
  obtain t' where run: "seq_add src (Some info) now ?t = (Inr True, t')" using complete by (metis prod.collapse)
  from seq_add_hist [OF opts(2) past(2,1) run] obtain st where st: "st_sessionID st = ki_SessionID info"
      "time_Sub now (st_firstSeen st) \<le> so_Window (normalizedSequenceOptions opts)" "st_total st = ki_SequenceTotal info"
    and "part_origin ?evs now (sequenceStateKey src info) st i"
    using i by (auto simp: opts(1))
  then obtain tm s inf where e: "(tm, s, inf) \<in> set ?evs" "sequenceStateKey s inf = sequenceStateKey src info"
      "ki_SequenceIndex inf = int i" "ki_SequenceTotal inf = st_total st" "ki_SessionID inf = st_sessionID st" "st_firstSeen st \<le> tm"
    by (auto simp: part_origin_def)
  have "time_Sub now tm \<le> time_Sub now (st_firstSeen st)" using e(6) by (auto simp: time_Sub_def)
  then have "time_Sub now tm \<le> so_Window (normalizedSequenceOptions opts)" using st(2) by simp
  moreover have "nul_free (ki_ClientID inf)" "\<bar>ki_ServerPort inf\<bar> \<le> 65535" "nul_free (ki_ClientID info)" "\<bar>ki_ServerPort info\<bar> \<le> 65535"
    using ids e(1) by auto
  note sequenceStateKey_inj [OF e(2) this(1,3,2,4)]
  ultimately show "\<exists>(tm, s, inf) \<in> set ?evs.
    IP_String s = IP_String src \<and> ki_ClientID inf = ki_ClientID info \<and> ki_SequenceID inf = ki_SequenceID info \<and>
    ki_ServerPort inf = ki_ServerPort info \<and> ki_Method inf = ki_Method info \<and> ki_SessionID inf = ki_SessionID info \<and>
    ki_SequenceTotal inf = ki_SequenceTotal info \<and> ki_SequenceIndex inf = int i \<and>
    time_Sub now tm \<le> so_Window (normalizedSequenceOptions opts)"
    using e st by (intro bexI [OF _ e(1)]) auto
qed


lemma seq_add_first:
  assumes t: "tracker_inv t" and L: "so_Length (sq_opts t) = L" "2 \<le> L" "L \<le> 8" and p: "part_of key L sid (now, src, info)"
    and fresh: "map_of (sq_states t) key = None" "\<not> unexpired now (expiry (sq_completed t) key)"
    and room: "int (states_of_ip (key_ip key) t) < so_MaxInflightPerIP (sq_opts t)" "sq_total t < so_MaxTotalInflight (sq_opts t)"
    and w: "time_Sub now now \<le> so_Window (sq_opts t)"
  shows "\<exists>t' st'. seq_add src (Some info) now t = (Inr False, t') \<and> tracker_inv t' \<and> sq_opts t' = sq_opts t \<and>
    map_of (sq_states t') key = Some st' \<and> st_total st' = L \<and> st_sessionID st' = sid \<and> st_firstSeen st' = now \<and>
    missing_parts st' = {0..<L} - {ki_SequenceIndex info} \<and> expiry (sq_completed t') key = None"
proof -
  have ok: "map_of (sq_states t) key = None \<or> seq_live now (sq_opts t) (map_of (sq_states t) key) \<noteq> None" using fresh by simp
  let ?q = "seq_ready key now t" and ?f = "fresh_state info now"
  note q = seq_ready_facts [OF t ok fresh(2)]
  have none: "map_of (sq_states ?q) key = None" using q(3) fresh(1) by (simp add: seq_live_def)
  have ip: "IP_String src = key_ip key" using p by (auto simp: part_of_def)
  have "ip_count (sq_perIP ?q) (IP_String src) = int (states_of_ip (IP_String src) ?q)" using q(1) by (simp add: tracker_inv_def)
  then have space: "\<not> ip_count (sq_perIP ?q) (IP_String src) \<ge> so_MaxInflightPerIP (sq_opts ?q)" "\<not> sq_total ?q \<ge> so_MaxTotalInflight (sq_opts ?q)"
    using room q(2,6) q(7) [of "key_ip key"] ip by auto
  let ?n = "?q\<lparr>sq_states := AList.update key ?f (sq_states ?q),
                sq_perIP := AList.update (IP_String src) (ip_count (sq_perIP ?q) (IP_String src) + 1) (sq_perIP ?q), sq_total := sq_total ?q + 1\<rparr>"
  have add: "seq_add src (Some info) now t = seq_add_part key (IP_String src) info now ?f ?n"
    using seq_add_ready [OF p L(2,3,1) t ok fresh(2)] none space by (simp add: Let_def)
  have n: "tracker_inv ?n" using tracker_inv_insert(1) [OF q(1) none _ ip, of ?f] by (simp add: fresh_state_def)
  have miss: "missing_parts ?f = {0..<L}" using p by (auto simp: missing_parts_def fresh_state_def part_of_def)
  have "0 \<in> {0..<L}" "1 \<in> {0..<L}" using L(2) by simp_all
  then have two: "({0..<L} = {ki_SequenceIndex info}) = False" by (metis singletonD zero_neq_one)
  let ?st' = "?f\<lparr>st_parts := (st_parts ?f)[nat (ki_SequenceIndex info) := True], st_lastSeen := now\<rparr>"
  have now: "time_Sub now (st_firstSeen ?f) \<le> so_Window (sq_opts ?n)" using w q(2) by (simp add: fresh_state_def)
  have f: "map_of (sq_states ?n) key = Some ?f" "st_total ?f = L" "st_sessionID ?f = sid" "so_Length (sq_opts ?n) = L"
    "expiry (sq_completed ?n) key = None" "ki_SequenceIndex info \<in> missing_parts ?f"
    using p L(1) q(2,5) miss by (simp_all add: AList.update_conv' fresh_state_def part_of_def)
  from seq_add_step [OF p f(4) n f(1-3) now f(6,5) ip, unfolded miss two]
  obtain t' where "seq_add_part key (IP_String src) info now ?f ?n = (Inr False, t')"
    and "tracker_inv t'" "sq_opts t' = sq_opts ?n" "map_of (sq_states t') key = Some ?st'"
      "missing_parts ?st' = {0..<L} - {ki_SequenceIndex info}" "expiry (sq_completed t') key = None"
    by auto
  then show ?thesis using add q(2) f(2,3) by (intro exI [of _ t'] exI [of _ ?st']) (simp add: fresh_state_def)
qed

text \<open>
  Property C23. A sequence that arrives completes: from any tracker that has run so far, when
  nothing of the sequence is pending or remembered and there is room for it, its parts in any
  order, each within the window of the first, are accepted one after the other, and exactly the
  last one reports completion.
\<close>

theorem sequence_completes:
  fixes hist opts ttl
  defines "t \<equiv> snd (seq_run hist (newSequenceTracker opts ttl))"
  assumes L: "so_Length (normalizedSequenceOptions opts) = L" "2 \<le> L" "L \<le> 8"
    and fresh: "map_of (sq_states t) key = None" "\<not> unexpired (fst e) (expiry (sq_completed t) key)"
    and room: "int (states_of_ip (key_ip key) t) < so_MaxInflightPerIP (normalizedSequenceOptions opts)"
      "sq_total t < so_MaxTotalInflight (normalizedSequenceOptions opts)"
    and parts: "\<forall>p \<in> set (e # evs). part_of key L sid p \<and> time_Sub (fst p) (fst e) \<le> so_Window (normalizedSequenceOptions opts)"
      "distinct (map part_index (e # evs))" "part_index ` set (e # evs) = {0..<L}"
  shows "fst (seq_run (e # evs) t) = replicate (nat L - 1) (Inr False) @ [Inr True]"
proof -
  obtain now src info where e: "e = (now, src, info)" by (cases e)
  have t: "sq_opts t = normalizedSequenceOptions opts" "tracker_inv t"
    using seq_run_keeps [OF tracker_inv_new, of hist opts ttl] by (simp_all add: t_def newSequenceTracker_def Let_def)
  from seq_add_first [of t L key sid now src info] L fresh room parts(1)
  obtain t' st' where r: "seq_add src (Some info) now t = (Inr False, t')" and t': "tracker_inv t'" "sq_opts t' = sq_opts t"
      "map_of (sq_states t') key = Some st'" "st_total st' = L" "st_sessionID st' = sid" "st_firstSeen st' = now"
      "missing_parts st' = {0..<L} - {ki_SequenceIndex info}" "expiry (sq_completed t') key = None"
    by (auto simp: e t)
  have rest: "part_index ` set evs = {0..<L} - {ki_SequenceIndex info}"
    using parts(2) parts(3) [symmetric] by (simp add: e)
  have len: "length (e # evs) = nat L"
    using distinct_card [OF parts(2)] parts(3) by simp
  have "fst (seq_run evs t') = replicate (length evs - 1) (Inr False) @ [Inr True]"
  proof (rule seq_run_collect [OF _ L(2,3) _ t'(1,3,4,5,8)])
    show "evs \<noteq> []" using len L(2) by auto
    show "so_Length (sq_opts t') = L" using L(1) t t'(2) by simp
    show "\<forall>e \<in> set evs. part_of key L sid e \<and> time_Sub (fst e) (st_firstSeen st') \<le> so_Window (sq_opts t')"
      using parts(1) by (simp add: e t t'(2,6))
    show "distinct (map part_index evs)" using parts(2) by simp
    show "part_index ` set evs = missing_parts st'" using rest t'(7) by simp
  qed
  moreover obtain n where "length evs = Suc n" "nat L - 1 = Suc n"
    using len L(2) by (cases "length evs") auto
  ultimately show ?thesis by (simp add: e r split_def Let_def)
qed


section \<open>Witnesses\<close>

definition demo_sequence_options :: SequenceOptions where
  "demo_sequence_options = \<lparr>so_Length = 2, so_SlotSeconds = 0, so_Window = 0, so_PacketInterval = 0, so_MaxJitter = 0,
     so_MaxInflightPerIP = 1, so_MaxTotalInflight = 2, so_AllowLegacySYNSeq = False\<rparr>"

definition demo_part :: "int \<Rightarrow> KnockInfo" where
  "demo_part i = \<lparr>ki_ClientID = ''a'', ki_ClientIDHash = [], ki_Method = ''udp-seq'', ki_ServerPort = 443, ki_Timestamp = 0,
     ki_SessionID = [], ki_SequenceID = replicate 16 3, ki_SequenceIndex = i, ki_SequenceTotal = 2, ki_ClientRandom = [],
     ki_Extensions = [], ki_Nonce = demo_nonce, ki_KeyHint = 0, ki_FrameType = KnockFrameTypeUDPSequence, ki_Flags = 1\<rparr>"

definition demo_source :: bytes where "demo_source = [10, 0, 0, 1]"

definition demo_tracker :: sequenceTracker where
  "demo_tracker = newSequenceTracker demo_sequence_options 0"

lemma demo_parts_run:
  "fst (seq_add demo_source (Some (demo_part 0)) (6 * second) (snd (seq_run [(5 * second, demo_source, demo_part 1)] demo_tracker))) = Inr True"
  by code_simp

theorem sequence_complete_sound_witness:
  "\<exists>(tm, s, inf) \<in> set ([(5 * second, demo_source, demo_part 1)] @ [(6 * second, demo_source, demo_part 0)]).
     ki_ClientID inf = ''a'' \<and> ki_SequenceIndex inf = 1 \<and> time_Sub (6 * second) tm \<le> 10 * second"
proof -
  have "\<forall>i < nat (so_Length (normalizedSequenceOptions demo_sequence_options)).
    \<exists>(tm, s, inf) \<in> set ([(5 * second, demo_source, demo_part 1)] @ [(6 * second, demo_source, demo_part 0)]).
    IP_String s = IP_String demo_source \<and> ki_ClientID inf = ki_ClientID (demo_part 0) \<and> ki_SequenceID inf = ki_SequenceID (demo_part 0) \<and>
    ki_ServerPort inf = ki_ServerPort (demo_part 0) \<and> ki_Method inf = ki_Method (demo_part 0) \<and> ki_SessionID inf = ki_SessionID (demo_part 0) \<and>
    ki_SequenceTotal inf = ki_SequenceTotal (demo_part 0) \<and> ki_SequenceIndex inf = int i \<and>
    time_Sub (6 * second) tm \<le> so_Window (normalizedSequenceOptions demo_sequence_options)"
    by (rule sequence_complete_sound [OF _ _ demo_parts_run [unfolded demo_tracker_def]]) (simp_all add: demo_part_def time_defs)
  moreover have "1 < nat (so_Length (normalizedSequenceOptions demo_sequence_options))"
    "so_Window (normalizedSequenceOptions demo_sequence_options) = 10 * second" "ki_ClientID (demo_part 0) = ''a''"
    by (simp_all add: normalizedSequenceOptions_def demo_sequence_options_def Let_def demo_part_def)
  ultimately show ?thesis by fastforce
qed

theorem sequence_completes_witness:
  "fst (seq_run [(5 * second, demo_source, demo_part 1), (6 * second, demo_source, demo_part 0)] demo_tracker) = [Inr False, Inr True]"
proof -
  let ?key = "sequenceStateKey demo_source (demo_part 0)"
  have new: "snd (seq_run [] (newSequenceTracker demo_sequence_options 0)) = demo_tracker" by (simp add: demo_tracker_def)
  have opts: "so_Length (normalizedSequenceOptions demo_sequence_options) = 2" "so_Window (normalizedSequenceOptions demo_sequence_options) = 10 * second"
    "so_MaxInflightPerIP (normalizedSequenceOptions demo_sequence_options) = 1" "so_MaxTotalInflight (normalizedSequenceOptions demo_sequence_options) = 2"
    by (simp_all add: normalizedSequenceOptions_def demo_sequence_options_def Let_def)
  have fields: "sq_states demo_tracker = []" "sq_total demo_tracker = 0" "expiry (sq_completed demo_tracker) k = None" for k
    by (simp_all add: demo_tracker_def newSequenceTracker_def Let_def NewTTLLRU_def expiry_def)
  have parts: "part_of ?key 2 [] (now, demo_source, demo_part i)" if "i = 0 \<or> i = 1" for i now
    using that by (auto simp: part_of_def demo_part_def sequenceStateKey_def)
  have "fst (seq_run ((5 * second, demo_source, demo_part 1) # [(6 * second, demo_source, demo_part 0)])
      (snd (seq_run [] (newSequenceTracker demo_sequence_options 0)))) = replicate (nat 2 - 1) (Inr False) @ [Inr True]"
    by (rule sequence_completes [where sid = "[]" and key = ?key])
      (use parts in \<open>auto simp del: seq_run.simps simp: new opts fields states_of_ip_def demo_part_def time_Sub_def time_defs\<close>)
  then show ?thesis by (simp add: demo_tracker_def numeral_2_eq_2)
qed

end
