(* ===== verification/Knock_UDP.thy ===== *)
theory Knock_UDP
  imports Knock_Sequence
begin

text \<open>
  Package knock: sending UDP knocks and knock sequences, and the loops of the two UDP listeners
  (udp.go, udp_seq.go, the replay cache of replay.go). A listener is a function of the datagrams
  its socket delivers, each with the instants at which the code reads the clock. The hooks of the
  application (\<open>AllowPacket\<close>, \<open>PacketLimiter\<close>) are functions of a state of their own, what the
  handler and \<open>InvalidPacket\<close> are called with is the output.
\<close>

section \<open>Options and outputs\<close>

record 'w ListenOptions =
  lo_Port :: int
  lo_KnockPort :: int
  lo_Clients :: "ClientSecret list"
  lo_TimeWindow :: duration
  lo_MaxFrameSize :: int
  lo_RequireSessionID :: bool
  lo_AllowPacket :: "(bytes \<Rightarrow> 'w \<Rightarrow> bool \<times> 'w) option"
  lo_PacketLimiter :: "(bytes \<Rightarrow> 'w \<Rightarrow> bool \<times> 'w) option"
  lo_InvalidPacket :: bool
  lo_Sequence :: SequenceOptions
  lo_NonceTTL :: duration

record SendOptions =
  sn_ServerAddr :: string
  sn_ClientID :: string
  sn_Secret :: bytes
  sn_ServerPort :: int
  sn_TimeWindow :: duration
  sn_MaxFrameSize :: int
  sn_Sequence :: SequenceOptions
  sn_SessionID :: bytes

record Event =
  ev_SourceIP :: bytes
  ev_ClientID :: string
  ev_Nonce :: string
  ev_Method :: string
  ev_Parts :: int
  ev_SessionID :: bytes

datatype knock_output = Handled Event | InvalidPacket bytes error

record ('w, 'r) knock_world =
  kw_replay :: "'r ReplayCache"
  kw_hooks :: 'w
  kw_tracker :: sequenceTracker

text \<open>One datagram, with the clock at the age check, in the replay cache and in the tracker.\<close>

record datagram =
  dg_addr :: net_addr
  dg_data :: bytes
  dg_age :: time
  dg_replay :: time
  dg_track :: time

section \<open>Shared helpers\<close>

definition replayCache :: "'w ListenOptions \<Rightarrow> 'r ReplayCache \<Rightarrow> 'r ReplayCache" where
  "replayCache opts rc = (if hasReplayCache rc then rc else MemoryCache (NewMemoryReplayCache (knock_replay_ttl (lo_TimeWindow opts))))"

definition maxKnockFrameSize :: "'w ListenOptions \<Rightarrow> int" where
  "maxKnockFrameSize opts = (if lo_MaxFrameSize opts > 0 then lo_MaxFrameSize opts else DefaultMaxKnockFrameSize)"

definition requireKnockSessionID :: "'w ListenOptions \<Rightarrow> KnockInfo option \<Rightarrow> error option" where
  "requireKnockSessionID opts infop =
     (if \<not> lo_RequireSessionID opts then None
      else case infop of None \<Rightarrow> requireSessionID [] | Some info \<Rightarrow> requireSessionID (ki_SessionID info))"

definition report_invalid :: "'w ListenOptions \<Rightarrow> bytes \<Rightarrow> error \<Rightarrow> knock_output list" where
  "report_invalid opts ip err = (if lo_InvalidPacket opts then [InvalidPacket ip err] else [])"

definition allowKnockPacket :: "'w ListenOptions \<Rightarrow> bytes \<Rightarrow> 'w \<Rightarrow> bool \<times> knock_output list \<times> 'w" where
  "allowKnockPacket opts ip w =
     (let (ok, w) = (case lo_AllowPacket opts of None \<Rightarrow> (True, w) | Some f \<Rightarrow> f ip w)
      in if \<not> ok then (False, [], w)
         else let (ok, w) = (case lo_PacketLimiter opts of None \<Rightarrow> (True, w) | Some f \<Rightarrow> f ip w)
              in if \<not> ok then (False, report_invalid opts ip (Errorf ''packet_rate_limited''), w) else (True, [], w))"

section \<open>The UDP listener\<close>

definition udp_config :: "'w ListenOptions \<Rightarrow> KnockServerConfig" where
  "udp_config opts = \<lparr>ks_Clients = lo_Clients opts, ks_ServerPort = lo_Port opts, ks_Method = UDPMethod,
     ks_TimeWindow = lo_TimeWindow opts, ks_MaxFrameSize = maxKnockFrameSize opts, ks_AllowSequence = False\<rparr>"

definition udp_receive ::
    "crypto \<Rightarrow> 'w ListenOptions \<Rightarrow> datagram \<Rightarrow> ('w, 'r) knock_world \<Rightarrow> knock_output list \<times> ('w, 'r) knock_world" where
  "udp_receive cr opts d w =
     (case dg_addr d of UDPAddr ip _ _ \<Rightarrow>
        if ip = [] then ([], w)
        else
          let (ok, outs, hooks) = allowKnockPacket opts ip (kw_hooks w);
              w = w\<lparr>kw_hooks := hooks\<rparr>
          in if \<not> ok then (outs, w)
             else
               let (r, rc) = OpenKnockFrame cr (dg_age d) (dg_replay d) (take (nat (maxKnockFrameSize opts)) (dg_data d)) (udp_config opts) (kw_replay w);
                   w = w\<lparr>kw_replay := rc\<rparr>
               in (case r of
                     Inl err \<Rightarrow> (report_invalid opts ip err, w)
                   | Inr info \<Rightarrow> (case requireKnockSessionID opts (Some info) of
                       Some err \<Rightarrow> (report_invalid opts ip err, w)
                     | None \<Rightarrow> ([Handled \<lparr>ev_SourceIP = ip, ev_ClientID = ki_ClientID info, ev_Nonce = hex_EncodeToString (ki_Nonce info),
                                  ev_Method = UDPMethod, ev_Parts = 0, ev_SessionID = ki_SessionID info\<rparr>], w)))
      | _ \<Rightarrow> ([], w))"

text \<open>
  \<open>Serve\<close>: datagrams until a read fails; then the context's error if it has one, else the read's.
  The list of reads is what the socket delivered so far; without a failure the loop still waits.
\<close>

datatype udp_read = Datagram datagram | ReadFailed error "error option"

fun udp_Serve ::
    "crypto \<Rightarrow> 'w ListenOptions \<Rightarrow> udp_read list \<Rightarrow> ('w, 'r) knock_world \<Rightarrow>
     knock_output list list \<times> error option \<times> ('w, 'r) knock_world" where
  "udp_Serve cr opts [] w = ([], None, w)"
| "udp_Serve cr opts (ReadFailed err ctxErr # _) w = ([], Some (case ctxErr of Some e \<Rightarrow> e | None \<Rightarrow> err), w)"
| "udp_Serve cr opts (Datagram d # reads) w =
     (let (outs, w) = udp_receive cr opts d w; (rest, r, w) = udp_Serve cr opts reads w in (outs # rest, r, w))"

definition NewUDPListener :: "string \<Rightarrow> 'w ListenOptions \<Rightarrow> 'c result \<Rightarrow> 'c result" where
  "NewUDPListener listen opts bound =
     (if listen = [] then Inl (Errorf ''udp listen address is required'')
      else case ValidateClientSecrets (lo_Clients opts) of Some err \<Rightarrow> Inl err | None \<Rightarrow> bound)"

definition ListenUDP ::
    "crypto \<Rightarrow> string \<Rightarrow> 'w ListenOptions \<Rightarrow> 'c result \<Rightarrow> udp_read list \<Rightarrow> 'r ReplayCache \<Rightarrow> 'w \<Rightarrow> knock_output list list \<times> error option" where
  "ListenUDP cr listen opts bound reads rc hooks =
     (case NewUDPListener listen opts bound of Inl err \<Rightarrow> ([], Some err)
      | Inr _ \<Rightarrow> let (outs, r, _) = udp_Serve cr opts reads \<lparr>kw_replay = replayCache opts rc, kw_hooks = hooks,
                   kw_tracker = newSequenceTracker (lo_Sequence opts) (lo_NonceTTL opts)\<rparr> in (outs, r))"

section \<open>The listener for sequences\<close>

definition udp_sequence_config :: "'w ListenOptions \<Rightarrow> KnockServerConfig" where
  "udp_sequence_config opts = (udp_config opts)\<lparr>ks_Method := UDPSeqMethod, ks_AllowSequence := True\<rparr>"

definition udp_sequence_receive ::
    "crypto \<Rightarrow> 'w ListenOptions \<Rightarrow> datagram \<Rightarrow> ('w, 'r) knock_world \<Rightarrow> knock_output list \<times> ('w, 'r) knock_world" where
  "udp_sequence_receive cr opts d w =
     (case dg_addr d of UDPAddr ip _ _ \<Rightarrow>
        if ip = [] then ([], w)
        else
          let (ok, outs, hooks) = allowKnockPacket opts ip (kw_hooks w);
              w = w\<lparr>kw_hooks := hooks\<rparr>
          in if \<not> ok then (outs, w)
             else
               let (r, rc) = OpenKnockFrame cr (dg_age d) (dg_replay d) (take (nat (maxKnockFrameSize opts)) (dg_data d)) (udp_sequence_config opts) (kw_replay w);
                   w = w\<lparr>kw_replay := rc\<rparr>
               in (case r of
                     Inl err \<Rightarrow> (report_invalid opts ip err, w)
                   | Inr info \<Rightarrow> (case requireKnockSessionID opts (Some info) of
                       Some err \<Rightarrow> (report_invalid opts ip err, w)
                     | None \<Rightarrow>
                         let (added, tracker) = seq_add ip (Some info) (dg_track d) (kw_tracker w);
                             w = w\<lparr>kw_tracker := tracker\<rparr>
                         in (case added of
                               Inl err \<Rightarrow> (report_invalid opts ip err, w)
                             | Inr complete \<Rightarrow>
                                 (if complete then [Handled \<lparr>ev_SourceIP = ip, ev_ClientID = ki_ClientID info, ev_Nonce = hex_EncodeToString (ki_Nonce info),
                                    ev_Method = UDPSeqMethod, ev_Parts = ki_SequenceTotal info, ev_SessionID = ki_SessionID info\<rparr>] else [], w))))
      | _ \<Rightarrow> ([], w))"

fun udp_sequence_Serve ::
    "crypto \<Rightarrow> 'w ListenOptions \<Rightarrow> udp_read list \<Rightarrow> ('w, 'r) knock_world \<Rightarrow>
     knock_output list list \<times> error option \<times> ('w, 'r) knock_world" where
  "udp_sequence_Serve cr opts [] w = ([], None, w)"
| "udp_sequence_Serve cr opts (ReadFailed err ctxErr # _) w = ([], Some (case ctxErr of Some e \<Rightarrow> e | None \<Rightarrow> err), w)"
| "udp_sequence_Serve cr opts (Datagram d # reads) w =
     (let (outs, w) = udp_sequence_receive cr opts d w; (rest, r, w) = udp_sequence_Serve cr opts reads w in (outs # rest, r, w))"

definition NewUDPSequenceListener :: "string \<Rightarrow> 'w ListenOptions \<Rightarrow> 'c result \<Rightarrow> 'c result" where
  "NewUDPSequenceListener listen opts bound =
     (if listen = [] then Inl (Errorf ''udp listen address is required'')
      else case ValidateClientSecrets (lo_Clients opts) of Some err \<Rightarrow> Inl err | None \<Rightarrow> bound)"

definition ListenUDPSequence ::
    "crypto \<Rightarrow> string \<Rightarrow> 'w ListenOptions \<Rightarrow> 'c result \<Rightarrow> udp_read list \<Rightarrow> 'r ReplayCache \<Rightarrow> 'w \<Rightarrow> knock_output list list \<times> error option" where
  "ListenUDPSequence cr listen opts bound reads rc hooks =
     (case NewUDPSequenceListener listen opts bound of Inl err \<Rightarrow> ([], Some err)
      | Inr _ \<Rightarrow> let (outs, r, _) = udp_sequence_Serve cr opts reads \<lparr>kw_replay = replayCache opts rc, kw_hooks = hooks,
                   kw_tracker = newSequenceTracker (lo_Sequence opts) (lo_NonceTTL opts)\<rparr> in (outs, r))"

section \<open>Sending\<close>

definition ValidateSendOptions :: "SendOptions \<Rightarrow> error option" where
  "ValidateSendOptions opts =
     (case ValidateClientSecret \<lparr>cs_ClientID = sn_ClientID opts, cs_Secret = sn_Secret opts\<rparr> of
        Some err \<Rightarrow> Some err | None \<Rightarrow> validateProtectedPort (sn_ServerPort opts))"

definition send_options :: "SendOptions \<Rightarrow> string \<Rightarrow> KnockFrameOptions" where
  "send_options opts meth = \<lparr>ko_ClientID = sn_ClientID opts, ko_Secret = sn_Secret opts, ko_Method = meth, ko_ServerPort = sn_ServerPort opts,
     ko_SessionID = sn_SessionID opts, ko_SequenceID = [], ko_SequenceIndex = 0, ko_SequenceTotal = 0, ko_ClientRandom = [], ko_Extensions = [],
     ko_Nonce = [], ko_KeyHint = 0, ko_Timestamp = zero_time, ko_MaxFrameSize = sn_MaxFrameSize opts\<rparr>"

text \<open>
  What a send meets: the clock and the randomness of the frame and the outcome of the write.
  The result is the error and the datagrams written, the failed one not among them.
\<close>

record send_env =
  se_now :: time
  se_random :: "bytes result"
  se_nonce :: "bytes result"
  se_write :: "error option"
  se_sleep :: "error option"

definition SendUDPMethod :: "crypto \<Rightarrow> send_env \<Rightarrow> error option \<Rightarrow> SendOptions \<Rightarrow> string \<Rightarrow> error option \<times> bytes list" where
  "SendUDPMethod cr env dial opts meth =
     (case BuildKnockFrame cr (se_now env) (se_random env) (se_nonce env) (send_options opts meth) of
        Inl err \<Rightarrow> (Some err, [])
      | Inr data \<Rightarrow> (case dial of Some err \<Rightarrow> (Some err, []) | None \<Rightarrow>
          (case se_write env of Some err \<Rightarrow> (Some err, []) | None \<Rightarrow> (None, [data]))))"

definition SendUDP :: "crypto \<Rightarrow> send_env \<Rightarrow> error option \<Rightarrow> SendOptions \<Rightarrow> error option \<times> bytes list" where
  "SendUDP cr env dial opts = SendUDPMethod cr env dial opts ''udp''"

text \<open>The wait between two parts: none behind the last, else the interval plus a jitter, unless the context ends.\<close>

definition jitter :: "duration \<Rightarrow> (byte \<times> byte) option \<Rightarrow> duration" where
  "jitter mx rnd = (if mx \<le> 0 then 0 else case rnd of None \<Rightarrow> 0
     | Some (b0, b1) \<Rightarrow> (uint b0 * 256 + uint b1) mod (mx + 1))"

definition sleepSequenceInterval :: "send_env \<Rightarrow> int \<Rightarrow> int \<Rightarrow> error option" where
  "sleepSequenceInterval env idx tot = (if idx + 1 \<ge> tot then None else se_sleep env)"

fun send_parts ::
    "crypto \<Rightarrow> SendOptions \<Rightarrow> string \<Rightarrow> bytes \<Rightarrow> int \<Rightarrow> int \<Rightarrow> send_env list \<Rightarrow> error option \<times> bytes list" where
  "send_parts cr opts meth sequenceID tot i [] = (None, [])"
| "send_parts cr opts meth sequenceID tot i (env # envs) =
     (if i \<ge> tot then (None, [])
      else case BuildKnockFrame cr (se_now env) (se_random env) (se_nonce env)
             ((send_options opts meth)\<lparr>ko_SequenceID := sequenceID, ko_SequenceIndex := i, ko_SequenceTotal := tot\<rparr>) of
        Inl err \<Rightarrow> (Some err, [])
      | Inr data \<Rightarrow> (case se_write env of Some err \<Rightarrow> (Some err, []) | None \<Rightarrow>
          (case sleepSequenceInterval env i tot of Some err \<Rightarrow> (Some err, [data]) | None \<Rightarrow>
             let (err, rest) = send_parts cr opts meth sequenceID tot (i + 1) envs in (err, data # rest))))"

definition SendUDPSequenceMethod ::
    "crypto \<Rightarrow> bytes result \<Rightarrow> send_env list \<Rightarrow> error option \<Rightarrow> SendOptions \<Rightarrow> string \<Rightarrow> error option \<times> bytes list" where
  "SendUDPSequenceMethod cr rndID envs dial opts meth0 =
     (let meth = (if meth0 = [] then UDPSeqMethod else meth0)
      in case ValidateSendOptions opts of Some err \<Rightarrow> (Some err, []) | None \<Rightarrow>
      let sq = normalizedSequenceOptions (sn_Sequence opts)
      in if so_Length sq < 2 \<or> so_Length sq > DefaultSequenceMaxParts
         then (Some (Errorf ''udp sequence length must be between 2 and 8''), [])
         else case rndID of Inl err \<Rightarrow> (Some err, []) | Inr sequenceID \<Rightarrow>
           (case dial of Some err \<Rightarrow> (Some err, []) | None \<Rightarrow> send_parts cr opts meth sequenceID (so_Length sq) 0 envs))"

definition SendUDPSequence ::
    "crypto \<Rightarrow> bytes result \<Rightarrow> send_env list \<Rightarrow> error option \<Rightarrow> SendOptions \<Rightarrow> error option \<times> bytes list" where
  "SendUDPSequence cr rndID envs dial opts = SendUDPSequenceMethod cr rndID envs dial opts UDPSeqMethod"

definition SendUDPPassiveSequence ::
    "crypto \<Rightarrow> bytes result \<Rightarrow> send_env list \<Rightarrow> error option \<Rightarrow> SendOptions \<Rightarrow> error option \<times> bytes list" where
  "SendUDPPassiveSequence cr rndID envs dial opts = SendUDPSequenceMethod cr rndID envs dial opts UDPPassiveSeq"


section \<open>Listeners with a replay cache\<close>

text \<open>
  The contract that every knock listener with the package's replay cache meets: handling a packet
  keeps the live nonces, and a packet that the application is called for marks its nonce for the
  cache's lifetime and was not marked. A nonce is then handled again only after it expired.
\<close>

fun memory_of :: "'r ReplayCache \<Rightarrow> MemoryReplayCache option" where
  "memory_of (MemoryCache c) = Some c" | "memory_of _ = None"

lemma memory_of_Some: "memory_of rc = Some c \<longleftrightarrow> rc = MemoryCache c"
  by (cases rc) auto

fun listen_run :: "('d \<Rightarrow> 'w \<Rightarrow> 'o \<times> 'w) \<Rightarrow> 'd list \<Rightarrow> 'w \<Rightarrow> 'o list" where
  "listen_run receive [] w = []"
| "listen_run receive (d # ds) w = (let (out, w') = receive d w in out # listen_run receive ds w')"

locale guarded_listener =
  fixes receive :: "'d \<Rightarrow> 'w \<Rightarrow> 'o \<times> 'w" and cache :: "'w \<Rightarrow> MemoryReplayCache option" and clock :: "'d \<Rightarrow> time"
    and marks :: "'d \<Rightarrow> 'o \<Rightarrow> string \<Rightarrow> bytes \<Rightarrow> bool"
  assumes keep: "receive d w = (out, w') \<Longrightarrow> cache w = Some c \<Longrightarrow> mrc_ok c \<Longrightarrow>
      \<exists>c'. cache w' = Some c' \<and> mrc_ok c' \<and> mrc_ttl c' = mrc_ttl c \<and>
        (\<forall>i m. unexpired (clock d) (mrc_seen c i m) \<longrightarrow> mrc_seen c' i m = mrc_seen c i m)"
    and accept: "receive d w = (out, w') \<Longrightarrow> marks d out ident nonce \<Longrightarrow> cache w = Some c \<Longrightarrow> mrc_ok c \<Longrightarrow>
      \<exists>c'. cache w' = Some c' \<and> mrc_ok c' \<and>
        mrc_seen c' ident nonce = Some (clock d + mrc_ttl c) \<and> \<not> unexpired (clock d) (mrc_seen c ident nonce)"
begin

lemma later:
  assumes "cache w = Some c" "mrc_ok c" "mrc_seen c ident nonce = Some e" "sorted (map clock ds)" "j < length ds"
    "marks (ds ! j) (listen_run receive ds w ! j) ident nonce"
  shows "e \<le> clock (ds ! j)"
  using assms
proof (induction ds arbitrary: w c j)
  case (Cons d ds)
  obtain out w' where run: "receive d w = (out, w')" by (rule prod.exhaust)
  show ?case
  proof (cases j)
    case 0
    then have "marks d out ident nonce" using Cons.prems(6) run by simp
    from accept [OF run this Cons.prems(1,2)] Cons.prems(3) 0 show ?thesis by (auto simp: not_less)
  next
    case (Suc i)
    have i: "i < length ds" "marks (ds ! i) (listen_run receive ds w' ! i) ident nonce"
      using Cons.prems(5,6) Suc run by simp_all
    show ?thesis
    proof (rule ccontr)
      assume early: "\<not> ?thesis"
      have "clock d \<le> clock (ds ! i)" using Cons.prems(4) i(1) by simp
      then have "unexpired (clock d) (mrc_seen c ident nonce)" using early Suc Cons.prems(3) by simp
      then obtain c' where "cache w' = Some c'" "mrc_ok c'" "mrc_seen c' ident nonce = Some e"
        using keep [OF run Cons.prems(1,2)] Cons.prems(3) by auto
      from Cons.IH [OF this _ i] Cons.prems(4) early Suc show False by simp
    qed
  qed
qed simp

lemma twice:
  assumes "cache w = Some c" "mrc_ok c" "sorted (map clock ds)" "i < j" "j < length ds"
    "marks (ds ! i) (listen_run receive ds w ! i) ident nonce" "marks (ds ! j) (listen_run receive ds w ! j) ident nonce"
  shows "clock (ds ! i) + mrc_ttl c \<le> clock (ds ! j)"
  using assms
proof (induction ds arbitrary: w c i j)
  case (Cons d ds)
  obtain out w' where run: "receive d w = (out, w')" by (rule prod.exhaust)
  obtain j' where j: "j = Suc j'" using Cons.prems(4) by (cases j) auto
  have j': "j' < length ds" "marks (ds ! j') (listen_run receive ds w' ! j') ident nonce"
    using Cons.prems(5,7) j run by simp_all
  show ?case
  proof (cases i)
    case 0
    then have "marks d out ident nonce" using Cons.prems(6) run by simp
    from accept [OF run this Cons.prems(1,2)] obtain c' where
      "cache w' = Some c'" "mrc_ok c'" "mrc_seen c' ident nonce = Some (clock d + mrc_ttl c)" by blast
    from later [OF this _ j'] Cons.prems(3) 0 j show ?thesis by simp
  next
    case (Suc i')
    obtain c' where c': "cache w' = Some c'" "mrc_ok c'" "mrc_ttl c' = mrc_ttl c"
      using keep [OF run Cons.prems(1,2)] by blast
    have "clock (ds ! i') + mrc_ttl c' \<le> clock (ds ! j')"
      using Cons.prems j j' Suc run by (intro Cons.IH [OF c'(1,2)]) simp_all
    then show ?thesis using Suc j c'(3) by simp
  qed
qed simp

end

section \<open>What opening does to the replay cache\<close>

lemma open_clients_touches:
  "snd (open_clients cr cfg tAge tReplay h sealed saw clients rc) = rc \<or>
   (\<exists>ident n e. replay_CheckAndMark tReplay ident n rc = (e, snd (open_clients cr cfg tAge tReplay h sealed saw clients rc)))"
proof (induction clients arbitrary: saw)
  case (Cons client clients)
  then show ?case
    by (auto simp del: replay_CheckAndMark.simps split: sum.splits option.splits prod.splits)
qed simp

lemma openKnockFrame_touches:
  "snd (openKnockFrame cr tAge tReplay packet cfg rc) = rc \<or>
   (\<exists>ident n e. replay_CheckAndMark tReplay ident n rc = (e, snd (openKnockFrame cr tAge tReplay packet cfg rc)))"
proof -
  let ?h = "decodeKnockHeader (take KnockFrameHeaderSize packet)"
  have "snd (openKnockFrame cr tAge tReplay packet cfg rc) = rc \<or>
    snd (openKnockFrame cr tAge tReplay packet cfg rc) =
    snd (open_clients cr (knock_server_defaults cfg) tAge tReplay ?h (drop KnockFrameHeaderSize packet) False
       (ks_Clients (knock_server_defaults cfg)) rc)"
    by (auto simp: openKnockFrame_def Let_def split: option.splits if_splits)
  then show ?thesis
    using open_clients_touches [of cr "knock_server_defaults cfg" tAge tReplay ?h "drop KnockFrameHeaderSize packet" False
        "ks_Clients (knock_server_defaults cfg)" rc] by auto
qed

text \<open>Which client and payload a packet stands for does not depend on the clock or the cache.\<close>

lemma open_clients_same:
  assumes "open_clients cr cfg t1 r1 h sealed saw clients rc1 = (Inr info1, rc1')"
    "open_clients cr cfg t2 r2 h sealed saw' clients rc2 = (Inr info2, rc2')"
  shows "info1 = info2"
  using assms
proof (induction clients arbitrary: saw saw')
  case (Cons client clients)
  from Cons.prems Cons.IH show ?case
    by (auto simp del: replay_CheckAndMark.simps split: if_splits sum.splits option.splits prod.splits)
qed simp

lemma OpenKnockFrame_same:
  assumes "OpenKnockFrame cr t1 r1 packet cfg rc1 = (Inr info1, rc1')" "OpenKnockFrame cr t2 r2 packet cfg rc2 = (Inr info2, rc2')"
  shows "info1 = info2"
proof -
  let ?h = "decodeKnockHeader (take KnockFrameHeaderSize packet)"
  let ?run = "\<lambda>t r rc. open_clients cr (knock_server_defaults cfg) t r ?h (drop KnockFrameHeaderSize packet) False
     (ks_Clients (knock_server_defaults cfg)) rc"
  have "?run t1 r1 rc1 = (Inr info1, rc1')" using assms(1) by (auto simp: OpenKnockFrame_def openKnockFrame_def Let_def split: option.splits if_splits)
  moreover have "?run t2 r2 rc2 = (Inr info2, rc2')" using assms(2) by (auto simp: OpenKnockFrame_def openKnockFrame_def Let_def split: option.splits if_splits)
  ultimately show ?thesis by (rule open_clients_same)
qed

section \<open>What a datagram does\<close>

lemma report_not_handled [simp]: "report_invalid opts ip e \<noteq> [Handled ev]"
  by (simp add: report_invalid_def)

lemma allow_not_handled: "allowKnockPacket opts ip w = (ok, outs, w') \<Longrightarrow> outs \<noteq> [Handled ev]"
  by (auto simp: allowKnockPacket_def Let_def split: option.splits prod.splits if_splits)

lemma udp_receive_Handled:
  assumes "udp_receive cr opts d w = ([Handled ev], w')"
  shows "\<exists>ip port zone info. dg_addr d = UDPAddr ip port zone \<and>
    OpenKnockFrame cr (dg_age d) (dg_replay d) (take (nat (maxKnockFrameSize opts)) (dg_data d)) (udp_config opts) (kw_replay w) =
      (Inr info, kw_replay w') \<and> requireKnockSessionID opts (Some info) = None \<and>
    ev = \<lparr>ev_SourceIP = ip, ev_ClientID = ki_ClientID info, ev_Nonce = hex_EncodeToString (ki_Nonce info),
          ev_Method = UDPMethod, ev_Parts = 0, ev_SessionID = ki_SessionID info\<rparr>"
  using assms allow_not_handled
  by (fastforce simp: udp_receive_def Let_def split: net_addr.splits if_splits prod.splits sum.splits option.splits)

lemma udp_receive_touches:
  assumes "udp_receive cr opts d w = (outs, w')"
  shows "kw_replay w' = kw_replay w \<or> (\<exists>ident n e. replay_CheckAndMark (dg_replay d) ident n (kw_replay w) = (e, kw_replay w'))"
proof -
  let ?open = "OpenKnockFrame cr (dg_age d) (dg_replay d) (take (nat (maxKnockFrameSize opts)) (dg_data d)) (udp_config opts) (kw_replay w)"
  have "kw_replay w' = kw_replay w \<or> kw_replay w' = snd ?open"
    using assms by (auto simp: udp_receive_def Let_def split: net_addr.splits if_splits prod.splits sum.splits option.splits)
  moreover have "snd ?open = kw_replay w \<or> (\<exists>ident n e. replay_CheckAndMark (dg_replay d) ident n (kw_replay w) = (e, snd ?open))"
    unfolding OpenKnockFrame_def by (simp add: openKnockFrame_touches del: replay_CheckAndMark.simps)
  ultimately show ?thesis by metis
qed


definition udp_packet :: "'w ListenOptions \<Rightarrow> datagram \<Rightarrow> bytes" where
  "udp_packet opts d = take (nat (maxKnockFrameSize opts)) (dg_data d)"

text \<open>The knock a datagram carries, if any server state accepts it at all.\<close>

definition carries :: "crypto \<Rightarrow> 'w ListenOptions \<Rightarrow> bytes \<Rightarrow> KnockInfo \<Rightarrow> bool" where
  "carries cr opts packet info \<longleftrightarrow> (\<exists>t r c rc'. OpenKnockFrame cr t r packet (udp_config opts) (MemoryCache c :: unit ReplayCache) = (Inr info, rc'))"

lemma mem_check_memory:
  assumes "replay_CheckAndMark now ident n (MemoryCache c) = (e, rc')" "mrc_ok c"
  shows "\<exists>c'. rc' = MemoryCache c' \<and> mrc_ok c' \<and> mrc_ttl c' = mrc_ttl c \<and> mrc_CheckAndMark now ident n c = (e, c') \<and>
    (\<forall>i m. unexpired now (mrc_seen c i m) \<longrightarrow> mrc_seen c' i m = mrc_seen c i m)"
proof -
  obtain c' where c': "mrc_CheckAndMark now ident n c = (e, c')" "rc' = MemoryCache c'"
    using assms(1) by (auto split: prod.splits)
  then show ?thesis
    using memory_replay.check_inv [OF assms(2) c'(1)] memory_replay.check_keep [OF assms(2) c'(1)] by blast
qed

lemma udp_receive_memory:
  assumes "udp_receive cr opts d w = (outs, w')" "kw_replay w = MemoryCache c" "mrc_ok c"
  shows "\<exists>c'. kw_replay w' = MemoryCache c' \<and> mrc_ok c' \<and> mrc_ttl c' = mrc_ttl c \<and>
    (\<forall>i m. unexpired (dg_replay d) (mrc_seen c i m) \<longrightarrow> mrc_seen c' i m = mrc_seen c i m)"
  using udp_receive_touches [OF assms(1)] mem_check_memory [OF _ assms(3)] assms(2,3) by metis

lemma OpenKnockFrame_checked:
  assumes "crypto_ok cr" "OpenKnockFrame cr tAge tReplay packet cfg rc = (Inr info, rc')"
  shows "replay_CheckAndMark tReplay (ki_ClientID info) (ki_Nonce info) rc = (None, rc')"
    "- ks_TimeWindow (knock_server_defaults cfg) \<le> time_Sub tAge (ki_Timestamp info)"
    "time_Sub tAge (ki_Timestamp info) \<le> ks_TimeWindow (knock_server_defaults cfg)"
proof -
  have has: "hasReplayCache rc" and open': "openKnockFrame cr tAge tReplay packet cfg rc = (Inr info, rc')"
    using assms(2) by (auto simp: OpenKnockFrame_def split: if_splits)
  from openKnockFrame_Inr [OF assms(1) open'] obtain client h payload where
    c: "info = knock_info client h payload" and chk: "check_knock_payload (knock_server_defaults cfg) tAge h payload = None"
    and rp: "knock_replay tReplay (cs_ClientID client) (kh_Nonce h) rc = (None, rc')"
    by blast
  show "replay_CheckAndMark tReplay (ki_ClientID info) (ki_Nonce info) rc = (None, rc')"
    using rp has by (simp add: knock_replay_def c knock_info_def)
  show "- ks_TimeWindow (knock_server_defaults cfg) \<le> time_Sub tAge (ki_Timestamp info)"
    "time_Sub tAge (ki_Timestamp info) \<le> ks_TimeWindow (knock_server_defaults cfg)"
    using chk unfolding check_knock_payload_def Let_def by (auto simp: c knock_info_def not_less split: if_splits option.splits)
qed

lemma udp_receive_accepts:
  fixes w :: "('w, unit) knock_world"
  assumes "crypto_ok cr" "udp_receive cr opts d w = ([Handled ev], w')" "kw_replay w = MemoryCache c" "mrc_ok c"
    "carries cr opts (udp_packet opts d) info"
  shows "\<exists>c'. kw_replay w' = MemoryCache c' \<and> mrc_ok c' \<and> mrc_ttl c' = mrc_ttl c \<and>
    mrc_seen c' (ki_ClientID info) (ki_Nonce info) = Some (dg_replay d + mrc_ttl c) \<and>
    \<not> unexpired (dg_replay d) (mrc_seen c (ki_ClientID info) (ki_Nonce info)) \<and>
    - ks_TimeWindow (knock_server_defaults (udp_config opts)) \<le> time_Sub (dg_age d) (ki_Timestamp info) \<and>
    time_Sub (dg_age d) (ki_Timestamp info) \<le> ks_TimeWindow (knock_server_defaults (udp_config opts))"
proof -
  from udp_receive_Handled [OF assms(2)] obtain info' where
    o: "OpenKnockFrame cr (dg_age d) (dg_replay d) (udp_packet opts d) (udp_config opts) (MemoryCache c) = (Inr info', kw_replay w')"
    unfolding udp_packet_def assms(3) by blast
  then have info: "info' = info" using assms(5) OpenKnockFrame_same unfolding carries_def by blast
  note k = OpenKnockFrame_checked [OF assms(1) o [unfolded info]]
  from mem_check_memory [OF k(1) assms(4)] obtain c' where
    c': "kw_replay w' = MemoryCache c'" "mrc_ok c'" "mrc_ttl c' = mrc_ttl c"
      "mrc_CheckAndMark (dg_replay d) (ki_ClientID info) (ki_Nonce info) c = (None, c')"
    by blast
  then show ?thesis
    using k(2,3) memory_replay.check_accept [OF assms(4) c'(4)] memory_replay.check_replay [OF assms(4) c'(4)] by auto
qed

definition udp_outputs ::
    "crypto \<Rightarrow> 'w ListenOptions \<Rightarrow> datagram list \<Rightarrow> ('w, unit) knock_world \<Rightarrow> knock_output list list" where
  "udp_outputs cr opts ds w = fst (udp_Serve cr opts (map Datagram ds) w)"

lemma udp_outputs_Cons:
  assumes "udp_receive cr opts d w = (outs, w')"
  shows "udp_outputs cr opts (d # ds) w = outs # udp_outputs cr opts ds w'"
  using assms by (simp add: udp_outputs_def Let_def split_def)

text \<open>How \<open>udp_receive\<close> meets the contract of a listener with a replay cache.\<close>

definition udp_marks :: "crypto \<Rightarrow> 'w ListenOptions \<Rightarrow> datagram \<Rightarrow> knock_output list \<Rightarrow> string \<Rightarrow> bytes \<Rightarrow> bool" where
  "udp_marks cr opts d outs ident nonce \<longleftrightarrow> crypto_ok cr \<and> (\<exists>ev. outs = [Handled ev]) \<and>
     (\<exists>info. carries cr opts (udp_packet opts d) info \<and> ident = ki_ClientID info \<and> nonce = ki_Nonce info)"

interpretation udp_guard: guarded_listener "udp_receive cr opts" "\<lambda>w :: ('w, unit) knock_world. memory_of (kw_replay w)" dg_replay
    "udp_marks cr opts" for cr opts
proof
  show "\<exists>c'. memory_of (kw_replay w') = Some c' \<and> mrc_ok c' \<and> mrc_ttl c' = mrc_ttl c \<and>
      (\<forall>i m. unexpired (dg_replay d) (mrc_seen c i m) \<longrightarrow> mrc_seen c' i m = mrc_seen c i m)"
    if "udp_receive cr opts d w = (outs, w')" "memory_of (kw_replay w) = Some c" "mrc_ok c"
    for d outs c and w w' :: "('w, unit) knock_world"
    using udp_receive_memory [OF that(1) _ that(3)] that(2) by (auto simp: memory_of_Some)
  show "\<exists>c'. memory_of (kw_replay w') = Some c' \<and> mrc_ok c' \<and>
      mrc_seen c' ident nonce = Some (dg_replay d + mrc_ttl c) \<and> \<not> unexpired (dg_replay d) (mrc_seen c ident nonce)"
    if "udp_receive cr opts d w = (outs, w')" "udp_marks cr opts d outs ident nonce" "memory_of (kw_replay w) = Some c" "mrc_ok c"
    for d outs ident nonce c and w w' :: "('w, unit) knock_world"
    using that udp_receive_accepts [OF _ _ _ that(4)] by (fastforce simp: memory_of_Some udp_marks_def)
qed

lemma udp_outputs_run: "udp_outputs cr opts ds w = listen_run (udp_receive cr opts) ds w"
  by (induction ds arbitrary: w) (simp_all add: udp_outputs_def Let_def split_def)

lemma udp_accepted_age:
  assumes cr: "crypto_ok cr" and "kw_replay w = MemoryCache c" "mrc_ok c" "i < length ds" "udp_outputs cr opts ds w ! i = [Handled ev]"
  shows "\<exists>info. carries cr opts (udp_packet opts (ds ! i)) info \<and>
    - ks_TimeWindow (knock_server_defaults (udp_config opts)) \<le> time_Sub (dg_age (ds ! i)) (ki_Timestamp info) \<and>
    time_Sub (dg_age (ds ! i)) (ki_Timestamp info) \<le> ks_TimeWindow (knock_server_defaults (udp_config opts))"
  using assms(2-)
proof (induction ds arbitrary: w c i)
  case (Cons d ds)
  obtain outs w' where run: "udp_receive cr opts d w = (outs, w')" by (rule prod.exhaust)
  show ?case
  proof (cases i)
    case 0
    then have h: "udp_receive cr opts d w = ([Handled ev], w')" using Cons.prems(4) run by (simp add: udp_outputs_Cons)
    from udp_receive_Handled [OF this] obtain info where
      o: "OpenKnockFrame cr (dg_age d) (dg_replay d) (udp_packet opts d) (udp_config opts) (MemoryCache c) = (Inr info, kw_replay w')"
      unfolding udp_packet_def Cons.prems(1) by blast
    then have "carries cr opts (udp_packet opts d) info" unfolding carries_def by blast
    with OpenKnockFrame_checked(2,3) [OF cr o] 0 show ?thesis by auto
  next
    case (Suc i')
    obtain c' where c': "kw_replay w' = MemoryCache c'" "mrc_ok c'" using udp_receive_memory [OF run Cons.prems(1,2)] by blast
    from Cons.IH [OF c', of i'] Cons.prems(3,4) Suc run show ?thesis by (simp add: udp_outputs_Cons)
  qed
qed simp

section \<open>Properties\<close>

text \<open>
  Property C20. A listener with its own replay cache hands one datagram to the application at
  most once, however often it is delivered: along any datagrams in the order of their cache
  accesses, when no packet spends a second or more between the age check and the cache, no two
  of the handled ones are equal. The cache outlives the whole window of acceptance by a second.
\<close>

theorem udp_knock_once:
  fixes hooks :: 'w and opts :: "'w ListenOptions"
  defines "w \<equiv> \<lparr>kw_replay = replayCache opts (NilReplayCache :: unit ReplayCache), kw_hooks = hooks,
                 kw_tracker = newSequenceTracker (lo_Sequence opts) (lo_NonceTTL opts)\<rparr>"
  assumes cr: "crypto_ok cr" and sorted: "sorted (map dg_replay ds)"
    and quick: "\<forall>d \<in> set ds. dg_age d \<le> dg_replay d \<and> dg_replay d < dg_age d + second"
    and window: "2 * lo_TimeWindow opts + second \<le> maxDuration"
    and ij: "i < j" "j < length ds"
    and handled: "fst (udp_Serve cr opts (map Datagram ds) w) ! i = [Handled ev]" "fst (udp_Serve cr opts (map Datagram ds) w) ! j = [Handled ev']"
  shows "dg_data (ds ! i) \<noteq> dg_data (ds ! j)"
proof
  assume same: "dg_data (ds ! i) = dg_data (ds ! j)"
  let ?win = "ks_TimeWindow (knock_server_defaults (udp_config opts))" and ?ttl = "knock_replay_ttl (lo_TimeWindow opts)"
  let ?c = "NewMemoryReplayCache ?ttl"
  have ttl: "2 * ?win + second \<le> ?ttl" "0 < ?ttl" "0 < ?win" "2 * ?win + second \<le> maxDuration"
    using window dur_wrap_id [of "2 * lo_TimeWindow opts + second"]
    by (auto simp: knock_replay_ttl_def Let_def knock_server_defaults_def udp_config_def time_defs)
  have w: "kw_replay w = MemoryCache ?c" "mrc_ok ?c" "mrc_ttl ?c = ?ttl"
    using ttl(2) by (simp_all add: w_def replayCache_def NewMemoryReplayCache_def Let_def mrc_ok_New mrc_ttl_New)
  have h: "udp_outputs cr opts ds w ! i = [Handled ev]" "udp_outputs cr opts ds w ! j = [Handled ev']" "i < length ds"
    using handled ij by (simp_all add: udp_outputs_def)
  from udp_accepted_age [OF cr w(1,2) h(3,1)] obtain info where
    p: "carries cr opts (udp_packet opts (ds ! i)) info" "- ?win \<le> time_Sub (dg_age (ds ! i)) (ki_Timestamp info)" by blast
  from udp_accepted_age [OF cr w(1,2) ij(2) h(2)] obtain info' where
    q: "carries cr opts (udp_packet opts (ds ! j)) info'" "time_Sub (dg_age (ds ! j)) (ki_Timestamp info') \<le> ?win" by blast
  have packet: "udp_packet opts (ds ! j) = udp_packet opts (ds ! i)" using same by (simp add: udp_packet_def)
  then have info: "info' = info" using p(1) q(1) OpenKnockFrame_same unfolding carries_def by metis
  have "dg_replay (ds ! i) + ?ttl \<le> dg_replay (ds ! j)"
    using udp_guard.twice [of w ?c ds i j cr opts "ki_ClientID info" "ki_Nonce info"] w sorted ij h(1,2) p(1) q(1) cr
    by (simp add: info udp_marks_def udp_outputs_run memory_of_Some) blast
  moreover have "dg_age (ds ! i) \<le> dg_replay (ds ! i)" "dg_replay (ds ! j) < dg_age (ds ! j) + second"
    using quick nth_mem [OF ij(2)] nth_mem [OF h(3)] by auto
  moreover have "dg_age (ds ! i) - ki_Timestamp info \<ge> - ?win" "dg_age (ds ! j) - ki_Timestamp info \<le> ?win"
    using p(2) q(2) ttl(3,4) by (auto simp: time_Sub_def info time_defs split: if_splits)
  ultimately show False using ttl(1) by linarith
qed


lemma BuildKnockFrame_length:
  assumes "crypto_ok cr" "BuildKnockFrame cr now rndRandom rndNonce opts = Inr packet" "\<And>n. rndNonce = Inr n \<Longrightarrow> length n = KnockNonceBytes"
  shows "int (length packet) \<le> ko_MaxFrameSize (knock_options_defaults now opts)"
proof (rule BuildKnockFrame_parts [OF assms], goal_cases)
  case (2 nonce clientRandom plain sealed h)
  have "knock_header_ok h" using 2(1,9) by (simp add: knock_header_ok_def KnockNonceBytes_def)
  moreover from this have "length sealed = length plain + Overhead"
    using sealKnockPayload_Inr [OF assms(1)] 2(10) by (metis sum.inject(2))
  ultimately show ?case using 2(11,13) by simp
qed simp

lemma send_options_defaults:
  assumes "meth \<noteq> []"
  shows "ko_ClientID (knock_options_defaults now (send_options opts meth)) = sn_ClientID opts"
    "ko_Secret (knock_options_defaults now (send_options opts meth)) = sn_Secret opts"
    "ko_Method (knock_options_defaults now (send_options opts meth)) = meth"
    "ko_ServerPort (knock_options_defaults now (send_options opts meth)) = sn_ServerPort opts"
    "ko_SessionID (knock_options_defaults now (send_options opts meth)) = sn_SessionID opts"
    "ko_Timestamp (knock_options_defaults now (send_options opts meth)) = now"
    "ko_SequenceTotal (knock_options_defaults now (send_options opts meth)) = 0"
    "ko_SequenceID (knock_options_defaults now (send_options opts meth)) = []"
    "ko_MaxFrameSize (knock_options_defaults now (send_options opts meth)) =
       (if sn_MaxFrameSize opts \<le> 0 then DefaultMaxKnockFrameSize else sn_MaxFrameSize opts)"
    "ko_KeyHint (send_options opts meth) = 0"
  using assms by (simp_all add: knock_options_defaults_def send_options_def Let_def)

text \<open>
  Property C21. A knock that \<open>SendUDP\<close> sent and the network delivered is handled: when the
  listener protects the client's port and knows the client, the hooks let the source pass, the
  sender's frame limit is within the listener's, the clocks agree up to the time window, a
  required session id is present and the replay cache has not seen the nonce, the application is
  called with the source, the client and its session, and nothing else.
\<close>

theorem udp_knock_delivered:
  assumes cr: "crypto_ok cr" and sent: "SendUDP cr env dial sopts = (None, [data])"
    and rnd: "\<And>n. se_nonce env = Inr n \<Longrightarrow> length n = KnockNonceBytes"
    and d: "dg_addr d = UDPAddr ip port zone" "ip \<noteq> []" "dg_data d = data"
    and hooks: "allowKnockPacket opts ip (kw_hooks w) = (True, [], hooks')"
    and port: "lo_Port opts = sn_ServerPort sopts"
    and size: "(if sn_MaxFrameSize sopts \<le> 0 then DefaultMaxKnockFrameSize else sn_MaxFrameSize sopts) \<le> maxKnockFrameSize opts"
    and age: "\<bar>time_Sub (dg_age d) (time_UnixMilli (UnixMilli (se_now env)))\<bar> \<le> (if lo_TimeWindow opts \<le> 0 then 30 * second else lo_TimeWindow opts)"
    and sess: "lo_RequireSessionID opts \<longrightarrow> sn_SessionID sopts \<noteq> []"
    and nonce: "nonce = take KnockNonceBytes data"
    and first: "lo_Clients opts = pre @ \<lparr>cs_ClientID = sn_ClientID sopts, cs_Secret = sn_Secret sopts\<rparr> # post"
      "\<forall>c \<in> set pre. ComputeKnockKeyHint cr (cs_Secret c) nonce (lo_Port opts) \<noteq> ComputeKnockKeyHint cr (sn_Secret sopts) nonce (lo_Port opts)"
    and replay: "hasReplayCache (kw_replay w)" "replay_CheckAndMark (dg_replay d) (sn_ClientID sopts) nonce (kw_replay w) = (None, rc')"
  shows "udp_receive cr opts d w =
    ([Handled \<lparr>ev_SourceIP = ip, ev_ClientID = sn_ClientID sopts, ev_Nonce = hex_EncodeToString nonce, ev_Method = UDPMethod,
               ev_Parts = 0, ev_SessionID = sn_SessionID sopts\<rparr>], w\<lparr>kw_hooks := hooks', kw_replay := rc'\<rparr>)"
proof -
  have b: "BuildKnockFrame cr (se_now env) (se_random env) (se_nonce env) (send_options sopts UDPMethod) = Inr data"
    using sent by (auto simp: SendUDP_def SendUDPMethod_def UDPMethod_def split: sum.splits option.splits)
  have udp: "UDPMethod \<noteq> []" by (simp add: UDPMethod_def)
  note o = send_options_defaults [OF udp]
  have cfg: "ks_TimeWindow (knock_server_defaults (udp_config opts)) = (if lo_TimeWindow opts \<le> 0 then 30 * second else lo_TimeWindow opts)"
    "ks_MaxFrameSize (knock_server_defaults (udp_config opts)) = maxKnockFrameSize opts" "ks_ServerPort (udp_config opts) = lo_Port opts"
    "ks_Method (udp_config opts) = UDPMethod" "ks_Clients (udp_config opts) = lo_Clients opts"
    by (simp_all add: knock_server_defaults_def udp_config_def maxKnockFrameSize_def DefaultMaxKnockFrameSize_def Let_def)
  have sn: "\<exists>h rnd. OpenKnockFrame cr (dg_age d) (dg_replay d) data (udp_config opts) (kw_replay w) =
      (Inr (knock_info \<lparr>cs_ClientID = sn_ClientID sopts, cs_Secret = sn_Secret sopts\<rparr> h
        (built_payload cr (knock_options_defaults (se_now env) (send_options sopts UDPMethod)) rnd)), rc') \<and> kh_Nonce h = nonce"
    using open_built_knock [where cfg = "udp_config opts" and tAge = "dg_age d" and pre = pre and post = post and rc = "kw_replay w"
        and tReplay = "dg_replay d" and rc' = rc', OF cr b o(10) rnd refl _ _ _ _ _ nonce]
      port size age first replay by (auto simp: o cfg)
  then obtain h rnd' where run: "OpenKnockFrame cr (dg_age d) (dg_replay d) data (udp_config opts) (kw_replay w) =
      (Inr (knock_info \<lparr>cs_ClientID = sn_ClientID sopts, cs_Secret = sn_Secret sopts\<rparr> h
        (built_payload cr (knock_options_defaults (se_now env) (send_options sopts UDPMethod)) rnd')), rc')" "kh_Nonce h = nonce"
    by blast
  let ?info = "knock_info \<lparr>cs_ClientID = sn_ClientID sopts, cs_Secret = sn_Secret sopts\<rparr> h
        (built_payload cr (knock_options_defaults (se_now env) (send_options sopts UDPMethod)) rnd')"
  have info: "ki_ClientID ?info = sn_ClientID sopts" "ki_SessionID ?info = sn_SessionID sopts" "ki_Nonce ?info = nonce"
    using run(2) by (simp_all add: knock_info_def built_payload_def Let_def o)
  have "int (length data) \<le> maxKnockFrameSize opts" using BuildKnockFrame_length [OF cr b rnd] size by (simp add: o(9))
  then have all: "take (nat (maxKnockFrameSize opts)) data = data" by simp
  have "sn_SessionID sopts = [] \<or> 16 \<le> length (sn_SessionID sopts)"
    by (rule BuildKnockFrame_parts [OF cr b rnd]) (auto simp: knock_payload_ok_def built_payload_def Let_def o)
  then have "requireKnockSessionID opts (Some ?info) = None"
    using sess by (auto simp: requireKnockSessionID_def requireSessionID_def info KnockSessionIDMinBytes_def)
  then show ?thesis
    using d hooks run(1) by (simp add: udp_receive_def all info)
qed


section \<open>Witnesses\<close>

definition demo_listen :: "unit ListenOptions" where
  "demo_listen = \<lparr>lo_Port = 443, lo_KnockPort = 443, lo_Clients = [\<lparr>cs_ClientID = ''a'', cs_Secret = demo_secret\<rparr>], lo_TimeWindow = 0,
     lo_MaxFrameSize = 0, lo_RequireSessionID = False, lo_AllowPacket = None, lo_PacketLimiter = None, lo_InvalidPacket = True,
     lo_Sequence = demo_sequence_options, lo_NonceTTL = 0\<rparr>"

definition demo_send :: SendOptions where
  "demo_send = \<lparr>sn_ServerAddr = ''h:443'', sn_ClientID = ''a'', sn_Secret = demo_secret, sn_ServerPort = 443, sn_TimeWindow = 0,
     sn_MaxFrameSize = 0, sn_Sequence = demo_sequence_options, sn_SessionID = []\<rparr>"

definition demo_send_env :: "bytes \<Rightarrow> send_env" where
  "demo_send_env nonce = \<lparr>se_now = 5 * second, se_random = Inr (replicate 16 4), se_nonce = Inr nonce, se_write = None, se_sleep = None\<rparr>"

definition demo_datagram :: "bytes \<Rightarrow> datagram" where
  "demo_datagram data = \<lparr>dg_addr = UDPAddr demo_source 4000 [], dg_data = data, dg_age = 6 * second, dg_replay = 6 * second, dg_track = 6 * second\<rparr>"

definition demo_sent :: "bytes \<Rightarrow> bytes" where
  "demo_sent nonce = hd (snd (SendUDP demo_crypto (demo_send_env nonce) None demo_send))"

definition demo_knock_world :: "(unit, unit) knock_world" where
  "demo_knock_world = \<lparr>kw_replay = replayCache demo_listen NilReplayCache, kw_hooks = (),
     kw_tracker = newSequenceTracker (lo_Sequence demo_listen) (lo_NonceTTL demo_listen)\<rparr>"

lemma demo_sent_ok:
  "SendUDP demo_crypto (demo_send_env demo_nonce) None demo_send = (None, [demo_sent demo_nonce])"
  "take KnockNonceBytes (demo_sent demo_nonce) = demo_nonce"
proof -
  have "fst (SendUDP demo_crypto (demo_send_env demo_nonce) None demo_send) = None \<and>
    length (snd (SendUDP demo_crypto (demo_send_env demo_nonce) None demo_send)) = 1"
    by code_simp
  then show "SendUDP demo_crypto (demo_send_env demo_nonce) None demo_send = (None, [demo_sent demo_nonce])"
    unfolding demo_sent_def by (metis One_nat_def hd_Cons_tl length_0_conv length_tl diff_Suc_1 list.size(3) nat.simps(3) prod.collapse)
  show "take KnockNonceBytes (demo_sent demo_nonce) = demo_nonce" by code_simp
qed

theorem udp_knock_delivered_witness:
  "\<exists>w'. udp_receive demo_crypto demo_listen (demo_datagram (demo_sent demo_nonce)) demo_knock_world =
    ([Handled \<lparr>ev_SourceIP = demo_source, ev_ClientID = ''a'', ev_Nonce = hex_EncodeToString demo_nonce, ev_Method = UDPMethod,
               ev_Parts = 0, ev_SessionID = []\<rparr>], w')"
proof -
  have fields: "sn_ClientID demo_send = ''a''" "sn_SessionID demo_send = []" by (simp_all add: demo_send_def)
  obtain rc' where rc: "replay_CheckAndMark (6 * second) ''a'' demo_nonce (kw_replay demo_knock_world) = (None, rc')"
  proof -
    have "fst (replay_CheckAndMark (6 * second) ''a'' demo_nonce (kw_replay demo_knock_world)) = None" by code_simp
    then show thesis using that by (metis prod.collapse)
  qed
  have "udp_receive demo_crypto demo_listen (demo_datagram (demo_sent demo_nonce)) demo_knock_world =
    ([Handled \<lparr>ev_SourceIP = demo_source, ev_ClientID = sn_ClientID demo_send, ev_Nonce = hex_EncodeToString demo_nonce, ev_Method = UDPMethod,
               ev_Parts = 0, ev_SessionID = sn_SessionID demo_send\<rparr>], demo_knock_world\<lparr>kw_hooks := (), kw_replay := rc'\<rparr>)"
  proof (rule udp_knock_delivered [OF crypto_ok_demo_crypto demo_sent_ok(1), where pre = "[]" and post = "[]"])
    show "dg_addr (demo_datagram (demo_sent demo_nonce)) = UDPAddr demo_source 4000 []" by (simp add: demo_datagram_def)
    show "allowKnockPacket demo_listen demo_source (kw_hooks demo_knock_world) = (True, [], ())" by (simp add: allowKnockPacket_def demo_listen_def)
    show "\<bar>time_Sub (dg_age (demo_datagram (demo_sent demo_nonce))) (time_UnixMilli (UnixMilli (se_now (demo_send_env demo_nonce))))\<bar>
      \<le> (if lo_TimeWindow demo_listen \<le> 0 then 30 * second else lo_TimeWindow demo_listen)"
      unfolding demo_datagram_def by simp code_simp
    show "replay_CheckAndMark (dg_replay (demo_datagram (demo_sent demo_nonce))) (sn_ClientID demo_send) demo_nonce (kw_replay demo_knock_world) = (None, rc')"
      using rc by (simp add: demo_datagram_def fields del: replay_CheckAndMark.simps)
  qed (use demo_sent_ok(2) in \<open>auto simp: demo_datagram_def demo_source_def demo_listen_def demo_send_def demo_send_env_def maxKnockFrameSize_def
         demo_nonce_def KnockNonceBytes_def demo_knock_world_def replayCache_def\<close>)
  then show ?thesis by (simp add: fields)
qed

lemma demo_two_knocks:
  "map (\<lambda>outs. case outs of [Handled ev] \<Rightarrow> True | _ \<Rightarrow> False)
     (fst (udp_Serve demo_crypto demo_listen
        (map Datagram [demo_datagram (demo_sent demo_nonce), demo_datagram (demo_sent demo_nonce), demo_datagram (demo_sent (replicate 16 2))]) demo_knock_world))
   = [True, False, True]"
  by code_simp

theorem udp_knock_once_witness:
  "dg_data (demo_datagram (demo_sent demo_nonce)) \<noteq> dg_data (demo_datagram (demo_sent (replicate 16 2)))"
proof -
  let ?ds = "[demo_datagram (demo_sent demo_nonce), demo_datagram (demo_sent demo_nonce), demo_datagram (demo_sent (replicate 16 2))]"
  let ?outs = "fst (udp_Serve demo_crypto demo_listen (map Datagram ?ds) demo_knock_world)"
  obtain o1 o2 o3 where o: "?outs = [o1, o2, o3]" using demo_two_knocks by (auto simp: map_eq_Cons_conv simp del: udp_Serve.simps)
  have "\<exists>ev. o1 = [Handled ev]" "\<exists>ev. o3 = [Handled ev]"
    using demo_two_knocks unfolding o by (auto split: list.splits knock_output.splits)
  then obtain ev ev' where h: "?outs ! 0 = [Handled ev]" "?outs ! 2 = [Handled ev']" unfolding o by auto
  have "dg_data (?ds ! 0) \<noteq> dg_data (?ds ! 2)"
    by (rule udp_knock_once [OF crypto_ok_demo_crypto _ _ _ _ _ h [unfolded demo_knock_world_def]])
      (simp_all add: demo_datagram_def demo_listen_def time_defs)
  then show ?thesis by simp
qed

end
