(* ===== verification/Syn_Packet.thy ===== *)
theory Syn_Packet
  imports Net_Addr Cryptox
begin

text \<open>
  Package knock: raw SYN packets (syn_packet.go) and the parser of captured UDP datagrams
  (udp_passive_parse.go). Packets are byte lists written field by field as the code writes them;
  the random IP identification and source port are arguments. The two loops whose progress
  depends on the data, the fold of the checksum's carries and the walk over TCP options, are
  partial functions with \<open>None\<close> for a loop that does not end.
\<close>

section \<open>Constants and addresses\<close>

definition ipv4VersionIHL :: byte where "ipv4VersionIHL = 0x45"
definition ipv6VersionTraffic :: byte where "ipv6VersionTraffic = 0x60"
definition defaultPacketTTL :: byte where "defaultPacketTTL = 64"
definition ipv4HeaderLen :: nat where "ipv4HeaderLen = 20"
definition ipv6HeaderLen :: nat where "ipv6HeaderLen = 40"
definition tcpHeaderLenWithTSOpt :: nat where "tcpHeaderLenWithTSOpt = 32"
definition ipv4ProtocolTCP :: byte where "ipv4ProtocolTCP = 6"
definition ipv4ProtocolUDP :: byte where "ipv4ProtocolUDP = 17"
definition tcpFlagSYN :: byte where "tcpFlagSYN = 0x02"
definition tcpFlagACK :: byte where "tcpFlagACK = 0x10"
definition tcpFlagRST :: byte where "tcpFlagRST = 0x04"
definition tcpOptionEOL :: byte where "tcpOptionEOL = 0"
definition tcpOptionNOP :: byte where "tcpOptionNOP = 1"
definition tcpOptionTS :: byte where "tcpOptionTS = 8"

lemmas packet_consts = ipv4VersionIHL_def ipv6VersionTraffic_def defaultPacketTTL_def ipv4HeaderLen_def ipv6HeaderLen_def
  tcpHeaderLenWithTSOpt_def ipv4ProtocolTCP_def ipv4ProtocolUDP_def tcpFlagSYN_def tcpFlagACK_def tcpFlagRST_def
  tcpOptionEOL_def tcpOptionNOP_def tcpOptionTS_def

record SYNFields =
  sf_Sequence :: u32
  sf_Window :: u16
  sf_Timestamp :: u32

text \<open>\<open>net.IP.To4\<close> and \<open>To16\<close>, with \<open>None\<close> for nil.\<close>

definition To4 :: "bytes \<Rightarrow> bytes option" where
  "To4 ip = (if length ip = 4 then Some ip
     else if length ip = 16 \<and> take 12 ip = v4InV6Prefix then Some (drop 12 ip) else None)"

definition To16 :: "bytes \<Rightarrow> bytes option" where
  "To16 ip = (if length ip = 4 then Some (v4InV6Prefix @ ip) else if length ip = 16 then Some ip else None)"

section \<open>Checksums\<close>

fun sum_words :: "u32 \<Rightarrow> bytes \<Rightarrow> u32" where
  "sum_words s (a # b # data) = sum_words (s + ucast (get16 [a, b])) data"
| "sum_words s [a] = s + push_bit 8 (ucast a)"
| "sum_words s [] = s"

partial_function (option) fold_carry :: "u32 \<Rightarrow> u32 option" where
  [code]: "fold_carry s = (if drop_bit 16 s \<noteq> 0 then fold_carry ((s AND 0xffff) + drop_bit 16 s) else Some s)"

definition checksum :: "bytes \<Rightarrow> u16" where
  "checksum data = (case fold_carry (sum_words 0 data) of None \<Rightarrow> 0 | Some s \<Rightarrow> NOT (ucast s))"

definition tcpChecksum :: "bytes \<Rightarrow> bytes \<Rightarrow> bytes \<Rightarrow> u16" where
  "tcpChecksum srcIP dstIP tcp =
     (let pseudo = replicate (12 + length tcp) 0;
          pseudo = copy_at 0 (case To4 srcIP of Some ip \<Rightarrow> ip | None \<Rightarrow> []) pseudo;
          pseudo = copy_at 4 (case To4 dstIP of Some ip \<Rightarrow> ip | None \<Rightarrow> []) pseudo;
          pseudo = pseudo[9 := ipv4ProtocolTCP];
          pseudo = copy_at 10 (put16 (of_nat (length tcp))) pseudo
      in checksum (copy_at 12 tcp pseudo))"

definition tcpChecksumIPv6 :: "bytes \<Rightarrow> bytes \<Rightarrow> bytes \<Rightarrow> u16" where
  "tcpChecksumIPv6 srcIP dstIP tcp =
     (let pseudo = replicate (40 + length tcp) 0;
          pseudo = copy_at 0 (case To16 srcIP of Some ip \<Rightarrow> ip | None \<Rightarrow> []) pseudo;
          pseudo = copy_at 16 (case To16 dstIP of Some ip \<Rightarrow> ip | None \<Rightarrow> []) pseudo;
          pseudo = copy_at 32 (put32 (of_nat (length tcp))) pseudo;
          pseudo = pseudo[39 := ipv4ProtocolTCP]
      in checksum (copy_at 40 tcp pseudo))"

section \<open>Building\<close>

text \<open>
  The kernel's choice of a source address is an argument: the error of dialling, or the local
  address of the socket (\<open>None\<close> where it is no UDP address).
\<close>

definition outboundIPv4 :: "bytes option result \<Rightarrow> bytes result" where
  "outboundIPv4 dialled = rbind dialled (\<lambda>local.
     case Option.bind local To4 of
       None \<Rightarrow> Inl (Errorf ''could not determine outbound IPv4 address'')
     | Some ip \<Rightarrow> Inr ip)"

definition outboundIPv6 :: "bytes option result \<Rightarrow> bytes result" where
  "outboundIPv6 dialled = rbind dialled (\<lambda>local.
     case Option.bind local To16 of
       None \<Rightarrow> Inl (Errorf ''could not determine outbound IPv6 address'')
     | Some ip \<Rightarrow> if Option.bind local To4 \<noteq> None then Inl (Errorf ''could not determine outbound IPv6 address'') else Inr ip)"

text \<open>The TCP header of a knock, up to its checksum; both builders write the same one.\<close>

definition syn_tcp_header :: "int \<Rightarrow> int \<Rightarrow> SYNFields \<Rightarrow> bytes" where
  "syn_tcp_header srcPort dstPort flds =
     (let tcp = replicate tcpHeaderLenWithTSOpt 0;
          tcp = copy_at 0 (put16 (of_int srcPort)) tcp;
          tcp = copy_at 2 (put16 (of_int dstPort)) tcp;
          tcp = copy_at 4 (put32 (sf_Sequence flds)) tcp;
          tcp = tcp[12 := push_bit 4 (of_nat (tcpHeaderLenWithTSOpt div 4)), 13 := tcpFlagSYN];
          tcp = copy_at 14 (put16 (sf_Window flds)) tcp;
          tcp = tcp[20 := tcpOptionNOP, 21 := tcpOptionNOP, 22 := tcpOptionTS, 23 := 10];
          tcp = copy_at 24 (put32 (sf_Timestamp flds)) tcp
      in copy_at 28 (put32 0) tcp)"

definition buildSYNPacket :: "u16 result \<Rightarrow> bytes \<Rightarrow> bytes \<Rightarrow> int \<Rightarrow> int \<Rightarrow> SYNFields \<Rightarrow> bytes result" where
  "buildSYNPacket rndID srcIP dstIP srcPort dstPort flds =
     (case (To4 srcIP, To4 dstIP) of
        (Some src4, Some dst4) \<Rightarrow>
          let ip = replicate ipv4HeaderLen 0;
              ip = ip[0 := ipv4VersionIHL];
              ip = copy_at 2 (put16 (of_nat (ipv4HeaderLen + tcpHeaderLenWithTSOpt))) ip
          in rbind rndID (\<lambda>ipID.
            let ip = copy_at 4 (put16 ipID) ip;
                ip = ip[8 := defaultPacketTTL, 9 := ipv4ProtocolTCP];
                ip = copy_at 12 src4 ip;
                ip = copy_at 16 dst4 ip;
                ip = copy_at 10 (put16 (checksum ip)) ip;
                tcp = syn_tcp_header srcPort dstPort flds;
                tcp = copy_at 16 (put16 (tcpChecksum src4 dst4 tcp)) tcp
            in Inr (ip @ tcp))
      | _ \<Rightarrow> Inl (Errorf ''IPv4 source and destination are required''))"

definition buildSYNPacketIPv6 :: "bytes \<Rightarrow> bytes \<Rightarrow> int \<Rightarrow> int \<Rightarrow> SYNFields \<Rightarrow> bytes result" where
  "buildSYNPacketIPv6 srcIP dstIP srcPort dstPort flds =
     (case (To16 srcIP, To16 dstIP) of
        (Some src16, Some dst16) \<Rightarrow>
          if To4 srcIP \<noteq> None \<or> To4 dstIP \<noteq> None then Inl (Errorf ''IPv6 source and destination are required'')
          else
            let ip = replicate ipv6HeaderLen 0;
                ip = ip[0 := ipv6VersionTraffic];
                ip = copy_at 4 (put16 (of_nat tcpHeaderLenWithTSOpt)) ip;
                ip = ip[6 := ipv4ProtocolTCP, 7 := defaultPacketTTL];
                ip = copy_at 8 src16 ip;
                ip = copy_at 24 dst16 ip;
                tcp = syn_tcp_header srcPort dstPort flds;
                tcp = copy_at 16 (put16 (tcpChecksumIPv6 src16 dst16 tcp)) tcp
            in Inr (ip @ tcp)
      | _ \<Rightarrow> Inl (Errorf ''IPv6 source and destination are required''))"

definition randomUint16 :: "bytes result \<Rightarrow> u16 result" where
  "randomUint16 rnd = rbind rnd (\<lambda>b. Inr (get16 b))"

definition randomEphemeralPort :: "bytes result \<Rightarrow> int result" where
  "randomEphemeralPort rnd = rbind (randomUint16 rnd) (\<lambda>n. Inr (32768 + uint (n mod 28232)))"

definition htons :: "u16 \<Rightarrow> u16" where
  "htons v = (push_bit 8 v AND 0xff00) OR drop_bit 8 v"

section \<open>Finding the IP header\<close>

text \<open>
  The scans over the first 64 bytes, from offset \<open>i\<close> on: the first offset whose bytes look like
  an IP header of the protocol, or -1.
\<close>

definition looks_v4 :: "bytes \<Rightarrow> byte \<Rightarrow> nat \<Rightarrow> bool" where
  "looks_v4 frame protocol i \<longleftrightarrow> drop_bit 4 (frame ! i) = 4 \<and> frame ! i AND 0x0f \<ge> 5 \<and>
     (let tot = int (unat (get16 (slice frame (i + 2) (i + 4))))
      in tot \<ge> 20 \<and> int i + tot \<le> int (length frame) \<and> frame ! (i + 9) = protocol)"

definition looks_v6 :: "bytes \<Rightarrow> byte \<Rightarrow> nat \<Rightarrow> bool" where
  "looks_v6 frame protocol i \<longleftrightarrow>
     (let payloadLen = int (unat (get16 (slice frame (i + 4) (i + 6))))
      in drop_bit 4 (frame ! i) = 6 \<and> frame ! (i + 6) = protocol \<and> payloadLen \<ge> 8 \<and> int i + 40 + payloadLen \<le> int (length frame))"

fun scan_offsets :: "(nat \<Rightarrow> bool) \<Rightarrow> nat list \<Rightarrow> int" where
  "scan_offsets looks [] = -1"
| "scan_offsets looks (i # rest) = (if looks i then int i else scan_offsets looks rest)"

definition findIPv4OffsetForProtocol :: "bytes \<Rightarrow> byte \<Rightarrow> int" where
  "findIPv4OffsetForProtocol frame protocol =
     (let etherType = get16 (slice frame 12 14);
          inner = get16 (slice frame 16 18)
      in if length frame \<ge> 14 \<and> etherType = 0x0800 then 14
         else if length frame \<ge> 14 \<and> (etherType = 0x8100 \<or> etherType = 0x88a8) \<and> length frame \<ge> 18 \<and> inner = 0x0800 then 18
         else scan_offsets (looks_v4 frame protocol) [0 ..< min 64 (length frame) + 1 - 20])"

definition findIPv4Offset :: "bytes \<Rightarrow> int" where
  "findIPv4Offset frame = findIPv4OffsetForProtocol frame ipv4ProtocolTCP"

definition findIPv6OffsetForProtocol :: "bytes \<Rightarrow> byte \<Rightarrow> int" where
  "findIPv6OffsetForProtocol frame protocol =
     (let etherType = get16 (slice frame 12 14);
          inner = get16 (slice frame 16 18)
      in if length frame \<ge> 14 \<and> etherType = 0x86dd then 14
         else if length frame \<ge> 14 \<and> (etherType = 0x8100 \<or> etherType = 0x88a8) \<and> length frame \<ge> 18 \<and> inner = 0x86dd then 18
         else scan_offsets (looks_v6 frame protocol) [0 ..< min 64 (length frame) + 1 - 40])"

definition findIPv6Offset :: "bytes \<Rightarrow> int" where
  "findIPv6Offset frame = findIPv6OffsetForProtocol frame ipv4ProtocolTCP"

section \<open>Parsing\<close>

partial_function (option) timestamp_walk :: "bytes \<Rightarrow> nat \<Rightarrow> u32 option option" where
  [code]: "timestamp_walk options i =
     (if \<not> i < length options then Some None
      else if options ! i = tcpOptionEOL then Some None
      else if options ! i = tcpOptionNOP then timestamp_walk options (i + 1)
      else if i + 1 \<ge> length options then Some None
      else
        let len = unat (options ! (i + 1))
        in if len < 2 \<or> i + len > length options then Some None
           else if options ! i = tcpOptionTS \<and> len = 10 then Some (Some (get32 (slice options (i + 2) (i + 6))))
           else timestamp_walk options (i + len))"

definition parseTimestamp :: "bytes \<Rightarrow> u32 option" where
  "parseTimestamp options = (case timestamp_walk options 0 of None \<Rightarrow> None | Some r \<Rightarrow> r)"

definition parseSYNFieldsFromTCP :: "bytes \<Rightarrow> (int \<times> SYNFields) option" where
  "parseSYNFieldsFromTCP tcp =
     (if length tcp < 20 then None
      else
        let flags = tcp ! 13
        in if flags AND tcpFlagSYN = 0 \<or> flags AND (tcpFlagACK OR tcpFlagRST) \<noteq> 0 then None
           else
             let tcpHeaderLen = unat (drop_bit 4 (tcp ! 12)) * 4
             in if tcpHeaderLen < 20 \<or> length tcp < tcpHeaderLen then None
                else case parseTimestamp (slice tcp 20 tcpHeaderLen) of
                  None \<Rightarrow> None
                | Some ts \<Rightarrow> Some (uint (get16 (slice tcp 2 4)),
                    \<lparr>sf_Sequence = get32 (slice tcp 4 8), sf_Window = get16 (slice tcp 14 16), sf_Timestamp = ts\<rparr>))"

text \<open>The IP payload of a frame with an IPv4 or IPv6 header, and its source, as the parsers cut it out.\<close>

definition ipv4_payload :: "bytes \<Rightarrow> byte \<Rightarrow> (bytes \<times> bytes) option" where
  "ipv4_payload frame protocol =
     (let ipOff = findIPv4OffsetForProtocol frame protocol
      in if ipOff < 0 \<or> int (length frame) < ipOff + 20 then None
         else
           let ip = drop (nat ipOff) frame;
               ihl = unat (ip ! 0 AND 0x0f) * 4
           in if ihl < 20 \<or> length ip < ihl then None
              else
                let tot = unat (get16 (slice ip 2 4));
                    tot = (if tot \<le> ihl \<or> length ip < tot then length ip else tot)
                in if ip ! 9 \<noteq> protocol then None else Some (slice ip 12 16, slice ip ihl tot))"

definition ipv6_payload :: "bytes \<Rightarrow> byte \<Rightarrow> nat \<Rightarrow> (bytes \<times> bytes) option" where
  "ipv6_payload frame protocol least =
     (let ipOff = findIPv6OffsetForProtocol frame protocol
      in if ipOff < 0 \<or> int (length frame) < ipOff + 40 then None
         else
           let ip = drop (nat ipOff) frame;
               payloadLen = unat (get16 (slice ip 4 6))
           in if ip ! 6 \<noteq> protocol \<or> payloadLen < least \<or> length ip < 40 + payloadLen then None
              else Some (slice ip 8 24, slice ip 40 (40 + payloadLen)))"

definition parseSYNPacketIPv6 :: "bytes \<Rightarrow> (bytes \<times> int \<times> SYNFields) option" where
  "parseSYNPacketIPv6 frame =
     (case ipv6_payload frame ipv4ProtocolTCP 20 of None \<Rightarrow> None | Some (src, tcp) \<Rightarrow>
        (case parseSYNFieldsFromTCP tcp of None \<Rightarrow> None | Some (dst, flds) \<Rightarrow> Some (src, dst, flds)))"

definition parseSYNPacket :: "bytes \<Rightarrow> (bytes \<times> int \<times> SYNFields) option" where
  "parseSYNPacket frame =
     (case parseSYNPacketIPv6 frame of Some r \<Rightarrow> Some r | None \<Rightarrow>
        (case ipv4_payload frame ipv4ProtocolTCP of None \<Rightarrow> None | Some (src, tcp) \<Rightarrow>
           (case parseSYNFieldsFromTCP tcp of None \<Rightarrow> None | Some (dst, flds) \<Rightarrow> Some (src, dst, flds))))"

text \<open>\<open>parseSYNKnock\<close> repeats the TCP parser with the port compared first.\<close>

definition syn_knock_fields :: "bytes \<Rightarrow> int \<Rightarrow> SYNFields option" where
  "syn_knock_fields tcp dstPort =
     (if length tcp < 20 then None
      else if uint (get16 (slice tcp 2 4)) \<noteq> dstPort then None
      else
        let flags = tcp ! 13
        in if flags AND tcpFlagSYN = 0 \<or> flags AND (tcpFlagACK OR tcpFlagRST) \<noteq> 0 then None
           else
             let tcpHeaderLen = unat (drop_bit 4 (tcp ! 12)) * 4
             in if tcpHeaderLen < 20 \<or> length tcp < tcpHeaderLen then None
                else case parseTimestamp (slice tcp 20 tcpHeaderLen) of
                  None \<Rightarrow> None
                | Some ts \<Rightarrow> Some \<lparr>sf_Sequence = get32 (slice tcp 4 8), sf_Window = get16 (slice tcp 14 16), sf_Timestamp = ts\<rparr>)"

definition parseSYNKnockIPv6 :: "bytes \<Rightarrow> int \<Rightarrow> (bytes \<times> SYNFields) option" where
  "parseSYNKnockIPv6 frame dstPort =
     (case ipv6_payload frame ipv4ProtocolTCP 20 of None \<Rightarrow> None | Some (src, tcp) \<Rightarrow>
        (case syn_knock_fields tcp dstPort of None \<Rightarrow> None | Some flds \<Rightarrow> Some (src, flds)))"

definition parseSYNKnock :: "bytes \<Rightarrow> int \<Rightarrow> (bytes \<times> SYNFields) option" where
  "parseSYNKnock frame dstPort =
     (case parseSYNKnockIPv6 frame dstPort of Some r \<Rightarrow> Some r | None \<Rightarrow>
        (case ipv4_payload frame ipv4ProtocolTCP of None \<Rightarrow> None | Some (src, tcp) \<Rightarrow>
           (case syn_knock_fields tcp dstPort of None \<Rightarrow> None | Some flds \<Rightarrow> Some (src, flds))))"

section \<open>Captured UDP datagrams\<close>

definition parseUDPPayload :: "bytes \<Rightarrow> int \<Rightarrow> bytes option" where
  "parseUDPPayload udp dstPort =
     (if length udp < 8 then None
      else if uint (get16 (slice udp 2 4)) \<noteq> dstPort then None
      else
        let udpLen = unat (get16 (slice udp 4 6))
        in if udpLen < 8 \<or> udpLen > length udp then None else Some (slice udp 8 udpLen))"

definition parseUDPKnockIPv4 :: "bytes \<Rightarrow> int \<Rightarrow> (bytes \<times> bytes) option" where
  "parseUDPKnockIPv4 frame dstPort =
     (case ipv4_payload frame ipv4ProtocolUDP of None \<Rightarrow> None | Some (src, udp) \<Rightarrow>
        (case parseUDPPayload udp dstPort of None \<Rightarrow> None | Some payload \<Rightarrow> Some (src, payload)))"

definition parseUDPKnockIPv6 :: "bytes \<Rightarrow> int \<Rightarrow> (bytes \<times> bytes) option" where
  "parseUDPKnockIPv6 frame dstPort =
     (case ipv6_payload frame ipv4ProtocolUDP 8 of None \<Rightarrow> None | Some (src, udp) \<Rightarrow>
        (case parseUDPPayload udp dstPort of None \<Rightarrow> None | Some payload \<Rightarrow> Some (src, payload)))"

definition parseUDPKnockDatagram :: "bytes \<Rightarrow> int \<Rightarrow> (bytes \<times> bytes) option" where
  "parseUDPKnockDatagram frame dstPort =
     (case parseUDPKnockIPv6 frame dstPort of Some r \<Rightarrow> Some r | None \<Rightarrow> parseUDPKnockIPv4 frame dstPort)"

section \<open>The loops return\<close>

lemma fold_carry_step: "drop_bit 16 s \<noteq> 0 \<Longrightarrow> unat ((s AND 0xffff) + drop_bit 16 (s :: u32)) = unat s mod 65536 + unat s div 65536"
proof -
  have "unat (s AND 0xffff) = unat s mod 65536"
  proof -
    have "s AND 0xffff = take_bit 16 s"
      by (simp only: take_bit_eq_mask mask_eq_exp_minus_1) simp
    then have "unat (s AND 0xffff) = take_bit 16 (unat s)"
      by (simp only: unsigned_take_bit_eq)
    then show ?thesis by (simp add: take_bit_eq_mod)
  qed
  moreover have "unat (drop_bit 16 s) = unat s div 65536"
    by (simp only: unat_drop_bit_eq) (simp add: drop_bit_eq_div)
  moreover have "unat s < 4294967296"
    using unsigned_less [of s, where 'a = nat] by simp
  then have "unat s mod 65536 + unat s div 65536 < 4294967296"
    by linarith
  ultimately show ?thesis
    by (simp add: unat_word_ariths)
qed

text \<open>What folding the carries computes: the representative of the sum modulo \<open>2\<^sup>16 - 1\<close> that is zero only for zero.\<close>

definition carry_rep :: "nat \<Rightarrow> nat" where
  "carry_rep n = (if n = 0 then 0 else (n - 1) mod 65535 + 1)"

lemma carry_rep_small: "n < 65536 \<Longrightarrow> carry_rep n = n"
  by (simp add: carry_rep_def)

lemma carry_rep_bound: "carry_rep n < 65536"
  by (simp add: carry_rep_def less_Suc_eq_le)

lemma carry_rep_add: "0 < m \<Longrightarrow> carry_rep (m + k * 65535) = carry_rep m"
proof -
  assume "0 < m"
  then have "(m + k * 65535 - 1) mod 65535 = (m - 1) mod 65535"
    using mod_mult_self1 [of "m - 1" k 65535] by (simp add: algebra_simps)
  with \<open>0 < m\<close> show ?thesis by (simp add: carry_rep_def)
qed

lemma carry_rep_fold: "carry_rep (n mod 65536 + n div 65536) = carry_rep n"
proof (cases "n = 0")
  case False
  define q r where "q = n div 65536" and "r = n mod 65536"
  have n: "n = (r + q) + q * 65535"
    unfolding q_def r_def by simp
  with False have "0 < r + q" by auto
  with n show ?thesis unfolding q_def [symmetric] r_def [symmetric] by (metis carry_rep_add)
qed simp

lemma fold_carry_returns: "\<exists>r. fold_carry s = Some r \<and> unat r = carry_rep (unat s)"
proof (induction "unat s" arbitrary: s rule: less_induct)
  case less
  have "unat (drop_bit 16 s) = unat s div 65536"
    by (simp only: unat_drop_bit_eq) (simp add: drop_bit_eq_div)
  then have dz: "drop_bit 16 s = 0 \<longleftrightarrow> unat s < 65536"
    by (metis div_eq_0_iff unsigned_0 unsigned_word_eqI zero_neq_numeral)
  show ?case
  proof (cases "drop_bit 16 s = 0")
    case True
    with dz show ?thesis by (subst fold_carry.simps) (simp add: carry_rep_small)
  next
    case False
    let ?s = "(s AND 0xffff) + drop_bit 16 s"
    have u: "unat ?s = unat s mod 65536 + unat s div 65536"
      by (rule fold_carry_step [OF False])
    moreover from False dz have "unat s div 65536 \<ge> 1" by (simp add: div_le_mono [of 65536 "unat s" 65536, simplified])
    ultimately have "unat ?s < unat s"
      using div_mult_mod_eq [of "unat s" 65536] by linarith
    from less [OF this] u False show ?thesis
      by (subst fold_carry.simps) (simp add: carry_rep_fold)
  qed
qed

lemma timestamp_walk_returns: "\<exists>r. timestamp_walk options i = Some r"
proof (induction "length options - i" arbitrary: i rule: less_induct)
  case less
  show ?case
  proof (cases "i < length options")
    case True
    then have step: "\<exists>r. timestamp_walk options (i + k) = Some r" if "0 < k" for k
      using that by (intro less) simp
    show ?thesis
      using step [of 1] step [of "unat (options ! (i + 1))"]
      by (subst timestamp_walk.simps) (auto simp: Let_def)
  qed (subst timestamp_walk.simps, simp)
qed

section \<open>The checksum is the Internet checksum\<close>

text \<open>The 16-bit big-endian words of the data, a last odd byte padded with zero (RFC 1071).\<close>

fun word_list :: "bytes \<Rightarrow> nat list" where
  "word_list (a # b # data) = be_val [a, b] # word_list data"
| "word_list [a] = [be_val [a, 0]]"
| "word_list [] = []"

lemma word_list_bound: "w \<in> set (word_list data) \<Longrightarrow> w < 65536"
proof (induction data rule: word_list.induct)
  case (1 a b data)
  then show ?case using be_val_bound [of "[a, b]"] by auto
next
  case (2 a)
  then show ?case using be_val_bound [of "[a, 0]"] by auto
qed simp

lemma sum_list_word_list: "sum_list (word_list data) \<le> 65535 * ((length data + 1) div 2)"
proof (induction data rule: word_list.induct)
  case (1 a b data)
  then show ?case using be_val_bound [of "[a, b]"] by simp
next
  case (2 a)
  then show ?case using unat_byte_less [of a] by (simp del: unat_byte_less)
qed simp

text \<open>One's complement addition with the carry taken end-around at every step, the textbook form.\<close>

definition ones_add :: "nat \<Rightarrow> nat \<Rightarrow> nat" where
  "ones_add a b = (if a + b < 65536 then a + b else a + b - 65535)"

definition internet_checksum :: "bytes \<Rightarrow> nat" where
  "internet_checksum data = 65535 - foldl ones_add 0 (word_list data)"

lemma ones_add_carry: "w < 65536 \<Longrightarrow> ones_add (carry_rep n) w = carry_rep (n + w)"
proof (cases "n = 0")
  case False
  assume w: "w < 65536"
  define c where "c = carry_rep n"
  from False have c: "0 < c" "c < 65536" "n = c + ((n - 1) div 65535) * 65535"
    unfolding c_def using carry_rep_bound [of n] div_mult_mod_eq [of "n - 1" 65535] by (auto simp: carry_rep_def)
  then have "carry_rep (n + w) = carry_rep (c + w)"
    by (metis add.assoc add.commute add_gr_0 carry_rep_add)
  moreover have "carry_rep (c + w) = ones_add c w"
  proof (cases "c + w < 65536")
    case False
    then have "carry_rep (c + w) = carry_rep (c + w - 65535)"
      using carry_rep_add [of "c + w - 65535" 1] by simp
    with False c w show ?thesis by (simp add: ones_add_def carry_rep_small)
  qed (simp add: ones_add_def carry_rep_small)
  ultimately show ?thesis by (simp add: c_def)
qed (simp add: ones_add_def carry_rep_small carry_rep_def [of 0])

lemma foldl_ones_add: "\<forall>w \<in> set ws. w < 65536 \<Longrightarrow> foldl ones_add (carry_rep n) ws = carry_rep (n + sum_list ws)"
  by (induction ws arbitrary: n) (simp_all add: ones_add_carry add.assoc)

lemma ones_sum_carry: "foldl ones_add 0 (word_list data) = carry_rep (sum_list (word_list data))"
  using foldl_ones_add [of "word_list data" 0] word_list_bound by (simp add: carry_rep_def [of 0])

lemma sum_words_value:
  "unat s + sum_list (word_list data) < 2 ^ 32 \<Longrightarrow> unat (sum_words s data) = unat s + sum_list (word_list data)"
proof (induction s data rule: sum_words.induct)
  case (1 s a b data)
  have b: "be_val [a, b] < 65536" using be_val_bound [of "[a, b]"] by simp
  then have g: "unat (ucast (get16 [a, b]) :: u32) = be_val [a, b]"
    by (simp add: get16_def unat_of_nat unsigned_ucast_eq take_bit_eq_mod del: be_val.simps)
  with 1 have "unat (s + ucast (get16 [a, b])) = unat s + be_val [a, b]"
    by (simp add: unat_word_ariths)
  with 1 g show ?case by simp
next
  case (2 s a)
  have "unat (push_bit 8 (ucast a) :: u32) = be_val [a, 0]"
    using unat_byte_less [of a]
    by (simp add: push_bit_eq_mult unat_word_ariths unsigned_ucast_eq take_bit_eq_mod del: unat_byte_less)
  with 2 show ?case by (simp add: unat_word_ariths)
qed simp

lemma checksum_value:
  assumes "length data \<le> 131072"
  shows "unat (checksum data) = 65535 - carry_rep (sum_list (word_list data))"
proof -
  let ?S = "sum_list (word_list data)"
  have "(length data + 1) div 2 \<le> 65536" using assms by simp
  with sum_list_word_list [of data] have "?S < 2 ^ 32" by simp
  then have "unat (sum_words 0 data) = ?S" using sum_words_value [of 0 data] by simp
  then obtain r where r: "fold_carry (sum_words 0 data) = Some r" "unat r = carry_rep ?S"
    using fold_carry_returns [of "sum_words 0 data"] by auto
  have "unat (NOT (ucast r :: u16)) = 65535 - unat (ucast r :: u16)"
    using unat_sub [OF word_order.extremum, of "ucast r :: u16"]
    by (simp add: not_eq_complement minus_diff_commute [of "ucast r :: u16"] unsigned_minus_1_eq_mask mask_eq_exp_minus_1)
  also have "unat (ucast r :: u16) = carry_rep ?S"
    using r(2) carry_rep_bound [of ?S] by (simp add: unsigned_ucast_eq take_bit_eq_mod)
  finally show ?thesis using r(1) by (simp add: checksum_def)
qed

lemma word_list_append: "even (length xs) \<Longrightarrow> word_list (xs @ ys) = word_list xs @ word_list ys"
  by (induction xs rule: word_list.induct) auto

lemma be_val_put16: "be_val (put16 v) = unat v"
  by (simp only: put16_def be_val_be_bytes unat_mod_self16)

lemma word_list_put16: "word_list (put16 v @ data) = unat v # word_list data"
  using be_val_put16 [of v] by (simp add: put16_code)

lemma carry_rep_complete: "carry_rep (n + (65535 - carry_rep n)) = 65535"
proof (cases "n = 0")
  case False
  let ?q = "(n - 1) div 65535"
  have "(n - 1) mod 65535 < 65535" by simp
  with False div_mult_mod_eq [of "n - 1" 65535] have "n + (65535 - carry_rep n) = 65535 + ?q * 65535"
    unfolding carry_rep_def by (simp only: if_False) linarith
  then show ?thesis by (simp only: carry_rep_add [of 65535 ?q]) (simp add: carry_rep_small)
qed (simp add: carry_rep_def [of 0] carry_rep_small)

text \<open>A checksum computed over a zeroed field and written into it makes the checksum of the whole zero.\<close>

lemma checksum_fills:
  assumes "even (length pre)" "length pre + 2 + length post \<le> 131072"
  shows "checksum (pre @ put16 (checksum (pre @ [0, 0] @ post)) @ post) = 0"
proof -
  let ?c = "checksum (pre @ [0, 0] @ post)"
  let ?S = "sum_list (word_list pre) + sum_list (word_list post)"
  have c: "unat ?c = 65535 - carry_rep ?S"
    using assms by (subst checksum_value) (simp_all add: word_list_append)
  then have "carry_rep (?S + unat ?c) = 65535"
    by (simp only: carry_rep_complete)
  then have "unat (checksum (pre @ put16 ?c @ post)) = 0"
    using assms by (subst checksum_value) (simp_all add: word_list_append word_list_put16 ac_simps)
  then show ?thesis by (simp only: unat_eq_zero)
qed

section \<open>The wire form of a knock\<close>

definition syn_tcp_bytes :: "int \<Rightarrow> int \<Rightarrow> SYNFields \<Rightarrow> u16 \<Rightarrow> bytes" where
  "syn_tcp_bytes srcPort dstPort flds c =
     put16 (of_int srcPort) @ put16 (of_int dstPort) @ put32 (sf_Sequence flds) @ [0, 0, 0, 0, 0x80, 0x02] @
     put16 (sf_Window flds) @ put16 c @ [0, 0] @ [1, 1, 8, 10] @ put32 (sf_Timestamp flds) @ [0, 0, 0, 0]"

lemma put16_split: obtains a b where "put16 v = [a, b]"
  by (simp add: put16_code)

lemma put32_split: obtains a b c d where "put32 v = [a, b, c, d]"
  by (simp add: put32_code)

lemma put_0: "put16 0 = [0, 0]" "put32 0 = [0, 0, 0, 0]"
  by (simp_all add: put16_code put32_code)

lemma syn_tcp_header_bytes: "syn_tcp_header srcPort dstPort flds = syn_tcp_bytes srcPort dstPort flds 0"
proof -
  obtain s0 s1 where s: "put16 (of_int srcPort) = [s0, s1]" by (rule put16_split)
  obtain d0 d1 where d: "put16 (of_int dstPort) = [d0, d1]" by (rule put16_split)
  obtain w0 w1 where w: "put16 (sf_Window flds) = [w0, w1]" by (rule put16_split)
  obtain q0 q1 q2 q3 where q: "put32 (sf_Sequence flds) = [q0, q1, q2, q3]" by (rule put32_split)
  obtain t0 t1 t2 t3 where t: "put32 (sf_Timestamp flds) = [t0, t1, t2, t3]" by (rule put32_split)
  have o: "push_bit 4 (of_nat (32 div 4)) = (0x80 :: byte)" by simp
  show ?thesis
    unfolding syn_tcp_header_def syn_tcp_bytes_def packet_consts Let_def o s d w q t put_0
    by (simp add: copy_at_def eval_nat_numeral)
qed

lemma To4_length: "To4 ip = Some a \<Longrightarrow> length a = 4"
  by (auto simp: To4_def split: if_splits)

lemma To16_length: "To16 ip = Some a \<Longrightarrow> length a = 16"
  by (auto simp: To16_def v4InV6Prefix_def split: if_splits)

lemma To4_self: "length a = 4 \<Longrightarrow> To4 a = Some a"
  by (simp add: To4_def)

lemma To16_self: "length a = 16 \<Longrightarrow> To16 a = Some a"
  by (simp add: To16_def)

lemma copy_at_mid: "length xs = i \<Longrightarrow> length ys = length src \<Longrightarrow> copy_at i src (xs @ ys @ zs) = xs @ src @ zs"
  by (simp add: copy_at_def)

definition pseudo4 :: "bytes \<Rightarrow> bytes \<Rightarrow> bytes \<Rightarrow> bytes" where
  "pseudo4 src dst tcp = src @ dst @ [0, 6] @ put16 (of_nat (length tcp)) @ tcp"

definition pseudo6 :: "bytes \<Rightarrow> bytes \<Rightarrow> bytes \<Rightarrow> bytes" where
  "pseudo6 src dst tcp = src @ dst @ put32 (of_nat (length tcp)) @ [0, 0, 0, 6] @ tcp"

lemma list4_split: "length xs = 4 \<Longrightarrow> (\<And>a b c d. xs = [a, b, c, d] \<Longrightarrow> thesis) \<Longrightarrow> thesis"
  by (auto simp: numeral_eq_Suc length_Suc_conv)

lemma tcpChecksum_pseudo:
  assumes "length src = 4" "length dst = 4"
  shows "tcpChecksum src dst tcp = checksum (pseudo4 src dst tcp)"
proof -
  obtain l0 l1 where l: "put16 (of_nat (length tcp)) = [l0, l1]" by (rule put16_split)
  obtain a b c d where s: "src = [a, b, c, d]" by (rule list4_split [OF assms(1)])
  obtain e f g h where t: "dst = [e, f, g, h]" by (rule list4_split [OF assms(2)])
  have z: "replicate (12 + length tcp) (0::byte) = [0,0,0,0,0,0,0,0,0,0,0,0] @ replicate (length tcp) 0"
    by (simp add: eval_nat_numeral)
  show ?thesis
    unfolding tcpChecksum_def pseudo4_def l z To4_self [OF assms(1)] To4_self [OF assms(2)] Let_def packet_consts option.case
    unfolding s t by (simp add: copy_at_def eval_nat_numeral)
qed

lemma list16_split: 
  assumes "length xs = 16"
  obtains a b c d e f g h i j k l m n p q where "xs = [a, b, c, d, e, f, g, h, i, j, k, l, m, n, p, q]"
  using assms by (auto simp: numeral_eq_Suc length_Suc_conv)

lemma tcpChecksum_pseudo6:
  assumes "length src = 16" "length dst = 16"
  shows "tcpChecksumIPv6 src dst tcp = checksum (pseudo6 src dst tcp)"
proof -
  obtain l0 l1 l2 l3 where l: "put32 (of_nat (length tcp)) = [l0, l1, l2, l3]" by (rule put32_split)
  have z: "replicate (40 + length tcp) (0::byte) =
      replicate 16 0 @ replicate 16 0 @ [0,0,0,0] @ [0,0,0,0] @ replicate (length tcp) 0"
    by (simp add: eval_nat_numeral)
  have c: "copy_at 0 src (replicate 16 0 @ r) = src @ r" "copy_at 16 dst (src @ replicate 16 0 @ r) = src @ dst @ r"
    "copy_at 32 [l0, l1, l2, l3] (src @ dst @ [0,0,0,0] @ r) = src @ dst @ [l0, l1, l2, l3] @ r"
    "(src @ dst @ [l0, l1, l2, l3] @ [0,0,0,0] @ r)[39 := 6] = src @ dst @ [l0, l1, l2, l3] @ [0,0,0,6] @ r"
    "copy_at 40 tcp (src @ dst @ [l0, l1, l2, l3] @ [0,0,0,6] @ replicate (length tcp) 0) =
      src @ dst @ [l0, l1, l2, l3] @ [0,0,0,6] @ tcp" for r
    using assms by (simp_all add: copy_at_def list_update_append eval_nat_numeral)
  show ?thesis
    unfolding tcpChecksumIPv6_def pseudo6_def l z To16_self [OF assms(1)] To16_self [OF assms(2)] Let_def packet_consts option.case c ..
qed

definition ipv4_header_bytes :: "u16 \<Rightarrow> u16 \<Rightarrow> bytes \<Rightarrow> bytes \<Rightarrow> bytes" where
  "ipv4_header_bytes ipID c src dst = [0x45, 0, 0, 52] @ put16 ipID @ [0, 0, 64, 6] @ put16 c @ src @ dst"

definition ipv6_header_bytes :: "bytes \<Rightarrow> bytes \<Rightarrow> bytes" where
  "ipv6_header_bytes src dst = [0x60, 0, 0, 0, 0, 32, 6, 64] @ src @ dst"

lemma length_syn_tcp_bytes [simp]: "length (syn_tcp_bytes srcPort dstPort flds c) = 32"
  by (simp add: syn_tcp_bytes_def)

lemma tcp_checksum_field: "copy_at 16 (put16 c) (syn_tcp_bytes srcPort dstPort flds 0) = syn_tcp_bytes srcPort dstPort flds c"
  by (simp add: syn_tcp_bytes_def put_0 copy_at_def)

lemma buildSYNPacket_bytes:
  assumes "To4 src = Some s" "To4 dst = Some d"
  shows "buildSYNPacket (Inr ipID) src dst srcPort dstPort flds =
    Inr (ipv4_header_bytes ipID (checksum (ipv4_header_bytes ipID 0 s d)) s d @
      syn_tcp_bytes srcPort dstPort flds (checksum (pseudo4 s d (syn_tcp_bytes srcPort dstPort flds 0))))"
proof -
  note l = To4_length [OF assms(1)] To4_length [OF assms(2)]
  obtain a b c e where s: "s = [a, b, c, e]" by (rule list4_split [OF l(1)])
  obtain f g h i where d: "d = [f, g, h, i]" by (rule list4_split [OF l(2)])
  obtain i0 i1 where id: "put16 ipID = [i0, i1]" by (rule put16_split)
  have l52: "put16 (of_nat (20 + 32)) = [0, 52]" by (simp add: put16_code)
  let ?h = "copy_at 16 d (copy_at 12 s ((copy_at 4 (put16 ipID) (copy_at 2 (put16 (of_nat (ipv4HeaderLen + tcpHeaderLenWithTSOpt)))
    ((replicate ipv4HeaderLen 0)[0 := ipv4VersionIHL])))[8 := defaultPacketTTL, 9 := ipv4ProtocolTCP]))"
  have h: "?h = ipv4_header_bytes ipID 0 s d"
    unfolding packet_consts id l52 ipv4_header_bytes_def put_0 s d by (simp add: copy_at_def eval_nat_numeral)
  have k: "copy_at 10 (put16 x) (ipv4_header_bytes ipID 0 s d) = ipv4_header_bytes ipID x s d" for x
    unfolding ipv4_header_bytes_def put_0 s d by (simp add: copy_at_def)
  show ?thesis
    unfolding buildSYNPacket_def assms prod.case option.case Let_def rbind_simps h k syn_tcp_header_bytes
      tcpChecksum_pseudo [OF l] tcp_checksum_field ..
qed

lemma buildSYNPacketIPv6_bytes:
  assumes "length src = 16" "length dst = 16" "To4 src = None" "To4 dst = None"
  shows "buildSYNPacketIPv6 src dst srcPort dstPort flds =
    Inr (ipv6_header_bytes src dst @
      syn_tcp_bytes srcPort dstPort flds (checksum (pseudo6 src dst (syn_tcp_bytes srcPort dstPort flds 0))))"
proof -
  have l32: "put16 (of_nat 32) = [0, 32]" by (simp add: put16_code)
  have z: "replicate 40 (0::byte) = [0,0,0,0,0,0,0,0] @ replicate 16 0 @ replicate 16 0" by (simp add: eval_nat_numeral)
  have h: "copy_at 24 dst (copy_at 8 src ((copy_at 4 [0, 32] (([0,0,0,0,0,0,0,0] @ replicate 16 0 @ replicate 16 0)[0 := 0x60]))[6 := 6, 7 := 64]))
      = ipv6_header_bytes src dst"
    using assms(1,2) unfolding ipv6_header_bytes_def by (simp add: copy_at_def list_update_append eval_nat_numeral)
  show ?thesis
    unfolding buildSYNPacketIPv6_def To16_self [OF assms(1)] To16_self [OF assms(2)] assms(3,4) prod.case option.case Let_def
      syn_tcp_header_bytes tcpChecksum_pseudo6 [OF assms(1,2)] tcp_checksum_field packet_consts l32 z h by simp
qed

section \<open>Parsing what was built\<close>

lemma get_pair: "put16 v = [a, b] \<Longrightarrow> get16 (a # b # r) = v"
  by (metis append_Cons append_Nil get_put_append(1))

lemma get_quad: "put32 v = [a, b, c, d] \<Longrightarrow> get32 (a # b # c # d # r) = v"
  by (metis append_Cons append_Nil get_put_append(2))

lemma timestamp_of_knock: "parseTimestamp ([1, 1, 8, 10] @ put32 ts @ [0, 0, 0, 0]) = Some ts"
proof -
  obtain a b c d where t: "put32 ts = [a, b, c, d]" by (rule put32_split)
  let ?o = "[1, 1, 8, 10, a, b, c, d, 0, 0, 0, 0] :: bytes"
  have "timestamp_walk ?o 2 = Some (Some ts)"
    by (subst timestamp_walk.simps) (simp add: packet_consts slice_def get_quad [OF t])
  then have "timestamp_walk ?o 1 = Some (Some ts)"
    by (subst timestamp_walk.simps) (simp add: packet_consts numeral_2_eq_2)
  then have "timestamp_walk ?o 0 = Some (Some ts)"
    by (subst timestamp_walk.simps) (simp add: packet_consts)
  then show ?thesis by (simp add: parseTimestamp_def t)
qed

lemma of_int_port: "0 \<le> p \<Longrightarrow> p < 65536 \<Longrightarrow> uint (of_int p :: u16) = p"
  by (simp add: uint_word_of_int_eq take_bit_int_eq_self)

lemma syn_knock_fields_built:
  assumes "0 \<le> dstPort" "dstPort < 65536"
  shows "syn_knock_fields (syn_tcp_bytes srcPort dstPort flds c) dstPort = Some flds"
proof -
  let ?t = "syn_tcp_bytes srcPort dstPort flds c"
  have v: "slice ?t 2 4 = put16 (of_int dstPort)" "slice ?t 4 8 = put32 (sf_Sequence flds)" "slice ?t 14 16 = put16 (sf_Window flds)"
    "slice ?t 20 32 = [1, 1, 8, 10] @ put32 (sf_Timestamp flds) @ [0, 0, 0, 0]"
    by (simp_all add: syn_tcp_bytes_def slice_def)
  have n: "?t ! 12 = 0x80" "?t ! 13 = 0x02"
    by (simp_all add: syn_tcp_bytes_def nth_append)
  have h: "unat (drop_bit 4 (0x80 :: byte)) * 4 = 32" by simp
  show ?thesis
    unfolding syn_knock_fields_def Let_def n h v timestamp_of_knock of_int_port [OF assms] get_put
    by (simp add: packet_consts)
qed

lemma parseSYNFieldsFromTCP_knock:
  "syn_knock_fields tcp dstPort = Some flds \<longleftrightarrow> parseSYNFieldsFromTCP tcp = Some (dstPort, flds)"
  by (auto simp: syn_knock_fields_def parseSYNFieldsFromTCP_def Let_def split: if_splits option.splits)

lemma scan_offsets_found:
  assumes "scan_offsets looks cands = r" "r \<ge> 0"
  obtains i where "i \<in> set cands" "r = int i" "looks i"
  using assms by (induction cands) (auto split: if_splits)

text \<open>
  An Ethernet frame that carries an IPv4 knock is never taken for IPv6: wherever its first bytes
  look like an IPv6 header, the bytes in the place of the TCP header are no SYN.
\<close>

abbreviation ether4 :: "bytes \<Rightarrow> bytes \<Rightarrow> bytes \<Rightarrow> bytes" where
  "ether4 mac hdr tcp \<equiv> mac @ [0x08, 0x00] @ hdr @ tcp"

lemma ether4_not_v6:
  assumes mac: "length mac = 12" and hdr: "length hdr = 20"
    and p: "ipv6_payload (ether4 mac hdr (syn_tcp_bytes srcPort dstPort flds c)) ipv4ProtocolTCP 20 = Some (src, tcp)"
  shows "parseSYNFieldsFromTCP tcp = None"
proof -
  let ?t = "syn_tcp_bytes srcPort dstPort flds c"
  let ?f = "ether4 mac hdr ?t"
  have len: "length ?f = 66" using mac hdr by simp
  have ty: "get16 (slice ?f 12 14) = 0x0800" using mac by (simp add: slice_def get16_code)
  define off where "off = findIPv6OffsetForProtocol ?f ipv4ProtocolTCP"
  define i where "i = nat off"
  define n where "n = unat (get16 (slice (drop i ?f) 4 6))"
  from p have g: "\<not> off < 0" "\<not> n < 20" "\<not> length (drop i ?f) < 40 + n" and tcp: "tcp = slice (drop i ?f) 40 (40 + n)"
    unfolding ipv6_payload_def Let_def off_def [symmetric] i_def [symmetric] n_def [symmetric]
    by (auto split: if_splits)
  from g len have i6: "i \<le> 6" "40 + n \<le> 66 - i" by (simp_all add: mac hdr)
  have "off = scan_offsets (looks_v6 ?f ipv4ProtocolTCP) [0 ..< min 64 (length ?f) + 1 - 40]"
    unfolding off_def findIPv6OffsetForProtocol_def Let_def ty by simp
  then have "looks_v6 ?f ipv4ProtocolTCP i"
    using scan_offsets_found [OF _ g(1) [unfolded not_less], of "looks_v6 ?f ipv4ProtocolTCP"] by (metis i_def nat_int)
  then have "?f ! (i + 6) = 6" by (simp add: looks_v6_def Let_def packet_consts)
  moreover have "?f ! 12 = 8" using mac by (simp add: nth_append)
  ultimately have "i \<noteq> 6" by auto
  with i6 consider "i = 0" | "i = 1" | "i = 2" | "i = 3" | "i = 4" | "i = 5" by linarith
  then have "?t ! (i + 19) AND 2 = 0 \<or> drop_bit 4 (?t ! (i + 18)) = 0"
    by cases (simp_all add: syn_tcp_bytes_def nth_append)
  moreover have k: "tcp ! k = ?t ! (6 + (i + k))" if "k < 20" for k
    using that g(2) i6 unfolding tcp slice_def by (simp add: nth_append mac hdr)
  have "tcp ! 13 = ?t ! (i + 19)" "tcp ! 12 = ?t ! (i + 18)"
    by (simp_all add: k add.commute [of _ i])
  ultimately show ?thesis
    by (auto simp: parseSYNFieldsFromTCP_def Let_def packet_consts)
qed

lemma ether4_payload:
  assumes mac: "length mac = 12" and s: "length s = 4" and d: "length d = 4"
  shows "ipv4_payload (ether4 mac (ipv4_header_bytes ipID x s d) (syn_tcp_bytes srcPort dstPort flds c)) ipv4ProtocolTCP =
    Some (s, syn_tcp_bytes srcPort dstPort flds c)"
proof -
  let ?t = "syn_tcp_bytes srcPort dstPort flds c"
  let ?h = "ipv4_header_bytes ipID x s d"
  let ?f = "ether4 mac ?h ?t"
  have ty: "get16 (slice ?f 12 14) = 0x0800" using mac by (simp add: slice_def get16_code)
  have off: "findIPv4OffsetForProtocol ?f ipv4ProtocolTCP = 14"
    unfolding findIPv4OffsetForProtocol_def Let_def ty by simp
  have l: "length ?h = 20" using s d by (simp add: ipv4_header_bytes_def)
  have ip: "drop 14 ?f = ?h @ ?t" using mac by simp
  have v: "(?h @ ?t) ! 0 = 0x45" "slice (?h @ ?t) 2 4 = [0, 52]" "(?h @ ?t) ! 9 = 6" "slice (?h @ ?t) 12 16 = s"
    "slice (?h @ ?t) 20 52 = ?t"
    using s d by (simp_all add: ipv4_header_bytes_def nth_append slice_def)
  have u: "unat (get16 [0, 52]) = 52" "unat ((0x45 :: byte) AND 0x0f) * 4 = 20" by (simp_all add: get16_code)
  show ?thesis
    unfolding ipv4_payload_def Let_def off nat_numeral ip v u by (simp add: packet_consts l mac v)
qed

abbreviation ether6 :: "bytes \<Rightarrow> bytes \<Rightarrow> bytes \<Rightarrow> bytes" where
  "ether6 mac hdr tcp \<equiv> mac @ [0x86, 0xdd] @ hdr @ tcp"

lemma ether6_payload:
  assumes mac: "length mac = 12" and s: "length s = 16" and d: "length d = 16"
  shows "ipv6_payload (ether6 mac (ipv6_header_bytes s d) (syn_tcp_bytes srcPort dstPort flds c)) ipv4ProtocolTCP 20 =
    Some (s, syn_tcp_bytes srcPort dstPort flds c)"
proof -
  let ?t = "syn_tcp_bytes srcPort dstPort flds c"
  let ?h = "ipv6_header_bytes s d"
  let ?f = "ether6 mac ?h ?t"
  have ty: "get16 (slice ?f 12 14) = 0x86dd" using mac by (simp add: slice_def get16_code)
  have off: "findIPv6OffsetForProtocol ?f ipv4ProtocolTCP = 14"
    unfolding findIPv6OffsetForProtocol_def Let_def ty by simp
  have l: "length ?h = 40" using s d by (simp add: ipv6_header_bytes_def)
  have ip: "drop 14 ?f = ?h @ ?t" using mac by simp
  have v: "slice (?h @ ?t) 4 6 = [0, 32]" "(?h @ ?t) ! 6 = 6" "slice (?h @ ?t) 8 24 = s" "slice (?h @ ?t) 40 (40 + 32) = ?t"
    using s d by (simp_all add: ipv6_header_bytes_def nth_append slice_def)
  have u: "unat (get16 [0, 32]) = 32" by (simp add: get16_code)
  show ?thesis
    unfolding ipv6_payload_def Let_def off nat_numeral ip v u by (simp add: packet_consts l mac)
qed

lemma buildSYNPacket_Inr:
  assumes "buildSYNPacket rndID src dst srcPort dstPort flds = Inr p"
  obtains ipID s d where "rndID = Inr ipID" "To4 src = Some s" "To4 dst = Some d"
  using assms by (auto simp: buildSYNPacket_def Let_def rbind_eq_Inr split: option.splits)

lemma buildSYNPacketIPv6_Inr:
  assumes "buildSYNPacketIPv6 src dst srcPort dstPort flds = Inr p"
  shows "length src = 16" "length dst = 16" "To4 src = None" "To4 dst = None"
  using assms by (auto simp: buildSYNPacketIPv6_def To16_def To4_def split: option.splits if_splits)

lemma parseSYNKnock_v4:
  assumes "length mac = 12" "buildSYNPacket rndID src dst srcPort dstPort flds = Inr p" "0 \<le> dstPort" "dstPort < 65536"
  shows "parseSYNKnock (mac @ [0x08, 0x00] @ p) dstPort = Some (the (To4 src), flds)"
proof -
  obtain ipID s d where b: "rndID = Inr ipID" "To4 src = Some s" "To4 dst = Some d"
    by (rule buildSYNPacket_Inr [OF assms(2)])
  note l = To4_length [OF b(2)] To4_length [OF b(3)]
  from assms(2) obtain x c where p: "p = ipv4_header_bytes ipID x s d @ syn_tcp_bytes srcPort dstPort flds c"
    unfolding b(1) buildSYNPacket_bytes [OF b(2,3)] by blast
  let ?f = "ether4 mac (ipv4_header_bytes ipID x s d) (syn_tcp_bytes srcPort dstPort flds c)"
  have h: "length (ipv4_header_bytes ipID x s d) = 20" using l by (simp add: ipv4_header_bytes_def)
  have "parseSYNKnockIPv6 ?f dstPort = None"
    using ether4_not_v6 [OF assms(1) h] parseSYNFieldsFromTCP_knock
    unfolding parseSYNKnockIPv6_def by (fastforce split: option.splits)
  then have "parseSYNKnock ?f dstPort = Some (s, flds)"
    unfolding parseSYNKnock_def ether4_payload [OF assms(1) l] by (simp add: syn_knock_fields_built assms)
  then show ?thesis unfolding p by (simp add: b)
qed

lemma parseSYNKnock_v6:
  assumes "length mac = 12" "buildSYNPacketIPv6 src dst srcPort dstPort flds = Inr p" "0 \<le> dstPort" "dstPort < 65536"
  shows "parseSYNKnock (mac @ [0x86, 0xdd] @ p) dstPort = Some (src, flds)"
proof -
  note b = buildSYNPacketIPv6_Inr [OF assms(2)]
  from assms(2) obtain c where p: "p = ipv6_header_bytes src dst @ syn_tcp_bytes srcPort dstPort flds c"
    unfolding buildSYNPacketIPv6_bytes [OF b] by blast
  show ?thesis
    unfolding p parseSYNKnock_def parseSYNKnockIPv6_def append_assoc [symmetric]
    unfolding append_assoc ether6_payload [OF assms(1) b(1,2)] by (simp add: syn_knock_fields_built assms)
qed

lemma buildSYNPacket_checksums:
  assumes "buildSYNPacket rndID src dst srcPort dstPort flds = Inr p"
  shows "checksum (take 20 p) = 0 \<and> checksum (pseudo4 (the (To4 src)) (the (To4 dst)) (drop 20 p)) = 0"
proof -
  obtain ipID s d where b: "rndID = Inr ipID" "To4 src = Some s" "To4 dst = Some d"
    by (rule buildSYNPacket_Inr [OF assms])
  note l = To4_length [OF b(2)] To4_length [OF b(3)]
  let ?c = "checksum (ipv4_header_bytes ipID 0 s d)"
  let ?tcp = "\<lambda>c. syn_tcp_bytes srcPort dstPort flds c"
  let ?tc = "checksum (pseudo4 s d (?tcp 0))"
  have p: "p = ipv4_header_bytes ipID ?c s d @ ?tcp ?tc"
    using assms unfolding b(1) buildSYNPacket_bytes [OF b(2,3)] by simp
  have h: "length (ipv4_header_bytes ipID x s d) = 20" for x using l by (simp add: ipv4_header_bytes_def)
  have "checksum (ipv4_header_bytes ipID ?c s d) = 0"
    using checksum_fills [of "[0x45, 0, 0, 52] @ put16 ipID @ [0, 0, 64, 6]" "s @ d"] l
    by (simp add: ipv4_header_bytes_def put_0)
  moreover have "checksum (pseudo4 s d (?tcp ?tc)) = 0"
    using checksum_fills [of "s @ d @ [0, 6] @ put16 (of_nat 32) @ take 16 (?tcp 0)" "drop 18 (?tcp 0)"] l
    by (simp add: pseudo4_def) (simp add: syn_tcp_bytes_def put_0)
  ultimately show ?thesis using h unfolding p by (simp add: b)
qed

section \<open>Properties\<close>

text \<open>
  Property C25. \<open>checksum\<close>, which adds the words in a 32-bit accumulator and folds the carries
  afterwards, is the Internet checksum of RFC 1071: the complement of the one's complement sum
  with the carry taken end-around at every addition. It holds for every input short enough for
  the accumulator, 128 KiB, which no IP packet exceeds.
\<close>

theorem syn_checksum_reference:
  assumes "length data \<le> 131072"
  shows "unat (checksum data) = internet_checksum data"
  using checksum_value [OF assms] by (simp add: internet_checksum_def ones_sum_carry)

theorem syn_checksum_reference_witness:
  "unat (checksum [0xff, 0xff, 0x00, 0x02, 0x7f]) = internet_checksum [0xff, 0xff, 0x00, 0x02, 0x7f] \<and>
   checksum [0xff, 0xff, 0x00, 0x02, 0x7f] = 0x80fd"
proof
  show "unat (checksum [0xff, 0xff, 0x00, 0x02, 0x7f]) = internet_checksum [0xff, 0xff, 0x00, 0x02, 0x7f]"
    by (rule syn_checksum_reference) simp
  show "checksum [0xff, 0xff, 0x00, 0x02, 0x7f] = 0x80fd" by code_simp
qed

text \<open>
  The loops of the packet code return on every input: the fold of the carries, whose
  condition is on the sum it rewrites, and the walk over TCP options, which advances by a length
  byte the sender chose. A zero or short option length cannot hold the listener.
\<close>

theorem syn_loops_return:
  "(\<exists>r. fold_carry s = Some r \<and> r < 0x10000) \<and> (\<exists>r. timestamp_walk options i = Some r)"
proof
  obtain r where "fold_carry s = Some r" "unat r = carry_rep (unat s)" using fold_carry_returns by blast
  moreover from this carry_rep_bound [of "unat s"] have "r < 0x10000" by (simp add: word_less_nat_alt)
  ultimately show "\<exists>r. fold_carry s = Some r \<and> r < 0x10000" by blast
  show "\<exists>r. timestamp_walk options i = Some r" by (rule timestamp_walk_returns)
qed

text \<open>
  Property C26. A knock that \<open>buildSYNPacket\<close> or \<open>buildSYNPacketIPv6\<close> builds is what
  \<open>parseSYNKnock\<close> reads from the Ethernet frame that carries it: the source address and the
  sequence, window and timestamp come back for every pair of MAC addresses, although the parser
  tries IPv6 first and scans for headers. The IPv4 packet also carries a header checksum and a TCP
  checksum that a receiving stack accepts.
\<close>

theorem syn_knock_roundtrip:
  assumes "length mac = 12" "0 \<le> dstPort" "dstPort < 65536"
    and "buildSYNPacket rndID src dst srcPort dstPort flds = Inr p"
    and "buildSYNPacketIPv6 src6 dst6 srcPort dstPort flds = Inr p6"
  shows "parseSYNKnock (mac @ [0x08, 0x00] @ p) dstPort = Some (the (To4 src), flds) \<and>
    parseSYNKnock (mac @ [0x86, 0xdd] @ p6) dstPort = Some (src6, flds) \<and>
    checksum (take 20 p) = 0 \<and> checksum (pseudo4 (the (To4 src)) (the (To4 dst)) (drop 20 p)) = 0"
  using parseSYNKnock_v4 [OF assms(1,4,2,3)] parseSYNKnock_v6 [OF assms(1,5,2,3)] buildSYNPacket_checksums [OF assms(4)]
  by blast

definition demo_syn_fields :: SYNFields where
  "demo_syn_fields = \<lparr>sf_Sequence = 0xdeadbeef, sf_Window = 0x1234, sf_Timestamp = 0xcafebabe\<rparr>"

definition demo_v6 :: "byte \<Rightarrow> bytes" where
  "demo_v6 n = [0x20, 0x01, 0x0d, 0xb8, 0, 0, 0, 0, 0, 0, 0, 0, 0, 0, 0, n]"

theorem syn_knock_roundtrip_witness:
  "\<exists>p p6. buildSYNPacket (Inr 7) [10, 0, 0, 1] [10, 0, 0, 2] 40000 443 demo_syn_fields = Inr p \<and>
     buildSYNPacketIPv6 (demo_v6 1) (demo_v6 2) 40000 443 demo_syn_fields = Inr p6 \<and>
     parseSYNKnock (replicate 12 2 @ [0x08, 0x00] @ p) 443 = Some ([10, 0, 0, 1], demo_syn_fields) \<and>
     parseSYNKnock (replicate 12 2 @ [0x86, 0xdd] @ p6) 443 = Some (demo_v6 1, demo_syn_fields)"
proof -
  have t: "To4 [10, 0, 0, 1] = Some [10, 0, 0, 1]" "To4 [10, 0, 0, 2] = Some [10, 0, 0, 2]"
    by (simp_all add: To4_self)
  note b4 = buildSYNPacket_bytes [OF t, of 7 40000 443 demo_syn_fields]
  have v: "length (demo_v6 1) = 16" "length (demo_v6 2) = 16" "To4 (demo_v6 1) = None" "To4 (demo_v6 2) = None"
    by code_simp+
  note b6 = buildSYNPacketIPv6_bytes [OF v, of 40000 443 demo_syn_fields]
  have m: "length (replicate 12 (2::byte)) = 12" by simp
  show ?thesis
    using b4 b6 syn_knock_roundtrip [OF m _ _ b4 b6] t(1) by simp
qed

end
