(* ===== verification/Knock_SYN.thy ===== *)
theory Knock_SYN
  imports Knock_UDP Syn_Packet "HOL-Library.Signed_Division"
begin

text \<open>
  Package knock: SYN knocks and SYN knock sequences (frame.go, sequence.go, synseq_tracker.go,
  synseq_linux.go), the listeners that capture UDP knocks without a socket (udp_passive_linux.go)
  and the choice of a sender (client.go, clientcheck_linux.go). A SYN knock is a TCP SYN whose
  sequence number, window and timestamp are a tag under the client's secret for a time slot. The
  listeners are functions of the frames the packet socket delivers, with the instants at which the
  code reads the clock. Raw sockets, address resolution and randomness are arguments.
\<close>

section \<open>Tags and slots\<close>

definition SYNKnockPurpose :: string where "SYNKnockPurpose = ''syn-knock''"
definition synSeqLabel :: string where "synSeqLabel = ''libknock/tcp-syn-seq/v1''"
definition legacySYNSeqLabel :: string where "legacySYNSeqLabel = ''knock-proxy/tcp-syn-seq/v1''"

definition writeString :: "string \<Rightarrow> bytes" where
  "writeString s = put16 (of_nat (length s)) @ str_bytes s"

definition time_Unix :: "time \<Rightarrow> int" where
  "time_Unix t = t div second"

definition slot_size :: "duration \<Rightarrow> int" where
  "slot_size window0 =
     (let window = (if window0 \<le> 0 then 30 * second else window0);
          window = (if window < second then second else window)
      in window div second)"

definition SlotFor :: "time \<Rightarrow> duration \<Rightarrow> int" where
  "SlotFor t window = time_Unix t sdiv slot_size window"

definition ComputeSYNTag :: "crypto \<Rightarrow> bytes \<Rightarrow> string \<Rightarrow> int \<Rightarrow> int \<Rightarrow> bytes" where
  "ComputeSYNTag cr secret clientID serverPort slt =
     hmac_sha256 cr secret (str_bytes SYNKnockPurpose @ writeString clientID @ put16 (of_int serverPort) @ put64 (of_int slt))"

definition ComputeSYNFields :: "crypto \<Rightarrow> bytes \<Rightarrow> string \<Rightarrow> int \<Rightarrow> int \<Rightarrow> SYNFields" where
  "ComputeSYNFields cr secret clientID serverPort slt =
     (let tag = ComputeSYNTag cr secret clientID serverPort slt;
          window = get16 (slice tag 4 6);
          window = (if window = 0 then 1 else window)
      in \<lparr>sf_Sequence = get32 (slice tag 0 4), sf_Window = window, sf_Timestamp = get32 (slice tag 6 10)\<rparr>)"

fun VerifySYNFields_clients :: "crypto \<Rightarrow> SYNFields \<Rightarrow> ClientSecret list \<Rightarrow> int \<Rightarrow> int \<Rightarrow> string option" where
  "VerifySYNFields_clients cr flds [] serverPort current = None"
| "VerifySYNFields_clients cr flds (client # clients) serverPort current =
     (if ValidateClientSecret client \<noteq> None then VerifySYNFields_clients cr flds clients serverPort current
      else if list_ex (\<lambda>delta. ComputeSYNFields cr (cs_Secret client) (cs_ClientID client) serverPort (current + delta) = flds) [-1, 0, 1]
      then Some (cs_ClientID client)
      else VerifySYNFields_clients cr flds clients serverPort current)"

definition VerifySYNFields :: "crypto \<Rightarrow> SYNFields \<Rightarrow> ClientSecret list \<Rightarrow> int \<Rightarrow> time \<Rightarrow> duration \<Rightarrow> string option" where
  "VerifySYNFields cr flds clients serverPort now window = VerifySYNFields_clients cr flds clients serverPort (SlotFor now window)"

text \<open>The replay caches a SYN listener may hold: one behind \<open>auth.ReplayCache\<close>, or its own.\<close>

datatype 'r syn_replay = AuthReplay "'r ReplayCache" | SynReplay synReplayCache

definition syn_nonce :: "SYNFields \<Rightarrow> int \<Rightarrow> bytes" where
  "syn_nonce flds serverPort =
     put32 (sf_Sequence flds) @ put16 (sf_Window flds) @ put32 (sf_Timestamp flds) @ put16 (of_int serverPort) @
     put16 (of_nat (length SYNKnockPurpose))"

fun CheckSYNReplay :: "time \<Rightarrow> 'r syn_replay \<Rightarrow> string \<Rightarrow> SYNFields \<Rightarrow> int \<Rightarrow> error option \<times> 'r syn_replay" where
  "CheckSYNReplay now (AuthReplay rc) clientID flds serverPort =
     (if \<not> hasReplayCache rc then (None, AuthReplay rc)
      else let (err, rc) = replay_CheckAndMark now clientID (syn_nonce flds serverPort) rc in (err, AuthReplay rc))"
| "CheckSYNReplay now (SynReplay c) clientID flds serverPort =
     (let (err, c) = syn_CheckAndMark now clientID (syn_nonce flds serverPort) c in (err, SynReplay c))"

section \<open>The parts of a SYN sequence\<close>

record SYNSeqPart =
  sp_Port :: int
  sp_Fields :: SYNFields

definition syn_seq_part :: "crypto \<Rightarrow> bytes \<Rightarrow> string \<Rightarrow> int \<Rightarrow> int \<Rightarrow> bool \<Rightarrow> nat \<Rightarrow> SYNSeqPart" where
  "syn_seq_part cr secret clientID protectedPort slt legacyRandomPorts i =
     (let tag = hmac_sha256 cr secret
            (str_bytes (if legacyRandomPorts then legacySYNSeqLabel else synSeqLabel) @ writeString clientID @
             put16 (of_int protectedPort) @ put64 (of_int slt) @ put16 (of_nat i));
          port = (if legacyRandomPorts then 1024 + uint (get16 (slice tag 0 2) mod 64511) else protectedPort);
          window = get16 (slice tag 6 8);
          window = (if window = 0 then 1 else window)
      in \<lparr>sp_Port = port, sp_Fields = \<lparr>sf_Sequence = get32 (slice tag 2 6), sf_Window = window, sf_Timestamp = get32 (slice tag 8 12)\<rparr>\<rparr>)"

definition computeSYNSeqParts :: "crypto \<Rightarrow> bytes \<Rightarrow> string \<Rightarrow> int \<Rightarrow> int \<Rightarrow> int \<Rightarrow> bool \<Rightarrow> SYNSeqPart list" where
  "computeSYNSeqParts cr secret clientID protectedPort slt tot legacyRandomPorts =
     (let tot = (if tot < 2 \<or> tot > 5 then 3 else tot)
      in map (syn_seq_part cr secret clientID protectedPort slt legacyRandomPorts) [0 ..< nat tot])"

definition ComputeSYNSeqParts :: "crypto \<Rightarrow> bytes \<Rightarrow> string \<Rightarrow> int \<Rightarrow> int \<Rightarrow> int \<Rightarrow> SYNSeqPart list" where
  "ComputeSYNSeqParts cr secret clientID protectedPort slt tot = computeSYNSeqParts cr secret clientID protectedPort slt tot False"

definition computeLegacySYNSeqParts :: "crypto \<Rightarrow> bytes \<Rightarrow> string \<Rightarrow> int \<Rightarrow> int \<Rightarrow> int \<Rightarrow> SYNSeqPart list" where
  "computeLegacySYNSeqParts cr secret clientID protectedPort slt tot = computeSYNSeqParts cr secret clientID protectedPort slt tot True"

definition synSeqPartMatches :: "SYNSeqPart list \<Rightarrow> int \<Rightarrow> int \<Rightarrow> SYNFields \<Rightarrow> bool" where
  "synSeqPartMatches parts index dstPort flds \<longleftrightarrow>
     index \<ge> 0 \<and> index < int (length parts) \<and> sp_Port (parts ! nat index) = dstPort \<and> sp_Fields (parts ! nat index) = flds"

fun VerifySYNSeqPart_slots ::
    "crypto \<Rightarrow> SYNFields \<Rightarrow> int \<Rightarrow> int \<Rightarrow> int \<Rightarrow> int \<Rightarrow> bool \<Rightarrow> (ClientSecret \<times> int) list \<Rightarrow> (string \<times> int) option" where
  "VerifySYNSeqPart_slots cr flds dstPort protectedPort tot index allowLegacy [] = None"
| "VerifySYNSeqPart_slots cr flds dstPort protectedPort tot index allowLegacy ((client, slt) # rest) =
     (if synSeqPartMatches (ComputeSYNSeqParts cr (cs_Secret client) (cs_ClientID client) protectedPort slt tot) index dstPort flds \<or>
         (allowLegacy \<and> synSeqPartMatches (computeLegacySYNSeqParts cr (cs_Secret client) (cs_ClientID client) protectedPort slt tot) index dstPort flds)
      then Some (cs_ClientID client, slt)
      else VerifySYNSeqPart_slots cr flds dstPort protectedPort tot index allowLegacy rest)"

definition VerifySYNSeqPart ::
    "crypto \<Rightarrow> SYNFields \<Rightarrow> int \<Rightarrow> ClientSecret list \<Rightarrow> int \<Rightarrow> time \<Rightarrow> int \<Rightarrow> int \<Rightarrow> int \<Rightarrow> bool \<Rightarrow> (string \<times> int) option" where
  "VerifySYNSeqPart cr flds dstPort clients protectedPort now slotSeconds0 tot index allowLegacy =
     (let slotSeconds = (if slotSeconds0 \<le> 0 then 30 else slotSeconds0);
          current = time_Unix now sdiv slotSeconds
      in VerifySYNSeqPart_slots cr flds dstPort protectedPort tot index allowLegacy
           (concat (map (\<lambda>client. map (\<lambda>delta. (client, current + delta)) [-1, 0, 1]) clients)))"

section \<open>The tracker of SYN sequences\<close>

record synSeqState =
  ss_firstSeen :: time
  ss_lastSeen :: time
  ss_matched :: int
  ss_clientID :: string
  ss_slot :: int

record 'r synSeqTracker =
  sy_opts :: SequenceOptions
  sy_replay :: "'r syn_replay"
  sy_states :: "(string \<times> synSeqState) list"
  sy_perIP :: "(string \<times> int) list"
  sy_total :: int

definition newSYNSequenceTracker :: "SequenceOptions \<Rightarrow> 'r ReplayCache \<Rightarrow> 'r synSeqTracker" where
  "newSYNSequenceTracker opts0 rc =
     (let opts = normalizedSequenceOptions opts0
      in \<lparr>sy_opts = opts,
          sy_replay = (if hasReplayCache rc then AuthReplay rc else SynReplay (newSYNReplayCache (dur_wrap (so_SlotSeconds opts * second * 3)))),
          sy_states = [], sy_perIP = [], sy_total = 0\<rparr>)"

definition decInflightLocked :: "string \<Rightarrow> 'r synSeqTracker \<Rightarrow> 'r synSeqTracker" where
  "decInflightLocked ip t =
     (let t = (if ip_count (sy_perIP t) ip > 0
               then let n = ip_count (sy_perIP t) ip - 1
                    in t\<lparr>sy_perIP := (if n = 0 then AList.delete ip (sy_perIP t) else AList.update ip n (sy_perIP t))\<rparr>
               else t)
      in if sy_total t > 0 then t\<lparr>sy_total := sy_total t - 1\<rparr> else t)"

fun syn_prune_walk :: "time \<Rightarrow> (string \<times> synSeqState) list \<Rightarrow> 'r synSeqTracker \<Rightarrow> 'r synSeqTracker" where
  "syn_prune_walk now [] t = t"
| "syn_prune_walk now ((key, st) # rest) t =
     (if time_Sub now (ss_firstSeen st) > so_Window (sy_opts t) then
        let t = t\<lparr>sy_states := AList.delete key (sy_states t)\<rparr>;
            t = (if CHR 0x00 \<in> set key then decInflightLocked (takeWhile (\<lambda>c. c \<noteq> CHR 0x00) key) t
                 else if sy_total t > 0 then t\<lparr>sy_total := sy_total t - 1\<rparr> else t)
        in syn_prune_walk now rest t
      else syn_prune_walk now rest t)"

definition syn_pruneLocked :: "time \<Rightarrow> 'r synSeqTracker \<Rightarrow> 'r synSeqTracker" where
  "syn_pruneLocked now t = syn_prune_walk now (sy_states t) t"

text \<open>The state that the part continues, if any: the first one of the source that expects it.\<close>

fun syn_continues ::
    "crypto \<Rightarrow> SequenceOptions \<Rightarrow> string \<Rightarrow> int \<Rightarrow> SYNFields \<Rightarrow> ClientSecret list \<Rightarrow> int \<Rightarrow> time \<Rightarrow>
     (string \<times> synSeqState) list \<Rightarrow> (string \<times> synSeqState) option" where
  "syn_continues cr opts keyPrefix dstPort flds clients protectedPort now [] = None"
| "syn_continues cr opts keyPrefix dstPort flds clients protectedPort now ((key, st) # rest) =
     (if length key \<ge> length keyPrefix \<and> take (length keyPrefix) key = keyPrefix \<and>
         VerifySYNSeqPart cr flds dstPort clients protectedPort now (so_SlotSeconds opts) (so_Length opts) (ss_matched st)
           (so_AllowLegacySYNSeq opts) = Some (ss_clientID st, ss_slot st)
      then Some (key, st)
      else syn_continues cr opts keyPrefix dstPort flds clients protectedPort now rest)"

definition syn_state_key :: "string \<Rightarrow> string \<Rightarrow> int \<Rightarrow> string" where
  "syn_state_key ip client slt = ip @ [CHR 0x00] @ client @ [CHR 0x00] @ Itoa slt"

definition syn_add ::
    "crypto \<Rightarrow> bytes \<Rightarrow> int \<Rightarrow> SYNFields \<Rightarrow> ClientSecret list \<Rightarrow> int \<Rightarrow> time \<Rightarrow> time \<Rightarrow> 'r synSeqTracker \<Rightarrow>
     (bool \<times> string) \<times> 'r synSeqTracker" where
  "syn_add cr src dstPort flds clients protectedPort now tReplay t0 =
     (let t = syn_pruneLocked now t0;
          opts = sy_opts t;
          ip = IP_String src
      in case syn_continues cr opts (ip @ [CHR 0x00]) dstPort flds clients protectedPort now (sy_states t) of
           Some (key, st) \<Rightarrow>
             let st = st\<lparr>ss_matched := ss_matched st + 1, ss_lastSeen := now\<rparr>
             in if ss_matched st \<ge> so_Length opts
                then ((True, ss_clientID st), decInflightLocked ip (t\<lparr>sy_states := AList.delete key (sy_states t)\<rparr>))
                else ((False, []), t\<lparr>sy_states := AList.update key st (sy_states t)\<rparr>)
         | None \<Rightarrow>
             (case VerifySYNSeqPart cr flds dstPort clients protectedPort now (so_SlotSeconds opts) (so_Length opts) 0 (so_AllowLegacySYNSeq opts) of
                None \<Rightarrow> ((False, []), t)
              | Some (client, slt) \<Rightarrow>
                  if ip_count (sy_perIP t) ip \<ge> so_MaxInflightPerIP opts \<or> sy_total t \<ge> so_MaxTotalInflight opts then ((False, []), t)
                  else
                    let (err, replay) = CheckSYNReplay tReplay (sy_replay t) client flds protectedPort;
                        t = t\<lparr>sy_replay := replay\<rparr>
                    in if err \<noteq> None then ((False, []), t)
                       else if so_Length opts = 1 then ((True, client), t)
                       else ((False, []),
                             t\<lparr>sy_states := AList.update (syn_state_key ip client slt)
                                  \<lparr>ss_firstSeen = now, ss_lastSeen = now, ss_matched = 1, ss_clientID = client, ss_slot = slt\<rparr> (sy_states t),
                               sy_perIP := AList.update ip (ip_count (sy_perIP t) ip + 1) (sy_perIP t),
                               sy_total := sy_total t + 1\<rparr>)))"

section \<open>Captured frames\<close>

text \<open>
  A frame from the packet socket, with the clock where the code checks the slot or age, in the
  replay cache and in the tracker of UDP sequences; the buffer holds 65535 bytes. A failed read
  carries its error, whether it is \<open>EINTR\<close>, and the error of the context at that moment.
\<close>

record capture =
  cp_frame :: bytes
  cp_now :: time
  cp_replay :: time
  cp_track :: time

datatype raw_read = Captured capture | RecvFailed error bool "error option"

datatype raw_socket = SocketOpen | NotPermitted | SocketFailed error

definition recv_buf :: "bytes \<Rightarrow> bytes" where
  "recv_buf frame = (if int (length frame) \<le> 65535 then frame else take 65535 frame)"

fun raw_Serve :: "(capture \<Rightarrow> 's \<Rightarrow> knock_output list \<times> 's) \<Rightarrow> raw_read list \<Rightarrow> 's \<Rightarrow> knock_output list list \<times> error option \<times> 's" where
  "raw_Serve receive [] s = ([], None, s)"
| "raw_Serve receive (RecvFailed err eintr ctxErr # reads) s =
     (case ctxErr of Some e \<Rightarrow> ([], Some e, s)
      | None \<Rightarrow> if eintr then raw_Serve receive reads s else ([], Some err, s))"
| "raw_Serve receive (Captured cp # reads) s =
     (let (outs, s) = receive cp s; (rest, r, s) = raw_Serve receive reads s in (outs # rest, r, s))"

definition allow_source :: "'w ListenOptions \<Rightarrow> bytes \<Rightarrow> 'w \<Rightarrow> bool \<times> 'w" where
  "allow_source opts src w = (case lo_AllowPacket opts of None \<Rightarrow> (True, w) | Some f \<Rightarrow> f src w)"

definition knock_event :: "bytes \<Rightarrow> string \<Rightarrow> string \<Rightarrow> int \<Rightarrow> knock_output" where
  "knock_event src clientID meth parts =
     Handled \<lparr>ev_SourceIP = src, ev_ClientID = clientID, ev_Nonce = [], ev_Method = meth, ev_Parts = parts, ev_SessionID = []\<rparr>"

section \<open>The SYN listener\<close>

definition syn_receive ::
    "crypto \<Rightarrow> 'w ListenOptions \<Rightarrow> capture \<Rightarrow> 'r syn_replay \<times> 'w \<Rightarrow> knock_output list \<times> 'r syn_replay \<times> 'w" where
  "syn_receive cr opts cp s =
     (let (replay, hooks) = s
      in case parseSYNKnock (recv_buf (cp_frame cp)) (lo_Port opts) of
           None \<Rightarrow> ([], replay, hooks)
         | Some (src, flds) \<Rightarrow>
             let (ok, hooks) = allow_source opts src hooks
             in if \<not> ok then ([], replay, hooks)
                else case VerifySYNFields cr flds (lo_Clients opts) (lo_Port opts) (cp_now cp) (lo_TimeWindow opts) of
                  None \<Rightarrow> ([], replay, hooks)
                | Some clientID \<Rightarrow>
                    let (err, replay) = CheckSYNReplay (cp_replay cp) replay clientID flds (lo_Port opts)
                    in if err \<noteq> None then ([], replay, hooks)
                       else ([knock_event src clientID ''tcp-syn'' 0], replay, hooks))"

definition syn_listen_defaults :: "'w ListenOptions \<Rightarrow> 'w ListenOptions" where
  "syn_listen_defaults opts = (if lo_TimeWindow opts \<le> 0 then opts\<lparr>lo_TimeWindow := 30 * second\<rparr> else opts)"

definition Listen ::
    "crypto \<Rightarrow> 'w ListenOptions \<Rightarrow> raw_socket \<Rightarrow> raw_read list \<Rightarrow> 'r ReplayCache \<Rightarrow> 'w \<Rightarrow> knock_output list list \<times> error option" where
  "Listen cr opts0 sock reads rc hooks =
     (case ValidateClientSecrets (lo_Clients opts0) of Some err \<Rightarrow> ([], Some err) | None \<Rightarrow>
      let opts = syn_listen_defaults opts0
      in if lo_Port opts < 1 \<or> lo_Port opts > 65535 then ([], Some (Errorf ''invalid knock listen port''))
         else case sock of
           NotPermitted \<Rightarrow> ([], Some (Errorf ''server requires CAP_NET_ADMIN and CAP_NET_RAW, or must be run as root''))
         | SocketFailed err \<Rightarrow> ([], Some err)
         | SocketOpen \<Rightarrow> let (outs, r, _) = raw_Serve (syn_receive cr opts) reads (AuthReplay (replayCache opts rc), hooks) in (outs, r))"

section \<open>The listener for SYN sequences\<close>

definition syn_sequence_receive ::
    "crypto \<Rightarrow> 'w ListenOptions \<Rightarrow> capture \<Rightarrow> 'r synSeqTracker \<times> 'w \<Rightarrow> knock_output list \<times> 'r synSeqTracker \<times> 'w" where
  "syn_sequence_receive cr opts cp s =
     (let (tracker, hooks) = s
      in case parseSYNPacket (recv_buf (cp_frame cp)) of
           None \<Rightarrow> ([], tracker, hooks)
         | Some (src, dstPort, flds) \<Rightarrow>
             let (ok, hooks) = allow_source opts src hooks
             in if \<not> ok then ([], tracker, hooks)
                else
                  let ((complete, clientID), tracker) = syn_add cr src dstPort flds (lo_Clients opts) (lo_Port opts) (cp_now cp) (cp_replay cp) tracker
                  in (if complete then [knock_event src clientID TCP_SYNSeqMethod (so_Length (normalizedSequenceOptions (lo_Sequence opts)))] else [],
                      tracker, hooks))"

definition ListenSYNSequence ::
    "crypto \<Rightarrow> 'w ListenOptions \<Rightarrow> raw_socket \<Rightarrow> raw_read list \<Rightarrow> 'r ReplayCache \<Rightarrow> 'w \<Rightarrow> knock_output list list \<times> error option" where
  "ListenSYNSequence cr opts sock reads rc hooks =
     (case ValidateClientSecrets (lo_Clients opts) of Some err \<Rightarrow> ([], Some err) | None \<Rightarrow>
      if lo_Port opts < 1 \<or> lo_Port opts > 65535 then ([], Some (Errorf ''invalid protected port''))
      else case sock of
        NotPermitted \<Rightarrow> ([], Some (Errorf ''tcp-syn-seq server requires CAP_NET_ADMIN and CAP_NET_RAW, or must be run as root''))
      | SocketFailed err \<Rightarrow> ([], Some err)
      | SocketOpen \<Rightarrow>
          let (outs, r, _) = raw_Serve (syn_sequence_receive cr opts) reads
                (newSYNSequenceTracker (normalizedSequenceOptions (lo_Sequence opts)) rc, hooks) in (outs, r))"

section \<open>The passive UDP listeners\<close>

definition udp_passive_config :: "'w ListenOptions \<Rightarrow> KnockServerConfig" where
  "udp_passive_config opts = (udp_config opts)\<lparr>ks_Method := UDPPassiveMethod\<rparr>"

definition udp_passive_sequence_config :: "'w ListenOptions \<Rightarrow> KnockServerConfig" where
  "udp_passive_sequence_config opts = (udp_config opts)\<lparr>ks_Method := UDPPassiveSeq, ks_AllowSequence := True\<rparr>"

definition passive_knock_port :: "'w ListenOptions \<Rightarrow> int" where
  "passive_knock_port opts = (if lo_KnockPort opts = 0 then lo_Port opts else lo_KnockPort opts)"

definition udp_passive_receive ::
    "crypto \<Rightarrow> 'w ListenOptions \<Rightarrow> capture \<Rightarrow> ('w, 'r) knock_world \<Rightarrow> knock_output list \<times> ('w, 'r) knock_world" where
  "udp_passive_receive cr opts cp w =
     (case parseUDPKnockDatagram (recv_buf (cp_frame cp)) (passive_knock_port opts) of
        None \<Rightarrow> ([], w)
      | Some (src, payload) \<Rightarrow>
          if int (length payload) > maxKnockFrameSize opts then ([], w)
          else
            let (ok, hooks) = allow_source opts src (kw_hooks w);
                w = w\<lparr>kw_hooks := hooks\<rparr>
            in if \<not> ok then ([], w)
               else
                 let (r, rc) = OpenKnockFrame cr (cp_now cp) (cp_replay cp) payload (udp_passive_config opts) (kw_replay w);
                     w = w\<lparr>kw_replay := rc\<rparr>
                 in (case r of Inl _ \<Rightarrow> ([], w)
                     | Inr info \<Rightarrow>
                         if requireKnockSessionID opts (Some info) \<noteq> None then ([], w)
                         else ([Handled \<lparr>ev_SourceIP = src, ev_ClientID = ki_ClientID info, ev_Nonce = hex_EncodeToString (ki_Nonce info),
                                  ev_Method = UDPPassiveMethod, ev_Parts = 0, ev_SessionID = ki_SessionID info\<rparr>], w)))"

definition udp_passive_sequence_receive ::
    "crypto \<Rightarrow> 'w ListenOptions \<Rightarrow> capture \<Rightarrow> ('w, 'r) knock_world \<Rightarrow> knock_output list \<times> ('w, 'r) knock_world" where
  "udp_passive_sequence_receive cr opts cp w =
     (case parseUDPKnockDatagram (recv_buf (cp_frame cp)) (passive_knock_port opts) of
        None \<Rightarrow> ([], w)
      | Some (src, payload) \<Rightarrow>
          if int (length payload) > maxKnockFrameSize opts then ([], w)
          else
            let (ok, hooks) = allow_source opts src (kw_hooks w);
                w = w\<lparr>kw_hooks := hooks\<rparr>
            in if \<not> ok then ([], w)
               else
                 let (r, rc) = OpenKnockFrame cr (cp_now cp) (cp_replay cp) payload (udp_passive_sequence_config opts) (kw_replay w);
                     w = w\<lparr>kw_replay := rc\<rparr>
                 in (case r of Inl _ \<Rightarrow> ([], w)
                     | Inr info \<Rightarrow>
                         if requireKnockSessionID opts (Some info) \<noteq> None then ([], w)
                         else
                           let (added, tracker) = seq_add src (Some info) (cp_track cp) (kw_tracker w);
                               w = w\<lparr>kw_tracker := tracker\<rparr>
                           in (case added of Inl _ \<Rightarrow> ([], w)
                               | Inr complete \<Rightarrow>
                                   (if complete then [Handled \<lparr>ev_SourceIP = src, ev_ClientID = ki_ClientID info, ev_Nonce = hex_EncodeToString (ki_Nonce info),
                                      ev_Method = UDPPassiveSeq, ev_Parts = ki_SequenceTotal info, ev_SessionID = ki_SessionID info\<rparr>] else [], w))))"

text \<open>The two functions open the socket before they look at the clients' secrets.\<close>

definition listen_passive ::
    "string \<Rightarrow> 'w ListenOptions \<Rightarrow> raw_socket \<Rightarrow> raw_read list \<Rightarrow> (capture \<Rightarrow> ('w, 'r) knock_world \<Rightarrow> knock_output list \<times> ('w, 'r) knock_world) \<Rightarrow>
     'r ReplayCache \<Rightarrow> 'w \<Rightarrow> knock_output list list \<times> error option" where
  "listen_passive denied opts sock reads receive rc hooks =
     (if lo_Port opts < 1 \<or> lo_Port opts > 65535 then ([], Some (Errorf ''invalid protected port''))
      else if passive_knock_port opts < 1 \<or> passive_knock_port opts > 65535 then ([], Some (Errorf ''invalid udp knock port''))
      else case sock of
        NotPermitted \<Rightarrow> ([], Some (Errorf denied))
      | SocketFailed err \<Rightarrow> ([], Some err)
      | SocketOpen \<Rightarrow> (case ValidateClientSecrets (lo_Clients opts) of Some err \<Rightarrow> ([], Some err) | None \<Rightarrow>
          let (outs, r, _) = raw_Serve receive reads \<lparr>kw_replay = replayCache opts rc, kw_hooks = hooks,
                kw_tracker = newSequenceTracker (lo_Sequence opts) (lo_NonceTTL opts)\<rparr> in (outs, r)))"

definition ListenUDPPassive ::
    "crypto \<Rightarrow> 'w ListenOptions \<Rightarrow> raw_socket \<Rightarrow> raw_read list \<Rightarrow> 'r ReplayCache \<Rightarrow> 'w \<Rightarrow> knock_output list list \<times> error option" where
  "ListenUDPPassive cr opts0 sock reads rc hooks =
     (let opts = syn_listen_defaults opts0
      in listen_passive ''udp-passive server requires CAP_NET_ADMIN and CAP_NET_RAW, or must be run as root'' opts sock reads
           (udp_passive_receive cr opts) rc hooks)"

definition ListenUDPPassiveSequence ::
    "crypto \<Rightarrow> 'w ListenOptions \<Rightarrow> raw_socket \<Rightarrow> raw_read list \<Rightarrow> 'r ReplayCache \<Rightarrow> 'w \<Rightarrow> knock_output list list \<times> error option" where
  "ListenUDPPassiveSequence cr opts sock reads rc hooks =
     listen_passive ''udp-passive-seq server requires CAP_NET_ADMIN and CAP_NET_RAW, or must be run as root'' opts sock reads
       (udp_passive_sequence_receive cr opts) rc hooks"

section \<open>Sending\<close>

text \<open>
  What a raw send meets: the addresses the kernel would send from, the socket, the outcome of
  setting \<open>IP_HDRINCL\<close>, the clock; and per packet the random port and identification, the
  outcome of the race between \<open>Sendto\<close> and the context, and of the wait behind it. The result
  is the error and the packets sent, each with its destination.
\<close>

record packet_env =
  pe_port :: "bytes result"
  pe_id :: "bytes result"
  pe_sendto :: "error option"
  pe_sleep :: "error option"

record raw_env =
  re_local4 :: "bytes option result"
  re_local6 :: "bytes option result"
  re_socket :: raw_socket
  re_hdrincl :: "error option"
  re_now :: time

definition nil_IP :: "bytes option \<Rightarrow> bytes" where
  "nil_IP ip = (case ip of None \<Rightarrow> [] | Some b \<Rightarrow> b)"

definition raw_setup :: "string \<Rightarrow> raw_env \<Rightarrow> error option" where
  "raw_setup denied env =
     (case re_socket env of NotPermitted \<Rightarrow> Some (Errorf denied) | SocketFailed err \<Rightarrow> Some err | SocketOpen \<Rightarrow> re_hdrincl env)"

definition send_packet ::
    "(u16 result \<Rightarrow> int \<Rightarrow> bytes result) \<Rightarrow> packet_env \<Rightarrow> bytes result" where
  "send_packet build pe =
     rbind (randomEphemeralPort (pe_port pe)) (\<lambda>srcPort. build (randomUint16 (pe_id pe)) srcPort)"

definition sendIPv4 :: "crypto \<Rightarrow> raw_env \<Rightarrow> packet_env \<Rightarrow> SendOptions \<Rightarrow> bytes \<Rightarrow> error option \<times> (bytes \<times> int \<times> bytes) list" where
  "sendIPv4 cr env pe opts remote =
     (case outboundIPv4 (re_local4 env) of Inl err \<Rightarrow> (Some err, []) | Inr localIP \<Rightarrow>
      (case raw_setup ''tcp-syn knock requires CAP_NET_RAW or root'' env of Some err \<Rightarrow> (Some err, []) | None \<Rightarrow>
      let flds = ComputeSYNFields cr (sn_Secret opts) (sn_ClientID opts) (sn_ServerPort opts) (SlotFor (re_now env) (sn_TimeWindow opts));
          dst = nil_IP (To4 remote)
      in case send_packet (\<lambda>ipID srcPort. buildSYNPacket ipID localIP dst srcPort (sn_ServerPort opts) flds) pe of
           Inl err \<Rightarrow> (Some err, [])
         | Inr packet \<Rightarrow> (case pe_sendto pe of Some err \<Rightarrow> (Some err, []) | None \<Rightarrow> (None, [(dst, sn_ServerPort opts, packet)]))))"

definition sendIPv6 :: "crypto \<Rightarrow> raw_env \<Rightarrow> packet_env \<Rightarrow> SendOptions \<Rightarrow> bytes \<Rightarrow> error option \<times> (bytes \<times> int \<times> bytes) list" where
  "sendIPv6 cr env pe opts remote =
     (case outboundIPv6 (re_local6 env) of Inl err \<Rightarrow> (Some err, []) | Inr localIP \<Rightarrow>
      (case raw_setup ''tcp-syn knock requires CAP_NET_RAW or root'' env of Some err \<Rightarrow> (Some err, []) | None \<Rightarrow>
      let flds = ComputeSYNFields cr (sn_Secret opts) (sn_ClientID opts) (sn_ServerPort opts) (SlotFor (re_now env) (sn_TimeWindow opts));
          dst = nil_IP (To16 remote)
      in case send_packet (\<lambda>ipID srcPort. buildSYNPacketIPv6 localIP dst srcPort (sn_ServerPort opts) flds) pe of
           Inl err \<Rightarrow> (Some err, [])
         | Inr packet \<Rightarrow> (case pe_sendto pe of Some err \<Rightarrow> (Some err, []) | None \<Rightarrow> (None, [(dst, sn_ServerPort opts, packet)]))))"

definition Send ::
    "crypto \<Rightarrow> bytes option result \<Rightarrow> raw_env \<Rightarrow> packet_env \<Rightarrow> SendOptions \<Rightarrow> error option \<times> (bytes \<times> int \<times> bytes) list" where
  "Send cr resolved env pe opts0 =
     (case ValidateSendOptions opts0 of Some err \<Rightarrow> (Some err, []) | None \<Rightarrow>
      let opts = (if sn_TimeWindow opts0 \<le> 0 then opts0\<lparr>sn_TimeWindow := 30 * second\<rparr> else opts0)
      in case resolved of
           Inl err \<Rightarrow> (Some err, [])
         | Inr None \<Rightarrow> (Some (Errorf ''server address did not resolve to an IP address''), [])
         | Inr (Some remote) \<Rightarrow> if To4 remote \<noteq> None then sendIPv4 cr env pe opts remote else sendIPv6 cr env pe opts remote)"

fun send_syn_parts ::
    "(u16 result \<Rightarrow> int \<Rightarrow> SYNSeqPart \<Rightarrow> bytes result) \<Rightarrow> bytes \<Rightarrow> SYNSeqPart list \<Rightarrow> packet_env list \<Rightarrow>
     error option \<times> (bytes \<times> int \<times> bytes) list" where
  "send_syn_parts build dst (part # parts) (pe # pes) =
     (case send_packet (\<lambda>ipID srcPort. build ipID srcPort part) pe of
        Inl err \<Rightarrow> (Some err, [])
      | Inr packet \<Rightarrow> (case pe_sendto pe of Some err \<Rightarrow> (Some err, []) | None \<Rightarrow>
          (case (if parts = [] then None else pe_sleep pe) of Some err \<Rightarrow> (Some err, [(dst, sp_Port part, packet)]) | None \<Rightarrow>
             let (err, rest) = send_syn_parts build dst parts pes in (err, (dst, sp_Port part, packet) # rest))))"
| "send_syn_parts build dst parts pes = (None, [])"

definition sendSYNSequenceIPv4 ::
    "crypto \<Rightarrow> raw_env \<Rightarrow> packet_env list \<Rightarrow> SendOptions \<Rightarrow> bytes \<Rightarrow> SequenceOptions \<Rightarrow> error option \<times> (bytes \<times> int \<times> bytes) list" where
  "sendSYNSequenceIPv4 cr env pes opts remote sq =
     (case outboundIPv4 (re_local4 env) of Inl err \<Rightarrow> (Some err, []) | Inr localIP \<Rightarrow>
      (case raw_setup ''tcp-syn-seq knock requires CAP_NET_RAW or root'' env of Some err \<Rightarrow> (Some err, []) | None \<Rightarrow>
      let parts = ComputeSYNSeqParts cr (sn_Secret opts) (sn_ClientID opts) (sn_ServerPort opts) (time_Unix (re_now env) sdiv so_SlotSeconds sq) (so_Length sq);
          dst = nil_IP (To4 remote)
      in send_syn_parts (\<lambda>ipID srcPort part. buildSYNPacket ipID localIP dst srcPort (sp_Port part) (sp_Fields part)) dst parts pes))"

definition sendSYNSequenceIPv6 ::
    "crypto \<Rightarrow> raw_env \<Rightarrow> packet_env list \<Rightarrow> SendOptions \<Rightarrow> bytes \<Rightarrow> SequenceOptions \<Rightarrow> error option \<times> (bytes \<times> int \<times> bytes) list" where
  "sendSYNSequenceIPv6 cr env pes opts remote sq =
     (case outboundIPv6 (re_local6 env) of Inl err \<Rightarrow> (Some err, []) | Inr localIP \<Rightarrow>
      (case raw_setup ''tcp-syn-seq knock requires CAP_NET_RAW or root'' env of Some err \<Rightarrow> (Some err, []) | None \<Rightarrow>
      let parts = ComputeSYNSeqParts cr (sn_Secret opts) (sn_ClientID opts) (sn_ServerPort opts) (time_Unix (re_now env) sdiv so_SlotSeconds sq) (so_Length sq);
          dst = nil_IP (To16 remote)
      in send_syn_parts (\<lambda>ipID srcPort part. buildSYNPacketIPv6 localIP dst srcPort (sp_Port part) (sp_Fields part)) dst parts pes))"

definition SendSYNSequence ::
    "crypto \<Rightarrow> bytes option result \<Rightarrow> raw_env \<Rightarrow> packet_env list \<Rightarrow> SendOptions \<Rightarrow> error option \<times> (bytes \<times> int \<times> bytes) list" where
  "SendSYNSequence cr resolved env pes opts =
     (case ValidateSendOptions opts of Some err \<Rightarrow> (Some err, []) | None \<Rightarrow>
      let sq = normalizedSequenceOptions (sn_Sequence opts)
      in case resolved of
           Inl err \<Rightarrow> (Some err, [])
         | Inr None \<Rightarrow> (Some (Errorf ''server address did not resolve to an IP address''), [])
         | Inr (Some remote) \<Rightarrow>
             if To4 remote \<noteq> None then sendSYNSequenceIPv4 cr env pes opts remote sq else sendSYNSequenceIPv6 cr env pes opts remote sq)"

section \<open>The choice of a sender\<close>

text \<open>The effective user id and capabilities of the process are arguments.\<close>

definition CheckServerPrivileges :: "int \<Rightarrow> (nat list \<Rightarrow> bool) \<Rightarrow> error option" where
  "CheckServerPrivileges euid caps =
     (if euid = 0 then None else if caps [12, 13] then None
      else Some (Errorf ''server requires CAP_NET_ADMIN and CAP_NET_RAW, or must be run as root''))"

definition CheckClientSupport :: "int \<Rightarrow> (nat list \<Rightarrow> bool) \<Rightarrow> string \<Rightarrow> error option" where
  "CheckClientSupport euid caps meth =
     (if meth \<noteq> ''tcp-syn'' \<and> meth \<noteq> TCP_SYNSeqMethod then None
      else if euid = 0 \<or> caps [13] then None
      else Some (Errorf ''tcp-syn/tcp-syn-seq knock requires CAP_NET_RAW or root''))"

datatype sent = Datagrams "bytes list" | Packets "(bytes \<times> int \<times> bytes) list"

record method_env =
  me_dial :: "error option"
  me_udp :: "send_env list"
  me_sequenceID :: "bytes result"
  me_resolved :: "bytes option result"
  me_raw :: raw_env
  me_packets :: "packet_env list"
  me_euid :: int
  me_caps :: "nat list \<Rightarrow> bool"

definition SendMethod :: "crypto \<Rightarrow> method_env \<Rightarrow> string \<Rightarrow> SendOptions \<Rightarrow> error option \<times> sent" where
  "SendMethod cr env meth0 opts =
     (let meth = NormalizeMethod meth0
      in if meth = UDPMethod then map_prod id Datagrams (SendUDPMethod cr (hd (me_udp env)) (me_dial env) opts UDPMethod)
         else if meth = UDPPassiveMethod then map_prod id Datagrams (SendUDPMethod cr (hd (me_udp env)) (me_dial env) opts UDPPassiveMethod)
         else if meth = UDPSeqMethod then map_prod id Datagrams (SendUDPSequenceMethod cr (me_sequenceID env) (me_udp env) (me_dial env) opts UDPSeqMethod)
         else if meth = UDPPassiveSeq then map_prod id Datagrams (SendUDPSequenceMethod cr (me_sequenceID env) (me_udp env) (me_dial env) opts UDPPassiveSeq)
         else if meth = TCPSYNMethod then
           (case CheckClientSupport (me_euid env) (me_caps env) meth of Some err \<Rightarrow> (Some err, Packets [])
            | None \<Rightarrow> map_prod id Packets (Send cr (me_resolved env) (me_raw env) (hd (me_packets env)) opts))
         else if meth = TCP_SYNSeqMethod then
           (case CheckClientSupport (me_euid env) (me_caps env) meth of Some err \<Rightarrow> (Some err, Packets [])
            | None \<Rightarrow> map_prod id Packets (SendSYNSequence cr (me_resolved env) (me_raw env) (me_packets env) opts))
         else (Some (Errorf ''unsupported knock method''), Packets []))"

section \<open>What verification means\<close>

definition syn_slots :: "'w ListenOptions \<Rightarrow> capture \<Rightarrow> int set" where
  "syn_slots opts cp = {SlotFor (cp_now cp) (lo_TimeWindow opts) - 1 .. SlotFor (cp_now cp) (lo_TimeWindow opts) + 1}"

definition client_fields :: "crypto \<Rightarrow> 'w ListenOptions \<Rightarrow> ClientSecret \<Rightarrow> int \<Rightarrow> SYNFields" where
  "client_fields cr opts client slt = ComputeSYNFields cr (cs_Secret client) (cs_ClientID client) (lo_Port opts) slt"

lemma VerifySYNFields_clients_Some:
  assumes "VerifySYNFields_clients cr flds clients serverPort current = Some ident"
  shows "\<exists>client \<in> set clients. \<exists>slt \<in> {current - 1 .. current + 1}. cs_ClientID client = ident \<and> ValidateClientSecret client = None \<and>
    ComputeSYNFields cr (cs_Secret client) (cs_ClientID client) serverPort slt = flds"
  using assms
proof (induction clients)
  case (Cons client clients)
  let ?m = "list_ex (\<lambda>delta. ComputeSYNFields cr (cs_Secret client) (cs_ClientID client) serverPort (current + delta) = flds) [-1, 0, 1]"
  show ?case
  proof (cases "ValidateClientSecret client = None \<and> ?m")
    case True
    then obtain delta where d: "delta \<in> set [-1, 0, 1 :: int]"
      "ComputeSYNFields cr (cs_Secret client) (cs_ClientID client) serverPort (current + delta) = flds" unfolding list_ex_iff by blast
    have "current + delta \<in> {current - 1 .. current + 1}" using d(1) by auto
    moreover have "cs_ClientID client = ident"
      using Cons.prems True by (simp only: VerifySYNFields_clients.simps simp_thms if_True if_False option.inject)
    ultimately show ?thesis
      using True d(2) by (intro bexI [of _ client] bexI [of _ "current + delta"] conjI) (assumption | rule list.set_intros(1) | blast)+
  next
    case False
    then have "VerifySYNFields_clients cr flds clients serverPort current = Some ident"
      using Cons.prems unfolding VerifySYNFields_clients.simps by (metis (no_types, lifting))
    then show ?thesis using Cons.IH by (meson list.set_intros(2))
  qed
qed simp

lemma VerifySYNFields_first:
  assumes "clients = pre @ client # post" "ValidateClientSecret client = None" "slt \<in> {current - 1 .. current + 1}"
    "ComputeSYNFields cr (cs_Secret client) (cs_ClientID client) serverPort slt = flds"
    "\<forall>c \<in> set pre. \<forall>s \<in> {current - 1 .. current + 1}. ComputeSYNFields cr (cs_Secret c) (cs_ClientID c) serverPort s \<noteq> flds"
  shows "VerifySYNFields_clients cr flds clients serverPort current = Some (cs_ClientID client)"
  using assms(1,5)
proof (induction pre arbitrary: clients)
  case Nil
  have "slt = current + -1 \<or> slt = current + 0 \<or> slt = current + 1" using assms(3) by auto
  then show ?case using Nil assms(2,4) by auto
next
  case (Cons c pre)
  then show ?case by auto
qed

lemma SlotFor_pos: "0 \<le> t \<Longrightarrow> SlotFor t window = t div second div slot_size window" and slot_size_pos: "1 \<le> slot_size window"
proof -
  show s: "1 \<le> slot_size window"
    by (auto simp: slot_size_def Let_def time_defs)
  show "SlotFor t window = t div second div slot_size window" if "0 \<le> t"
  proof -
    have "0 \<le> t div second" using that by (simp add: time_defs)
    with s show ?thesis by (simp add: SlotFor_def time_Unix_def signed_divide_int_def sgn_if)
  qed
qed

text \<open>Two instants whose slots are at most two apart are less than three slots apart.\<close>

lemma slots_close:
  assumes "0 \<le> t" "0 \<le> u" "SlotFor u window \<le> SlotFor t window + 2"
  shows "u - t < 3 * slot_size window * second"
proof -
  define n where "n = second * slot_size window"
  have n: "0 < n" using slot_size_pos [of window] by (simp add: n_def time_defs)
  have d: "SlotFor v window = v div n" if "0 \<le> v" for v
    using slot_size_pos [of window] by (simp only: SlotFor_pos [OF that] n_def) (simp add: zdiv_zmult2_eq)
  have "(u div n + 1) * n \<le> (t div n + 3) * n"
    using assms d n by (intro mult_right_mono) auto
  moreover have "u < (u div n + 1) * n" "t div n * n \<le> t"
    using pos_mod_bound [OF n, of u] pos_mod_sign [OF n, of t] by (simp_all add: distrib_right flip: minus_mod_eq_div_mult)
  ultimately have "u - t < 3 * n" by (simp add: distrib_right)
  then show ?thesis by (simp add: n_def mult.assoc mult.commute)
qed

section \<open>The listener and its replay cache\<close>

definition syn_marks :: "crypto \<Rightarrow> 'w ListenOptions \<Rightarrow> capture \<Rightarrow> knock_output list \<Rightarrow> string \<Rightarrow> bytes \<Rightarrow> bool" where
  "syn_marks cr opts cp outs ident nonce \<longleftrightarrow>
     (\<exists>src flds. parseSYNKnock (recv_buf (cp_frame cp)) (lo_Port opts) = Some (src, flds) \<and>
        outs = [knock_event src ident ''tcp-syn'' 0] \<and> nonce = syn_nonce flds (lo_Port opts))"

fun syn_memory :: "'r syn_replay \<Rightarrow> MemoryReplayCache option" where
  "syn_memory (AuthReplay rc) = memory_of rc" | "syn_memory (SynReplay c) = None"

lemma syn_memory_Some: "syn_memory r = Some c \<longleftrightarrow> r = AuthReplay (MemoryCache c)"
  by (cases r) (auto simp: memory_of_Some)

lemma CheckSYNReplay_memory:
  "CheckSYNReplay now (AuthReplay (MemoryCache c)) ident flds port = (err, r) \<longleftrightarrow>
   (\<exists>c'. mrc_CheckAndMark now ident (syn_nonce flds port) c = (err, c') \<and> r = AuthReplay (MemoryCache c'))"
  by (auto simp: Let_def split: prod.splits)

lemma syn_receive_cases:
  assumes "syn_receive cr opts cp (replay, hooks) = (outs, replay', hooks')"
  obtains "outs = []" "replay' = replay"
  | src flds ident err where "parseSYNKnock (recv_buf (cp_frame cp)) (lo_Port opts) = Some (src, flds)"
      "VerifySYNFields cr flds (lo_Clients opts) (lo_Port opts) (cp_now cp) (lo_TimeWindow opts) = Some ident"
      "CheckSYNReplay (cp_replay cp) replay ident flds (lo_Port opts) = (err, replay')"
      "outs = (if err = None then [knock_event src ident ''tcp-syn'' 0] else [])"
  using assms by (auto simp: syn_receive_def Let_def split: option.splits prod.splits if_splits)

interpretation syn_guard: guarded_listener "syn_receive cr opts" "\<lambda>s :: unit syn_replay \<times> 'w. syn_memory (fst s)" cp_replay "syn_marks cr opts" for cr opts
proof
  show "\<exists>c'. syn_memory (fst s') = Some c' \<and> mrc_ok c' \<and> mrc_ttl c' = mrc_ttl c \<and>
      (\<forall>i m. unexpired (cp_replay cp) (mrc_seen c i m) \<longrightarrow> mrc_seen c' i m = mrc_seen c i m)"
    if run: "syn_receive cr opts cp s = (outs, s')" and c: "syn_memory (fst s) = Some c" "mrc_ok c"
    for cp outs c and s s' :: "unit syn_replay \<times> 'w"
  proof -
    obtain hooks replay' hooks' where s: "s = (AuthReplay (MemoryCache c), hooks)" "s' = (replay', hooks')"
      using c(1) by (cases s, cases s') (auto simp: syn_memory_Some)
    show ?thesis
      by (rule syn_receive_cases [OF run [unfolded s]])
        (use c in \<open>auto simp: s CheckSYNReplay_memory simp del: CheckSYNReplay.simps
           dest: memory_replay.check_inv [OF c(2)] memory_replay.check_keep [OF c(2)]\<close>)
  qed
  show "\<exists>c'. syn_memory (fst s') = Some c' \<and> mrc_ok c' \<and>
      mrc_seen c' ident nonce = Some (cp_replay cp + mrc_ttl c) \<and> \<not> unexpired (cp_replay cp) (mrc_seen c ident nonce)"
    if run: "syn_receive cr opts cp s = (outs, s')" and m: "syn_marks cr opts cp outs ident nonce"
      and c: "syn_memory (fst s) = Some c" "mrc_ok c"
    for cp outs ident nonce c and s s' :: "unit syn_replay \<times> 'w"
  proof -
    obtain hooks replay' hooks' where s: "s = (AuthReplay (MemoryCache c), hooks)" "s' = (replay', hooks')"
      using c(1) by (cases s, cases s') (auto simp: syn_memory_Some)
    have "\<exists>c'. mrc_CheckAndMark (cp_replay cp) ident nonce c = (None, c') \<and> replay' = AuthReplay (MemoryCache c')"
      by (rule syn_receive_cases [OF run [unfolded s]])
        (use m in \<open>auto simp: syn_marks_def CheckSYNReplay_memory knock_event_def simp del: CheckSYNReplay.simps split: if_splits\<close>)
    then obtain c' where c': "mrc_CheckAndMark (cp_replay cp) ident nonce c = (None, c')" "replay' = AuthReplay (MemoryCache c')" by blast
    show ?thesis
      using memory_replay.check_inv [OF c(2) c'(1)] memory_replay.check_accept [OF c(2) c'(1)] memory_replay.check_replay [OF c(2) c'(1)]
      by (auto simp: s c'(2))
  qed
qed

lemma raw_Serve_captured:
  "raw_Serve receive (map Captured cps) s = (outs, r, s') \<Longrightarrow> outs = listen_run receive cps s \<and> r = None"
  by (induction cps arbitrary: s outs r s') (auto simp: Let_def split: prod.splits)

lemma listen_run_nth: "j < length ds \<Longrightarrow> \<exists>w'. listen_run receive ds w ! j = fst (receive (ds ! j) w')"
proof (induction ds arbitrary: w j)
  case (Cons d ds)
  then show ?case by (cases j) (auto simp: Let_def split: prod.splits intro: exI [of _ w])
qed simp

lemma syn_handled:
  assumes "fst (syn_receive cr opts cp s) = [Handled ev]"
  shows "\<exists>src flds client slt. parseSYNKnock (recv_buf (cp_frame cp)) (lo_Port opts) = Some (src, flds) \<and> client \<in> set (lo_Clients opts) \<and>
    slt \<in> syn_slots opts cp \<and> client_fields cr opts client slt = flds \<and> Handled ev = knock_event src (cs_ClientID client) ''tcp-syn'' 0"
proof -
  obtain replay hooks where s: "s = (replay, hooks)" by (rule prod.exhaust)
  obtain replay' hooks' where run: "syn_receive cr opts cp (replay, hooks) = ([Handled ev], replay', hooks')"
    using assms unfolding s by (metis prod.collapse)
  show ?thesis
  proof (rule syn_receive_cases [OF run])
    fix src flds ident err
    assume p: "parseSYNKnock (recv_buf (cp_frame cp)) (lo_Port opts) = Some (src, flds)"
      and v: "VerifySYNFields cr flds (lo_Clients opts) (lo_Port opts) (cp_now cp) (lo_TimeWindow opts) = Some ident"
      and o: "[Handled ev] = (if err = None then [knock_event src ident ''tcp-syn'' 0] else [])"
    from VerifySYNFields_clients_Some [OF v [unfolded VerifySYNFields_def]] obtain client slt where
      "client \<in> set (lo_Clients opts)" "slt \<in> syn_slots opts cp" "cs_ClientID client = ident" "client_fields cr opts client slt = flds"
      unfolding syn_slots_def client_fields_def by blast
    with p o show ?thesis by (auto split: if_splits)
  qed simp
qed

lemma syn_defaults_window:
  "SlotFor t (lo_TimeWindow (syn_listen_defaults opts)) = SlotFor t (lo_TimeWindow opts)"
  "syn_slots (syn_listen_defaults opts) = syn_slots opts" "client_fields cr (syn_listen_defaults opts) = client_fields cr opts"
  "lo_Port (syn_listen_defaults opts) = lo_Port opts" "lo_Clients (syn_listen_defaults opts) = lo_Clients opts"
proof -
  show "SlotFor t (lo_TimeWindow (syn_listen_defaults opts)) = SlotFor t (lo_TimeWindow opts)" for t
    by (simp add: syn_listen_defaults_def SlotFor_def slot_size_def time_defs)
  then show "syn_slots (syn_listen_defaults opts) = syn_slots opts" by (simp add: syn_slots_def fun_eq_iff)
qed (simp_all add: syn_listen_defaults_def client_fields_def fun_eq_iff)

lemma Listen_None:
  assumes "Listen cr opts sock (map Captured cps) rc hooks = (outs, None)"
  shows "outs = listen_run (syn_receive cr (syn_listen_defaults opts)) cps (AuthReplay (replayCache (syn_listen_defaults opts) rc), hooks)"
  using assms raw_Serve_captured [of "syn_receive cr (syn_listen_defaults opts)" cps "(AuthReplay (replayCache (syn_listen_defaults opts) rc), hooks)"]
  by (auto simp: Listen_def Let_def split: option.splits if_splits raw_socket.splits prod.splits)

text \<open>A part can continue a state only below the number of parts that are computed.\<close>

lemma prune_opts: "sy_opts (syn_pruneLocked now t) = sy_opts t"
proof -
  have dec: "sy_opts (decInflightLocked ip t) = sy_opts t" for ip and t :: "'r synSeqTracker"
    by (simp add: decInflightLocked_def Let_def)
  have "sy_opts (syn_prune_walk now states t) = sy_opts t" for states and t :: "'r synSeqTracker"
    by (induction states arbitrary: t) (auto simp: Let_def dec split: prod.splits)
  then show ?thesis by (simp add: syn_pruneLocked_def)
qed

lemma verified_index:
  assumes "VerifySYNSeqPart_slots cr flds dstPort protectedPort tot index allowLegacy cands = Some r"
  shows "\<exists>secret ident slt legacy. index < int (length (computeSYNSeqParts cr secret ident protectedPort slt tot legacy))"
  using assms
proof (induction cands)
  case (Cons cand cands)
  obtain client slt where cand: "cand = (client, slt)" by (rule prod.exhaust)
  from Cons show ?case
    unfolding cand VerifySYNSeqPart_slots.simps synSeqPartMatches_def ComputeSYNSeqParts_def computeLegacySYNSeqParts_def
    by (smt (verit))
qed simp

lemma continues_matched:
  assumes "syn_continues cr opts pre dstPort flds clients protectedPort now states = Some (key, st)"
  shows "\<exists>secret ident slt legacy. ss_matched st < int (length (computeSYNSeqParts cr secret ident protectedPort slt (so_Length opts) legacy))"
  using assms
proof (induction states)
  case (Cons s states)
  then show ?case by (cases s) (auto simp: VerifySYNSeqPart_def Let_def split: if_splits intro: verified_index)
qed simp

lemma part_count: "5 < tot \<Longrightarrow> length (computeSYNSeqParts cr secret ident port slt tot legacy) = 3"
  by (simp add: computeSYNSeqParts_def Let_def)

section \<open>Properties\<close>

text \<open>
  Property C27. With a time window below 100 seconds, a listener with its own replay cache hands
  one captured frame to the application at most once, however often it is delivered: along any
  frames in the order of their cache accesses, when no frame spends a second or more between the
  check of its slot and the cache, no two of the handled ones are equal. A tag is good for three
  slots, and the cache of five minutes covers them. The tags of the slots in question must not
  collide, neither between clients nor between slots.
\<close>

theorem syn_knock_once:
  fixes hooks :: 'w and opts :: "'w ListenOptions"
  assumes listen: "Listen cr opts sock (map Captured cps) (NilReplayCache :: unit ReplayCache) hooks = (outs, None)"
    and sorted: "sorted (map cp_replay cps)"
    and quick: "\<forall>cp \<in> set cps. 0 \<le> cp_now cp \<and> cp_now cp \<le> cp_replay cp \<and> cp_replay cp < cp_now cp + second"
    and window: "lo_TimeWindow opts < 100 * second"
    and ij: "i < j" "j < length cps"
    and handled: "outs ! i = [Handled ev]" "outs ! j = [Handled ev']"
    and distinct: "\<forall>c \<in> set (lo_Clients opts). \<forall>c' \<in> set (lo_Clients opts). \<forall>s \<in> syn_slots opts (cps ! i). \<forall>s' \<in> syn_slots opts (cps ! j).
      client_fields cr opts c s = client_fields cr opts c' s' \<longrightarrow> cs_ClientID c = cs_ClientID c' \<and> s = s'"
  shows "cp_frame (cps ! i) \<noteq> cp_frame (cps ! j)"
proof
  assume same: "cp_frame (cps ! i) = cp_frame (cps ! j)"
  let ?o = "syn_listen_defaults opts" and ?ttl = "5 * minute"
  let ?c = "NewMemoryReplayCache ?ttl"
  let ?run = "listen_run (syn_receive cr ?o) cps (AuthReplay (MemoryCache ?c) :: unit syn_replay, hooks)"
  note d = syn_defaults_window
  have "knock_replay_ttl (lo_TimeWindow ?o) = ?ttl"
    using window by (auto simp: knock_replay_ttl_def Let_def syn_listen_defaults_def time_defs dur_wrap_id)
  then have outs: "outs = ?run"
    using Listen_None [OF listen] by (simp add: replayCache_def)
  have c: "mrc_ok ?c" "mrc_ttl ?c = ?ttl"
    by (simp_all add: NewMemoryReplayCache_def Let_def mrc_ok_New mrc_ttl_New time_defs)
  have i: "i < length cps" using ij by simp
  note nth = listen_run_nth [of _ cps "syn_receive cr ?o" "(AuthReplay (MemoryCache ?c) :: unit syn_replay, hooks)"]
  obtain wi :: "unit syn_replay \<times> 'w" where hi: "fst (syn_receive cr ?o (cps ! i) wi) = [Handled ev]" using nth [OF i] handled(1) unfolding outs by auto
  obtain wj :: "unit syn_replay \<times> 'w" where hj: "fst (syn_receive cr ?o (cps ! j) wj) = [Handled ev']" using nth [OF ij(2)] handled(2) unfolding outs by auto
  from syn_handled [OF hi] obtain src flds cl s where
    p: "parseSYNKnock (recv_buf (cp_frame (cps ! i))) (lo_Port ?o) = Some (src, flds)" "cl \<in> set (lo_Clients opts)" "s \<in> syn_slots opts (cps ! i)"
      "client_fields cr opts cl s = flds" "Handled ev = knock_event src (cs_ClientID cl) ''tcp-syn'' 0" by (auto simp: d)
  from syn_handled [OF hj] obtain src' flds' cl' s' where
    q: "parseSYNKnock (recv_buf (cp_frame (cps ! j))) (lo_Port ?o) = Some (src', flds')" "cl' \<in> set (lo_Clients opts)" "s' \<in> syn_slots opts (cps ! j)"
      "client_fields cr opts cl' s' = flds'" "Handled ev' = knock_event src' (cs_ClientID cl') ''tcp-syn'' 0" by (auto simp: d)
  have eq: "src' = src" "flds' = flds" using p(1) q(1) same by simp_all
  then have "client_fields cr opts cl s = client_fields cr opts cl' s'" using p(4) q(4) by simp
  with distinct p(2,3) q(2,3) have "cs_ClientID cl = cs_ClientID cl' \<and> s = s'" by blast
  then have cl: "cs_ClientID cl' = cs_ClientID cl" "s' = s" by simp_all
  have "syn_marks cr ?o (cps ! i) (?run ! i) (cs_ClientID cl) (syn_nonce flds (lo_Port ?o))"
    "syn_marks cr ?o (cps ! j) (?run ! j) (cs_ClientID cl) (syn_nonce flds (lo_Port ?o))"
    using p(1,5) q(1,5) handled unfolding outs syn_marks_def by (auto simp: eq cl)
  from syn_guard.twice [OF _ c(1) sorted ij this] c(2)
  have apart: "cp_replay (cps ! i) + ?ttl \<le> cp_replay (cps ! j)" by simp
  have t: "0 \<le> cp_now (cps ! i)" "0 \<le> cp_now (cps ! j)" "cp_now (cps ! i) \<le> cp_replay (cps ! i)" "cp_replay (cps ! j) < cp_now (cps ! j) + second"
    using quick nth_mem [OF i] nth_mem [OF ij(2)] by auto
  have "SlotFor (cp_now (cps ! j)) (lo_TimeWindow opts) \<le> SlotFor (cp_now (cps ! i)) (lo_TimeWindow opts) + 2"
    using p(3) q(3) cl(2) by (auto simp: syn_slots_def)
  from slots_close [OF t(1,2) this] have "cp_now (cps ! j) - cp_now (cps ! i) < 3 * slot_size (lo_TimeWindow opts) * second" .
  moreover have "slot_size (lo_TimeWindow opts) \<le> 99"
    using window by (auto simp: slot_size_def Let_def time_defs)
  ultimately show False using apart t by (simp add: time_defs)
qed

text \<open>A new cache accepts a nonce, and accepts it again when the lifetime is over.\<close>

lemma memory_again:
  assumes "0 < ttl" "0 \<le> t"
  shows "\<exists>c' c''. mrc_CheckAndMark t ident nonce (NewMemoryReplayCache ttl) = (None, c') \<and>
    mrc_CheckAndMark (t + ttl) ident nonce c' = (None, c'')"
proof -
  let ?c = "NewMemoryReplayCache ttl" and ?key = "replay_key ident nonce"
  have c: "mrc_ok ?c" "mrc_ttl ?c = ttl" "mrc_maxEntries ?c = 65536" "mrc_active ?c = 0" "mrc_nextSweep ?c = zero_time" "expiry (mrc_entries ?c) k = None" for k
    using assms by (simp_all add: NewMemoryReplayCache_def Let_def mrc_ok_New mrc_ttl_New)
      (simp_all add: NewMemoryReplayCacheWithLimit_def Let_def DefaultReplayCacheMaxEntries_def expiry_def NewTTLLRU_def)
  obtain r c' where 1: "mrc_CheckAndMark t ident nonce ?c = (r, c')" by (rule prod.exhaust)
  note k = mrc_check [OF c(1) 1]
  have z: "t + ttl \<noteq> zero_time" "t + ttl + ttl \<noteq> zero_time" using assms by (simp_all add: time_defs)
  have r: "r = None" using k z c by (auto simp: check_outcome_def)
  have k': "mrc_ok c'" "mrc_ttl c' = ttl" "mrc_maxEntries c' = 65536" "expiry (mrc_entries c') ?key = Some (t + ttl)"
    using k c r by (auto simp: check_outcome_def)
  have "mrc_active c' \<le> 1"
    using 1 c by (auto simp: mrc_CheckAndMark_def mrc_prepare_def Let_def split: prod.splits if_splits)
  then have "card (dom (expiry (mrc_entries c'))) \<le> 1"
    using k'(1) lru.len_card [of "mrc_entries c'"] by (simp add: mrc_ok_def)
  moreover have "card {x. unexpired (t + ttl) (expiry (mrc_entries c') x)} \<le> card (dom (expiry (mrc_entries c')))"
    using k'(1) by (intro card_mono) (auto simp: mrc_ok_def lru.finite_look unexpired_iff)
  ultimately have few: "card {x. unexpired (t + ttl) (expiry (mrc_entries c') x)} \<le> 1" by simp
  obtain r' c'' where 2: "mrc_CheckAndMark (t + ttl) ident nonce c' = (r', c'')" by (rule prod.exhaust)
  have "r' = None" using mrc_check [OF k'(1) 2] few z(2) k' by (auto simp: check_outcome_def)
  with 1 2 r show ?thesis by blast
qed

lemma syn_receive_accepts:
  assumes "lo_AllowPacket opts = None" "parseSYNKnock (recv_buf (cp_frame cp)) (lo_Port opts) = Some (src, flds)"
    "VerifySYNFields cr flds (lo_Clients opts) (lo_Port opts) (cp_now cp) (lo_TimeWindow opts) = Some ident"
    "mrc_CheckAndMark (cp_replay cp) ident (syn_nonce flds (lo_Port opts)) c = (None, c')"
  shows "syn_receive cr opts cp (AuthReplay (MemoryCache c), hooks) = ([knock_event src ident ''tcp-syn'' 0], AuthReplay (MemoryCache c'), hooks)"
  using assms by (simp add: syn_receive_def allow_source_def)

definition at_instant :: "bytes \<Rightarrow> time \<Rightarrow> capture" where
  "at_instant frame t = \<lparr>cp_frame = frame, cp_now = t, cp_replay = t, cp_track = t\<rparr>"

lemma slot_at:
  assumes "0 < k" "0 \<le> n" "n * k * second \<le> t" "t < (n + 1) * k * second"
  shows "SlotFor t (k * second) = n"
proof -
  have s: "slot_size (k * second) = k" using assms(1) by (simp add: slot_size_def Let_def time_defs)
  have t0: "0 \<le> t" using assms(1-3) by (simp add: time_defs) (smt (verit) mult_nonneg_nonneg)
  have "SlotFor t (k * second) = t div (second * k)"
    using assms(1) by (simp only: SlotFor_pos [OF t0] s) (simp add: zdiv_zmult2_eq)
  also have "\<dots> = n"
    using assms by (intro int_div_pos_eq [of _ _ _ "t - n * k * second"]) (simp_all add: algebra_simps)
  finally show ?thesis .
qed

text \<open>
  Property C28. With a time window above 100 seconds the same does not hold. The replay cache keeps a
  nonce for twice the window and a second, and at least five minutes, but a tag is good for three
  slots of the window's length: a knock accepted at the start of the slot before its own, from a
  client whose clock is ahead, is accepted again when the cache has forgotten it and its tag is
  still good.
\<close>

theorem syn_replay_gap:
  assumes client: "lo_Clients opts = [client]" "ValidateClientSecret client = None"
    and allow: "lo_AllowPacket opts = None" and port: "1 \<le> lo_Port opts" "lo_Port opts \<le> 65535"
    and window: "lo_TimeWindow opts = k * second" "100 < k" "k \<le> 1000000000"
    and frame: "parseSYNKnock (recv_buf frame) (lo_Port opts) = Some (src, client_fields cr opts client slt)" "1 \<le> slt"
  defines "t \<equiv> (slt - 1) * k * second" and "ttl \<equiv> knock_replay_ttl (k * second)"
  shows "Listen cr opts SocketOpen [Captured (at_instant frame t), Captured (at_instant frame (t + ttl))] (NilReplayCache :: unit ReplayCache) hooks =
    ([[knock_event src (cs_ClientID client) ''tcp-syn'' 0], [knock_event src (cs_ClientID client) ''tcp-syn'' 0]], None)"
proof -
  let ?flds = "client_fields cr opts client slt"
  have ttl: "2 * k * second \<le> ttl" "ttl < 3 * k * second" "0 < ttl"
    using window dur_wrap_id [of "2 * (k * second) + second"] by (auto simp: ttl_def knock_replay_ttl_def Let_def time_defs)
  have t0: "0 \<le> t" using frame(2) window(2) by (simp add: t_def time_defs)
  have o: "syn_listen_defaults opts = opts" using window by (simp add: syn_listen_defaults_def time_defs)
  have "SlotFor t (lo_TimeWindow opts) = slt - 1"
    unfolding window(1) using window(2) frame(2) by (intro slot_at) (simp_all add: t_def time_defs)
  moreover have "SlotFor (t + ttl) (lo_TimeWindow opts) = slt + 1"
    unfolding window(1) using window(2) frame(2) ttl by (intro slot_at) (simp_all add: t_def algebra_simps)
  ultimately have v: "VerifySYNFields cr ?flds (lo_Clients opts) (lo_Port opts) u (lo_TimeWindow opts) = Some (cs_ClientID client)"
    if "u = t \<or> u = t + ttl" for u
    unfolding VerifySYNFields_def using that client
    by (intro VerifySYNFields_first [where pre = "[]" and post = "[]" and slt = slt]) (auto simp: client_fields_def)
  obtain c' c'' where m: "mrc_CheckAndMark t (cs_ClientID client) (syn_nonce ?flds (lo_Port opts)) (NewMemoryReplayCache ttl) = (None, c')"
    "mrc_CheckAndMark (t + ttl) (cs_ClientID client) (syn_nonce ?flds (lo_Port opts)) c' = (None, c'')"
    using memory_again [OF ttl(3) t0] by blast
  have r: "syn_receive cr opts (at_instant frame t) (AuthReplay (MemoryCache (NewMemoryReplayCache ttl) :: unit ReplayCache), hooks) =
      ([knock_event src (cs_ClientID client) ''tcp-syn'' 0], AuthReplay (MemoryCache c'), hooks)"
    "syn_receive cr opts (at_instant frame (t + ttl)) (AuthReplay (MemoryCache c' :: unit ReplayCache), hooks) =
      ([knock_event src (cs_ClientID client) ''tcp-syn'' 0], AuthReplay (MemoryCache c''), hooks)"
    using v m frame(1) allow by (auto intro!: syn_receive_accepts simp: at_instant_def)
  have "replayCache opts (NilReplayCache :: unit ReplayCache) = MemoryCache (NewMemoryReplayCache ttl)"
    by (simp add: replayCache_def window(1) ttl_def)
  moreover have "ValidateClientSecrets (lo_Clients opts) = None" using client by (simp add: ValidateClientSecrets_def)
  ultimately show ?thesis using port by (simp add: Listen_def o r Let_def)
qed

text \<open>
  Property C29. Sequences longer than five parts never complete. The parts of a SYN sequence are computed with
  a length outside 2 to 5 replaced by three, but the tracker waits for as many parts as configured:
  there is no fourth part to match, so no packet completes a sequence of such a length.
\<close>

theorem syn_sequence_overlong:
  assumes "5 < so_Length (sy_opts t)"
  shows "\<not> fst (fst (syn_add cr src dstPort flds clients protectedPort now tReplay t))"
proof -
  have opts: "sy_opts (syn_pruneLocked now t) = sy_opts t" by (rule prune_opts)
  have few: "ss_matched st < 3" if "syn_continues cr (sy_opts t) pre dstPort flds clients protectedPort now states = Some (key, st)" for pre states key st
    using continues_matched [OF that] part_count [OF assms] by fastforce
  let ?c = "syn_continues cr (sy_opts t) (IP_String src @ [CHR 0x00]) dstPort flds clients protectedPort now (sy_states (syn_pruneLocked now t))"
  show ?thesis
  proof (cases ?c)
    case None
    then show ?thesis
      unfolding syn_add_def Let_def opts None option.case using assms by (simp split: option.split prod.split)
  next
    case (Some key_st)
    obtain key st where ks: "key_st = (key, st)" by (rule prod.exhaust)
    have "\<not> so_Length (sy_opts t) \<le> ss_matched st + 1" using few [OF Some [unfolded ks]] assms by simp
    then show ?thesis
      unfolding syn_add_def Let_def opts Some ks option.case prod.case by simp
  qed
qed

section \<open>Witnesses\<close>

definition syn_crypto :: crypto where
  "syn_crypto = demo_crypto\<lparr>hmac_sha256 := \<lambda>k d. take 32 (rev d @ replicate 32 0)\<rparr>"

definition demo_syn_listen :: "duration \<Rightarrow> unit ListenOptions" where
  "demo_syn_listen window = demo_listen\<lparr>lo_TimeWindow := window\<rparr>"

definition demo_syn_client :: ClientSecret where
  "demo_syn_client = \<lparr>cs_ClientID = ''a'', cs_Secret = demo_secret\<rparr>"

definition demo_syn_frame :: "int \<Rightarrow> bytes" where
  "demo_syn_frame slt = replicate 12 2 @ [0x08, 0x00] @
     (case buildSYNPacket (Inr 7) [10, 0, 0, 1] [10, 0, 0, 2] 40000 443 (ComputeSYNFields syn_crypto demo_secret ''a'' 443 slt) of
        Inl _ \<Rightarrow> [] | Inr p \<Rightarrow> p)"

definition demo_captures :: "capture list" where
  "demo_captures = [at_instant (demo_syn_frame 1) (30 * second), at_instant (demo_syn_frame 10) (300 * second)]"


lemma demo_syn_parse:
  "parseSYNKnock (recv_buf (demo_syn_frame slt)) 443 = Some ([10, 0, 0, 1], ComputeSYNFields syn_crypto demo_secret ''a'' 443 slt)"
proof -
  have t: "To4 [10, 0, 0, 1] = Some [10, 0, 0, 1]" "To4 [10, 0, 0, 2] = Some [10, 0, 0, 2]" by (simp_all add: To4_self)
  note b = buildSYNPacket_bytes [OF t, of 7 40000 443 "ComputeSYNFields syn_crypto demo_secret ''a'' 443 slt"]
  have "length (demo_syn_frame slt) = 66" by (simp add: demo_syn_frame_def b ipv4_header_bytes_def)
  then have "recv_buf (demo_syn_frame slt) = demo_syn_frame slt" by (simp add: recv_buf_def)
  then show ?thesis
    using parseSYNKnock_v4 [OF _ b, of "replicate 12 2"] b t by (simp add: demo_syn_frame_def)
qed

lemma demo_syn_fields_eq: "client_fields syn_crypto (demo_syn_listen w) demo_syn_client slt = ComputeSYNFields syn_crypto demo_secret ''a'' 443 slt"
  by (simp add: client_fields_def demo_syn_client_def demo_syn_listen_def demo_listen_def)

lemma demo_syn_options:
  "lo_Clients (demo_syn_listen w) = [demo_syn_client]" "lo_Port (demo_syn_listen w) = 443" "lo_TimeWindow (demo_syn_listen w) = w"
  "lo_AllowPacket (demo_syn_listen w) = None" "ValidateClientSecret demo_syn_client = None" "cs_ClientID demo_syn_client = ''a''"
  by (simp_all add: demo_syn_listen_def demo_listen_def demo_syn_client_def) code_simp

theorem syn_replay_gap_witness:
  "Listen syn_crypto (demo_syn_listen (200 * second)) SocketOpen
     [Captured (at_instant (demo_syn_frame 5) (800 * second)), Captured (at_instant (demo_syn_frame 5) (1201 * second))]
     (NilReplayCache :: unit ReplayCache) () =
   ([[knock_event [10, 0, 0, 1] ''a'' ''tcp-syn'' 0], [knock_event [10, 0, 0, 1] ''a'' ''tcp-syn'' 0]], None)"
proof -
  have "(5 - 1) * 200 * second = 800 * second" "800 * second + knock_replay_ttl (200 * second) = 1201 * second"
    by (simp_all add: knock_replay_ttl_def Let_def time_defs dur_wrap_id)
  with syn_replay_gap [of "demo_syn_listen (200 * second)" demo_syn_client 200 "demo_syn_frame 5" "[10, 0, 0, 1]" syn_crypto 5 "()"]
  show ?thesis by (simp add: demo_syn_options demo_syn_fields_eq demo_syn_parse)
qed

lemma demo_listen_two:
  "Listen syn_crypto (demo_syn_listen 0) SocketOpen (map Captured demo_captures) (NilReplayCache :: unit ReplayCache) () =
     ([[knock_event [10, 0, 0, 1] ''a'' ''tcp-syn'' 0], [knock_event [10, 0, 0, 1] ''a'' ''tcp-syn'' 0]], None)"
proof -
  let ?o = "syn_listen_defaults (demo_syn_listen 0)"
  let ?n = "\<lambda>slt. syn_nonce (ComputeSYNFields syn_crypto demo_secret ''a'' 443 slt) 443"
  let ?c = "NewMemoryReplayCache (5 * minute)"
  have o: "lo_Port ?o = 443" "lo_Clients ?o = [demo_syn_client]" "lo_TimeWindow ?o = 30 * second" "lo_AllowPacket ?o = None"
    by (simp_all add: syn_listen_defaults_def demo_syn_options)
  have s: "SlotFor (30 * second) (30 * second) = 1" "SlotFor (300 * second) (30 * second) = 10" by code_simp+
  have v: "VerifySYNFields syn_crypto (ComputeSYNFields syn_crypto demo_secret ''a'' 443 slt) (lo_Clients ?o) (lo_Port ?o) t (lo_TimeWindow ?o) = Some ''a''"
    if "SlotFor t (30 * second) = slt" for t slt
    using VerifySYNFields_first [where pre = "[]" and client = demo_syn_client and post = "[]" and slt = slt and current = slt] that
    by (simp add: VerifySYNFields_def o demo_syn_options) (simp add: demo_syn_client_def)
  have "fst (mrc_CheckAndMark (30 * second) ''a'' (?n 1) ?c) = None"
    "fst (mrc_CheckAndMark (300 * second) ''a'' (?n 10) (snd (mrc_CheckAndMark (30 * second) ''a'' (?n 1) ?c))) = None"
    by code_simp+
  then obtain c' c'' where m: "mrc_CheckAndMark (30 * second) ''a'' (?n 1) ?c = (None, c')" "mrc_CheckAndMark (300 * second) ''a'' (?n 10) c' = (None, c'')"
    by (metis prod.collapse snd_conv)
  have r: "syn_receive syn_crypto ?o (at_instant (demo_syn_frame 1) (30 * second)) (AuthReplay (MemoryCache ?c :: unit ReplayCache), ()) =
      ([knock_event [10, 0, 0, 1] ''a'' ''tcp-syn'' 0], AuthReplay (MemoryCache c'), ())"
    "syn_receive syn_crypto ?o (at_instant (demo_syn_frame 10) (300 * second)) (AuthReplay (MemoryCache c' :: unit ReplayCache), ()) =
      ([knock_event [10, 0, 0, 1] ''a'' ''tcp-syn'' 0], AuthReplay (MemoryCache c''), ())"
    using m v [OF s(1)] v [OF s(2)] by (auto intro!: syn_receive_accepts simp: at_instant_def o demo_syn_parse)
  have "replayCache ?o (NilReplayCache :: unit ReplayCache) = MemoryCache ?c"
    by (simp add: replayCache_def o knock_replay_ttl_def Let_def time_defs dur_wrap_id)
  moreover have "ValidateClientSecrets [demo_syn_client] = None" by (simp add: ValidateClientSecrets_def demo_syn_options)
  ultimately show ?thesis
    by (simp add: Listen_def demo_captures_def r o Let_def demo_syn_options)
qed

theorem syn_knock_once_witness: "demo_syn_frame 1 \<noteq> demo_syn_frame 10"
proof -
  have d: "\<forall>s \<in> {0, 1, 2}. \<forall>s' \<in> {9, 10, 11}. ComputeSYNFields syn_crypto demo_secret ''a'' 443 s \<noteq> ComputeSYNFields syn_crypto demo_secret ''a'' 443 s'"
    by code_simp
  have s: "SlotFor (30 * second) 0 = 1" "SlotFor (300 * second) 0 = 10" by code_simp+
  have i: "{0 .. 2} = {0, 1, 2 :: int}" "{9 .. 11} = {9, 10, 11 :: int}" by auto
  have sl: "syn_slots (demo_syn_listen 0) (demo_captures ! 0) = {0, 1, 2}" "syn_slots (demo_syn_listen 0) (demo_captures ! Suc 0) = {9, 10, 11}"
    by (simp_all add: syn_slots_def demo_captures_def at_instant_def s demo_syn_options i)
  have "cp_frame (demo_captures ! 0) \<noteq> cp_frame (demo_captures ! Suc 0)"
    by (rule syn_knock_once [OF demo_listen_two, where i = 0 and j = "Suc 0"])
      (use d in \<open>simp_all add: sl demo_syn_fields_eq demo_syn_options\<close>, simp_all add: demo_captures_def at_instant_def knock_event_def time_defs)
  then show ?thesis by (simp add: demo_captures_def at_instant_def)
qed

theorem syn_sequence_overlong_witness:
  "\<not> fst (fst (syn_add syn_crypto [10, 0, 0, 1] 443 (ComputeSYNFields syn_crypto demo_secret ''a'' 443 1) [demo_syn_client] 443 0 0
     (newSYNSequenceTracker (demo_sequence_options\<lparr>so_Length := 6\<rparr>) (NilReplayCache :: unit ReplayCache))))"
  by (rule syn_sequence_overlong) (simp add: newSYNSequenceTracker_def normalizedSequenceOptions_def Let_def)

end
