(* ===== verification/Firewall.thy ===== *)
theory Firewall
  imports Syn_Packet "HOL-Library.State_Monad" "HOL-Library.Char_ord"
begin

text \<open>
  Package firewall: the configuration and its validation, the choice of a backend, and the
  backends nftables, ipset with iptables, iptables, script and noop (interface.go, nftables.go,
  ipset_iptables.go, iptables.go, script.go, cleanup.go). A backend is the commands it runs. The
  runner is an argument: a function of the command and of the state \<open>'h\<close> of the host, which
  returns the text of the error, if any, and the new state; operations are computations of
  \<open>State_Monad\<close> over that state. Contexts and command timeouts show only as errors of the runner.
\<close>

section \<open>Commands and hosts\<close>

datatype command = Cmd string "string list" | CmdInput string string "string list"

record 'h fw_env =
  fe_run :: "command \<Rightarrow> 'h \<Rightarrow> string option \<times> 'h"
  fe_LookPath :: "string \<Rightarrow> string option"
  fe_GOOS :: string

type_synonym 'h fw_op = "('h, error option) state"

definition run_command :: "'h fw_env \<Rightarrow> command \<Rightarrow> 'h fw_op" where
  "run_command env c = State (\<lambda>h. case fe_run env c h of (text, h') \<Rightarrow> (map_option Errorf text, h'))"

text \<open>\<open>if err := m; err != nil { return err }\<close>, followed by \<open>k\<close>; and \<open>errors.Join\<close>.\<close>

definition fw_then :: "'h fw_op \<Rightarrow> 'h fw_op \<Rightarrow> 'h fw_op" where
  "fw_then m k = do { e \<leftarrow> m; if e \<noteq> None then State_Monad.return e else k }"

fun errors_Join :: "error option \<Rightarrow> error option \<Rightarrow> error option" where
  "errors_Join None e = e"
| "errors_Join (Some a) None = Some a"
| "errors_Join (Some a) (Some b) = Some (JoinErr a b)"

fun error_text :: "error \<Rightarrow> string" where
  "error_text (Errorf s) = s"
| "error_text (JoinErr a b) = error_text a @ [CHR 0x0A] @ error_text b"
| "error_text _ = []"

section \<open>Configuration\<close>

record NftablesConfig =
  nf_Table :: string
  nf_Chain :: string
  nf_SetV4 :: string
  nf_SetV6 :: string
  nf_Family :: string

record IPSetConfig =
  ip_Set :: string
  ip_SetV6 :: string

record ScriptConfig =
  sc_AllowCmd :: string
  sc_RevokeCmd :: string
  sc_CleanupCmd :: string

text \<open>\<open>fc_Runner\<close> says whether the application configured a runner of its own.\<close>

record FwConfig =
  fc_Backend :: string
  fc_Port :: int
  fc_AllowSeconds :: int
  fc_CommandTimeout :: duration
  fc_Runner :: bool
  fc_DropUDPKnockPort :: bool
  fc_UDPKnockPort :: int
  fc_EnableIPv6 :: "bool option"
  fc_Nftables :: NftablesConfig
  fc_Iptables_Chain :: string
  fc_IPSet :: IPSetConfig
  fc_Script :: ScriptConfig

definition DefaultAllowSeconds :: int where "DefaultAllowSeconds = 15"

definition fw_WithDefaults :: "FwConfig \<Rightarrow> FwConfig" where
  "fw_WithDefaults c = (if fc_AllowSeconds c \<le> 0 then c\<lparr>fc_AllowSeconds := DefaultAllowSeconds\<rparr> else c)"

definition defaultCommandTimeout :: duration where "defaultCommandTimeout = 5 * second"

definition commandTimeout :: "FwConfig \<Rightarrow> duration" where
  "commandTimeout cfg = (if fc_CommandTimeout cfg > 0 then fc_CommandTimeout cfg else defaultCommandTimeout)"

definition udpKnockPort :: "FwConfig \<Rightarrow> int" where
  "udpKnockPort cfg = (if fc_UDPKnockPort cfg > 0 then fc_UDPKnockPort cfg else fc_Port cfg)"

subsection \<open>Names\<close>

definition is_letter :: "char \<Rightarrow> bool" where
  "is_letter c \<longleftrightarrow> (CHR ''A'' \<le> c \<and> c \<le> CHR ''Z'') \<or> (CHR ''a'' \<le> c \<and> c \<le> CHR ''z'') \<or> c = CHR ''_''"

definition is_word_char :: "char \<Rightarrow> bool" where
  "is_word_char c \<longleftrightarrow> is_letter c \<or> (CHR ''0'' \<le> c \<and> c \<le> CHR ''9'')"

fun ident_re :: "int \<Rightarrow> string \<Rightarrow> bool" where
  "ident_re mx [] = False"
| "ident_re mx (c # cs) = (is_letter c \<and> list_all is_word_char cs \<and> int (length cs) \<le> mx)"

definition nftIdentifierRE :: "string \<Rightarrow> bool" where "nftIdentifierRE = ident_re 63"
definition fwNameRE :: "string \<Rightarrow> bool" where "fwNameRE = ident_re 30"

definition ascii_upper :: "char \<Rightarrow> char" where
  "ascii_upper c = (if CHR ''a'' \<le> c \<and> c \<le> CHR ''z'' then char_of (of_char c - 32 :: nat) else c)"

definition ascii_lower :: "char \<Rightarrow> char" where
  "ascii_lower c = (if CHR ''A'' \<le> c \<and> c \<le> CHR ''Z'' then char_of (of_char c + 32 :: nat) else c)"

definition str_prefix :: "string \<Rightarrow> string \<Rightarrow> bool" where
  "str_prefix p s \<longleftrightarrow> take (length p) s = p"

fun str_contains :: "string \<Rightarrow> string \<Rightarrow> bool" where
  "str_contains [] p = (p = [])"
| "str_contains (c # s) p = (str_prefix p (c # s) \<or> str_contains s p)"

definition validateFirewallPort :: "int \<Rightarrow> string \<Rightarrow> error option" where
  "validateFirewallPort port backend =
     (if port < 1 \<or> port > 65535 then Some (Errorf (''firewall backend '' @ backend @ '' requires protected port in 1..65535'')) else None)"

definition validateBoundFirewallPort :: "string \<Rightarrow> int \<Rightarrow> int \<Rightarrow> error option" where
  "validateBoundFirewallPort backend bound got =
     (case validateFirewallPort bound backend of Some err \<Rightarrow> Some err
      | None \<Rightarrow> if got \<noteq> bound
          then Some (Errorf (''firewall backend '' @ backend @ '' is bound to protected port '' @ Itoa bound @ '', got '' @ Itoa got)) else None)"

definition isSafeNftablesTable :: "string \<Rightarrow> bool" where
  "isSafeNftablesTable table \<longleftrightarrow>
     table \<notin> {''filter'', ''nat'', ''mangle'', ''raw'', ''security''} \<and>
     (table = ''knock_gateway'' \<or> table = ''knock_proxy'' \<or> str_prefix ''libknock_'' table \<or>
      str_prefix ''knock_gateway_'' table \<or> str_prefix ''knock_proxy_'' table)"

definition validateNftablesConfig :: "NftablesConfig \<Rightarrow> error option" where
  "validateNftablesConfig cfg =
     (if nf_Family cfg \<noteq> [] \<and> nf_Family cfg \<noteq> ''inet'' then Some (Errorf ''only nftables family inet is supported'')
      else if nf_Table cfg \<noteq> [] \<and> \<not> isSafeNftablesTable (nf_Table cfg) then Some (Errorf ''unsafe nftables table'')
      else if list_ex (\<lambda>v. v \<noteq> [] \<and> \<not> nftIdentifierRE v) [nf_Table cfg, nf_Chain cfg, nf_SetV4 cfg, nf_SetV6 cfg]
      then Some (Errorf ''invalid nftables identifier'')
      else None)"

definition isReservedIptablesChain :: "string \<Rightarrow> bool" where
  "isReservedIptablesChain chain \<longleftrightarrow> map ascii_upper chain \<in>
     {''INPUT'', ''OUTPUT'', ''FORWARD'', ''PREROUTING'', ''POSTROUTING'', ''ACCEPT'', ''DROP'', ''REJECT'', ''RETURN'', ''QUEUE'', ''LOG''}"

definition validateFirewallObjectName :: "string \<Rightarrow> error option" where
  "validateFirewallObjectName value' =
     (if str_prefix ''-'' value' \<or> list_ex (\<lambda>c. c \<in> set ('' ;{}'' @ [CHR 0x09, CHR 0x0A, CHR 0x0D])) value' \<or> \<not> fwNameRE value'
      then Some (Errorf ''invalid name'') else None)"

definition validateIptablesConfig :: "string \<Rightarrow> error option" where
  "validateIptablesConfig chain =
     (if chain = [] then None
      else case validateFirewallObjectName chain of Some err \<Rightarrow> Some err
        | None \<Rightarrow> if isReservedIptablesChain chain then Some (Errorf ''unsafe iptables chain'') else None)"

definition validateIPSetIptablesConfig :: "FwConfig \<Rightarrow> error option" where
  "validateIPSetIptablesConfig cfg =
     (case validateIptablesConfig (fc_Iptables_Chain cfg) of Some err \<Rightarrow> Some err
      | None \<Rightarrow> if list_ex (\<lambda>v. v \<noteq> [] \<and> validateFirewallObjectName v \<noteq> None) [ip_Set (fc_IPSet cfg), ip_SetV6 (fc_IPSet cfg)]
                then Some (Errorf ''invalid name'') else None)"

section \<open>Running commands\<close>

definition firewallCommandPath :: "'h fw_env \<Rightarrow> FwConfig \<Rightarrow> string \<Rightarrow> ('h, string option) state" where
  "firewallCommandPath env cfg name =
     (if fc_Runner cfg then do {
        help \<leftarrow> run_command env (Cmd name [''--help'']);
        if help = None then State_Monad.return (Some name)
        else do {
          version \<leftarrow> run_command env (Cmd name [''--version'']);
          State_Monad.return (if version = None then Some name else None) } }
      else State_Monad.return (fe_LookPath env name))"

definition firewallCommandExists :: "'h fw_env \<Rightarrow> FwConfig \<Rightarrow> string \<Rightarrow> ('h, bool) state" where
  "firewallCommandExists env cfg name = do { path \<leftarrow> firewallCommandPath env cfg name; State_Monad.return (path \<noteq> None) }"

definition ipv6Enabled :: "'h fw_env \<Rightarrow> FwConfig \<Rightarrow> string \<Rightarrow> ('h, bool) state" where
  "ipv6Enabled env cfg backend =
     (case fc_EnableIPv6 cfg of Some b \<Rightarrow> State_Monad.return b
      | None \<Rightarrow> if backend = ''nftables'' then State_Monad.return True else firewallCommandExists env cfg ''ip6tables'')"

definition runIptables :: "'h fw_env \<Rightarrow> string \<Rightarrow> string list \<Rightarrow> 'h fw_op" where
  "runIptables env name args = run_command env (Cmd name ([''-w'', ''5''] @ args))"

definition isMissingFirewallObject :: "error \<Rightarrow> bool" where
  "isMissingFirewallObject err \<longleftrightarrow>
     (let s = map ascii_lower (error_text err)
      in if str_contains s ''no chain/target/match by that name'' \<or> str_contains s ''permission denied'' then False
         else list_ex (str_contains s) [''does not exist'', ''no such file or directory'', ''not in the set'', ''not in set'', ''no such table'',
                ''it'' @ [CHR 0x27] @ ''s not added'', ''bad rule (does a matching rule exist''])"

definition ignoreMissingFirewallObject :: "error option \<Rightarrow> error option" where
  "ignoreMissingFirewallObject e = (case e of None \<Rightarrow> None | Some err \<Rightarrow> if isMissingFirewallObject err then None else Some err)"

text \<open>
  \<open>int(ttl.Seconds())\<close> truncates a floating-point number, which is exact for lifetimes below
  48 days.
\<close>

definition ttlSeconds :: "duration \<Rightarrow> int result" where
  "ttlSeconds ttl =
     (if ttl \<le> 0 then Inl (Errorf ''firewall allow ttl must be positive'')
      else let seconds = ttl div second in Inr (if seconds < 1 then 1 else seconds))"

definition errIPv6Unsupported :: "string \<Rightarrow> error" where
  "errIPv6Unsupported backend =
     Errorf (''firewall backend '' @ backend @ '' received an IPv6 client address, but command ip6tables was not found'')"

fun toIP :: "netip_Addr \<Rightarrow> bytes" where
  "toIP AddrZero = []"
| "toIP (Addr4 b) = v4InV6Prefix @ b"
| "toIP (Addr6 b z) = b"

section \<open>Cleanup of iptables rules\<close>

definition maxCleanupDeletes :: nat where "maxCleanupDeletes = 1000"

definition udp_drop_args :: "string \<Rightarrow> string list" where
  "udp_drop_args udpPort = [''-p'', ''udp'', ''--dport'', udpPort, ''-m'', ''comment'', ''--comment'', ''knockgate udp-passive'', ''-j'', ''DROP'']"

text \<open>Deleting until a delete fails, at most so often; the result is the error, unless the rule was missing.\<close>

fun delete_rules :: "'h fw_env \<Rightarrow> string \<Rightarrow> string list \<Rightarrow> nat \<Rightarrow> 'h fw_op" where
  "delete_rules env cmd args 0 = State_Monad.return None"
| "delete_rules env cmd args (Suc n) = do {
     e \<leftarrow> runIptables env cmd args;
     case e of None \<Rightarrow> delete_rules env cmd args n | Some _ \<Rightarrow> State_Monad.return (ignoreMissingFirewallObject e) }"

definition cleanupIptablesRules :: "'h fw_env \<Rightarrow> FwConfig \<Rightarrow> string \<Rightarrow> string \<Rightarrow> string \<Rightarrow> string \<Rightarrow> 'h fw_op" where
  "cleanupIptablesRules env cfg chain cmd tcpPort udpPort = do {
     e1 \<leftarrow> (if fc_DropUDPKnockPort cfg then delete_rules env cmd ([''-D'', ''INPUT''] @ udp_drop_args udpPort) maxCleanupDeletes
           else State_Monad.return None);
     e2 \<leftarrow> delete_rules env cmd [''-D'', ''INPUT'', ''-p'', ''tcp'', ''--dport'', tcpPort, ''-j'', chain] maxCleanupDeletes;
     e3 \<leftarrow> runIptables env cmd [''-F'', chain];
     e4 \<leftarrow> runIptables env cmd [''-X'', chain];
     State_Monad.return (errors_Join (errors_Join (errors_Join e1 e2) (ignoreMissingFirewallObject e3)) (ignoreMissingFirewallObject e4)) }"

section \<open>iptables\<close>

record Iptables =
  ib_cfg :: FwConfig
  ib_chain :: string

definition NewIptables :: "FwConfig \<Rightarrow> Iptables" where
  "NewIptables cfg0 =
     (let cfg = fw_WithDefaults cfg0
      in \<lparr>ib_cfg = cfg, ib_chain = (if fc_Iptables_Chain cfg = [] then ''KNOCK_GATEWAY'' else fc_Iptables_Chain cfg)\<rparr>)"

definition ipt_WithConfig :: "FwConfig \<Rightarrow> Iptables result" where
  "ipt_WithConfig cfg =
     (case validateFirewallPort (fc_Port cfg) ''iptables'' of Some err \<Rightarrow> Inl err
      | None \<Rightarrow> (case validateIptablesConfig (fc_Iptables_Chain cfg) of Some err \<Rightarrow> Inl err | None \<Rightarrow> Inr (NewIptables cfg)))"

definition ipt_cleanupCommand :: "'h fw_env \<Rightarrow> Iptables \<Rightarrow> string \<Rightarrow> 'h fw_op" where
  "ipt_cleanupCommand env i cmd =
     cleanupIptablesRules env (ib_cfg i) (ib_chain i) cmd (Itoa (fc_Port (ib_cfg i))) (Itoa (udpKnockPort (ib_cfg i)))"

definition ipt_Cleanup :: "'h fw_env \<Rightarrow> Iptables \<Rightarrow> 'h fw_op" where
  "ipt_Cleanup env i =
     (case validateIptablesConfig (ib_chain i) of Some err \<Rightarrow> State_Monad.return (Some err) | None \<Rightarrow> do {
        e \<leftarrow> ipt_cleanupCommand env i ''iptables'';
        v6 \<leftarrow> ipv6Enabled env (ib_cfg i) ''iptables'';
        if v6 then do { e6 \<leftarrow> ipt_cleanupCommand env i ''ip6tables''; State_Monad.return (errors_Join e e6) }
        else State_Monad.return e })"

text \<open>A rule is inserted unless a check finds it.\<close>

definition insert_rule :: "'h fw_env \<Rightarrow> string \<Rightarrow> string \<Rightarrow> string list \<Rightarrow> 'h fw_op" where
  "insert_rule env cmd chain args = do {
     e \<leftarrow> runIptables env cmd ([''-C'', chain] @ args);
     if e = None then State_Monad.return None else runIptables env cmd ([''-I'', chain, ''1''] @ args) }"

text \<open>The hooks of the protected port and of the UDP knock port into \<open>INPUT\<close>, and the rules both backends start their chain with.\<close>

definition init_hooks :: "'h fw_env \<Rightarrow> FwConfig \<Rightarrow> string \<Rightarrow> string \<Rightarrow> string \<Rightarrow> string \<Rightarrow> 'h fw_op \<Rightarrow> 'h fw_op" where
  "init_hooks env cfg chain cmd port udpPort k = do {
     _ \<leftarrow> runIptables env cmd [''-N'', chain];
     _ \<leftarrow> runIptables env cmd [''-F'', chain];
     fw_then (insert_rule env cmd ''INPUT'' [''-p'', ''tcp'', ''--dport'', port, ''-j'', chain])
     (fw_then (if fc_DropUDPKnockPort cfg then insert_rule env cmd ''INPUT'' (udp_drop_args udpPort) else State_Monad.return None)
     (fw_then (runIptables env cmd [''-A'', chain, ''-m'', ''conntrack'', ''--ctstate'', ''ESTABLISHED,RELATED'', ''-j'', ''ACCEPT''])
     k)) }"

definition ipt_initCommand :: "'h fw_env \<Rightarrow> Iptables \<Rightarrow> string \<Rightarrow> 'h fw_op" where
  "ipt_initCommand env i cmd =
     (let port = Itoa (fc_Port (ib_cfg i))
      in init_hooks env (ib_cfg i) (ib_chain i) cmd port (Itoa (udpKnockPort (ib_cfg i)))
           (runIptables env cmd [''-A'', ib_chain i, ''-p'', ''tcp'', ''--dport'', port, ''-j'', ''DROP'']))"

text \<open>Failing with a rollback: \<open>errors.Join(err, cleanupDetached())\<close>.\<close>

definition or_rollback :: "'h fw_op \<Rightarrow> 'h fw_op \<Rightarrow> 'h fw_op \<Rightarrow> 'h fw_op" where
  "or_rollback cleanup m k = do {
     e \<leftarrow> m;
     if e = None then k
     else do { c \<leftarrow> cleanup; State_Monad.return (errors_Join e c) } }"

definition ipt_Init :: "'h fw_env \<Rightarrow> Iptables \<Rightarrow> 'h fw_op" where
  "ipt_Init env i =
     (case validateIptablesConfig (ib_chain i) of Some err \<Rightarrow> State_Monad.return (Some err) | None \<Rightarrow>
        fw_then (ipt_cleanupCommand env i ''iptables'')
        (or_rollback (ipt_Cleanup env i) (ipt_initCommand env i ''iptables'') (do {
           v6 \<leftarrow> ipv6Enabled env (ib_cfg i) ''iptables'';
           if v6 then
             or_rollback (ipt_Cleanup env i) (ipt_cleanupCommand env i ''ip6tables'')
             (or_rollback (ipt_Cleanup env i) (ipt_initCommand env i ''ip6tables'') (State_Monad.return None))
           else State_Monad.return None })))"

definition accept_args :: "netip_Addr \<Rightarrow> int \<Rightarrow> string list" where
  "accept_args addr port = [''-s'', addr_string addr, ''-p'', ''tcp'', ''--dport'', Itoa port, ''-j'', ''ACCEPT'']"

text \<open>The command for the address family, or what the operation returns when IPv6 is off.\<close>

definition ipt_family :: "'h fw_env \<Rightarrow> Iptables \<Rightarrow> netip_Addr \<Rightarrow> 'a \<Rightarrow> (string \<Rightarrow> ('h, 'a) state) \<Rightarrow> ('h, 'a) state" where
  "ipt_family env i addr off k =
     (if To4 (toIP addr) = None then do {
        v6 \<leftarrow> ipv6Enabled env (ib_cfg i) ''iptables'';
        if \<not> v6 then State_Monad.return off else k ''ip6tables'' }
      else k ''iptables'')"

definition ipt_Allow :: "'h fw_env \<Rightarrow> Iptables \<Rightarrow> netip_Addr \<Rightarrow> int \<Rightarrow> duration \<Rightarrow> 'h fw_op" where
  "ipt_Allow env i addr port ttl =
     (case validateBoundFirewallPort ''iptables'' (fc_Port (ib_cfg i)) port of Some err \<Rightarrow> State_Monad.return (Some err) | None \<Rightarrow>
        ipt_family env i addr (Some (errIPv6Unsupported ''iptables'')) (\<lambda>cmd. insert_rule env cmd (ib_chain i) (accept_args addr port)))"

definition checked :: "'h fw_op \<Rightarrow> ('h, bool result) state" where
  "checked m = do {
     e \<leftarrow> m;
     State_Monad.return (case e of None \<Rightarrow> Inr True | Some err \<Rightarrow> if isMissingFirewallObject err then Inr False else Inl err) }"

definition ipt_IsAllowed :: "'h fw_env \<Rightarrow> Iptables \<Rightarrow> netip_Addr \<Rightarrow> int \<Rightarrow> ('h, bool result) state" where
  "ipt_IsAllowed env i addr port =
     (case validateBoundFirewallPort ''iptables'' (fc_Port (ib_cfg i)) port of Some err \<Rightarrow> State_Monad.return (Inl err) | None \<Rightarrow>
        ipt_family env i addr (Inr False) (\<lambda>cmd. checked (runIptables env cmd ([''-C'', ib_chain i] @ accept_args addr port))))"

definition ignoring_missing :: "'h fw_op \<Rightarrow> 'h fw_op" where
  "ignoring_missing m = do { e \<leftarrow> m; State_Monad.return (ignoreMissingFirewallObject e) }"

definition ipt_Revoke :: "'h fw_env \<Rightarrow> Iptables \<Rightarrow> netip_Addr \<Rightarrow> int \<Rightarrow> 'h fw_op" where
  "ipt_Revoke env i addr port =
     (case validateBoundFirewallPort ''iptables'' (fc_Port (ib_cfg i)) port of Some err \<Rightarrow> State_Monad.return (Some err) | None \<Rightarrow>
        ipt_family env i addr None (\<lambda>cmd. ignoring_missing (runIptables env cmd ([''-D'', ib_chain i] @ accept_args addr port))))"

section \<open>ipset with iptables\<close>

record IPSetIptables =
  ii_cfg :: FwConfig
  ii_set :: string
  ii_setV6 :: string
  ii_chain :: string

definition NewIPSetIptables :: "FwConfig \<Rightarrow> IPSetIptables" where
  "NewIPSetIptables cfg0 =
     (let cfg = fw_WithDefaults cfg0
      in \<lparr>ii_cfg = cfg,
          ii_set = (if ip_Set (fc_IPSet cfg) = [] then ''knock_gateway_allowed'' else ip_Set (fc_IPSet cfg)),
          ii_setV6 = (if ip_SetV6 (fc_IPSet cfg) = [] then ''knock_gateway_allowed_v6'' else ip_SetV6 (fc_IPSet cfg)),
          ii_chain = (if fc_Iptables_Chain cfg = [] then ''KNOCK_GATEWAY'' else fc_Iptables_Chain cfg)\<rparr>)"

definition ips_WithConfig :: "FwConfig \<Rightarrow> IPSetIptables result" where
  "ips_WithConfig cfg =
     (case validateFirewallPort (fc_Port cfg) ''ipset-iptables'' of Some err \<Rightarrow> Inl err
      | None \<Rightarrow> (case validateIPSetIptablesConfig cfg of Some err \<Rightarrow> Inl err | None \<Rightarrow> Inr (NewIPSetIptables cfg)))"

definition ips_cleanupCommand :: "'h fw_env \<Rightarrow> IPSetIptables \<Rightarrow> string \<Rightarrow> 'h fw_op" where
  "ips_cleanupCommand env i cmd =
     cleanupIptablesRules env (ii_cfg i) (ii_chain i) cmd (Itoa (fc_Port (ii_cfg i))) (Itoa (udpKnockPort (ii_cfg i)))"

definition ipset :: "'h fw_env \<Rightarrow> string list \<Rightarrow> 'h fw_op" where
  "ipset env args = run_command env (Cmd ''ipset'' args)"

definition ips_Cleanup :: "'h fw_env \<Rightarrow> IPSetIptables \<Rightarrow> 'h fw_op" where
  "ips_Cleanup env i =
     (case validateIptablesConfig (ii_chain i) of Some err \<Rightarrow> State_Monad.return (Some err) | None \<Rightarrow> do {
        e \<leftarrow> ips_cleanupCommand env i ''iptables'';
        v6 \<leftarrow> ipv6Enabled env (ii_cfg i) ''ipset-iptables'';
        e \<leftarrow> (if v6 then do {
                e1 \<leftarrow> ips_cleanupCommand env i ''ip6tables'';
                e2 \<leftarrow> ignoring_missing (ipset env [''flush'', ii_setV6 i]);
                e3 \<leftarrow> ignoring_missing (ipset env [''destroy'', ii_setV6 i]);
                State_Monad.return (errors_Join (errors_Join (errors_Join e e1) e2) e3) }
              else State_Monad.return e);
        f1 \<leftarrow> ignoring_missing (ipset env [''flush'', ii_set i]);
        f2 \<leftarrow> ignoring_missing (ipset env [''destroy'', ii_set i]);
        State_Monad.return (errors_Join (errors_Join e f1) f2) })"

definition ips_initCommand :: "'h fw_env \<Rightarrow> IPSetIptables \<Rightarrow> string \<Rightarrow> string \<Rightarrow> 'h fw_op" where
  "ips_initCommand env i cmd set' =
     (let port = Itoa (fc_Port (ii_cfg i))
      in init_hooks env (ii_cfg i) (ii_chain i) cmd port (Itoa (udpKnockPort (ii_cfg i)))
           (fw_then (runIptables env cmd [''-A'', ii_chain i, ''-m'', ''set'', ''--match-set'', set', ''src'', ''-j'', ''ACCEPT''])
              (runIptables env cmd [''-A'', ii_chain i, ''-p'', ''tcp'', ''--dport'', port, ''-j'', ''DROP''])))"

definition ips_Init :: "'h fw_env \<Rightarrow> IPSetIptables \<Rightarrow> 'h fw_op" where
  "ips_Init env i =
     (case validateIptablesConfig (ii_chain i) of Some err \<Rightarrow> State_Monad.return (Some err) | None \<Rightarrow>
        let secs = Itoa (fc_AllowSeconds (ii_cfg i)); undo = or_rollback (ips_Cleanup env i)
        in fw_then (ipset env [''create'', ii_set i, ''hash:ip'', ''timeout'', secs, ''-exist''])
           (undo (ignoring_missing (ipset env [''flush'', ii_set i]))
           (undo (ips_cleanupCommand env i ''iptables'')
           (undo (ips_initCommand env i ''iptables'' (ii_set i)) (do {
              v6 \<leftarrow> ipv6Enabled env (ii_cfg i) ''ipset-iptables'';
              if v6 then
                undo (ipset env [''create'', ii_setV6 i, ''hash:ip'', ''family'', ''inet6'', ''timeout'', secs, ''-exist''])
                (undo (ignoring_missing (ipset env [''flush'', ii_setV6 i]))
                (undo (ips_cleanupCommand env i ''ip6tables'')
                (undo (ips_initCommand env i ''ip6tables'' (ii_setV6 i)) (State_Monad.return None))))
              else State_Monad.return None })))))"

definition ips_family :: "'h fw_env \<Rightarrow> IPSetIptables \<Rightarrow> netip_Addr \<Rightarrow> 'a \<Rightarrow> (string \<Rightarrow> ('h, 'a) state) \<Rightarrow> ('h, 'a) state" where
  "ips_family env i addr off k =
     (if To4 (toIP addr) = None then do {
        v6 \<leftarrow> ipv6Enabled env (ii_cfg i) ''ipset-iptables'';
        if \<not> v6 then State_Monad.return off else k (ii_setV6 i) }
      else k (ii_set i))"

definition ips_Allow :: "'h fw_env \<Rightarrow> IPSetIptables \<Rightarrow> netip_Addr \<Rightarrow> int \<Rightarrow> duration \<Rightarrow> 'h fw_op" where
  "ips_Allow env i addr port ttl =
     (case validateBoundFirewallPort ''ipset-iptables'' (fc_Port (ii_cfg i)) port of Some err \<Rightarrow> State_Monad.return (Some err) | None \<Rightarrow>
      (case ttlSeconds ttl of Inl err \<Rightarrow> State_Monad.return (Some err) | Inr seconds \<Rightarrow>
        ips_family env i addr (Some (errIPv6Unsupported ''ipset-iptables''))
          (\<lambda>set'. ipset env [''add'', set', addr_string addr, ''timeout'', Itoa seconds, ''-exist''])))"

definition ips_IsAllowed :: "'h fw_env \<Rightarrow> IPSetIptables \<Rightarrow> netip_Addr \<Rightarrow> int \<Rightarrow> ('h, bool result) state" where
  "ips_IsAllowed env i addr port =
     (case validateBoundFirewallPort ''ipset-iptables'' (fc_Port (ii_cfg i)) port of Some err \<Rightarrow> State_Monad.return (Inl err) | None \<Rightarrow>
        ips_family env i addr (Inr False) (\<lambda>set'. checked (ipset env [''test'', set', addr_string addr])))"

definition ips_Revoke :: "'h fw_env \<Rightarrow> IPSetIptables \<Rightarrow> netip_Addr \<Rightarrow> int \<Rightarrow> 'h fw_op" where
  "ips_Revoke env i addr port =
     (case validateBoundFirewallPort ''ipset-iptables'' (fc_Port (ii_cfg i)) port of Some err \<Rightarrow> State_Monad.return (Some err) | None \<Rightarrow>
        ips_family env i addr None (\<lambda>set'. ignoring_missing (ipset env [''del'', set', addr_string addr])))"

section \<open>nftables\<close>

record Nftables =
  nb_name :: string
  nb_cfg :: FwConfig
  nb_family :: string
  nb_table :: string
  nb_chain :: string
  nb_setV4 :: string
  nb_setV6 :: string

definition or_default :: "string \<Rightarrow> string \<Rightarrow> string" where
  "or_default v d = (if v = [] then d else v)"

definition NewNftables :: "FwConfig \<Rightarrow> string \<Rightarrow> Nftables" where
  "NewNftables cfg0 name =
     (let cfg = fw_WithDefaults cfg0; n = fc_Nftables cfg
      in \<lparr>nb_name = name, nb_cfg = cfg, nb_family = or_default (nf_Family n) ''inet'', nb_table = or_default (nf_Table n) ''knock_gateway'',
          nb_chain = or_default (nf_Chain n) ''input'', nb_setV4 = or_default (nf_SetV4 n) ''allowed_clients_v4'',
          nb_setV6 = or_default (nf_SetV6 n) ''allowed_clients_v6''\<rparr>)"

definition nft_Name :: "Nftables \<Rightarrow> string" where
  "nft_Name n = or_default (nb_name n) ''nftables''"

definition nft_WithConfig :: "Nftables \<Rightarrow> FwConfig \<Rightarrow> Nftables result" where
  "nft_WithConfig n cfg =
     (case validateFirewallPort (fc_Port cfg) (nft_Name n) of Some err \<Rightarrow> Inl err
      | None \<Rightarrow> (case validateNftablesConfig (fc_Nftables cfg) of Some err \<Rightarrow> Inl err | None \<Rightarrow> Inr (NewNftables cfg (nb_name n))))"

definition nl :: string where "nl = [CHR 0x0A]"

definition nft :: "'h fw_env \<Rightarrow> string \<Rightarrow> 'h fw_op" where
  "nft env script = run_command env (CmdInput script ''nft'' [''-f'', ''-''])"

definition nft_delete_table :: "Nftables \<Rightarrow> string" where
  "nft_delete_table n = ''delete table '' @ nb_family n @ '' '' @ nb_table n @ nl"

definition nft_Cleanup :: "'h fw_env \<Rightarrow> Nftables \<Rightarrow> 'h fw_op" where
  "nft_Cleanup env n =
     (case validateNftablesConfig (fc_Nftables (nb_cfg n)) of Some err \<Rightarrow> State_Monad.return (Some err)
      | None \<Rightarrow> ignoring_missing (nft env (nft_delete_table n)))"

definition nft_createScript :: "Nftables \<Rightarrow> bool \<Rightarrow> string" where
  "nft_createScript n ipv6 =
     (let cfg = nb_cfg n; port = Itoa (fc_Port cfg); secs = Itoa (fc_AllowSeconds cfg);
          udpDropRule = (if fc_DropUDPKnockPort cfg then ''    udp dport '' @ Itoa (udpKnockPort cfg) @ '' drop'' @ nl else []);
          setV6 = (if ipv6 then nl @ ''  set '' @ nb_setV6 n @ '' {'' @ nl @ ''    type ipv6_addr'' @ nl @ ''    timeout '' @ secs @ ''s'' @ nl @ ''  }'' @ nl else []);
          ruleV6 = (if ipv6 then ''    ip6 saddr @'' @ nb_setV6 n @ '' tcp dport '' @ port @ '' accept'' @ nl else [])
      in ''table '' @ nb_family n @ '' '' @ nb_table n @ '' {'' @ nl @
         ''  set '' @ nb_setV4 n @ '' {'' @ nl @ ''    type ipv4_addr'' @ nl @ ''    timeout '' @ secs @ ''s'' @ nl @ ''  }'' @ nl @
         setV6 @ nl @ nl @
         ''  chain '' @ nb_chain n @ '' {'' @ nl @
         ''    type filter hook input priority -10; policy accept;'' @ nl @
         ''    ct state established,related accept'' @ nl @
         ''    ip saddr @'' @ nb_setV4 n @ '' tcp dport '' @ port @ '' accept'' @ nl @
         ruleV6 @ nl @
         ''    tcp dport '' @ port @ '' drop'' @ nl @
         udpDropRule @ nl @
         ''  }'' @ nl @ ''}'' @ nl)"

definition nft_Init :: "'h fw_env \<Rightarrow> Nftables \<Rightarrow> 'h fw_op" where
  "nft_Init env n =
     (case validateNftablesConfig (fc_Nftables (nb_cfg n)) of Some err \<Rightarrow> State_Monad.return (Some err) | None \<Rightarrow> do {
        ipv6 \<leftarrow> ipv6Enabled env (nb_cfg n) (nft_Name n);
        fw_then (nft_Cleanup env n)
        (or_rollback (nft_Cleanup env n) (nft env (nft_createScript n ipv6)) (State_Monad.return None)) })"

definition element_of :: "Nftables \<Rightarrow> string \<Rightarrow> string" where
  "element_of n set' = ''element '' @ nb_family n @ '' '' @ nb_table n @ '' '' @ set' @ '' { ''"

definition nftRenewElementInput :: "Nftables \<Rightarrow> string \<Rightarrow> string \<Rightarrow> int \<Rightarrow> string" where
  "nftRenewElementInput n set' elem seconds =
     ''add '' @ element_of n set' @ elem @ '' timeout '' @ Itoa seconds @ ''s }'' @ nl @
     ''delete '' @ element_of n set' @ elem @ '' }'' @ nl @
     ''add '' @ element_of n set' @ elem @ '' timeout '' @ Itoa seconds @ ''s }'' @ nl"

text \<open>The set and the text of an address; without an address or with IPv6 off, what the operation returns then.\<close>

definition nft_family :: "'h fw_env \<Rightarrow> Nftables \<Rightarrow> netip_Addr \<Rightarrow> 'a \<Rightarrow> 'a \<Rightarrow> (string \<Rightarrow> string \<Rightarrow> ('h, 'a) state) \<Rightarrow> ('h, 'a) state" where
  "nft_family env n addr invalid off k =
     (case To4 (toIP addr) of
        Some v4 \<Rightarrow> k (nb_setV4 n) (v4_string v4)
      | None \<Rightarrow>
          if To16 (toIP addr) = None then State_Monad.return invalid
          else do {
            v6 \<leftarrow> ipv6Enabled env (nb_cfg n) (nft_Name n);
            if \<not> v6 then State_Monad.return off else k (nb_setV6 n) (addr_string addr) })"

definition nft_Allow :: "'h fw_env \<Rightarrow> Nftables \<Rightarrow> netip_Addr \<Rightarrow> int \<Rightarrow> duration \<Rightarrow> 'h fw_op" where
  "nft_Allow env n addr port ttl =
     (case validateBoundFirewallPort (nft_Name n) (fc_Port (nb_cfg n)) port of Some err \<Rightarrow> State_Monad.return (Some err) | None \<Rightarrow>
      if ttl \<le> 0 then State_Monad.return (Some (Errorf ''nftables allow ttl must be greater than zero''))
      else case ttlSeconds ttl of Inl err \<Rightarrow> State_Monad.return (Some err) | Inr seconds \<Rightarrow>
        nft_family env n addr (Some (Errorf (''invalid IP address '' @ addr_string addr))) (Some (errIPv6Unsupported (nft_Name n)))
          (\<lambda>set' text. nft env (nftRenewElementInput n set' text seconds)))"

definition nft_IsAllowed :: "'h fw_env \<Rightarrow> Nftables \<Rightarrow> netip_Addr \<Rightarrow> int \<Rightarrow> ('h, bool result) state" where
  "nft_IsAllowed env n addr port =
     (case validateBoundFirewallPort (nft_Name n) (fc_Port (nb_cfg n)) port of Some err \<Rightarrow> State_Monad.return (Inl err) | None \<Rightarrow>
        nft_family env n addr (Inl (Errorf (''invalid IP address '' @ addr_string addr))) (Inr False)
          (\<lambda>set' text. checked (run_command env (Cmd ''nft'' [''get'', ''element'', nb_family n, nb_table n, set', ''{'', text, ''}'']))))"

definition nft_Revoke :: "'h fw_env \<Rightarrow> Nftables \<Rightarrow> netip_Addr \<Rightarrow> int \<Rightarrow> 'h fw_op" where
  "nft_Revoke env n addr port =
     (case validateBoundFirewallPort (nft_Name n) (fc_Port (nb_cfg n)) port of Some err \<Rightarrow> State_Monad.return (Some err) | None \<Rightarrow>
        nft_family env n addr None None
          (\<lambda>set' text. ignoring_missing (nft env (''delete '' @ element_of n set' @ text @ '' }'' @ nl))))"

section \<open>Scripts\<close>

definition script_missing :: "ScriptConfig \<Rightarrow> bool" where
  "script_missing s \<longleftrightarrow> sc_AllowCmd s = [] \<or> sc_RevokeCmd s = [] \<or> sc_CleanupCmd s = []"

fun commands_exist :: "'h fw_env \<Rightarrow> FwConfig \<Rightarrow> string list \<Rightarrow> 'h fw_op" where
  "commands_exist env cfg [] = State_Monad.return None"
| "commands_exist env cfg (cmd # cmds) = do {
     ok \<leftarrow> firewallCommandExists env cfg cmd;
     if \<not> ok then State_Monad.return (Some (Errorf (''firewall backend script command '' @ cmd @ '' was not found'')))
     else commands_exist env cfg cmds }"

definition script_Validate :: "'h fw_env \<Rightarrow> FwConfig \<Rightarrow> 'h fw_op" where
  "script_Validate env cfg =
     (let s = fc_Script cfg
      in if script_missing s then State_Monad.return (Some (Errorf ''firewall backend script requires allow_cmd, revoke_cmd, and cleanup_cmd''))
         else if fc_Runner cfg then State_Monad.return None
         else commands_exist env cfg [sc_AllowCmd s, sc_RevokeCmd s, sc_CleanupCmd s])"

definition script_WithConfig :: "FwConfig \<Rightarrow> FwConfig result" where
  "script_WithConfig cfg = (case validateFirewallPort (fc_Port cfg) ''script'' of Some err \<Rightarrow> Inl err | None \<Rightarrow> Inr cfg)"

definition script_Allow :: "'h fw_env \<Rightarrow> FwConfig \<Rightarrow> netip_Addr \<Rightarrow> int \<Rightarrow> duration \<Rightarrow> 'h fw_op" where
  "script_Allow env cfg addr port ttl =
     (case validateBoundFirewallPort ''script'' (fc_Port cfg) port of Some err \<Rightarrow> State_Monad.return (Some err) | None \<Rightarrow>
      (case ttlSeconds ttl of Inl err \<Rightarrow> State_Monad.return (Some err) | Inr seconds \<Rightarrow>
        run_command env (Cmd (sc_AllowCmd (fc_Script cfg)) [addr_string addr, Itoa port, Itoa seconds])))"

definition script_Revoke :: "'h fw_env \<Rightarrow> FwConfig \<Rightarrow> netip_Addr \<Rightarrow> int \<Rightarrow> 'h fw_op" where
  "script_Revoke env cfg addr port =
     (case validateBoundFirewallPort ''script'' (fc_Port cfg) port of Some err \<Rightarrow> State_Monad.return (Some err) | None \<Rightarrow>
        run_command env (Cmd (sc_RevokeCmd (fc_Script cfg)) [addr_string addr, Itoa port]))"

definition script_Cleanup :: "'h fw_env \<Rightarrow> FwConfig \<Rightarrow> 'h fw_op" where
  "script_Cleanup env cfg = run_command env (Cmd (sc_CleanupCmd (fc_Script cfg)) [Itoa (fc_Port cfg)])"

section \<open>Backends\<close>

datatype Backend = Noop | NftablesB Nftables | IPSetB IPSetIptables | IptablesB Iptables | ScriptB FwConfig

fun backend_Name :: "Backend \<Rightarrow> string" where
  "backend_Name Noop = ''noop''"
| "backend_Name (NftablesB n) = nft_Name n"
| "backend_Name (IPSetB i) = ''ipset-iptables''"
| "backend_Name (IptablesB i) = ''iptables''"
| "backend_Name (ScriptB c) = ''script''"

fun backend_Config :: "Backend \<Rightarrow> FwConfig option" where
  "backend_Config Noop = None"
| "backend_Config (NftablesB n) = Some (nb_cfg n)"
| "backend_Config (IPSetB i) = Some (ii_cfg i)"
| "backend_Config (IptablesB i) = Some (ib_cfg i)"
| "backend_Config (ScriptB c) = Some c"

fun backend_Init :: "'h fw_env \<Rightarrow> Backend \<Rightarrow> 'h fw_op" where
  "backend_Init env Noop = State_Monad.return None"
| "backend_Init env (NftablesB n) = nft_Init env n"
| "backend_Init env (IPSetB i) = ips_Init env i"
| "backend_Init env (IptablesB i) = ipt_Init env i"
| "backend_Init env (ScriptB c) = script_Validate env c"

fun backend_Allow :: "'h fw_env \<Rightarrow> Backend \<Rightarrow> netip_Addr \<Rightarrow> int \<Rightarrow> duration \<Rightarrow> 'h fw_op" where
  "backend_Allow env Noop addr port ttl = State_Monad.return None"
| "backend_Allow env (NftablesB n) addr port ttl = nft_Allow env n addr port ttl"
| "backend_Allow env (IPSetB i) addr port ttl = ips_Allow env i addr port ttl"
| "backend_Allow env (IptablesB i) addr port ttl = ipt_Allow env i addr port ttl"
| "backend_Allow env (ScriptB c) addr port ttl = script_Allow env c addr port ttl"

fun backend_Revoke :: "'h fw_env \<Rightarrow> Backend \<Rightarrow> netip_Addr \<Rightarrow> int \<Rightarrow> 'h fw_op" where
  "backend_Revoke env Noop addr port = State_Monad.return None"
| "backend_Revoke env (NftablesB n) addr port = nft_Revoke env n addr port"
| "backend_Revoke env (IPSetB i) addr port = ips_Revoke env i addr port"
| "backend_Revoke env (IptablesB i) addr port = ipt_Revoke env i addr port"
| "backend_Revoke env (ScriptB c) addr port = script_Revoke env c addr port"

fun backend_Cleanup :: "'h fw_env \<Rightarrow> Backend \<Rightarrow> 'h fw_op" where
  "backend_Cleanup env Noop = State_Monad.return None"
| "backend_Cleanup env (NftablesB n) = nft_Cleanup env n"
| "backend_Cleanup env (IPSetB i) = ips_Cleanup env i"
| "backend_Cleanup env (IptablesB i) = ipt_Cleanup env i"
| "backend_Cleanup env (ScriptB c) = script_Cleanup env c"

definition WithPort :: "Backend option \<Rightarrow> int \<Rightarrow> Backend result" where
  "WithPort b port =
     (case b of
        None \<Rightarrow> Inl (Errorf ''firewall backend is nil'')
      | Some Noop \<Rightarrow> Inr Noop
      | Some b \<Rightarrow> (case validateFirewallPort port (backend_Name b) of Some err \<Rightarrow> Inl err | None \<Rightarrow>
          (case b of
             NftablesB n \<Rightarrow> rbind (nft_WithConfig n ((nb_cfg n)\<lparr>fc_Port := port\<rparr>)) (\<lambda>n. Inr (NftablesB n))
           | IPSetB i \<Rightarrow> rbind (ips_WithConfig ((ii_cfg i)\<lparr>fc_Port := port\<rparr>)) (\<lambda>i. Inr (IPSetB i))
           | IptablesB i \<Rightarrow> rbind (ipt_WithConfig ((ib_cfg i)\<lparr>fc_Port := port\<rparr>)) (\<lambda>i. Inr (IptablesB i))
           | ScriptB c \<Rightarrow> rbind (script_WithConfig (c\<lparr>fc_Port := port\<rparr>)) (\<lambda>c. Inr (ScriptB c))
           | Noop \<Rightarrow> Inr Noop)))"

definition Detect :: "'h fw_env \<Rightarrow> FwConfig \<Rightarrow> ('h, string result) state" where
  "Detect env cfg =
     (if fe_GOOS env \<noteq> ''linux'' then
        State_Monad.return (if sc_AllowCmd (fc_Script cfg) \<noteq> [] then Inr ''script''
          else Inl (Errorf ''firewall backend auto is only supported on linux unless script backend is configured''))
      else do {
        nft \<leftarrow> firewallCommandExists env cfg ''nft'';
        if nft then State_Monad.return (Inr ''nftables'')
        else do {
          ipset \<leftarrow> firewallCommandExists env cfg ''ipset'';
          both \<leftarrow> (if ipset then firewallCommandExists env cfg ''iptables'' else State_Monad.return False);
          if both then State_Monad.return (Inr ''ipset-iptables'')
          else do {
            iptables \<leftarrow> firewallCommandExists env cfg ''iptables'';
            State_Monad.return
              (if iptables then Inr ''iptables''
               else if sc_AllowCmd (fc_Script cfg) \<noteq> [] then Inr ''script''
               else Inl (Errorf ''no usable firewall backend was detected'')) } } })"

definition iptablesMissingError :: error where
  "iptablesMissingError = Errorf ''firewall backend iptables selected, but command iptables was not found''"

definition new_named :: "'h fw_env \<Rightarrow> FwConfig \<Rightarrow> string \<Rightarrow> ('h, Backend result) state" where
  "new_named env cfg name =
     (if name = ''noop'' then State_Monad.return (Inr Noop)
      else if name = ''nftables'' then
        (case validateFirewallPort (fc_Port cfg) name of Some err \<Rightarrow> State_Monad.return (Inl err) | None \<Rightarrow>
        (case validateNftablesConfig (fc_Nftables cfg) of Some err \<Rightarrow> State_Monad.return (Inl err) | None \<Rightarrow> do {
           nft \<leftarrow> firewallCommandExists env cfg ''nft'';
           State_Monad.return (if \<not> nft then Inl (Errorf ''firewall backend nftables selected, but command nft was not found'')
                               else Inr (NftablesB (NewNftables cfg name))) }))
      else if name = ''ipset-iptables'' then
        (case validateFirewallPort (fc_Port cfg) name of Some err \<Rightarrow> State_Monad.return (Inl err) | None \<Rightarrow>
        (case validateIPSetIptablesConfig cfg of Some err \<Rightarrow> State_Monad.return (Inl err) | None \<Rightarrow> do {
           ipset \<leftarrow> firewallCommandExists env cfg ''ipset'';
           if \<not> ipset then State_Monad.return (Inl (Errorf ''firewall backend ipset-iptables selected, but command ipset was not found''))
           else do {
             ipt \<leftarrow> firewallCommandExists env cfg ''iptables'';
             State_Monad.return (if \<not> ipt then Inl iptablesMissingError else Inr (IPSetB (NewIPSetIptables cfg))) } }))
      else if name = ''iptables'' then
        (case validateFirewallPort (fc_Port cfg) name of Some err \<Rightarrow> State_Monad.return (Inl err) | None \<Rightarrow>
        (case validateIptablesConfig (fc_Iptables_Chain cfg) of Some err \<Rightarrow> State_Monad.return (Inl err) | None \<Rightarrow> do {
           ipt \<leftarrow> firewallCommandExists env cfg ''iptables'';
           State_Monad.return (if \<not> ipt then Inl iptablesMissingError else Inr (IptablesB (NewIptables cfg))) }))
      else if name = ''script'' then
        State_Monad.return
          (case validateFirewallPort (fc_Port cfg) name of Some err \<Rightarrow> Inl err | None \<Rightarrow>
             if script_missing (fc_Script cfg) then Inl (Errorf ''firewall backend script requires allow_cmd, revoke_cmd, and cleanup_cmd'')
             else if fc_DropUDPKnockPort cfg then Inl (Errorf ''firewall backend script cannot manage drop_udp_knock_port'')
             else Inr (ScriptB cfg))
      else State_Monad.return (Inl (Errorf (''unknown firewall backend '' @ name))))"

definition fw_New :: "'h fw_env \<Rightarrow> FwConfig \<Rightarrow> ('h, Backend result) state" where
  "fw_New env cfg0 =
     (let cfg = fw_WithDefaults cfg0;
          name = or_default (fc_Backend cfg) ''auto''
      in if name = ''auto'' then do {
           d \<leftarrow> Detect env cfg;
           case d of Inl err \<Rightarrow> State_Monad.return (Inl err) | Inr detected \<Rightarrow> new_named env cfg detected }
         else new_named env cfg name)"

fun backend_Validate :: "'h fw_env \<Rightarrow> Backend \<Rightarrow> 'h fw_op" where
  "backend_Validate env (ScriptB c) = script_Validate env c"
| "backend_Validate env b = State_Monad.return None"

record Capabilities =
  ca_Backend :: string
  ca_Commands :: "(string \<times> string) list"
  ca_Timeout :: bool
  ca_DropUDP :: bool

definition backendCommands :: "string \<Rightarrow> string list" where
  "backendCommands name =
     (if name = ''nftables'' then [''nft'']
      else if name = ''ipset-iptables'' then [''ipset'', ''iptables'', ''ip6tables'']
      else if name = ''iptables'' then [''iptables'', ''ip6tables''] else [])"

fun command_paths :: "'h fw_env \<Rightarrow> FwConfig \<Rightarrow> string list \<Rightarrow> ('h, (string \<times> string) list) state" where
  "command_paths env cfg [] = State_Monad.return []"
| "command_paths env cfg (cmd # cmds) = do {
     path \<leftarrow> firewallCommandPath env cfg cmd;
     rest \<leftarrow> command_paths env cfg cmds;
     State_Monad.return (case path of None \<Rightarrow> rest | Some p \<Rightarrow> (cmd, p) # rest) }"

definition backend_timeout :: "string \<Rightarrow> bool" where
  "backend_timeout name \<longleftrightarrow> name = ''nftables'' \<or> name = ''ipset-iptables''"

definition DescribeWithConfig :: "'h fw_env \<Rightarrow> string \<Rightarrow> FwConfig \<Rightarrow> ('h, Capabilities) state" where
  "DescribeWithConfig env name cfg = do {
     paths \<leftarrow> command_paths env cfg (backendCommands name);
     State_Monad.return \<lparr>ca_Backend = name, ca_Commands = paths, ca_Timeout = backend_timeout name,
       ca_DropUDP = (backend_timeout name \<or> name = ''iptables'')\<rparr> }"

definition fw_Validate :: "'h fw_env \<Rightarrow> FwConfig \<Rightarrow> ('h, Capabilities result) state" where
  "fw_Validate env cfg0 =
     (let cfg = fw_WithDefaults cfg0
      in do {
        b \<leftarrow> fw_New env cfg;
        case b of Inl err \<Rightarrow> State_Monad.return (Inl err) | Inr b \<Rightarrow> do {
          e \<leftarrow> backend_Validate env b;
          case e of Some err \<Rightarrow> State_Monad.return (Inl err) | None \<Rightarrow> do {
            caps \<leftarrow> DescribeWithConfig env (backend_Name b) cfg;
            State_Monad.return (Inr caps) } } })"

definition Probe :: "'h fw_env \<Rightarrow> FwConfig \<Rightarrow> ('h, error option \<times> Capabilities option) state" where
  "Probe env cfg0 =
     (let cfg = fw_WithDefaults cfg0
      in do {
        b \<leftarrow> fw_New env cfg;
        case b of Inl err \<Rightarrow> State_Monad.return (Some err, None) | Inr b \<Rightarrow> do {
          e \<leftarrow> backend_Validate env b;
          case e of Some err \<Rightarrow> State_Monad.return (Some err, None) | None \<Rightarrow> do {
            caps \<leftarrow> DescribeWithConfig env (backend_Name b) cfg;
            let name = backend_Name b;
            e \<leftarrow> (if name = ''nftables'' then run_command env (Cmd ''nft'' [''list'', ''ruleset''])
                 else if name = ''iptables'' then runIptables env ''iptables'' [''-L'', ''INPUT'', ''-n'']
                 else if name = ''ipset-iptables'' then
                   fw_then (ipset env [''list'', ''-name'']) (runIptables env ''iptables'' [''-L'', ''INPUT'', ''-n''])
                 else State_Monad.return None);
            State_Monad.return (e, Some caps) } } })"

end
