(* ===== verification/Session_Store.thy ===== *)
theory Session_Store
  imports TTL_LRU Auth_Config
begin

text \<open>
  relay/session.go: the store of knock admissions and firewall leases that gate and relay share
  with the authentication server. A knock opens a session for a source address, a client and a
  port; an authenticated connection consumes one use of it. A firewall lease remembers which of
  the timers that will close a port for an address is the current one. Both live in bounded
  caches of \<open>TTL_LRU\<close>. A session is an object the cache points to: consuming a use changes it in
  place, without touching the order of the cache. The clock is an argument.
\<close>

section \<open>Operations\<close>

definition DefaultMaxKnockSessions :: int where "DefaultMaxKnockSessions = 4096"

record session =
  se_remaining :: int
  se_port :: int
  se_sessionID :: bytes

record sessionKey =
  sk_Remote :: netip_Addr
  sk_ClientID :: string
  sk_Port :: u16

record KnockSessionStore =
  ks_sessions :: "(sessionKey, session) TTLLRU"
  ks_firewall :: "(string, u64) TTLLRU"
  ks_nextID :: u64

definition NewKnockSessionStoreWithLimit :: "int \<Rightarrow> KnockSessionStore" where
  "NewKnockSessionStoreWithLimit mx =
     (let mx = (if mx \<le> 0 then DefaultMaxKnockSessions else mx)
      in \<lparr>ks_sessions = NewTTLLRU mx, ks_firewall = NewTTLLRU mx, ks_nextID = 0\<rparr>)"

definition NewKnockSessionStore :: KnockSessionStore where
  "NewKnockSessionStore = NewKnockSessionStoreWithLimit DefaultMaxKnockSessions"

definition newSessionKeyForPort :: "netip_Addr \<Rightarrow> string \<Rightarrow> int \<Rightarrow> sessionKey" where
  "newSessionKeyForPort addr clientID port =
     \<lparr>sk_Remote = addr, sk_ClientID = clientID, sk_Port = (if port < 0 \<or> port > 65535 then 0 else word_of_int port)\<rparr>"

definition newSessionKey :: "netip_Addr \<Rightarrow> string \<Rightarrow> sessionKey" where
  "newSessionKey addr clientID = newSessionKeyForPort addr clientID 0"

definition sessionKeyMatches :: "sessionKey \<Rightarrow> netip_Addr \<Rightarrow> string \<Rightarrow> bool" where
  "sessionKeyMatches key addr clientID \<longleftrightarrow> sk_Remote key = addr \<and> sk_ClientID key = clientID"

definition firewallKey :: "netip_Addr \<Rightarrow> int \<Rightarrow> string" where
  "firewallKey addr port = addr_string addr @ [CHR 0x00] @ Itoa port"

definition AddSessionForPort ::
    "time \<Rightarrow> netip_Addr \<Rightarrow> string \<Rightarrow> bytes \<Rightarrow> int \<Rightarrow> duration \<Rightarrow> int \<Rightarrow> KnockSessionStore \<Rightarrow> KnockSessionStore" where
  "AddSessionForPort now remote clientID sessionID port ttl uses s =
     (if remote = AddrZero \<or> clientID = [] then s
      else let uses = (if uses \<le> 0 then 1 else uses)
           in s\<lparr>ks_sessions := SetUntil (newSessionKeyForPort remote clientID port)
                  \<lparr>se_remaining = uses, se_port = port, se_sessionID = sessionID\<rparr> (now + ttl) (ks_sessions s)\<rparr>)"

definition AddSession :: "time \<Rightarrow> netip_Addr \<Rightarrow> string \<Rightarrow> bytes \<Rightarrow> duration \<Rightarrow> int \<Rightarrow> KnockSessionStore \<Rightarrow> KnockSessionStore" where
  "AddSession now remote clientID sessionID ttl uses = AddSessionForPort now remote clientID sessionID 0 ttl uses"

definition store_Add :: "time \<Rightarrow> netip_Addr \<Rightarrow> string \<Rightarrow> duration \<Rightarrow> int \<Rightarrow> KnockSessionStore \<Rightarrow> KnockSessionStore" where
  "store_Add now remote clientID ttl uses = AddSession now remote clientID [] ttl uses"

definition deleteSession :: "sessionKey \<Rightarrow> KnockSessionStore \<Rightarrow> KnockSessionStore" where
  "deleteSession key s = s\<lparr>ks_sessions := snd (lru_Delete key (ks_sessions s))\<rparr>"

text \<open>A session that is there, absent or expired; an expired one is deleted.\<close>

datatype found = Found session | Absent | Expired

definition getSessionLocked :: "sessionKey \<Rightarrow> time \<Rightarrow> KnockSessionStore \<Rightarrow> found \<times> KnockSessionStore" where
  "getSessionLocked key now s =
     (case lru_Peek key (ks_sessions s) of
        None \<Rightarrow> (Absent, s)
      | Some entry \<Rightarrow> if \<not> ExpiresAt entry > now then (Expired, deleteSession key s) else (Found (Value entry), s))"

text \<open>\<open>sess.remaining--\<close>: the object in the cache changes, its place in the recency order does not.\<close>

definition use_session :: "sessionKey \<Rightarrow> session \<Rightarrow> KnockSessionStore \<Rightarrow> KnockSessionStore" where
  "use_session key sess s =
     (let c = ks_sessions s; sess = sess\<lparr>se_remaining := se_remaining sess - 1\<rparr>;
          s = s\<lparr>ks_sessions := c\<lparr>entries := AList.map_entry key (\<lambda>e. e\<lparr>Value := sess\<rparr>) (entries c)\<rparr>\<rparr>
      in if se_remaining sess \<le> 0 then deleteSession key s else s)"

definition errNoSession :: error where "errNoSession = Errorf ''no accepted knock session''"
definition errSessionExpired :: error where "errSessionExpired = Errorf ''knock session expired''"

definition consume_found :: "PeerInfo \<Rightarrow> sessionKey \<Rightarrow> found \<Rightarrow> KnockSessionStore \<Rightarrow> error option \<times> KnockSessionStore" where
  "consume_found peer key f s =
     (case f of
        Expired \<Rightarrow> (Some errSessionExpired, s)
      | Absent \<Rightarrow> (Some errNoSession, s)
      | Found sess \<Rightarrow>
          if se_sessionID sess \<noteq> [] \<and> se_sessionID sess \<noteq> p_SessionID peer then (Some (Errorf ''knock session id mismatch''), s)
          else if se_port sess > 0 \<and> p_ServerPort peer > 0 \<and> se_port sess \<noteq> p_ServerPort peer
          then (Some (Errorf ''knock session port mismatch''), s)
          else (None, use_session key sess s))"

definition CheckAndConsume :: "time \<Rightarrow> PeerInfo \<Rightarrow> net_addr \<Rightarrow> KnockSessionStore \<Rightarrow> error option \<times> KnockSessionStore" where
  "CheckAndConsume now peer remote s =
     (case AddrFromNet remote of
        None \<Rightarrow> (Some (Errorf ''remote address has no IP''), s)
      | Some addr \<Rightarrow>
          let key = newSessionKeyForPort addr (p_ClientID peer) (p_ServerPort peer)
          in (case getSessionLocked key now s of (f, s) \<Rightarrow>
               if f = Absent \<and> p_ServerPort peer = 0 then
                 let key = newSessionKey addr (p_ClientID peer)
                 in (case getSessionLocked key now s of (f, s) \<Rightarrow> consume_found peer key f s)
               else consume_found peer key f s))"

definition removed :: "int \<times> (sessionKey, session) TTLLRU \<Rightarrow> KnockSessionStore \<Rightarrow> bool \<times> KnockSessionStore" where
  "removed r s = (fst r > 0, s\<lparr>ks_sessions := snd r\<rparr>)"

definition store_Remove :: "netip_Addr \<Rightarrow> string \<Rightarrow> KnockSessionStore \<Rightarrow> bool \<times> KnockSessionStore" where
  "store_Remove remote clientID s = removed (DeleteWhere (\<lambda>e. sessionKeyMatches (Entry.Key e) remote clientID) (ks_sessions s)) s"

definition RemoveForPort :: "netip_Addr \<Rightarrow> string \<Rightarrow> int \<Rightarrow> KnockSessionStore \<Rightarrow> bool \<times> KnockSessionStore" where
  "RemoveForPort remote clientID port s =
     (let key = newSessionKeyForPort remote clientID port in (fst (lru_Delete key (ks_sessions s)), deleteSession key s))"

definition store_Expire :: "netip_Addr \<Rightarrow> string \<Rightarrow> time \<Rightarrow> KnockSessionStore \<Rightarrow> bool \<times> KnockSessionStore" where
  "store_Expire remote clientID now s =
     removed (DeleteWhere (\<lambda>e. sessionKeyMatches (Entry.Key e) remote clientID \<and> \<not> now < ExpiresAt e) (ks_sessions s)) s"

definition ExpireForPort :: "netip_Addr \<Rightarrow> string \<Rightarrow> int \<Rightarrow> time \<Rightarrow> KnockSessionStore \<Rightarrow> bool \<times> KnockSessionStore" where
  "ExpireForPort remote clientID port now s =
     removed (DeleteWhere (\<lambda>e. newSessionKeyForPort remote clientID port = Entry.Key e \<and> \<not> now < ExpiresAt e) (ks_sessions s)) s"

text \<open>\<open>nextID\<close> is a \<open>uint64\<close> and wraps around.\<close>

definition grant_lease :: "string \<Rightarrow> time \<Rightarrow> KnockSessionStore \<Rightarrow> u64 \<times> KnockSessionStore" where
  "grant_lease key expiresAt s =
     (let i = ks_nextID s + 1
      in (i, s\<lparr>ks_nextID := i, ks_firewall := SetUntil key i expiresAt (ks_firewall s)\<rparr>))"

definition MarkFirewall :: "time \<Rightarrow> netip_Addr \<Rightarrow> int \<Rightarrow> duration \<Rightarrow> KnockSessionStore \<Rightarrow> u64 option \<times> KnockSessionStore" where
  "MarkFirewall now remote port ttl s =
     (if remote = AddrZero \<or> port \<le> 0 \<or> ttl \<le> 0 then (None, s)
      else let s = s\<lparr>ks_firewall := snd (lru_Sweep now (ks_firewall s))\<rparr>;
               key = firewallKey remote port;
               renew = (case lru_Peek key (ks_firewall s) of Some entry \<Rightarrow> ExpiresAt entry > now | None \<Rightarrow> False)
           in if \<not> renew \<and> lru_Len (ks_firewall s) \<ge> lru_Cap (ks_firewall s) then (None, s)
              else case grant_lease key (now + ttl) s of (i, s) \<Rightarrow> (Some i, s))"

definition ExpireFirewall :: "netip_Addr \<Rightarrow> int \<Rightarrow> u64 \<Rightarrow> time \<Rightarrow> KnockSessionStore \<Rightarrow> bool \<times> KnockSessionStore" where
  "ExpireFirewall remote port i now s =
     (if i = 0 then (False, s)
      else let key = firewallKey remote port
           in (case lru_Peek key (ks_firewall s) of
                 None \<Rightarrow> (False, s)
               | Some lease \<Rightarrow>
                   if Value lease \<noteq> i \<or> now < ExpiresAt lease then (False, s)
                   else (fst (lru_Delete key (ks_firewall s)), s\<lparr>ks_firewall := snd (lru_Delete key (ks_firewall s))\<rparr>)))"

definition RemoveFirewall :: "netip_Addr \<Rightarrow> int \<Rightarrow> KnockSessionStore \<Rightarrow> bool \<times> KnockSessionStore" where
  "RemoveFirewall remote port s =
     (let r = lru_Delete (firewallKey remote port) (ks_firewall s) in (fst r, s\<lparr>ks_firewall := snd r\<rparr>))"

section \<open>What the operations do to a session\<close>

definition store_ok :: "KnockSessionStore \<Rightarrow> bool" where
  "store_ok s \<longleftrightarrow> lru_ok (ks_sessions s) \<and> lru_ok (ks_firewall s)"

text \<open>The session of a key with its expiry, and the lease of a key.\<close>

definition sess_at :: "KnockSessionStore \<Rightarrow> sessionKey \<Rightarrow> (session \<times> time) option" where
  "sess_at s k = map_option (\<lambda>e. (Value e, ExpiresAt e)) (map_of (entries (ks_sessions s)) k)"

definition lease_at :: "KnockSessionStore \<Rightarrow> string \<Rightarrow> (u64 \<times> time) option" where
  "lease_at s k = map_option (\<lambda>e. (Value e, ExpiresAt e)) (map_of (entries (ks_firewall s)) k)"

lemma store_ok_New: "store_ok (NewKnockSessionStoreWithLimit n)" "sess_at (NewKnockSessionStoreWithLimit n) k = None"
    "lease_at (NewKnockSessionStoreWithLimit n) k' = None" "ks_nextID (NewKnockSessionStoreWithLimit n) = 0"
  by (simp_all add: store_ok_def NewKnockSessionStoreWithLimit_def Let_def sess_at_def lease_at_def NewTTLLRU_def[THEN arg_cong, of entries])

lemma evict_front_subset: "map_of (entries (evict_front c)) k = None \<or> map_of (entries (evict_front c)) k = map_of (entries c) k"
proof (induction c rule: evict_front.induct)
  case (1 c)
  show ?case
  proof (cases "int (length (entries c)) \<ge> maxEntries c \<and> order c \<noteq> []")
    case True
    then obtain x xs where "order c = x # xs" "evict_front c = evict_front (removeElementLocked x c)"
      by (cases "order c") (auto simp: evict_front.simps[of c])
    then show ?thesis using 1 True by (auto split: if_splits)
  next
    case False
    then have "evict_front c = c" by (auto simp: evict_front.simps[of c] split: list.split)
    then show ?thesis by simp
  qed
qed

lemma lookup_setLocked:
  assumes "lru_ok c"
  shows "map_of (entries (setLocked k v t c)) k = Some \<lparr>Entry.Key = k, Value = v, ExpiresAt = t\<rparr>"
    and "k' \<noteq> k \<Longrightarrow> map_of (entries (setLocked k v t c)) k' = None \<or> map_of (entries (setLocked k v t c)) k' = map_of (entries c) k'"
proof -
  show "map_of (entries (setLocked k v t c)) k = Some \<lparr>Entry.Key = k, Value = v, ExpiresAt = t\<rparr>"
    using setLocked_present(3)[OF assms, of k _ v t]
    by (cases "map_of (entries c) k") (simp_all add: setLocked_def Let_def AList.update_conv')
  show "k' \<noteq> k \<Longrightarrow> map_of (entries (setLocked k v t c)) k' = None \<or> map_of (entries (setLocked k v t c)) k' = map_of (entries c) k'"
    using evict_front_subset[of c k']
    by (auto simp: setLocked_def Let_def AList.update_conv' split: option.split)
qed

lemma lookup_Delete: "map_of (entries (snd (lru_Delete k c))) k' = (if k' = k then None else map_of (entries c) k')"
  by (auto simp: lru_Delete_def split: option.split)

lemma lru_ok_Delete: "lru_ok c \<Longrightarrow> lru_ok (snd (lru_Delete k c))"
  by (auto simp: lru_Delete_def lru_ok_remove split: option.split)

lemma lru_ok_SetUntil: "lru_ok c \<Longrightarrow> lru_ok (SetUntil k v t c)"
  by (simp add: SetUntil_def lru_ok_setLocked)

lemma lookup_DeleteWhere:
  assumes "lru_ok c"
  shows "lru_ok (snd (DeleteWhere m c))"
    and "map_of (entries (snd (DeleteWhere m c))) k = (case map_of (entries c) k of Some e \<Rightarrow> if m e then None else Some e | None \<Rightarrow> None)"
proof -
  obtain r c' where w: "remove_walk m (order c) 0 c = (r, c')" by (rule prod.exhaust)
  from walk_all[OF assms w] show "lru_ok (snd (DeleteWhere m c))"
    "map_of (entries (snd (DeleteWhere m c))) k = (case map_of (entries c) k of Some e \<Rightarrow> if m e then None else Some e | None \<Rightarrow> None)"
    unfolding DeleteWhere_def w snd_conv by (blast, metis)
qed

lemma lookup_Sweep:
  assumes "lru_ok c"
  shows "lru_ok (snd (lru_Sweep now c))"
    and "map_of (entries (snd (lru_Sweep now c))) k = (case map_of (entries c) k of Some e \<Rightarrow> if ExpiresAt e > now then Some e else None | None \<Rightarrow> None)"
  using lookup_DeleteWhere[OF assms, of "\<lambda>e. \<not> ExpiresAt e > now"]
  by (auto simp: lru_Sweep_def DeleteWhere_def split: option.splits)

lemma lru_ok_change_value:
  assumes "lru_ok c"
  shows "lru_ok (c\<lparr>entries := AList.map_entry key (\<lambda>e. e\<lparr>Value := v\<rparr>) (entries c)\<rparr>)"
proof -
  have keys: "map fst (AList.map_entry key (\<lambda>e. e\<lparr>Value := v\<rparr>) es) = map fst es" for es :: "('a \<times> ('a, 'b) Entry) list"
    by (induction es) auto
  then have "length (AList.map_entry key (\<lambda>e. e\<lparr>Value := v\<rparr>) (entries c)) = length (entries c)"
    by (metis length_map)
  moreover have "set (map fst (AList.map_entry key (\<lambda>e. e\<lparr>Value := v\<rparr>) (entries c))) = fst ` set (entries c)"
    by (simp only: keys list.set_map)
  moreover have "distinct (map fst (AList.map_entry key (\<lambda>e. e\<lparr>Value := v\<rparr>) (entries c)))"
    using assms by (simp only: keys lru_ok_def lru_coherent_def)
  moreover have "Entry.Key e = k"
    if "(k, e) \<in> set (AList.map_entry key (\<lambda>e. e\<lparr>Value := v\<rparr>) es)" "\<forall>(k, e) \<in> set es. Entry.Key e = k" for k e es
    using that by (induction es) (auto split: if_splits)
  moreover have "entries (c\<lparr>entries := es\<rparr>) = es" "order (c\<lparr>entries := es\<rparr>) = order c" "maxEntries (c\<lparr>entries := es\<rparr>) = maxEntries c" for es
    by simp_all
  ultimately show ?thesis
    using assms unfolding lru_ok_def lru_coherent_def by (simp only: list.set_map) blast
qed

text \<open>A store change that may drop sessions and otherwise does what \<open>f\<close> says for one key.\<close>

definition sessions_shrink :: "KnockSessionStore \<Rightarrow> KnockSessionStore \<Rightarrow> bool" where
  "sessions_shrink s s' \<longleftrightarrow> (\<forall>k. sess_at s' k = None \<or> sess_at s' k = sess_at s k)"

lemma shrink_refl [simp]: "sessions_shrink s s"
  by (simp add: sessions_shrink_def)

lemma store_ok_deleteSession: "store_ok s \<Longrightarrow> store_ok (deleteSession k s)"
  by (simp add: store_ok_def deleteSession_def lru_ok_Delete)

lemma sess_at_deleteSession: "sess_at (deleteSession k s) k' = (if k' = k then None else sess_at s k')"
  by (simp add: deleteSession_def sess_at_def lookup_Delete)

lemma AddSessionForPort_law:
  fixes now :: time and ttl :: duration and remote clientID sid port uses
  assumes "store_ok s"
  defines "s' \<equiv> AddSessionForPort now remote clientID sid port ttl uses s"
  shows "store_ok s'"
    and "sess_at s' k = None \<or> sess_at s' k = sess_at s k \<or>
      k = newSessionKeyForPort remote clientID port \<and> remote \<noteq> AddrZero \<and> clientID \<noteq> [] \<and>
      sess_at s' k = Some (\<lparr>se_remaining = max 1 uses, se_port = port, se_sessionID = sid\<rparr>, now + ttl)"
proof -
  have ok: "lru_ok (ks_sessions s)" using assms(1) by (simp add: store_ok_def)
  show "store_ok s'"
    using assms(1) by (simp add: s'_def AddSessionForPort_def store_ok_def Let_def lru_ok_SetUntil)
  have mx: "(if uses \<le> 0 then 1 else uses) = max 1 uses" by simp
  show "sess_at s' k = None \<or> sess_at s' k = sess_at s k \<or>
      k = newSessionKeyForPort remote clientID port \<and> remote \<noteq> AddrZero \<and> clientID \<noteq> [] \<and>
      sess_at s' k = Some (\<lparr>se_remaining = max 1 uses, se_port = port, se_sessionID = sid\<rparr>, now + ttl)"
  proof (cases "remote = AddrZero \<or> clientID = [] \<or> now + ttl = zero_time")
    case True
    then have "ks_sessions s' = ks_sessions s" by (auto simp: s'_def AddSessionForPort_def Let_def SetUntil_def)
    then show ?thesis by (simp add: sess_at_def)
  next
    case False
    let ?k = "newSessionKeyForPort remote clientID port"
    let ?v = "\<lparr>se_remaining = max 1 uses, se_port = port, se_sessionID = sid\<rparr>"
    have set: "ks_sessions s' = setLocked ?k ?v (now + ttl) (ks_sessions s)"
      using False unfolding s'_def AddSessionForPort_def Let_def mx by (simp add: SetUntil_def)
    show ?thesis
    proof (cases "k = ?k")
      case True
      with lookup_setLocked(1)[OF ok, of ?k ?v "now + ttl"] False show ?thesis by (simp add: sess_at_def set)
    next
      case False
      from lookup_setLocked(2)[OF ok this, of ?v "now + ttl"] show ?thesis by (auto simp: sess_at_def set)
    qed
  qed
qed

text \<open>
  A connection is granted exactly when the session of its address, client and port is there, has
  not expired and carries no other session id or port; a grant takes one use, and the last use
  ends the session.
\<close>

lemma getSessionLocked_law:
  assumes "store_ok s" and "getSessionLocked key now s = (f, s')"
  shows "store_ok s' \<and> sessions_shrink s s' \<and> ks_firewall s' = ks_firewall s \<and> ks_nextID s' = ks_nextID s \<and>
    (f = Found sess \<longleftrightarrow> (\<exists>x. sess_at s key = Some (sess, x) \<and> now < x)) \<and> (f = Absent \<longleftrightarrow> sess_at s key = None) \<and> (f \<noteq> Expired \<longrightarrow> s' = s)"
  using assms store_ok_deleteSession[OF assms(1), of key]
  by (auto simp: getSessionLocked_def lru_Peek_def sess_at_def sessions_shrink_def deleteSession_def lookup_Delete
    split: option.splits if_splits)

lemma use_session_law:
  assumes "store_ok s" and "sess_at s key = Some (sess, x)"
  shows "store_ok (use_session key sess s)" "ks_firewall (use_session key sess s) = ks_firewall s" "ks_nextID (use_session key sess s) = ks_nextID s"
    and "sess_at (use_session key sess s) k =
      (if k = key then (if se_remaining sess \<le> 1 then None else Some (sess\<lparr>se_remaining := se_remaining sess - 1\<rparr>, x)) else sess_at s k)"
proof -
  let ?c = "(ks_sessions s)\<lparr>entries := AList.map_entry key (\<lambda>e. e\<lparr>Value := sess\<lparr>se_remaining := se_remaining sess - 1\<rparr>\<rparr>) (entries (ks_sessions s))\<rparr>"
  let ?s = "s\<lparr>ks_sessions := ?c\<rparr>"
  have ok: "store_ok ?s" using assms(1) by (simp add: store_ok_def lru_ok_change_value)
  have use: "use_session key sess s = (if se_remaining sess \<le> 1 then deleteSession key ?s else ?s)"
    by (simp add: use_session_def Let_def)
  have at: "sess_at ?s k = (if k = key then Some (sess\<lparr>se_remaining := se_remaining sess - 1\<rparr>, x) else sess_at s k)" for k
    using assms(2) by (auto simp: sess_at_def AList.map_of_map_entry split: option.splits)
  show "store_ok (use_session key sess s)" using ok store_ok_deleteSession[OF ok, of key] by (simp add: use)
  show "ks_firewall (use_session key sess s) = ks_firewall s" "ks_nextID (use_session key sess s) = ks_nextID s"
    by (simp_all add: use deleteSession_def)
  show "sess_at (use_session key sess s) k =
      (if k = key then (if se_remaining sess \<le> 1 then None else Some (sess\<lparr>se_remaining := se_remaining sess - 1\<rparr>, x)) else sess_at s k)"
    by (simp add: use sess_at_deleteSession at)
qed

definition check_key :: "PeerInfo \<Rightarrow> net_addr \<Rightarrow> sessionKey option" where
  "check_key peer remote = map_option (\<lambda>a. newSessionKeyForPort a (p_ClientID peer) (p_ServerPort peer)) (AddrFromNet remote)"

definition session_fits :: "PeerInfo \<Rightarrow> session \<Rightarrow> bool" where
  "session_fits peer sess \<longleftrightarrow> (se_sessionID sess = [] \<or> se_sessionID sess = p_SessionID peer) \<and>
     \<not> (se_port sess > 0 \<and> p_ServerPort peer > 0 \<and> se_port sess \<noteq> p_ServerPort peer)"

text \<open>The wildcard key is the key of port 0, so the second look-up for port 0 finds what the first one found.\<close>

lemma CheckAndConsume_one_lookup:
  "CheckAndConsume now peer remote s =
     (case check_key peer remote of
        None \<Rightarrow> (Some (Errorf ''remote address has no IP''), s)
      | Some key \<Rightarrow> (case getSessionLocked key now s of (f, s) \<Rightarrow> consume_found peer key f s))"
proof (cases "AddrFromNet remote")
  case (Some addr)
  let ?key = "newSessionKeyForPort addr (p_ClientID peer) (p_ServerPort peer)"
  obtain f s' where g: "getSessionLocked ?key now s = (f, s')" by (rule prod.exhaust)
  show ?thesis
  proof (cases "f = Absent \<and> p_ServerPort peer = 0")
    case True
    then have "s' = s" using g by (auto simp: getSessionLocked_def split: option.splits if_splits)
    moreover have "newSessionKey addr (p_ClientID peer) = ?key" using True by (simp add: newSessionKey_def)
    ultimately show ?thesis using g Some True by (simp add: CheckAndConsume_def check_key_def Let_def)
  next
    case False
    then show ?thesis using g Some by (auto simp: CheckAndConsume_def check_key_def Let_def)
  qed
qed (simp add: CheckAndConsume_def check_key_def)

lemma CheckAndConsume_law:
  assumes "store_ok s" and "CheckAndConsume now peer remote s = (e, s')"
  shows "store_ok s' \<and> ks_firewall s' = ks_firewall s \<and> ks_nextID s' = ks_nextID s"
    and "e \<noteq> None \<Longrightarrow> sessions_shrink s s'"
    and "e = None \<longleftrightarrow> (\<exists>key sess x. check_key peer remote = Some key \<and> sess_at s key = Some (sess, x) \<and> now < x \<and> session_fits peer sess)"
    and "e = None \<Longrightarrow> \<exists>key sess x. check_key peer remote = Some key \<and> sess_at s key = Some (sess, x) \<and> now < x \<and> session_fits peer sess \<and>
      (\<forall>k. sess_at s' k = (if k = key then (if se_remaining sess \<le> 1 then None else Some (sess\<lparr>se_remaining := se_remaining sess - 1\<rparr>, x))
         else sess_at s k))"
proof -
  have "(store_ok s' \<and> ks_firewall s' = ks_firewall s \<and> ks_nextID s' = ks_nextID s) \<and> (e \<noteq> None \<longrightarrow> sessions_shrink s s') \<and>
    (e = None \<longleftrightarrow> (\<exists>key sess x. check_key peer remote = Some key \<and> sess_at s key = Some (sess, x) \<and> now < x \<and> session_fits peer sess)) \<and>
    (e = None \<longrightarrow> (\<exists>key sess x. check_key peer remote = Some key \<and> sess_at s key = Some (sess, x) \<and> now < x \<and> session_fits peer sess \<and>
      (\<forall>k. sess_at s' k = (if k = key then (if se_remaining sess \<le> 1 then None else Some (sess\<lparr>se_remaining := se_remaining sess - 1\<rparr>, x))
         else sess_at s k))))"
  proof (cases "check_key peer remote")
    case None
    then show ?thesis using assms by (auto simp: CheckAndConsume_one_lookup)
  next
    case (Some key)
    obtain f s1 where g: "getSessionLocked key now s = (f, s1)" by (rule prod.exhaust)
    note law = getSessionLocked_law[OF assms(1) g]
    have c: "consume_found peer key f s1 = (e, s')" using assms(2) Some g by (simp add: CheckAndConsume_one_lookup)
    show ?thesis
    proof (cases f)
      case (Found sess)
      then obtain x where x: "sess_at s key = Some (sess, x)" "now < x" "s1 = s" using law[of sess] by auto
      note use = use_session_law[OF assms(1) x(1)]
      show ?thesis
      proof (cases "session_fits peer sess")
        case True
        then have "e = None" "s' = use_session key sess s"
          using c Found x(3) by (auto simp: consume_found_def session_fits_def split: if_splits)
        then show ?thesis using use assms(1) Some x True by auto
      next
        case False
        then have "e \<noteq> None" "s' = s" using c Found x(3) by (auto simp: consume_found_def session_fits_def split: if_splits)
        then show ?thesis using assms(1) Some x False by auto
      qed
    next
      case Absent
      then show ?thesis using c law Some by (auto simp: consume_found_def)
    next
      case Expired
      then have "e \<noteq> None" "s' = s1" using c by (auto simp: consume_found_def)
      moreover have "\<not> (\<exists>sess x. sess_at s key = Some (sess, x) \<and> now < x)" using law Expired by blast
      ultimately show ?thesis using law[of undefined] Some assms(1) by auto
    qed
  qed
  then show "store_ok s' \<and> ks_firewall s' = ks_firewall s \<and> ks_nextID s' = ks_nextID s"
    "e \<noteq> None \<Longrightarrow> sessions_shrink s s'"
    "e = None \<longleftrightarrow> (\<exists>key sess x. check_key peer remote = Some key \<and> sess_at s key = Some (sess, x) \<and> now < x \<and> session_fits peer sess)"
    "e = None \<Longrightarrow> \<exists>key sess x. check_key peer remote = Some key \<and> sess_at s key = Some (sess, x) \<and> now < x \<and> session_fits peer sess \<and>
      (\<forall>k. sess_at s' k = (if k = key then (if se_remaining sess \<le> 1 then None else Some (sess\<lparr>se_remaining := se_remaining sess - 1\<rparr>, x))
         else sess_at s k))"
    by blast+
qed

section \<open>Histories\<close>

datatype store_op =
    OpAdd time netip_Addr string bytes int duration int
  | OpCheck time PeerInfo net_addr
  | OpRemove netip_Addr string
  | OpRemoveForPort netip_Addr string int
  | OpExpire netip_Addr string time
  | OpExpireForPort netip_Addr string int time
  | OpMark time netip_Addr int duration
  | OpExpireFirewall netip_Addr int u64 time
  | OpRemoveFirewall netip_Addr int

fun store_step :: "store_op \<Rightarrow> KnockSessionStore \<Rightarrow> KnockSessionStore" where
  "store_step (OpAdd now remote clientID sid port ttl uses) s = AddSessionForPort now remote clientID sid port ttl uses s"
| "store_step (OpCheck now peer remote) s = snd (CheckAndConsume now peer remote s)"
| "store_step (OpRemove remote clientID) s = snd (store_Remove remote clientID s)"
| "store_step (OpRemoveForPort remote clientID port) s = snd (RemoveForPort remote clientID port s)"
| "store_step (OpExpire remote clientID now) s = snd (store_Expire remote clientID now s)"
| "store_step (OpExpireForPort remote clientID port now) s = snd (ExpireForPort remote clientID port now s)"
| "store_step (OpMark now remote port ttl) s = snd (MarkFirewall now remote port ttl s)"
| "store_step (OpExpireFirewall remote port i now) s = snd (ExpireFirewall remote port i now s)"
| "store_step (OpRemoveFirewall remote port) s = snd (RemoveFirewall remote port s)"

definition store_run :: "store_op list \<Rightarrow> KnockSessionStore \<Rightarrow> KnockSessionStore" where
  "store_run ops s = fold store_step ops s"

text \<open>The uses that knocks offered for a key, and the connections that were granted under it.\<close>

fun offered :: "sessionKey \<Rightarrow> store_op list \<Rightarrow> int" where
  "offered k [] = 0"
| "offered k (OpAdd now remote clientID sid port ttl uses # ops) =
     (if remote \<noteq> AddrZero \<and> clientID \<noteq> [] \<and> newSessionKeyForPort remote clientID port = k then max 1 uses else 0) + offered k ops"
| "offered k (_ # ops) = offered k ops"

fun granted :: "sessionKey \<Rightarrow> store_op list \<Rightarrow> KnockSessionStore \<Rightarrow> int" where
  "granted k [] s = 0"
| "granted k (OpCheck now peer remote # ops) s =
     (case CheckAndConsume now peer remote s of (e, s) \<Rightarrow> (if e = None \<and> check_key peer remote = Some k then 1 else 0) + granted k ops s)"
| "granted k (x # ops) s = granted k ops (store_step x s)"

lemma removed_law:
  assumes "store_ok s"
  shows "store_ok (snd (removed (DeleteWhere m (ks_sessions s)) s)) \<and> sessions_shrink s (snd (removed (DeleteWhere m (ks_sessions s)) s))"
  using assms lookup_DeleteWhere[of "ks_sessions s" m]
  by (auto simp: removed_def store_ok_def sessions_shrink_def sess_at_def split: option.splits)

lemma sessions_same: "ks_sessions s' = ks_sessions s \<Longrightarrow> sessions_shrink s s'"
  by (simp add: sessions_shrink_def sess_at_def)

lemma MarkFirewall_ok:
  assumes "store_ok s"
  shows "store_ok (snd (MarkFirewall now remote port ttl s))" "ks_sessions (snd (MarkFirewall now remote port ttl s)) = ks_sessions s"
  using assms lookup_Sweep(1)[of "ks_firewall s" now]
  by (auto simp: MarkFirewall_def grant_lease_def store_ok_def Let_def lru_ok_SetUntil)

lemma ExpireFirewall_ok:
  assumes "store_ok s"
  shows "store_ok (snd (ExpireFirewall remote port i now s))" "ks_sessions (snd (ExpireFirewall remote port i now s)) = ks_sessions s"
  using assms by (auto simp: ExpireFirewall_def store_ok_def Let_def lru_ok_Delete split: option.split)

lemma RemoveFirewall_ok:
  assumes "store_ok s"
  shows "store_ok (snd (RemoveFirewall remote port s))" "ks_sessions (snd (RemoveFirewall remote port s)) = ks_sessions s"
  using assms by (auto simp: RemoveFirewall_def store_ok_def Let_def lru_ok_Delete)

fun only_drops :: "store_op \<Rightarrow> bool" where
  "only_drops (OpAdd _ _ _ _ _ _ _) = False"
| "only_drops (OpCheck _ _ _) = False"
| "only_drops _ = True"

lemma other_step_law:
  assumes "store_ok s" and "only_drops x"
  shows "store_ok (store_step x s) \<and> sessions_shrink s (store_step x s)"
proof -
  have del: "sessions_shrink s (deleteSession k s)" for k by (simp add: sessions_shrink_def sess_at_deleteSession)
  show ?thesis
    using assms(2) removed_law[OF assms(1)] del store_ok_deleteSession[OF assms(1)]
      MarkFirewall_ok[OF assms(1)] ExpireFirewall_ok[OF assms(1)] RemoveFirewall_ok[OF assms(1)]
    by (cases x) (simp_all add: store_Remove_def store_Expire_def ExpireForPort_def RemoveForPort_def Let_def sessions_same)
qed

definition uses_left :: "KnockSessionStore \<Rightarrow> sessionKey \<Rightarrow> int" where
  "uses_left s k = (case sess_at s k of None \<Rightarrow> 0 | Some (sess, _) \<Rightarrow> se_remaining sess)"

text \<open>What is known of every session: it has uses left, and the knock that opened it is in the history.\<close>

definition session_from :: "store_op list \<Rightarrow> sessionKey \<Rightarrow> session \<Rightarrow> time \<Rightarrow> bool" where
  "session_from ops k sess x \<longleftrightarrow> 1 \<le> se_remaining sess \<and>
     (\<exists>now remote clientID ttl uses. OpAdd now remote clientID (se_sessionID sess) (se_port sess) ttl uses \<in> set ops \<and>
        remote \<noteq> AddrZero \<and> clientID \<noteq> [] \<and> k = newSessionKeyForPort remote clientID (se_port sess) \<and> x = now + ttl)"

definition sessions_from :: "store_op list \<Rightarrow> KnockSessionStore \<Rightarrow> bool" where
  "sessions_from ops s \<longleftrightarrow> (\<forall>k sess x. sess_at s k = Some (sess, x) \<longrightarrow> session_from ops k sess x)"

lemma session_from_mono: "session_from ops k sess x \<Longrightarrow> set ops \<subseteq> set ops' \<Longrightarrow> session_from ops' k sess x"
  unfolding session_from_def by blast

lemma shrink_left:
  assumes "sessions_shrink s s'" and "sessions_from ops s"
  shows "0 \<le> uses_left s' k \<and> uses_left s' k \<le> uses_left s k" and "set ops \<subseteq> set ops' \<Longrightarrow> sessions_from ops' s'"
proof -
  have ge: "sess_at s k = Some (sess, x) \<Longrightarrow> 1 \<le> se_remaining sess" for sess x
    using assms(2) by (auto simp: sessions_from_def session_from_def)
  have "sess_at s' k = None \<or> sess_at s' k = sess_at s k" using assms(1) by (simp add: sessions_shrink_def)
  then show "0 \<le> uses_left s' k \<and> uses_left s' k \<le> uses_left s k"
    using ge by (fastforce simp: uses_left_def split: option.splits)
  show "set ops \<subseteq> set ops' \<Longrightarrow> sessions_from ops' s'"
    using assms session_from_mono unfolding sessions_from_def sessions_shrink_def by (metis option.distinct(1))
qed

lemma store_step_law:
  assumes ok: "store_ok s" and hist: "sessions_from ops s"
  shows "store_ok (store_step x s)" "sessions_from (ops @ [x]) (store_step x s)"
    "granted k [x] s + uses_left (store_step x s) k \<le> uses_left s k + offered k [x]"
proof -
  have drop: "store_ok (store_step x s) \<and> sessions_from (ops @ [x]) (store_step x s) \<and> uses_left (store_step x s) k \<le> uses_left s k"
    if "only_drops x"
  proof -
    from other_step_law[OF ok that] have sh: "store_ok (store_step x s)" "sessions_shrink s (store_step x s)" by blast+
    have "sessions_from (ops @ [x]) (store_step x s)" by (rule shrink_left(2)[OF sh(2) hist]) auto
    with sh(1) shrink_left(1)[OF sh(2) hist] show ?thesis by blast
  qed
  have "store_ok (store_step x s) \<and> sessions_from (ops @ [x]) (store_step x s) \<and>
    granted k [x] s + uses_left (store_step x s) k \<le> uses_left s k + offered k [x]"
  proof (cases x)
    case (OpAdd now remote clientID sid port ttl uses)
    note law = AddSessionForPort_law[OF ok, of now remote clientID sid port ttl uses]
    have left: "0 \<le> uses_left s k" using shrink_left(1)[OF shrink_refl hist] by blast
    have "session_from (ops @ [x]) k' sess y" if at: "sess_at (store_step x s) k' = Some (sess, y)" for k' sess y
    proof (cases "sess_at (store_step x s) k' = sess_at s k'")
      case True
      with at hist have "session_from ops k' sess y" by (simp add: sessions_from_def)
      then show ?thesis by (rule session_from_mono) auto
    next
      case False
      with law(2)[of k'] at OpAdd show ?thesis by (force simp: session_from_def)
    qed
    then have "sessions_from (ops @ [x]) (store_step x s)" by (simp add: sessions_from_def)
    moreover have "uses_left (store_step x s) k \<le> uses_left s k + offered k [x]"
      using law(2)[of k] left OpAdd by (auto simp: uses_left_def split: option.splits)
    ultimately show ?thesis using law(1) OpAdd by simp
  next
    case (OpCheck now peer remote)
    obtain e s' where c: "CheckAndConsume now peer remote s = (e, s')" by (rule prod.exhaust)
    note law = CheckAndConsume_law[OF ok c]
    show ?thesis
    proof (cases e)
      case None
      from law(4)[OF None] obtain key sess y where k: "check_key peer remote = Some key" "sess_at s key = Some (sess, y)"
        and s': "\<And>k. sess_at s' k = (if k = key then (if se_remaining sess \<le> 1 then None else Some (sess\<lparr>se_remaining := se_remaining sess - 1\<rparr>, y))
         else sess_at s k)" by blast
      have old: "session_from ops key sess y" using hist k(2) by (simp add: sessions_from_def)
      then have one: "1 \<le> se_remaining sess" by (simp add: session_from_def)
      have "session_from (ops @ [x]) k' sess' y'" if at: "sess_at s' k' = Some (sess', y')" for k' sess' y'
      proof (cases "k' = key")
        case True
        then have "sess' = sess\<lparr>se_remaining := se_remaining sess - 1\<rparr>" "y' = y" "1 < se_remaining sess"
          using at s'[of k'] by (auto split: if_splits)
        with old True have "session_from ops k' sess' y'" by (simp add: session_from_def)
        then show ?thesis by (rule session_from_mono) auto
      next
        case False
        with at s'[of k'] hist have "session_from ops k' sess' y'" by (simp add: sessions_from_def)
        then show ?thesis by (rule session_from_mono) auto
      qed
      then have "sessions_from (ops @ [x]) s'" by (simp add: sessions_from_def)
      moreover have "granted k [x] s + uses_left s' k \<le> uses_left s k"
        using k s'[of k] one OpCheck c None by (auto simp: uses_left_def)
      ultimately show ?thesis using law(1) OpCheck c by simp
    next
      case (Some err)
      with law(2) have "sessions_shrink s s'" by simp
      note sh = shrink_left[OF this hist]
      have "sessions_from (ops @ [x]) s'" by (rule sh(2)) auto
      with sh(1)[of k] show ?thesis using law(1) OpCheck c Some by simp
    qed
  qed (use drop in simp_all)
  then show "store_ok (store_step x s)" "sessions_from (ops @ [x]) (store_step x s)"
    "granted k [x] s + uses_left (store_step x s) k \<le> uses_left s k + offered k [x]" by blast+
qed

lemma offered_append: "offered k (xs @ ys) = offered k xs + offered k ys"
  by (induction k xs rule: offered.induct) auto

lemma store_run_law:
  "store_ok (store_run ops (NewKnockSessionStoreWithLimit n)) \<and> sessions_from ops (store_run ops (NewKnockSessionStoreWithLimit n)) \<and>
   granted k ops (NewKnockSessionStoreWithLimit n) + uses_left (store_run ops (NewKnockSessionStoreWithLimit n)) k \<le> offered k ops"
proof (induction ops rule: rev_induct)
  case Nil
  then show ?case by (simp add: store_run_def store_ok_New sessions_from_def uses_left_def)
next
  case (snoc x ops)
  let ?s = "store_run ops (NewKnockSessionStoreWithLimit n)"
  have run: "store_run (ops @ [x]) (NewKnockSessionStoreWithLimit n) = store_step x ?s" by (simp add: store_run_def)
  have split: "granted k (ops @ [x]) s0 = granted k ops s0 + granted k [x] (store_run ops s0)" for s0
    by (induction k ops s0 rule: granted.induct) (auto simp: store_run_def split: prod.split)
  show ?case
  proof (intro conjI)
    have ok: "store_ok ?s" and hist: "sessions_from ops ?s" using snoc by blast+
    show "store_ok (store_run (ops @ [x]) (NewKnockSessionStoreWithLimit n))"
      "sessions_from (ops @ [x]) (store_run (ops @ [x]) (NewKnockSessionStoreWithLimit n))"
      unfolding run by (rule store_step_law[OF ok hist])+
    show "granted k (ops @ [x]) (NewKnockSessionStoreWithLimit n) + uses_left (store_run (ops @ [x]) (NewKnockSessionStoreWithLimit n)) k
        \<le> offered k (ops @ [x])"
      unfolding run split offered_append using store_step_law(3)[OF ok hist, where x = x and k = k] snoc by linarith
  qed
qed

text \<open>What is known of the store and its history when a connection is granted.\<close>

lemma admitted_by_knock:
  assumes "CheckAndConsume now peer remote (store_run ops (NewKnockSessionStoreWithLimit n)) = (None, s')"
  shows "\<exists>addr t sid port ttl uses k.
    AddrFromNet remote = Some addr \<and> k = newSessionKeyForPort addr (p_ClientID peer) (p_ServerPort peer) \<and>
    OpAdd t addr (p_ClientID peer) sid port ttl uses \<in> set ops \<and> k = newSessionKeyForPort addr (p_ClientID peer) port \<and>
    now < t + ttl \<and> (sid = [] \<or> sid = p_SessionID peer) \<and>
    granted k ops (NewKnockSessionStoreWithLimit n) + 1 \<le> offered k ops"
proof -
  let ?s = "store_run ops (NewKnockSessionStoreWithLimit n)"
  have ok: "store_ok ?s" and hist: "sessions_from ops ?s" using store_run_law by blast+
  from CheckAndConsume_law(4)[OF ok assms refl] obtain k sess x
    where k: "check_key peer remote = Some k" and at: "sess_at ?s k = Some (sess, x)" and x: "now < x" and fits: "session_fits peer sess"
    by blast
  from hist at have old: "session_from ops k sess x" by (simp add: sessions_from_def)
  then obtain t addr cid ttl uses
    where add: "OpAdd t addr cid (se_sessionID sess) (se_port sess) ttl uses \<in> set ops" "k = newSessionKeyForPort addr cid (se_port sess)" "x = t + ttl"
    unfolding session_from_def by blast
  from k obtain addr' where a: "AddrFromNet remote = Some addr'" "k = newSessionKeyForPort addr' (p_ClientID peer) (p_ServerPort peer)"
    by (auto simp: check_key_def)
  have same: "addr = addr'" "cid = p_ClientID peer" using a(2) add(2) by (auto simp: newSessionKeyForPort_def)
  have "1 \<le> uses_left ?s k" using old at by (simp add: uses_left_def session_from_def)
  with store_run_law[of ops n k] have "granted k ops (NewKnockSessionStoreWithLimit n) + 1 \<le> offered k ops" by linarith
  with a add x fits show ?thesis unfolding session_fits_def same by blast
qed

text \<open>
  Property C33. A connection is admitted only because of a knock, and only as often as the knock
  allows. Whatever calls a new store has seen, when \<open>CheckAndConsume\<close> grants a connection, some
  earlier knock opened a session for the very address of the connection, the authenticated client
  and the authenticated port, which has not expired and which was opened without a session id or
  with the one the client authenticated with; and the connections granted for that address, client
  and port so far, this one included, are no more than the uses all its knocks together allowed.
\<close>

theorem session_admits_only_knocked:
  assumes "CheckAndConsume now peer remote (store_run ops (NewKnockSessionStoreWithLimit n)) = (None, s')"
  shows "\<exists>addr t sid port ttl uses k.
    AddrFromNet remote = Some addr \<and> k = newSessionKeyForPort addr (p_ClientID peer) (p_ServerPort peer) \<and>
    OpAdd t addr (p_ClientID peer) sid port ttl uses \<in> set ops \<and> k = newSessionKeyForPort addr (p_ClientID peer) port \<and>
    now < t + ttl \<and> (sid = [] \<or> sid = p_SessionID peer) \<and>
    granted k ops (NewKnockSessionStoreWithLimit n) + 1 \<le> offered k ops"
  using assms by (rule admitted_by_knock)

definition demo_session_peer :: PeerInfo where
  "demo_session_peer = \<lparr>p_ClientID = ''alice'', p_ClientIDHash = [], p_KeyHint = 0, p_Nonce = [], p_Timestamp = 0, p_ServerPort = 22,
     p_Method = [], p_SessionID = [7], p_Extensions = [], p_RemoteAddr = AddrNil, p_Protocol = [], p_Flags = 0\<rparr>"

theorem session_admits_only_knocked_witness:
  "\<exists>addr t sid port ttl uses k.
    AddrFromNet (TCPAddr [192, 0, 2, 1] 5000 []) = Some addr \<and> k = newSessionKeyForPort addr ''alice'' 22 \<and>
    OpAdd t addr ''alice'' sid port ttl uses \<in> set [OpAdd 0 (Addr4 [192, 0, 2, 1]) ''alice'' [7] 22 60 1] \<and> 30 < t + ttl \<and>
    (sid = [] \<or> sid = [7]) \<and>
    granted k [OpAdd 0 (Addr4 [192, 0, 2, 1]) ''alice'' [7] 22 60 1] (NewKnockSessionStoreWithLimit 8) + 1
      \<le> offered k [OpAdd 0 (Addr4 [192, 0, 2, 1]) ''alice'' [7] 22 60 1]"
proof -
  have "fst (CheckAndConsume 30 demo_session_peer (TCPAddr [192, 0, 2, 1] 5000 [])
     (store_run [OpAdd 0 (Addr4 [192, 0, 2, 1]) ''alice'' [7] 22 60 1] (NewKnockSessionStoreWithLimit 8))) = None"
    by code_simp
  then obtain s' where "CheckAndConsume 30 demo_session_peer (TCPAddr [192, 0, 2, 1] 5000 [])
     (store_run [OpAdd 0 (Addr4 [192, 0, 2, 1]) ''alice'' [7] 22 60 1] (NewKnockSessionStoreWithLimit 8)) = (None, s')"
    by (metis prod.collapse)
  from session_admits_only_knocked[OF this] show ?thesis by (auto simp: demo_session_peer_def)
qed

end
