(* ===== verification/Gate_Core.thy ===== *)
theory Gate_Core
  imports Firewall Session_Store Knock_UDP
begin

text \<open>
  What gate and relay share: the events of package observability, the timers of
  internal/timerset, the firewall helpers and small functions of internal/gatewaycore, and the
  part of the two knock handlers that opens the firewall and takes a lease. A gateway is the
  record \<open>gw\<close> of its session store, its pending timers, the state of the host its firewall commands run
  on, the events it emitted and the errors it collected; \<open>Gate\<close> and the relay extend it.
  Operations are computations of \<open>State_Monad\<close> over it. A timer is the data its closure captured.
\<close>

section \<open>Events, timers and state\<close>

datatype gw_event =
    OnKnockOK netip_Addr string string int duration
  | OnKnockFail netip_Addr string string "error option"
  | OnFirewallAllow netip_Addr int duration
  | OnFirewallError netip_Addr int error
  | OnRelayOK net_addr string int int duration
  | OnRelayError net_addr string string error int int

text \<open>The closures handed to \<open>AfterFunc\<close>: ending a session, and ending the session and the lease of a knock.\<close>

datatype task = EndSession netip_Addr string int | EndKnock netip_Addr string int u64 Backend

record timer =
  tm_deadline :: time
  tm_task :: task

record 'h gw =
  gw_store :: KnockSessionStore
  gw_timers :: "timer list"
  gw_host :: 'h
  gw_events :: "gw_event list"
  gw_closeErr :: "error option"

type_synonym ('h, 'x, 'a) gw_op = "(('h, 'x) gw_scheme, 'a) state"

definition on_host :: "('h, 'a) state \<Rightarrow> ('h, 'x, 'a) gw_op" where
  "on_host m = State (\<lambda>g. case run_state m (gw_host g) of (r, h) \<Rightarrow> (r, g\<lparr>gw_host := h\<rparr>))"

definition on_store :: "(KnockSessionStore \<Rightarrow> 'a \<times> KnockSessionStore) \<Rightarrow> ('h, 'x, 'a) gw_op" where
  "on_store f = State (\<lambda>g. case f (gw_store g) of (r, s) \<Rightarrow> (r, g\<lparr>gw_store := s\<rparr>))"

definition store_do :: "(KnockSessionStore \<Rightarrow> KnockSessionStore) \<Rightarrow> ('h, 'x, unit) gw_op" where
  "store_do f = on_store (\<lambda>s. ((), f s))"

text \<open>\<open>EventEmitter\<close>: an event is emitted when a sink is configured.\<close>

definition emit :: "bool \<Rightarrow> gw_event \<Rightarrow> ('h, 'x, unit) gw_op" where
  "emit sink ev = State (\<lambda>g. ((), if sink then g\<lparr>gw_events := gw_events g @ [ev]\<rparr> else g))"

definition AfterFunc :: "time \<Rightarrow> duration \<Rightarrow> task \<Rightarrow> ('h, 'x, unit) gw_op" where
  "AfterFunc now d t = State (\<lambda>g. ((), g\<lparr>gw_timers := gw_timers g @ [\<lparr>tm_deadline = now + d, tm_task = t\<rparr>]\<rparr>))"

text \<open>\<open>StopAll\<close>: timers that have not fired never will.\<close>

definition StopAll :: "('h, 'x, unit) gw_op" where
  "StopAll = State (\<lambda>g. ((), g\<lparr>gw_timers := []\<rparr>))"

section \<open>Small helpers\<close>

definition DefaultString :: "string \<Rightarrow> string \<Rightarrow> string" where
  "DefaultString v fallback = (if v \<noteq> [] then v else fallback)"

definition DefaultKnockReplayTTL :: duration where "DefaultKnockReplayTTL = 5 * minute"

definition KnockReplayTTL :: "duration \<Rightarrow> duration" where
  "KnockReplayTTL window =
     (let window = (if window \<le> 0 then 30 * second else window); ttl = dur_wrap (2 * window + second)
      in if ttl < DefaultKnockReplayTTL then DefaultKnockReplayTTL else ttl)"

definition zero_FwConfig :: FwConfig where
  "zero_FwConfig = \<lparr>fc_Backend = [], fc_Port = 0, fc_AllowSeconds = 0, fc_CommandTimeout = 0, fc_Runner = False,
     fc_DropUDPKnockPort = False, fc_UDPKnockPort = 0, fc_EnableIPv6 = None,
     fc_Nftables = \<lparr>nf_Table = [], nf_Chain = [], nf_SetV4 = [], nf_SetV6 = [], nf_Family = []\<rparr>,
     fc_Iptables_Chain = [], fc_IPSet = \<lparr>ip_Set = [], ip_SetV6 = []\<rparr>,
     fc_Script = \<lparr>sc_AllowCmd = [], sc_RevokeCmd = [], sc_CleanupCmd = []\<rparr>\<rparr>"

definition Describe :: "'h fw_env \<Rightarrow> string \<Rightarrow> ('h, Capabilities) state" where
  "Describe env name = DescribeWithConfig env name zero_FwConfig"

definition ShouldManualRevoke :: "'h fw_env \<Rightarrow> Backend \<Rightarrow> ('h, bool) state" where
  "ShouldManualRevoke env fw = do { caps \<leftarrow> Describe env (backend_Name fw); State_Monad.return (\<not> ca_Timeout caps) }"

definition ConfigureFirewallPort :: "Backend \<Rightarrow> int \<Rightarrow> Backend result" where
  "ConfigureFirewallPort fw port = WithPort (Some fw) port"

definition CleanupFirewallDetached :: "'h fw_env \<Rightarrow> Backend \<Rightarrow> ('h, 'x, error option) gw_op" where
  "CleanupFirewallDetached env fw = on_host (backend_Cleanup env fw)"

definition InitFirewall :: "'h fw_env \<Rightarrow> Backend \<Rightarrow> ('h, 'x, error option) gw_op" where
  "InitFirewall env fw = do {
     e \<leftarrow> on_host (backend_Init env fw);
     case e of None \<Rightarrow> State_Monad.return None
     | Some err \<Rightarrow> do {
         cleanupErr \<leftarrow> CleanupFirewallDetached env fw;
         State_Monad.return (errors_Join (Some (JoinErr (Errorf (''initialize firewall backend '' @ backend_Name fw)) err)) cleanupErr) } }"

definition AllowFirewall ::
    "'h fw_env \<Rightarrow> bool \<Rightarrow> Backend \<Rightarrow> netip_Addr \<Rightarrow> int \<Rightarrow> duration \<Rightarrow> ('h, 'x, error option) gw_op" where
  "AllowFirewall env sink fw remote port ttl = do {
     e \<leftarrow> on_host (backend_Allow env fw remote port ttl);
     _ \<leftarrow> emit sink (case e of Some err \<Rightarrow> OnFirewallError remote port err | None \<Rightarrow> OnFirewallAllow remote port ttl);
     State_Monad.return e }"

text \<open>\<open>RevokeFirewall\<close> and \<open>RevokeFirewallDetached\<close> differ only in their contexts.\<close>

definition revokeFirewall :: "'h fw_env \<Rightarrow> bool \<Rightarrow> Backend \<Rightarrow> netip_Addr \<Rightarrow> int \<Rightarrow> ('h, 'x, error option) gw_op" where
  "revokeFirewall env sink fw remote port = do {
     e \<leftarrow> on_host (backend_Revoke env fw remote port);
     case e of None \<Rightarrow> State_Monad.return None
     | Some err \<Rightarrow> do { _ \<leftarrow> emit sink (OnFirewallError remote port err); State_Monad.return (Some err) } }"

definition ValidateDropUDPKnockPort :: "Backend \<Rightarrow> string \<Rightarrow> error option" where
  "ValidateDropUDPKnockPort fw meth =
     (case backend_Config fw of
        None \<Rightarrow> None
      | Some cfg \<Rightarrow>
          if \<not> fc_DropUDPKnockPort cfg then None
          else if meth = ''udp-passive'' \<or> meth = ''udp-passive-seq'' then None
          else Some (Errorf (''drop_udp_knock_port requires udp-passive knock methods, got '' @ meth)))"

section \<open>Opening the firewall for a knock\<close>

text \<open>The instants of the clock while a knock is handled: in \<open>MarkFirewall\<close>, in \<open>AddSession\<close> and when the timer starts.\<close>

record knock_clock =
  kc_mark :: time
  kc_session :: time
  kc_timer :: time

definition allow_ttl :: "duration \<Rightarrow> duration" where
  "allow_ttl ttl = (if ttl \<le> 0 then minute else ttl)"

text \<open>
  The part the handlers of gate and relay have in common: allow the address, then take a lease;
  without a lease the permission is withdrawn again, unless the backend expires it by itself.
  The result is the lease. \<open>now\<close> is the clock of the store.
\<close>

definition open_firewall ::
    "'h fw_env \<Rightarrow> bool \<Rightarrow> Backend \<Rightarrow> netip_Addr \<Rightarrow> string \<Rightarrow> int \<Rightarrow> duration \<Rightarrow> time \<Rightarrow> ('h, 'x, u64 option) gw_op" where
  "open_firewall env sink fw remote clientID port ttl now = do {
     e \<leftarrow> AllowFirewall env sink fw remote port ttl;
     case e of
       Some err \<Rightarrow> do {
         _ \<leftarrow> emit sink (OnKnockFail remote clientID ''firewall_allow_failed'' (Some err));
         State_Monad.return None }
     | None \<Rightarrow> do {
         lease \<leftarrow> on_store (MarkFirewall now remote port ttl);
         case lease of
           Some i \<Rightarrow> State_Monad.return (Some i)
         | None \<Rightarrow> do {
             manual \<leftarrow> on_host (ShouldManualRevoke env fw);
             _ \<leftarrow> (if manual then revokeFirewall env sink fw remote port else State_Monad.return None);
             _ \<leftarrow> emit sink (OnKnockFail remote clientID ''firewall_lease_store_full'' None);
             State_Monad.return None } } }"

text \<open>The end of a lease, when its timer fires: the permission is withdrawn if the lease is still the current one and over.\<close>

definition end_lease :: "'h fw_env \<Rightarrow> bool \<Rightarrow> Backend \<Rightarrow> netip_Addr \<Rightarrow> int \<Rightarrow> u64 \<Rightarrow> time \<Rightarrow> ('h, 'x, error option) gw_op" where
  "end_lease env sink fw remote port lease now = do {
     over \<leftarrow> on_store (ExpireFirewall remote port lease now);
     manual \<leftarrow> (if over then on_host (ShouldManualRevoke env fw) else State_Monad.return False);
     if manual then revokeFirewall env sink fw remote port else State_Monad.return None }"

end
