(* ===== verification/Auth_Pool.thy ===== *)
theory Auth_Pool
  imports IP_Limit
begin

text \<open>
  What the accept loops of netx/listener.go and relay/gateway.go have in common: the backoff of
  internal/acceptx after temporary errors, and the admission of accepted connections to a bounded
  queue that a bounded number of workers serves, with a cap per source
  (\<open>IP_Limit\<close>). A connection is a number with the data \<open>'c\<close> the caller keeps for it; its
  release function stays in the table \<open>po_releases\<close> until it is called.
\<close>

section \<open>acceptx\<close>

definition minBackoff :: duration where "minBackoff = 5 * millisecond"
definition maxBackoff :: duration where "maxBackoff = second"

datatype errno = EMFILE | ENFILE | ENOBUFS | ENOMEM | ECONNABORTED | ECONNRESET | OtherErrno int

text \<open>
  What \<open>IsTemporary\<close> asks of an error: whether its chain holds \<open>net.ErrClosed\<close>, what its first
  \<open>net.Error\<close> says about timeouts, and its errno.
\<close>

record accept_error =
  ae_closed :: bool
  ae_timeout :: "bool option"
  ae_errno :: "errno option"

definition IsTemporary :: "accept_error option \<Rightarrow> bool" where
  "IsTemporary e = (case e of None \<Rightarrow> False
     | Some err \<Rightarrow>
         if ae_closed err then False
         else if ae_timeout err = Some True then True
         else ae_errno err \<in> Some ` set [EMFILE, ENFILE, ENOBUFS, ENOMEM, ECONNABORTED, ECONNRESET])"

text \<open>\<open>Backoff.Next\<close>; the delay it returns is the one it keeps. \<open>Reset\<close> sets it to 0.\<close>

definition backoff_Next :: "duration \<Rightarrow> duration" where
  "backoff_Next delay =
     (let delay = (if delay = 0 then minBackoff else dur_wrap (delay * 2))
      in if delay > maxBackoff then maxBackoff else delay)"

fun backoff_after :: "nat \<Rightarrow> duration" where
  "backoff_after 0 = 0"
| "backoff_after (Suc n) = backoff_Next (backoff_after n)"

lemma backoff_consts: "minBackoff = 5000000" "maxBackoff = 1000000000"
  by (simp_all add: minBackoff_def maxBackoff_def time_defs)

lemma backoff_Next_doubles: "0 < d \<Longrightarrow> d \<le> maxBackoff \<Longrightarrow> backoff_Next d = min maxBackoff (2 * d)"
  by (simp add: backoff_Next_def Let_def backoff_consts dur_wrap_id time_defs min_def)

lemma backoff_closed_form: "backoff_after (Suc n) = min maxBackoff (minBackoff * 2 ^ n)"
proof (induction n)
  case 0
  then show ?case by (simp add: backoff_Next_def Let_def backoff_consts)
next
  case (Suc n)
  have pos: "0 < backoff_after (Suc n)" "backoff_after (Suc n) \<le> maxBackoff"
    unfolding Suc by (simp_all add: backoff_consts)
  have "backoff_after (Suc (Suc n)) = min maxBackoff (2 * backoff_after (Suc n))"
    using backoff_Next_doubles[OF pos] by simp
  then show ?case unfolding Suc by (simp add: backoff_consts min_def)
qed

section \<open>The pool\<close>

record 'c pool =
  po_capacity :: int
  po_workers :: int
  po_perSource :: "Limiter option"
  po_releases :: "(nat \<times> release) list"
  po_pending :: "(nat \<times> 'c) list"
  po_busy :: "(nat \<times> 'c) list"

definition pool_new :: "int \<Rightarrow> int \<Rightarrow> int \<Rightarrow> 'c pool" where
  "pool_new capacity workers perSource =
     \<lparr>po_capacity = capacity, po_workers = workers, po_perSource = IP_Limit.New perSource, po_releases = [], po_pending = [], po_busy = []\<rparr>"

definition pool_release :: "nat \<Rightarrow> 'c pool \<Rightarrow> 'c pool" where
  "pool_release i p =
     (case map_of (po_releases p) i of
        None \<Rightarrow> p
      | Some r \<Rightarrow> p\<lparr>po_perSource := fst (call_release (po_perSource p) r), po_releases := AList.delete i (po_releases p)\<rparr>)"

text \<open>
  The fate of an accepted connection: refused by the cap per source, queued, refused because the
  queue is full, or refused because the loop is being stopped. \<open>stop\<close> says whether the channel that
  stops the loop is closed; when there is room too, \<open>prefer_stop\<close> is what \<open>select\<close> picks.
\<close>

datatype offer = SourceLimited | Queued | QueueFull | Stopped

definition pool_offer :: "bool \<Rightarrow> bool \<Rightarrow> nat \<Rightarrow> net_addr \<Rightarrow> 'c \<Rightarrow> 'c pool \<Rightarrow> offer \<times> 'c pool" where
  "pool_offer stop prefer_stop i remote c p =
     (case Acquire (po_perSource p) remote of
        (lim, None) \<Rightarrow> (SourceLimited, p\<lparr>po_perSource := lim\<rparr>)
      | (lim, Some r) \<Rightarrow>
          let p = p\<lparr>po_perSource := lim, po_releases := po_releases p @ [(i, r)]\<rparr>;
              room = (int (length (po_pending p)) < po_capacity p)
          in if room \<and> \<not> (stop \<and> prefer_stop) then (Queued, p\<lparr>po_pending := po_pending p @ [(i, c)]\<rparr>)
             else if stop then (Stopped, pool_release i p)
             else (QueueFull, pool_release i p))"

text \<open>A free worker takes the head of the queue; when it is done with it, it gives the slot of the source back.\<close>

definition pool_take :: "'c pool \<Rightarrow> ((nat \<times> 'c) \<times> 'c pool) option" where
  "pool_take p =
     (case po_pending p of
        [] \<Rightarrow> None
      | x # xs \<Rightarrow> if int (length (po_busy p)) < po_workers p
                then Some (x, p\<lparr>po_pending := xs, po_busy := po_busy p @ [x]\<rparr>) else None)"

definition pool_finish :: "nat \<Rightarrow> 'c pool \<Rightarrow> 'c pool" where
  "pool_finish i p = pool_release i (p\<lparr>po_busy := filter (\<lambda>(j, _). j \<noteq> i) (po_busy p)\<rparr>)"

section \<open>Invariant\<close>

definition pool_conns :: "'c pool \<Rightarrow> (nat \<times> 'c) list" where
  "pool_conns p = po_pending p @ po_busy p"

text \<open>
  A slot is held exactly for the connections that are queued or being served: the release functions
  in the table are those of these connections, each of the source of its connection.
\<close>

definition release_fits :: "Limiter option \<Rightarrow> net_addr \<Rightarrow> release \<Rightarrow> bool" where
  "release_fits lim remote r \<longleftrightarrow>
     r = (case lim of None \<Rightarrow> ReleaseNothing
          | Some _ \<Rightarrow> (case IP_Limit.Key remote of None \<Rightarrow> ReleaseNothing | Some k \<Rightarrow> ReleaseSlot k False))"

definition pool_inv :: "int \<Rightarrow> ('c \<Rightarrow> net_addr) \<Rightarrow> 'c pool \<Rightarrow> bool" where
  "pool_inv mx addr p \<longleftrightarrow>
     limiter_inv mx (po_perSource p, map snd (po_releases p)) \<and>
     distinct (map fst (po_releases p)) \<and> distinct (map fst (pool_conns p)) \<and>
     set (map fst (po_releases p)) = set (map fst (pool_conns p)) \<and>
     (\<forall>(i, c) \<in> set (pool_conns p). \<exists>r. map_of (po_releases p) i = Some r \<and> release_fits (po_perSource p) (addr c) r) \<and>
     int (length (po_pending p)) \<le> max 0 (po_capacity p) \<and> int (length (po_busy p)) \<le> max 0 (po_workers p)"

lemma pool_inv_new: "pool_inv mx addr (pool_new capacity workers mx)"
  by (simp add: pool_inv_def pool_new_def pool_conns_def limiter_inv_New)

lemma limiter_inv_cong: "(\<And>k. held k rs = held k rs') \<Longrightarrow> limiter_inv mx (l, rs) \<Longrightarrow> limiter_inv mx (l, rs')"
proof -
  assume "\<And>k. held k rs = held k rs'"
  then have "(\<lambda>k. held k rs) = (\<lambda>k. held k rs')" by blast
  then show "limiter_inv mx (l, rs) \<Longrightarrow> limiter_inv mx (l, rs')" by (cases l) (simp_all add: limiter_inv_def fun_eq_iff)
qed

lemma held_delete:
  assumes "distinct (map fst rels)" and "map_of rels i = Some r"
  shows "held k (map snd (AList.delete i rels)) = held k (map snd rels) - (if r = ReleaseSlot k False then 1 else 0)"
  using assms
proof (induction rels)
  case (Cons x rels)
  show ?case
  proof (cases "fst x = i")
    case True
    then have "AList.delete i (x # rels) = rels" using Cons.prems(1)
      by (auto simp: AList.delete_eq filter_id_conv image_iff)
    then show ?thesis using Cons.prems True by (cases x) (simp add: held_def)
  next
    case False
    then have "AList.delete i (x # rels) = x # AList.delete i rels" by (cases x) (simp add: AList.delete_eq)
    then show ?thesis using Cons False by (cases x) (auto simp: held_def split: if_splits)
  qed
qed simp

lemma call_release_inv:
  assumes inv: "limiter_inv mx (lim, map snd rels)" and "distinct (map fst rels)" and r: "map_of rels i = Some r"
  shows "limiter_inv mx (fst (call_release lim r), map snd (AList.delete i rels))"
    and "fst (call_release lim r) = None \<longleftrightarrow> lim = None"
proof -
  obtain lim' r' where c: "call_release lim r = (lim', r')" by (rule prod.exhaust)
  from r have "(i, r) \<in> set rels" by (rule map_of_SomeD)
  then obtain n where n: "n < length rels" "rels ! n = (i, r)" by (auto simp: in_set_conv_nth)
  then have n': "n < length (map snd rels)" "map snd rels ! n = r" by simp_all
  have "limiter_step (lim, map snd rels) (lim', (map snd rels)[n := r'])"
    using released[OF n'(1), of lim lim' r'] c n'(2) by simp
  then have inv': "limiter_inv mx (lim', (map snd rels)[n := r'])" using inv by (rule limiter_inv_step)
  have fresh: "r' \<noteq> ReleaseSlot k False" if "lim = None \<longrightarrow> r \<noteq> ReleaseSlot k False" for k
    using c that by (cases rule: call_release_cases) auto
  have none: "lim = None \<Longrightarrow> r \<noteq> ReleaseSlot k False" for k
    using inv n' held_pos[OF n'(1), of k] by (auto simp: limiter_inv_def)
  have "held k ((map snd rels)[n := r']) = held k (map snd (AList.delete i rels))" for k
    using held_update[OF n'(1), of k r'] held_delete[OF assms(2) r, of k] fresh[of k] none[of k] n'(2) by auto
  with inv' show "limiter_inv mx (fst (call_release lim r), map snd (AList.delete i rels))"
    using limiter_inv_cong c by fastforce
  show "fst (call_release lim r) = None \<longleftrightarrow> lim = None"
    unfolding c using c by (cases rule: call_release_cases) auto
qed

lemma release_fits_cong: "(lim' = None) = (lim = None) \<Longrightarrow> release_fits lim' a r = release_fits lim a r"
  by (cases lim; cases lim') (auto simp: release_fits_def)

text \<open>Releasing the slot of a connection that has left the pool.\<close>

lemma pool_release_inv:
  assumes lim: "limiter_inv mx (po_perSource p, map snd (po_releases p))" and d: "distinct (map fst (po_releases p))" "distinct (map fst (pool_conns p))"
    and dom: "set (map fst (po_releases p)) = insert i (set (map fst (pool_conns p)))" and i: "i \<notin> set (map fst (pool_conns p))"
    and fits: "\<forall>(j, c) \<in> set (pool_conns p). \<exists>r. map_of (po_releases p) j = Some r \<and> release_fits (po_perSource p) (addr c) r"
    and len: "int (length (po_pending p)) \<le> max 0 (po_capacity p)" "int (length (po_busy p)) \<le> max 0 (po_workers p)"
  shows "pool_inv mx addr (pool_release i p)"
proof -
  have "i \<in> fst ` set (po_releases p)" using dom by auto
  then obtain r where r: "map_of (po_releases p) i = Some r" by (metis domD dom_map_of_conv_image_fst)
  let ?p = "pool_release i p"
  have p: "?p = p\<lparr>po_perSource := fst (call_release (po_perSource p) r), po_releases := AList.delete i (po_releases p)\<rparr>"
    by (simp add: pool_release_def r)
  have conns: "pool_conns ?p = pool_conns p" by (simp add: p pool_conns_def)
  have keys: "set (map fst (AList.delete i (po_releases p))) = set (map fst (po_releases p)) - {i}"
    by (simp only: delete_keys set_removeAll)
  have "\<exists>r'. map_of (po_releases ?p) j = Some r' \<and> release_fits (po_perSource ?p) (addr c) r'" if "(j, c) \<in> set (pool_conns p)" for j c
  proof -
    have "j \<noteq> i" using that i by force
    then show ?thesis using fits that release_fits_cong[OF call_release_inv(2)[OF lim d(1) r]] by (fastforce simp: p delete_conv')
  qed
  then show ?thesis
    unfolding pool_inv_def conns
    using call_release_inv(1)[OF lim d(1) r] d dom i len keys
    by (auto simp: p distinct_delete)
qed

lemma Acquire_inv:
  assumes inv: "limiter_inv mx (lim, rs)" and a: "Acquire lim remote = (lim', ro)"
  shows "ro = Some r \<Longrightarrow> limiter_inv mx (lim', rs @ [r]) \<and> release_fits lim remote r" and "ro = None \<Longrightarrow> lim' = lim" and "lim' = None \<longleftrightarrow> lim = None"
proof -
  show "ro = Some r \<Longrightarrow> limiter_inv mx (lim', rs @ [r]) \<and> release_fits lim remote r"
    using limiter_inv_step[OF acquired inv] a
    by (auto simp: release_fits_def Acquire_def split: option.splits if_splits)
  show "ro = None \<Longrightarrow> lim' = lim" "lim' = None \<longleftrightarrow> lim = None"
    using a by (auto simp: Acquire_def split: option.splits if_splits)
qed

lemma pool_offer_inv:
  assumes inv: "pool_inv mx addr p" and fresh: "i \<notin> set (map fst (pool_conns p))" and remote: "remote = addr c"
    and o: "pool_offer stop prefer i remote c p = (res, p')"
  shows "pool_inv mx addr p'"
    and "po_pending p' = po_pending p @ (if res = Queued then [(i, c)] else [])" "po_busy p' = po_busy p"
proof -
  obtain lim ro where a: "Acquire (po_perSource p) remote = (lim, ro)" by (rule prod.exhaust)
  have L: "limiter_inv mx (po_perSource p, map snd (po_releases p))" using inv by (simp add: pool_inv_def)
  note acq = Acquire_inv[OF L a]
  have "pool_inv mx addr p' \<and> po_pending p' = po_pending p @ (if res = Queued then [(i, c)] else []) \<and> po_busy p' = po_busy p"
  proof (cases ro)
    case None
    then have "p' = p" "res = SourceLimited" using o a acq(2) by (auto simp: pool_offer_def)
    then show ?thesis using inv by simp
  next
    case (Some r)
    let ?p = "p\<lparr>po_perSource := lim, po_releases := po_releases p @ [(i, r)]\<rparr>"
    have i: "i \<notin> fst ` set (po_releases p)" using inv fresh by (auto simp: pool_inv_def)
    have fits: "\<exists>r'. map_of (po_releases ?p) j = Some r' \<and> release_fits lim (addr d) r'" if "(j, d) \<in> set (pool_conns p)" for j d
      using inv that release_fits_cong[OF acq(3)] by (fastforce simp: pool_inv_def map_add_Some_iff)
    have new: "map_of (po_releases ?p) i = Some r" using i by (simp add: map_add_Some_iff map_of_eq_None_iff)
    have conns: "pool_conns ?p = pool_conns p" by (simp add: pool_conns_def)
    show ?thesis
    proof (cases "int (length (po_pending p)) < po_capacity p \<and> \<not> (stop \<and> prefer)")
      case True
      then have p': "p' = ?p\<lparr>po_pending := po_pending p @ [(i, c)]\<rparr>" "res = Queued"
        using o a Some by (auto simp: pool_offer_def Let_def)
      have "set (pool_conns p') = insert (i, c) (set (pool_conns p))" by (auto simp: p' pool_conns_def)
      moreover have "distinct (map fst (pool_conns p'))" using inv fresh by (auto simp: p' pool_conns_def pool_inv_def)
      ultimately show ?thesis
        using inv True acq(1)[OF Some] i fits new release_fits_cong[OF acq(3)] remote
        unfolding pool_inv_def by (auto simp: p')
    next
      case False
      then have p': "p' = pool_release i ?p" "res \<noteq> Queued"
        using o a Some by (auto simp: pool_offer_def Let_def split: if_splits)
      have "pool_inv mx addr (pool_release i ?p)"
        by (rule pool_release_inv) (use inv acq(1)[OF Some] i fresh fits in \<open>auto simp: pool_inv_def conns\<close>)
      then show ?thesis using p' new by (simp add: pool_release_def)
    qed
  qed
  then show "pool_inv mx addr p'" "po_pending p' = po_pending p @ (if res = Queued then [(i, c)] else [])" "po_busy p' = po_busy p"
    by blast+
qed

lemma pool_take_inv:
  assumes "pool_inv mx addr p" and "pool_take p = Some (x, p')"
  shows "pool_inv mx addr p'" "x \<in> set (po_pending p)" "po_pending p = x # po_pending p'" "po_busy p' = po_busy p @ [x]"
proof -
  from assms(2) obtain xs where xs: "po_pending p = x # xs" "int (length (po_busy p)) < po_workers p"
      "p' = p\<lparr>po_pending := xs, po_busy := po_busy p @ [x]\<rparr>"
    by (auto simp: pool_take_def split: list.splits if_splits)
  then show "x \<in> set (po_pending p)" "po_pending p = x # po_pending p'" "po_busy p' = po_busy p @ [x]" by simp_all
  have conns: "set (pool_conns p') = set (pool_conns p)" "distinct (map fst (pool_conns p')) = distinct (map fst (pool_conns p))"
    using xs by (auto simp: pool_conns_def)
  have fields: "po_releases p' = po_releases p" "po_perSource p' = po_perSource p" "po_capacity p' = po_capacity p" "po_workers p' = po_workers p"
    "length (po_pending p') \<le> length (po_pending p)" "int (length (po_busy p')) \<le> max 0 (po_workers p)"
    using xs by simp_all
  show "pool_inv mx addr p'"
    using assms(1) fields unfolding pool_inv_def list.set_map conns fields(1-4) by linarith
qed

lemma pool_finish_inv:
  assumes inv: "pool_inv mx addr p" and i: "i \<in> set (map fst (po_busy p))"
  shows "pool_inv mx addr (pool_finish i p)" "po_pending (pool_finish i p) = po_pending p"
    "po_busy (pool_finish i p) = filter (\<lambda>(j, _). j \<noteq> i) (po_busy p)"
proof -
  let ?p = "p\<lparr>po_busy := filter (\<lambda>(j, _). j \<noteq> i) (po_busy p)\<rparr>"
  have d: "distinct (map fst (po_pending p))" "distinct (map fst (po_busy p))" "set (map fst (po_pending p)) \<inter> set (map fst (po_busy p)) = {}"
    using inv by (auto simp: pool_inv_def pool_conns_def)
  have conns: "set (pool_conns ?p) = {(j, c). (j, c) \<in> set (pool_conns p) \<and> j \<noteq> i}"
    using d(3) i by (force simp: pool_conns_def)
  have keys: "set (map fst (pool_conns ?p)) = set (map fst (pool_conns p)) - {i}" using conns by force
  have fields: "po_releases ?p = po_releases p" "po_perSource ?p = po_perSource p" "po_capacity ?p = po_capacity p" "po_workers ?p = po_workers p"
    "po_pending ?p = po_pending p" by simp_all
  have "length (filter (\<lambda>(j, _). j \<noteq> i) (po_busy p)) \<le> length (po_busy p)" by (rule length_filter_le)
  moreover have "int (length (po_busy p)) \<le> max 0 (po_workers p)" using inv unfolding pool_inv_def by blast
  ultimately have "int (length (filter (\<lambda>(j, _). j \<noteq> i) (po_busy p))) \<le> max 0 (po_workers p)" by linarith
  then have busy: "int (length (po_busy ?p)) \<le> max 0 (po_workers p)" by simp
  have dc: "distinct (map fst (pool_conns ?p))"
    using d distinct_map_filter[OF d(2), of "\<lambda>(j, _). j \<noteq> i"] by (auto simp: pool_conns_def)
  have "i \<in> set (map fst (pool_conns p))" using i by (simp add: pool_conns_def)
  then have dom: "set (map fst (po_releases p)) = insert i (set (map fst (pool_conns ?p)))"
    using inv unfolding pool_inv_def keys by blast
  have fits: "\<forall>(j, c) \<in> set (pool_conns ?p). \<exists>r. map_of (po_releases p) j = Some r \<and> release_fits (po_perSource p) (addr c) r"
    using inv unfolding pool_inv_def conns by blast
  have L: "limiter_inv mx (po_perSource p, map snd (po_releases p))" and dr: "distinct (map fst (po_releases p))"
    and cap: "int (length (po_pending p)) \<le> max 0 (po_capacity p)" using inv unfolding pool_inv_def by blast+
  have ni: "i \<notin> set (map fst (pool_conns ?p))" unfolding keys by blast
  show "pool_inv mx addr (pool_finish i p)"
    unfolding pool_finish_def by (rule pool_release_inv[of mx ?p i addr, unfolded fields, OF L dr dc dom ni fits cap busy])
  show "po_pending (pool_finish i p) = po_pending p" "po_busy (pool_finish i p) = filter (\<lambda>(j, _). j \<noteq> i) (po_busy p)"
    by (simp_all add: pool_finish_def pool_release_def split: option.split)
qed

text \<open>The connections of one source in the pool.\<close>

definition from_source :: "('c \<Rightarrow> net_addr) \<Rightarrow> string \<Rightarrow> 'c pool \<Rightarrow> int" where
  "from_source addr k p = int (length (filter (\<lambda>(_, c). IP_Limit.Key (addr c) = Some k) (pool_conns p)))"

lemma pool_bounds:
  assumes inv: "pool_inv mx addr p" and "0 < mx"
  shows "from_source addr k p \<le> mx"
proof -
  obtain l where l: "po_perSource p = Some l" using assms by (cases "po_perSource p") (auto simp: pool_inv_def limiter_inv_def)
  let ?cs = "filter (\<lambda>(_, c). IP_Limit.Key (addr c) = Some k) (pool_conns p)"
  let ?rs = "filter (\<lambda>x. snd x = ReleaseSlot k False) (po_releases p)"
  have d: "distinct (map fst ?cs)" using inv by (simp add: pool_inv_def distinct_map_filter)
  have sub: "set (map fst ?cs) \<subseteq> set (map fst ?rs)"
  proof
    fix i assume "i \<in> set (map fst ?cs)"
    then obtain c where c: "(i, c) \<in> set (pool_conns p)" "IP_Limit.Key (addr c) = Some k" by auto
    then have "map_of (po_releases p) i = Some (ReleaseSlot k False)"
      using inv l by (fastforce simp: pool_inv_def release_fits_def)
    then show "i \<in> set (map fst ?rs)" by (force dest: map_of_SomeD)
  qed
  have "length ?cs = card (set (map fst ?cs))" using distinct_card[OF d] by simp
  also have "\<dots> \<le> card (set (map fst ?rs))" using sub by (rule card_mono[rotated]) simp
  also have "\<dots> \<le> length ?rs" using card_length[of "map fst ?rs"] by simp
  finally have "int (length ?cs) \<le> held k (map snd (po_releases p))"
    by (simp add: held_def count_list_eq_length_filter filter_map comp_def eq_commute)
  moreover have "held k (map snd (po_releases p)) \<le> mx" using inv l by (simp add: pool_inv_def limiter_inv_def)
  ultimately show ?thesis by (simp add: from_source_def)
qed

end
