(* ===== verification/Netx.thy ===== *)
theory Netx
  imports Auth_Pool Auth_Client
begin

text \<open>
  Package netx: the listener that authenticates accepted connections before it hands them out
  (listener.go), its events (events.go) and the dialer (dialer.go). The listener is a state with
  one function per thing its goroutines do atomically: the accept loop accepts a connection or an error,
  a worker takes a queued connection, finishes its authentication, hands it over or gives it up, and
  the application closes the listener. \<open>listener_step\<close> interleaves them in any order. Connections
  carry numbers; the table \<open>po_releases\<close> of the pool is the map \<open>releases\<close> of the code.
\<close>

section \<open>Configuration\<close>

definition DefaultMaxPendingAuth :: int where "DefaultMaxPendingAuth = 128"
definition DefaultMaxAuthWorkers :: int where "DefaultMaxAuthWorkers = 32"

definition ErrNilListener :: error where "ErrNilListener = Errorf ''nil listener''"
definition ErrAuthBackpressure :: error where "ErrAuthBackpressure = Errorf ''auth pending queue full''"
definition ErrAuthSourceLimit :: error where "ErrAuthSourceLimit = Errorf ''auth per-source pending limit reached''"
definition NetErrClosed :: error where "NetErrClosed = Errorf ''use of closed network connection''"

record ('k, 'p) ListenerConfig =
  lc_Auth :: "('k, 'p) ServerConfig"
  lc_MaxPendingAuth :: int
  lc_MaxAuthWorkers :: int
  lc_MaxPendingAuthPerSource :: int
  lc_Events :: bool

text \<open>\<open>withDefaults\<close>; the replay cache of the configuration is a separate argument.\<close>

definition listener_withDefaults ::
    "('k, 'p) ListenerConfig \<Rightarrow> 'r ReplayCache \<Rightarrow> ('k, 'p) ListenerConfig \<times> 'r ReplayCache" where
  "listener_withDefaults c rc =
     (let a = server_WithDefaults (lc_Auth c)
      in (c\<lparr>lc_Auth := a,
            lc_MaxPendingAuth := (if lc_MaxPendingAuth c \<le> 0 then DefaultMaxPendingAuth else lc_MaxPendingAuth c),
            lc_MaxAuthWorkers := (if lc_MaxAuthWorkers c \<le> 0 then DefaultMaxAuthWorkers else lc_MaxAuthWorkers c)\<rparr>,
          case rc of NilReplayCache \<Rightarrow> MemoryCache (NewMemoryReplayCache (dur_wrap (s_TimeWindow a * 2))) | _ \<Rightarrow> rc))"

section \<open>The authenticated listener\<close>

text \<open>
  \<open>al_waiting\<close> holds the authenticated connections whose workers wait for \<open>Accept\<close>, \<open>al_delivered\<close>
  those \<open>Accept\<close> has returned. \<open>al_loop\<close> says that the accept loop runs, \<open>al_exited\<close> counts the
  workers that have left, \<open>al_closed\<close> the connections the listener has closed.
\<close>

record ('r, 'k, 'p) AuthenticatedListener =
  al_cfg :: "('k, 'p) ListenerConfig"
  al_server :: "('k, 'p) ServerConfig"
  al_world :: "('r, 'k, 'p) world"
  al_pool :: "conn pool"
  al_waiting :: "(nat \<times> conn \<times> PeerInfo) list"
  al_delivered :: "(nat \<times> conn \<times> PeerInfo) list"
  al_closed :: "nat list"
  al_drops :: "(net_addr \<times> error \<times> int) list"
  al_done :: bool
  al_closeOnce :: bool
  al_loop :: bool
  al_exited :: nat
  al_err :: "error option"
  al_backoff :: duration
  al_next :: nat

definition WrapListenerWithConfigE ::
    "('k, 'p) ListenerConfig \<Rightarrow> 'r ReplayCache \<Rightarrow> 'k \<Rightarrow> 'p \<Rightarrow> ('r, 'k, 'p) AuthenticatedListener result" where
  "WrapListenerWithConfigE cfg0 rc0 knock policy =
     (case listener_withDefaults cfg0 rc0 of (cfg, rc) \<Rightarrow>
        rbind (NewServer (lc_Auth cfg) rc) (\<lambda>(server, rc). Inr
          \<lparr>al_cfg = cfg, al_server = server, al_world = \<lparr>w_replay = rc, w_knock = knock, w_policy = policy, w_events = []\<rparr>,
           al_pool = pool_new (lc_MaxPendingAuth cfg) (lc_MaxAuthWorkers cfg) (lc_MaxPendingAuthPerSource cfg),
           al_waiting = [], al_delivered = [], al_closed = [], al_drops = [], al_done = False, al_closeOnce = False, al_loop = True,
           al_exited = 0, al_err = None, al_backoff = 0, al_next = 0\<rparr>))"

definition setErr :: "error \<Rightarrow> ('r, 'k, 'p) AuthenticatedListener \<Rightarrow> ('r, 'k, 'p) AuthenticatedListener" where
  "setErr err l = (if al_err l = None then l\<lparr>al_err := Some err\<rparr> else l)"

definition acceptErr :: "('r, 'k, 'p) AuthenticatedListener \<Rightarrow> error" where
  "acceptErr l = (case al_err l of Some err \<Rightarrow> err | None \<Rightarrow> NetErrClosed)"

definition reportAuthDrop :: "net_addr \<Rightarrow> error \<Rightarrow> ('r, 'k, 'p) AuthenticatedListener \<Rightarrow> ('r, 'k, 'p) AuthenticatedListener" where
  "reportAuthDrop remote reason l =
     (if lc_Events (al_cfg l) then l\<lparr>al_drops := al_drops l @ [(remote, reason, int (length (po_pending (al_pool l))))]\<rparr> else l)"

definition close_conn :: "nat \<Rightarrow> ('r, 'k, 'p) AuthenticatedListener \<Rightarrow> ('r, 'k, 'p) AuthenticatedListener" where
  "close_conn i l = l\<lparr>al_closed := al_closed l @ [i]\<rparr>"

text \<open>The accept loop on an accepted connection. \<open>prefer\<close> is what \<open>select\<close> picks when it can both queue and stop.\<close>

definition accept_conn :: "bool \<Rightarrow> conn \<Rightarrow> ('r, 'k, 'p) AuthenticatedListener \<Rightarrow> ('r, 'k, 'p) AuthenticatedListener" where
  "accept_conn prefer c l =
     (let i = al_next l; l = l\<lparr>al_backoff := 0, al_next := Suc (al_next l)\<rparr>
      in case pool_offer (al_done l) prefer i (cn_remote c) c (al_pool l) of (res, p) \<Rightarrow>
           let l = l\<lparr>al_pool := p\<rparr>
           in (case res of
                 Queued \<Rightarrow> l
               | SourceLimited \<Rightarrow> close_conn i (reportAuthDrop (cn_remote c) ErrAuthSourceLimit l)
               | QueueFull \<Rightarrow> close_conn i (reportAuthDrop (cn_remote c) ErrAuthBackpressure l)
               | Stopped \<Rightarrow> close_conn i (l\<lparr>al_loop := False\<rparr>)))"

text \<open>
  The accept loop on an error: after a temporary one it sleeps, and goes on unless the listener was
  closed meanwhile (\<open>stopped\<close>, for which the listener must be closed); every other error ends it.
\<close>

definition accept_error ::
    "accept_error \<Rightarrow> error \<Rightarrow> bool \<Rightarrow> ('r, 'k, 'p) AuthenticatedListener \<Rightarrow> ('r, 'k, 'p) AuthenticatedListener" where
  "accept_error e err stopped l =
     (if IsTemporary (Some e) then
        let l = l\<lparr>al_backoff := backoff_Next (al_backoff l)\<rparr>
        in if stopped \<and> al_done l then l\<lparr>al_loop := False\<rparr> else l
      else (setErr err l)\<lparr>al_done := True, al_loop := False\<rparr>)"

text \<open>A closed connection yields no more bytes.\<close>

definition cut_conn :: "conn \<Rightarrow> conn" where
  "cut_conn c = (conn_Close c)\<lparr>cn_in := (cn_in c)\<lparr>sdata := []\<rparr>\<rparr>"

definition free_workers :: "('r, 'k, 'p) AuthenticatedListener \<Rightarrow> int" where
  "free_workers l = lc_MaxAuthWorkers (al_cfg l) - int (al_exited l) - int (length (po_busy (al_pool l))) - int (length (al_waiting l))"

text \<open>A worker takes a connection and tracks it; after the listener was closed it closes it.\<close>

definition worker_take :: "('r, 'k, 'p) AuthenticatedListener \<Rightarrow> ('r, 'k, 'p) AuthenticatedListener option" where
  "worker_take l =
     (if free_workers l \<le> 0 then None
      else case pool_take (al_pool l) of
        None \<Rightarrow> None
      | Some ((i, c), p) \<Rightarrow>
          if al_done l then Some (close_conn i (l\<lparr>al_pool := p\<lparr>po_busy := map (\<lambda>(j, d). (j, if j = i then cut_conn d else d)) (po_busy p)\<rparr>\<rparr>))
          else Some (l\<lparr>al_pool := p\<rparr>))"

text \<open>A worker authenticates the connection it has taken, and gives the slot of its source back.\<close>

definition worker_finish ::
    "crypto \<Rightarrow> server_clock \<Rightarrow> nat \<Rightarrow> ('r, 'k, 'p) AuthenticatedListener \<Rightarrow> ('r, 'k, 'p) AuthenticatedListener option" where
  "worker_finish cr clk i l =
     (case map_of (po_busy (al_pool l)) i of
        None \<Rightarrow> None
      | Some c \<Rightarrow>
          (case serverAuthNormalized cr (al_server l) clk c (al_world l) of (r, c', w) \<Rightarrow>
             let l = l\<lparr>al_world := w, al_pool := pool_finish i (al_pool l)\<rparr>
             in Some (case r of Inl _ \<Rightarrow> close_conn i l | Inr peer \<Rightarrow> l\<lparr>al_waiting := al_waiting l @ [(i, c', peer)]\<rparr>)))"

text \<open>\<open>Accept\<close> receives a connection a worker offers; a worker that sees the listener closed gives it up and leaves.\<close>

definition take_waiting :: "nat \<Rightarrow> ('r, 'k, 'p) AuthenticatedListener \<Rightarrow> ('r, 'k, 'p) AuthenticatedListener" where
  "take_waiting i l = l\<lparr>al_waiting := filter (\<lambda>(j, _). j \<noteq> i) (al_waiting l)\<rparr>"

definition Accept :: "nat \<Rightarrow> ('r, 'k, 'p) AuthenticatedListener \<Rightarrow> ('r, 'k, 'p) AuthenticatedListener option" where
  "Accept i l =
     (case map_of (al_waiting l) i of
        None \<Rightarrow> None
      | Some x \<Rightarrow> Some ((take_waiting i l)\<lparr>al_delivered := al_delivered l @ [(i, x)]\<rparr>))"

definition worker_give_up :: "nat \<Rightarrow> ('r, 'k, 'p) AuthenticatedListener \<Rightarrow> ('r, 'k, 'p) AuthenticatedListener option" where
  "worker_give_up i l =
     (if \<not> al_done l \<or> map_of (al_waiting l) i = None then None
      else Some (close_conn i ((take_waiting i l)\<lparr>al_exited := Suc (al_exited l)\<rparr>)))"

definition listener_Close :: "('r, 'k, 'p) AuthenticatedListener \<Rightarrow> ('r, 'k, 'p) AuthenticatedListener" where
  "listener_Close l =
     (if al_closeOnce l then l
      else let l = (setErr NetErrClosed l)\<lparr>al_done := True, al_closeOnce := True\<rparr>; p = al_pool l
      in l\<lparr>al_pool := p\<lparr>po_busy := map (\<lambda>(i, c). (i, cut_conn c)) (po_busy p)\<rparr>, al_closed := al_closed l @ map fst (po_busy p)\<rparr>)"

inductive listener_step :: "crypto \<Rightarrow> ('r, 'k, 'p) AuthenticatedListener \<Rightarrow> ('r, 'k, 'p) AuthenticatedListener \<Rightarrow> bool" for cr where
  loop_conn: "al_loop l \<Longrightarrow> listener_step cr l (accept_conn prefer c l)"
| loop_error: "al_loop l \<Longrightarrow> listener_step cr l (accept_error e err stopped l)"
| taken: "worker_take l = Some l' \<Longrightarrow> listener_step cr l l'"
| finished: "worker_finish cr clk i l = Some l' \<Longrightarrow> listener_step cr l l'"
| handed: "Accept i l = Some l' \<Longrightarrow> listener_step cr l l'"
| dropped: "worker_give_up i l = Some l' \<Longrightarrow> listener_step cr l l'"
| closed: "listener_step cr l (listener_Close l)"

inductive_cases listener_stepE: "listener_step cr l l'"

section \<open>Invariant\<close>

lemma pool_inv_busy:
  assumes "pool_inv mx addr p" and "\<And>i c. addr (f i c) = addr c"
  shows "pool_inv mx addr (p\<lparr>po_busy := map (\<lambda>(i, c). (i, f i c)) (po_busy p)\<rparr>)"
proof -
  let ?p = "p\<lparr>po_busy := map (\<lambda>(i, c). (i, f i c)) (po_busy p)\<rparr>"
  have keys: "map fst (pool_conns ?p) = map fst (pool_conns p)" by (simp add: pool_conns_def case_prod_beta comp_def)
  have "\<exists>c'. (i, c') \<in> set (pool_conns p) \<and> addr c' = addr c" if "(i, c) \<in> set (pool_conns ?p)" for i c
    using that assms(2) by (auto simp: pool_conns_def)
  then have fits: "\<forall>(i, c) \<in> set (pool_conns ?p). \<exists>r. map_of (po_releases p) i = Some r \<and> release_fits (po_perSource p) (addr c) r"
    using assms(1) by (fastforce simp: pool_inv_def)
  have fields: "po_releases ?p = po_releases p" "po_perSource ?p = po_perSource p" "po_capacity ?p = po_capacity p" "po_workers ?p = po_workers p"
    "po_pending ?p = po_pending p" "length (po_busy ?p) = length (po_busy p)" by simp_all
  show ?thesis
    using assms(1) fits unfolding pool_inv_def keys fields list.set_map[symmetric] by blast
qed

definition everywhere :: "('r, 'k, 'p) AuthenticatedListener \<Rightarrow> nat set" where
  "everywhere l = set (map fst (pool_conns (al_pool l))) \<union> set (map fst (al_waiting l)) \<union> set (map fst (al_delivered l)) \<union> set (al_closed l)"

definition authenticated :: "crypto \<Rightarrow> ('r, 'k, 'p) AuthenticatedListener \<Rightarrow> conn \<Rightarrow> PeerInfo \<Rightarrow> bool" where
  "authenticated cr l c peer \<longleftrightarrow>
     (\<exists>clk c0 (w :: ('r, 'k, 'p) world) w'. serverAuthNormalized cr (al_server l) clk c0 w = (Inr peer, c, w'))"

definition listener_inv :: "crypto \<Rightarrow> ('r, 'k, 'p) AuthenticatedListener \<Rightarrow> bool" where
  "listener_inv cr l \<longleftrightarrow>
     pool_inv (lc_MaxPendingAuthPerSource (al_cfg l)) cn_remote (al_pool l) \<and>
     po_capacity (al_pool l) = lc_MaxPendingAuth (al_cfg l) \<and> po_workers (al_pool l) = lc_MaxAuthWorkers (al_cfg l) \<and>
     0 < lc_MaxPendingAuth (al_cfg l) \<and> 0 \<le> free_workers l \<and>
     everywhere l = {..<al_next l} \<and>
     (\<forall>(i, c, peer) \<in> set (al_waiting l @ al_delivered l). authenticated cr l c peer)"

lemma listener_inv_Wrap:
  assumes "WrapListenerWithConfigE cfg rc knock policy = Inr l"
  shows "listener_inv cr l"
  using assms
  by (auto simp: WrapListenerWithConfigE_def listener_withDefaults_def Let_def rbind_eq_Inr listener_inv_def everywhere_def
    free_workers_def pool_conns_def pool_new_def DefaultMaxPendingAuth_def DefaultMaxAuthWorkers_def pool_inv_new[unfolded pool_new_def])

text \<open>What a step may change of the other fields.\<close>

lemma listener_frame [simp]:
  "al_cfg (setErr err l) = al_cfg l" "al_server (setErr err l) = al_server l" "al_pool (setErr err l) = al_pool l"
  "al_waiting (setErr err l) = al_waiting l" "al_delivered (setErr err l) = al_delivered l" "al_closed (setErr err l) = al_closed l"
  "al_next (setErr err l) = al_next l" "al_exited (setErr err l) = al_exited l"
  "al_cfg (reportAuthDrop a e l) = al_cfg l" "al_server (reportAuthDrop a e l) = al_server l" "al_pool (reportAuthDrop a e l) = al_pool l"
  "al_waiting (reportAuthDrop a e l) = al_waiting l" "al_delivered (reportAuthDrop a e l) = al_delivered l" "al_closed (reportAuthDrop a e l) = al_closed l"
  "al_next (reportAuthDrop a e l) = al_next l" "al_exited (reportAuthDrop a e l) = al_exited l"
  by (simp_all add: setErr_def reportAuthDrop_def)

lemma listener_invI:
  fixes l l' :: "('r, 'k, 'p) AuthenticatedListener"
  assumes "listener_inv cr l" and "al_cfg l' = al_cfg l" "al_server l' = al_server l"
    and "pool_inv (lc_MaxPendingAuthPerSource (al_cfg l)) cn_remote (al_pool l')"
    and "po_capacity (al_pool l') = po_capacity (al_pool l)" "po_workers (al_pool l') = po_workers (al_pool l)"
    and "0 \<le> free_workers l'" and "everywhere l' = {..<al_next l'}"
    and "\<And>i c peer. (i, c, peer) \<in> set (al_waiting l' @ al_delivered l') \<Longrightarrow> (i, c, peer) \<in> set (al_waiting l @ al_delivered l) \<or> authenticated cr l c peer"
  shows "listener_inv cr l'"
proof -
  have same: "authenticated cr l' c peer = authenticated cr l c peer" for c peer by (simp add: authenticated_def assms(3))
  have "\<forall>(i, c, peer) \<in> set (al_waiting l' @ al_delivered l'). authenticated cr l' c peer"
    unfolding same using assms(1,9) unfolding listener_inv_def by blast
  then show ?thesis using assms unfolding listener_inv_def by metis
qed

lemma pool_params [simp]:
  "po_capacity (pool_release i p) = po_capacity p" "po_workers (pool_release i p) = po_workers p"
  "po_capacity (pool_finish i p) = po_capacity p" "po_workers (pool_finish i p) = po_workers p"
  by (simp_all add: pool_release_def pool_finish_def split: option.split)

lemma pool_offer_params: "pool_offer stop prefer i a c p = (res, p') \<Longrightarrow> po_capacity p' = po_capacity p \<and> po_workers p' = po_workers p"
  by (auto simp: pool_offer_def Let_def split: prod.splits option.splits if_splits)

lemma pool_take_params: "pool_take p = Some (x, p') \<Longrightarrow> po_capacity p' = po_capacity p \<and> po_workers p' = po_workers p"
  by (auto simp: pool_take_def split: list.splits if_splits)


lemma accept_conn_inv:
  assumes inv: "listener_inv cr l"
  shows "listener_inv cr (accept_conn prefer c l)"
proof -
  obtain res p where o: "pool_offer (al_done l) prefer (al_next l) (cn_remote c) c (al_pool l) = (res, p)" by (rule prod.exhaust)
  have P: "pool_inv (lc_MaxPendingAuthPerSource (al_cfg l)) cn_remote (al_pool l)" and ev: "everywhere l = {..<al_next l}"
    and fw: "0 \<le> free_workers l" using inv by (auto simp: listener_inv_def)
  have fresh: "al_next l \<notin> set (map fst (pool_conns (al_pool l)))" using ev by (auto simp: everywhere_def)
  note off = pool_offer_inv[OF P fresh refl o]
  have conns: "set (map fst (pool_conns p)) = set (map fst (pool_conns (al_pool l))) \<union> (if res = Queued then {al_next l} else {})"
    by (auto simp: pool_conns_def off(2,3))
  let ?l = "accept_conn prefer c l"
  have f: "al_cfg ?l = al_cfg l" "al_server ?l = al_server l" "al_pool ?l = p" "al_waiting ?l = al_waiting l" "al_delivered ?l = al_delivered l"
    "al_exited ?l = al_exited l" "al_next ?l = Suc (al_next l)" "set (al_closed ?l) = set (al_closed l) \<union> (if res = Queued then {} else {al_next l})"
    using o by (auto simp: accept_conn_def Let_def close_conn_def split: offer.splits)
  have "everywhere ?l = insert (al_next l) (everywhere l)" unfolding everywhere_def f conns by (cases "res = Queued") auto
  then have e: "everywhere ?l = {..<al_next ?l}" by (simp only: f(7) ev lessThan_Suc)
  have w: "0 \<le> free_workers ?l" using fw by (simp add: free_workers_def f off(3))
  have pp: "po_capacity (al_pool ?l) = po_capacity (al_pool l)" "po_workers (al_pool ?l) = po_workers (al_pool l)"
    using pool_offer_params[OF o] by (simp_all add: f(3))
  show ?thesis
    by (rule listener_invI[OF inv f(1,2) _ pp w e]) (simp_all only: f off(1), blast)
qed

lemma accept_error_inv:
  assumes "listener_inv cr l"
  shows "listener_inv cr (accept_error e err stopped l)"
proof -
  let ?l = "accept_error e err stopped l"
  have f: "al_cfg ?l = al_cfg l" "al_server ?l = al_server l" "al_pool ?l = al_pool l" "al_waiting ?l = al_waiting l" "al_delivered ?l = al_delivered l"
    "al_exited ?l = al_exited l" "al_next ?l = al_next l" "al_closed ?l = al_closed l"
    by (simp_all add: accept_error_def Let_def)
  show ?thesis
    by (rule listener_invI[OF assms f(1,2)]) (use assms in \<open>simp_all add: f listener_inv_def free_workers_def everywhere_def\<close>)
qed

lemma worker_take_inv:
  assumes inv: "listener_inv cr l" and t: "worker_take l = Some l'"
  shows "listener_inv cr l'"
proof -
  obtain i c p where p: "pool_take (al_pool l) = Some ((i, c), p)" and w: "0 < free_workers l"
    using t by (auto simp: worker_take_def split: if_splits option.splits)
  have P: "pool_inv (lc_MaxPendingAuthPerSource (al_cfg l)) cn_remote (al_pool l)" and ev: "everywhere l = {..<al_next l}"
    using inv by (auto simp: listener_inv_def)
  note tk = pool_take_inv[OF P p] and pp = pool_take_params[OF p]
  let ?q = "p\<lparr>po_busy := map (\<lambda>(j, d). (j, if j = i then cut_conn d else d)) (po_busy p)\<rparr>"
  have q: "pool_inv (lc_MaxPendingAuthPerSource (al_cfg l)) cn_remote ?q"
    by (rule pool_inv_busy[OF tk(1), of "\<lambda>j d. if j = i then cut_conn d else d"]) (simp add: cut_conn_def conn_Close_def)
  have ids: "set (map fst (pool_conns p)) = set (map fst (pool_conns (al_pool l)))" "i \<in> set (map fst (pool_conns p))"
    using tk(3,4) by (auto simp: pool_conns_def)
  have qids: "map fst (pool_conns ?q) = map fst (pool_conns p)" by (simp add: pool_conns_def case_prod_beta comp_def)
  have l': "l' = (if al_done l then close_conn i (l\<lparr>al_pool := ?q\<rparr>) else l\<lparr>al_pool := p\<rparr>)"
    using t p w by (auto simp: worker_take_def)
  have len: "length (po_busy p) = Suc (length (po_busy (al_pool l)))" using tk(4) by simp
  have "everywhere l' = everywhere l"
    using ids(2) unfolding l' everywhere_def ids(1)[symmetric] by (cases "al_done l") (simp_all add: close_conn_def qids del: list.set_map, blast)
  then have e: "everywhere l' = {..<al_next l'}" by (simp add: ev l' close_conn_def)
  show ?thesis
    by (rule listener_invI[OF inv _ _ _ _ _ _ e])
      (use tk(1) q pp w len in \<open>cases "al_done l"; simp add: l' close_conn_def free_workers_def\<close>)+
qed

lemma worker_finish_inv:
  assumes inv: "listener_inv cr l" and t: "worker_finish cr clk i l = Some l'"
  shows "listener_inv cr l'"
proof -
  obtain c where c: "map_of (po_busy (al_pool l)) i = Some c" using t by (auto simp: worker_finish_def split: option.splits)
  obtain r c' w where s: "serverAuthNormalized cr (al_server l) clk c (al_world l) = (r, c', w)" by (metis prod.exhaust)
  have P: "pool_inv (lc_MaxPendingAuthPerSource (al_cfg l)) cn_remote (al_pool l)" and ev: "everywhere l = {..<al_next l}"
    and fw: "0 \<le> free_workers l" using inv by (auto simp: listener_inv_def)
  have i: "i \<in> set (map fst (po_busy (al_pool l)))" using c by (force dest: map_of_SomeD)
  note fin = pool_finish_inv[OF P i]
  have len: "length (po_busy (pool_finish i (al_pool l))) < length (po_busy (al_pool l))"
    unfolding fin(3) using i by (auto intro!: length_filter_less)
  have ids: "set (map fst (pool_conns (al_pool l))) = insert i (set (map fst (pool_conns (pool_finish i (al_pool l)))))"
    using i by (auto simp: pool_conns_def fin(2,3))
  define l1 where "l1 = l\<lparr>al_world := w, al_pool := pool_finish i (al_pool l)\<rparr>"
  have l': "l' = (case r of Inl _ \<Rightarrow> close_conn i l1 | Inr peer \<Rightarrow> l1\<lparr>al_waiting := al_waiting l1 @ [(i, c', peer)]\<rparr>)"
    using t c s by (cases r) (auto simp: worker_finish_def Let_def l1_def)
  have "everywhere l' = everywhere l"
    unfolding everywhere_def ids by (auto simp: l' l1_def close_conn_def split: sum.splits simp del: set_map)
  then have e: "everywhere l' = {..<al_next l'}" by (simp add: ev l' l1_def close_conn_def split: sum.split)
  have auth: "r = Inr peer \<Longrightarrow> authenticated cr l c' peer" for peer using s by (auto simp: authenticated_def)
  show ?thesis
    by (rule listener_invI[OF inv _ _ _ _ _ _ e]) (use fin(1) len fw auth in \<open>auto simp: l' l1_def close_conn_def free_workers_def split: sum.splits\<close>)
qed

lemma waiting_filter:
  assumes "map_of (al_waiting l) i = Some x"
  shows "set (map fst (al_waiting l)) = insert i (set (map fst (al_waiting (take_waiting i l))))"
    "length (al_waiting (take_waiting i l)) < length (al_waiting l)" "(i, x) \<in> set (al_waiting l)"
  using assms by (force simp: take_waiting_def intro!: length_filter_less dest: map_of_SomeD)+

lemma Accept_inv:
  assumes inv: "listener_inv cr l" and t: "Accept i l = Some l'"
  shows "listener_inv cr l'"
proof -
  obtain x where x: "map_of (al_waiting l) i = Some x" "l' = (take_waiting i l)\<lparr>al_delivered := al_delivered l @ [(i, x)]\<rparr>"
    using t by (auto simp: Accept_def split: option.splits)
  note wf = waiting_filter[OF x(1)]
  have "everywhere l' = everywhere l"
    unfolding everywhere_def wf(1) by (auto simp: x(2) take_waiting_def)
  then have e: "everywhere l' = {..<al_next l'}" using inv by (simp add: listener_inv_def x(2) take_waiting_def)
  show ?thesis
    by (rule listener_invI[OF inv _ _ _ _ _ _ e]) (use inv wf in \<open>auto simp: x(2) listener_inv_def free_workers_def take_waiting_def\<close>)
qed

lemma give_up_inv:
  assumes inv: "listener_inv cr l" and t: "worker_give_up i l = Some l'"
  shows "listener_inv cr l'"
proof -
  obtain x where x: "map_of (al_waiting l) i = Some x" "l' = close_conn i ((take_waiting i l)\<lparr>al_exited := Suc (al_exited l)\<rparr>)"
    using t by (auto simp: worker_give_up_def split: if_splits)
  note wf = waiting_filter[OF x(1)]
  have "everywhere l' = everywhere l"
    unfolding everywhere_def wf(1) by (auto simp: x(2) take_waiting_def close_conn_def)
  then have e: "everywhere l' = {..<al_next l'}" using inv by (simp add: listener_inv_def x(2) take_waiting_def close_conn_def)
  show ?thesis
    by (rule listener_invI[OF inv _ _ _ _ _ _ e]) (use inv wf in \<open>auto simp: x(2) listener_inv_def free_workers_def take_waiting_def close_conn_def\<close>)
qed

lemma Close_inv:
  assumes inv: "listener_inv cr l"
  shows "listener_inv cr (listener_Close l)"
proof (cases "al_closeOnce l")
  case False
  let ?p = "(al_pool l)\<lparr>po_busy := map (\<lambda>(i, c). (i, cut_conn c)) (po_busy (al_pool l))\<rparr>"
  have q: "pool_inv (lc_MaxPendingAuthPerSource (al_cfg l)) cn_remote ?p"
    by (rule pool_inv_busy[of _ _ _ "\<lambda>_. cut_conn"]) (use inv in \<open>auto simp: listener_inv_def cut_conn_def conn_Close_def\<close>)
  have ids: "map fst (pool_conns ?p) = map fst (pool_conns (al_pool l))" by (simp add: pool_conns_def case_prod_beta comp_def)
  let ?l = "listener_Close l"
  have f: "al_cfg ?l = al_cfg l" "al_server ?l = al_server l" "al_pool ?l = ?p" "al_waiting ?l = al_waiting l" "al_delivered ?l = al_delivered l"
    "al_exited ?l = al_exited l" "al_next ?l = al_next l" "al_closed ?l = al_closed l @ map fst (po_busy (al_pool l))"
    using False by (simp_all add: listener_Close_def Let_def)
  have "everywhere ?l = everywhere l" unfolding everywhere_def f ids by (auto simp: pool_conns_def)
  then have e: "everywhere ?l = {..<al_next ?l}" using inv by (simp add: f listener_inv_def)
  show ?thesis
    by (rule listener_invI[OF inv f(1,2) _ _ _ _ e]) (use q inv in \<open>auto simp: f listener_inv_def free_workers_def\<close>)
qed (use inv in \<open>simp add: listener_Close_def\<close>)

lemma listener_step_inv: "listener_step cr l l' \<Longrightarrow> listener_inv cr l \<Longrightarrow> listener_inv cr l'"
  by (induction rule: listener_step.induct)
    (auto intro: accept_conn_inv accept_error_inv worker_take_inv worker_finish_inv Accept_inv give_up_inv Close_inv)

lemma listener_step_frame: "listener_step cr l l' \<Longrightarrow> al_cfg l' = al_cfg l \<and> al_server l' = al_server l"
  by (induction rule: listener_step.induct)
    (auto simp: accept_conn_def accept_error_def worker_take_def worker_finish_def Accept_def worker_give_up_def listener_Close_def take_waiting_def
      close_conn_def Let_def split: offer.splits prod.splits option.splits sum.splits if_splits)

lemma listener_reachable_inv: "(listener_step cr)\<^sup>*\<^sup>* l l' \<Longrightarrow> listener_inv cr l \<Longrightarrow> listener_inv cr l' \<and> al_cfg l' = al_cfg l \<and> al_server l' = al_server l"
proof (induction rule: rtranclp_induct)
  case (step y z)
  have "al_cfg z = al_cfg y \<and> al_server z = al_server y" using step(2) by (rule listener_step_frame)
  with step listener_step_inv show ?case by metis
qed simp

section \<open>Properties\<close>

text \<open>
  Property C34. A wrapped listener only hands out authenticated connections and stays within its
  bounds, however its accept loop, its workers, the application and \<open>Close\<close> interleave. Every
  connection \<open>Accept\<close> returned came out of a successful authentication by the listener's server. The queue
  never holds more than \<open>MaxPendingAuth\<close> connections and no more than \<open>MaxAuthWorkers\<close> are being
  served or waiting to be accepted; with a positive \<open>MaxPendingAuthPerSource\<close> no source has more
  connections than that queued or being authenticated. No accepted connection is lost: each one is
  queued, being served, waiting, handed out or closed.
\<close>

theorem netx_listener_safe:
  assumes "WrapListenerWithConfigE cfg rc knock policy = Inr l0" and "(listener_step cr)\<^sup>*\<^sup>* l0 l"
  shows "(\<forall>(i, c, peer) \<in> set (al_delivered l). authenticated cr l0 c peer) \<and>
    int (length (po_pending (al_pool l))) \<le> lc_MaxPendingAuth (al_cfg l0) \<and>
    int (length (po_busy (al_pool l))) + int (length (al_waiting l)) \<le> lc_MaxAuthWorkers (al_cfg l0) \<and>
    (0 < lc_MaxPendingAuthPerSource cfg \<longrightarrow> (\<forall>k. from_source cn_remote k (al_pool l) \<le> lc_MaxPendingAuthPerSource cfg)) \<and>
    everywhere l = {..<al_next l}"
proof -
  note R = listener_reachable_inv[OF assms(2) listener_inv_Wrap[OF assms(1)]]
  have cfg: "al_cfg l = al_cfg l0" "al_server l = al_server l0" using R by blast+
  have src: "lc_MaxPendingAuthPerSource (al_cfg l0) = lc_MaxPendingAuthPerSource cfg"
    using assms(1) by (auto simp: WrapListenerWithConfigE_def listener_withDefaults_def Let_def rbind_eq_Inr)
  have P: "pool_inv (lc_MaxPendingAuthPerSource cfg) cn_remote (al_pool l)"
    using R unfolding listener_inv_def src[symmetric] cfg by blast
  have same: "authenticated cr l c peer = authenticated cr l0 c peer" for c peer by (simp add: authenticated_def cfg)
  have "\<forall>(i, c, peer) \<in> set (al_delivered l). authenticated cr l0 c peer"
    using R unfolding listener_inv_def same by auto
  moreover have "int (length (po_pending (al_pool l))) \<le> lc_MaxPendingAuth (al_cfg l0)"
    using R P by (auto simp: listener_inv_def pool_inv_def)
  moreover have "int (length (po_busy (al_pool l))) + int (length (al_waiting l)) \<le> lc_MaxAuthWorkers (al_cfg l0)"
    using R by (auto simp: listener_inv_def free_workers_def)
  moreover have "everywhere l = {..<al_next l}" using R by (simp add: listener_inv_def)
  ultimately show ?thesis using pool_bounds[OF P] by blast
qed

definition demo_listener_config :: "(unit, unit) ListenerConfig" where
  "demo_listener_config = \<lparr>lc_Auth = \<lparr>s_ServerPort = 443, s_Secrets = StaticSecrets [(''a'', demo_secret)], s_AuthTimeout = 3 * second,
     s_TimeWindow = 30 * second, s_MaxFrameSize = 1024, s_Protocol = AuthProtocolEnvelopeV2, s_AcceptProtocols = [AuthProtocolFrameV1],
     s_EnvelopeV2 = WithDefaults demo_config, s_RequireKnock = False, s_KnockStore = None, s_ServerProof = True, s_FailDelayJitterMin = 0,
     s_FailDelayJitterMax = 10, s_DrainOnFailBytes = 0, s_DrainOnFailTimeout = 0, s_MaxAuthAttempts = 64,
     s_Events = True, s_Policy = None, s_OnAuthenticated = True\<rparr>,
     lc_MaxPendingAuth = 4, lc_MaxAuthWorkers = 2, lc_MaxPendingAuthPerSource = 1, lc_Events = True\<rparr>"

definition demo_accepted :: conn where
  "demo_accepted = \<lparr>cn_in = \<lparr>sdata = [], serr = IoEOF\<rparr>, cn_out = [], cn_closed = False, cn_local = TCPAddr [127, 0, 0, 1] 443 [],
     cn_remote = TCPAddr [192, 0, 2, 1] 5000 [], cn_deadline = None, cn_werr = None, cn_delay = 0\<rparr>"

text \<open>Two connections of one source: the second is dropped, and reported as over the limit of its source.\<close>

theorem netx_listener_safe_witness:
  "\<exists>l0 l. WrapListenerWithConfigE demo_listener_config (NilReplayCache :: unit ReplayCache) () () = Inr l0 \<and>
     (listener_step demo_crypto)\<^sup>*\<^sup>* l0 l \<and> from_source cn_remote ''192.0.2.1'' (al_pool l) \<le> 1 \<and>
     map (\<lambda>(a, e, n). e) (al_drops l) = [ErrAuthSourceLimit] \<and> everywhere l = {..<2}"
proof -
  define l0 where "l0 = (case WrapListenerWithConfigE demo_listener_config (NilReplayCache :: unit ReplayCache) () () of Inr l \<Rightarrow> l | Inl _ \<Rightarrow> undefined)"
  have "\<not> isl (WrapListenerWithConfigE demo_listener_config (NilReplayCache :: unit ReplayCache) () ())" by code_simp
  then have w: "WrapListenerWithConfigE demo_listener_config (NilReplayCache :: unit ReplayCache) () () = Inr l0"
    by (cases "WrapListenerWithConfigE demo_listener_config (NilReplayCache :: unit ReplayCache) () ()") (simp_all add: l0_def)
  have loop: "al_loop l0" "al_loop (accept_conn False demo_accepted l0)" unfolding l0_def by code_simp+
  then have run: "listener_step demo_crypto l0 (accept_conn False demo_accepted l0)"
    "listener_step demo_crypto (accept_conn False demo_accepted l0) (accept_conn False demo_accepted (accept_conn False demo_accepted l0))"
    by (auto intro: loop_conn)
  let ?l = "accept_conn False demo_accepted (accept_conn False demo_accepted l0)"
  from run have steps: "(listener_step demo_crypto)\<^sup>*\<^sup>* l0 ?l" by (meson rtranclp.rtrancl_into_rtrancl rtranclp.rtrancl_refl)
  have "map (\<lambda>(a, e, n). e) (al_drops ?l) = [ErrAuthSourceLimit]" "al_next ?l = 2" "lc_MaxPendingAuthPerSource demo_listener_config = 1"
    unfolding l0_def by code_simp+
  with netx_listener_safe[OF w steps] w steps show ?thesis by (intro exI[of _ l0] exI[of _ ?l]) auto
qed

section \<open>The dialer\<close>

text \<open>
  \<open>Dialer.DialContext\<close>: a knock sender without and one with a session id; what the random source,
  the sender and the base dialer return is in the environment. The result says which session id the
  knock carried, if a session bound sender sent one. The lock around \<open>SetSessionID\<close> and \<open>Knock\<close> makes
  the pair one step.
\<close>

datatype KnockSender = PlainSender "error option" | SessionBoundSender "bytes \<Rightarrow> error option"

record dial_env =
  de_rand :: "bytes result"
  de_dial :: "conn result"
  de_client :: client_env

definition dial_and_auth :: "crypto \<Rightarrow> dial_env \<Rightarrow> ClientConfig \<Rightarrow> conn result option" where
  "dial_and_auth cr env cfg =
     (case de_dial env of
        Inl err \<Rightarrow> Some (Inl err)
      | Inr c \<Rightarrow> (case ClientAuth cr (de_client env) cfg (Some c) of
            None \<Rightarrow> None
          | Some (Some err, _) \<Rightarrow> Some (Inl err)
          | Some (None, c) \<Rightarrow> Some (case c of Some c \<Rightarrow> Inr c | None \<Rightarrow> Inl AuthErrNilConn)))"

definition DialContext ::
    "crypto \<Rightarrow> dial_env \<Rightarrow> KnockSender option \<Rightarrow> ClientConfig \<Rightarrow> (conn result \<times> bytes option) option" where
  "DialContext cr env sender cfg0 =
     (let cfg = client_WithDefaults cfg0
      in case ValidateRuntime cfg of
        Inl err \<Rightarrow> Some (Inl err, None)
      | Inr _ \<Rightarrow>
        (case sender of
           None \<Rightarrow> map_option (\<lambda>r. (r, None)) (dial_and_auth cr env cfg)
         | Some setter \<Rightarrow>
           (case (if cl_SessionID cfg = [] then de_rand env else Inr (cl_SessionID cfg)) of
              Inl err \<Rightarrow> Some (Inl err, None)
            | Inr sid \<Rightarrow>
                let cfg = cfg\<lparr>cl_SessionID := sid\<rparr>
                in (case (case setter of PlainSender e \<Rightarrow> (e, None) | SessionBoundSender knock \<Rightarrow> (knock sid, Some sid)) of
                      (Some err, knocked) \<Rightarrow> Some (Inl err, knocked)
                    | (None, knocked) \<Rightarrow> map_option (\<lambda>r. (r, knocked)) (dial_and_auth cr env cfg)))))"

text \<open>A connection is dialed after a session bound knock only, and authenticates with the session id of that knock.\<close>

lemma dial_session_bound:
  assumes "DialContext cr env (Some (SessionBoundSender knock)) cfg = Some (Inr c, knocked)"
  obtains sid where "knocked = Some sid" "knock sid = None" "cl_SessionID cfg \<noteq> [] \<Longrightarrow> sid = cl_SessionID cfg"
    "dial_and_auth cr env ((client_WithDefaults cfg)\<lparr>cl_SessionID := sid\<rparr>) = Some (Inr c)"
  using assms by (auto simp: DialContext_def Let_def client_WithDefaults_def split: sum.splits if_splits option.splits)

end
