(* ===== verification/Gate.thy ===== *)
theory Gate
  imports Gate_Core Netx
begin

text \<open>
  Package gate: a listener that is protected by knocks, a firewall and authentication (gate.go), and
  the listener of the firewall-only mode (firewall_only.go). The state of a \<open>Gate\<close> extends the gateway of
  \<open>Gate_Core\<close> by its configuration and its lifecycle. The goroutines the code starts are the
  computations \<open>knockHandler\<close>, \<open>fire_timer\<close>, \<open>ctx_done\<close>, \<open>gate_Close\<close>, the server of \<open>Netx\<close> and the
  accept loop of the firewall-only mode, which \<open>gate_react\<close> interleaves. Opening sockets is the
  environment's business.
\<close>

section \<open>Configuration\<close>

definition AuthOnly :: string where "AuthOnly = ''auth-only''"
definition KnockAuthOnly :: string where "KnockAuthOnly = ''knock-auth-only''"
definition KnockFirewallAuth :: string where "KnockFirewallAuth = ''knock-firewall-auth''"
definition KnockFirewallOnly :: string where "KnockFirewallOnly = ''knock-firewall-only''"

lemmas gate_modes = AuthOnly_def KnockAuthOnly_def KnockFirewallAuth_def KnockFirewallOnly_def

record 'p GateConfig =
  gc_Mode :: string
  gc_Listen :: string
  gc_Auth :: "(KnockSessionStore, 'p) ServerConfig"
  gc_Listener :: "(KnockSessionStore, 'p) ListenerConfig"
  gc_Firewall :: "Backend option"
  gc_KnockMethod :: string
  gc_KnockListen :: string
  gc_KnockPort :: int
  gc_KnockClients :: "ClientSecret list"
  gc_KnockTimeWindow :: duration
  gc_KnockMaxFrameSize :: int
  gc_KnockSequence :: SequenceOptions
  gc_KnockNonceTTL :: duration
  gc_AllowTTL :: duration
  gc_MaxConnectionsPerKnock :: int
  gc_Events :: bool

record modeCaps =
  requireAuth :: bool
  requireKnock :: bool
  requireFirewall :: bool
  defaultNoopFirewall :: bool

definition gateModeCaps :: "string \<Rightarrow> modeCaps option" where
  "gateModeCaps mode =
     (if mode = AuthOnly then Some \<lparr>requireAuth = True, requireKnock = False, requireFirewall = False, defaultNoopFirewall = True\<rparr>
      else if mode = KnockAuthOnly then Some \<lparr>requireAuth = True, requireKnock = True, requireFirewall = False, defaultNoopFirewall = True\<rparr>
      else if mode = KnockFirewallAuth then Some \<lparr>requireAuth = True, requireKnock = True, requireFirewall = True, defaultNoopFirewall = False\<rparr>
      else if mode = KnockFirewallOnly then Some \<lparr>requireAuth = False, requireKnock = True, requireFirewall = True, defaultNoopFirewall = False\<rparr>
      else None)"

definition isNoopFirewall :: "Backend option \<Rightarrow> bool" where
  "isNoopFirewall fw \<longleftrightarrow> fw = None \<or> fw = Some Noop"

definition not_ready_error :: "string \<Rightarrow> error" where
  "not_ready_error meth = Errorf (''gate knock method '' @ meth @ '' does not support synchronous listener readiness'')"

definition validate_knock :: "'p GateConfig \<Rightarrow> error option" where
  "validate_knock cfg =
     (case ValidateClientSecrets (gc_KnockClients cfg) of Some err \<Rightarrow> Some err
      | None \<Rightarrow>
          if gc_KnockMethod cfg = [] then Some (Errorf ''gate knock method is required'')
          else if \<not> IsActiveUDPMethod (gc_KnockMethod cfg) then Some (not_ready_error (gc_KnockMethod cfg))
          else None)"

definition validateGateConfig :: "'p GateConfig \<Rightarrow> 'p GateConfig result" where
  "validateGateConfig cfg0 =
     (let cfg = (if gc_Mode cfg0 = [] then cfg0\<lparr>gc_Mode := AuthOnly\<rparr> else cfg0)
      in case gateModeCaps (gc_Mode cfg) of
        None \<Rightarrow> Inl (Errorf (''unsupported gate mode '' @ gc_Mode cfg))
      | Some caps \<Rightarrow>
          if requireAuth caps \<and> is_NilResolver (s_Secrets (gc_Auth cfg)) then Inl AuthErrMissingSecretResolver
          else case (if requireKnock caps then validate_knock cfg else None) of Some err \<Rightarrow> Inl err
          | None \<Rightarrow>
              if requireFirewall caps \<and> isNoopFirewall (gc_Firewall cfg)
              then Inl (Errorf (''gate '' @ gc_Mode cfg @ '' requires a non-noop firewall backend''))
              else if defaultNoopFirewall caps \<and> gc_Firewall cfg = None then Inr (cfg\<lparr>gc_Firewall := Some Noop\<rparr>)
              else Inr cfg)"

section \<open>State\<close>

record ('h, 'p) Gate = "'h gw" +
  ga_cfg :: "'p GateConfig"
  ga_started :: bool
  ga_closed :: bool
  ga_cancel :: bool
  ga_running :: bool
  ga_closeOnce :: bool

type_synonym ('h, 'p, 'a) gate_op = "(('h, 'p) Gate, 'a) state"

definition ErrGateStarted :: error where "ErrGateStarted = Errorf ''gate has already started''"
definition ErrGateClosed :: error where "ErrGateClosed = Errorf ''gate is closed''"

definition gate_New :: "'p GateConfig \<Rightarrow> 'h \<Rightarrow> ('h, 'p) Gate result" where
  "gate_New cfg0 h =
     rbind (validateGateConfig cfg0) (\<lambda>cfg. Inr
       \<lparr>gw_store = NewKnockSessionStore, gw_timers = [], gw_host = h, gw_events = [], gw_closeErr = None,
        ga_cfg = cfg, ga_started = False, ga_closed = False, ga_cancel = False, ga_running = False, ga_closeOnce = False\<rparr>)"

definition gate_firewall :: "'p GateConfig \<Rightarrow> Backend" where
  "gate_firewall cfg = (case gc_Firewall cfg of Some fw \<Rightarrow> fw | None \<Rightarrow> Noop)"

definition beginLifecycle :: "('h, 'p, error option) gate_op" where
  "beginLifecycle = State (\<lambda>g.
     if ga_closed g then (Some ErrGateClosed, g)
     else if ga_started g then (Some ErrGateStarted, g)
     else (None, g\<lparr>ga_started := True\<rparr>))"

definition requiresFirewallCleanup :: "'p GateConfig \<Rightarrow> bool" where
  "requiresFirewallCleanup cfg \<longleftrightarrow> gc_Mode cfg = KnockFirewallAuth \<or> gc_Mode cfg = KnockFirewallOnly"

definition recordCleanupErr :: "error option \<Rightarrow> ('h, 'p, unit) gate_op" where
  "recordCleanupErr e =
     (case e of None \<Rightarrow> State_Monad.return ()
      | Some err \<Rightarrow> do {
          g \<leftarrow> State_Monad.get;
          _ \<leftarrow> emit (gc_Events (ga_cfg g)) (OnFirewallError AddrZero 0 err);
          State (\<lambda>g. ((), g\<lparr>gw_closeErr := errors_Join (gw_closeErr g) (Some err)\<rparr>)) })"

definition configureFirewallPort :: "int \<Rightarrow> ('h, 'p, error option) gate_op" where
  "configureFirewallPort port0 = State (\<lambda>g.
     let cfg = ga_cfg g
     in if gc_Mode cfg = AuthOnly \<or> gc_Mode cfg = KnockAuthOnly then (None, g)
        else let port = (if s_ServerPort (gc_Auth cfg) > 0 then s_ServerPort (gc_Auth cfg) else port0)
             in case ConfigureFirewallPort (gate_firewall cfg) port of
                  Inl err \<Rightarrow> (Some err, g)
                | Inr fw \<Rightarrow> (None, g\<lparr>ga_cfg := cfg\<lparr>gc_Firewall := Some fw\<rparr>\<rparr>))"

definition protected_port :: "'p GateConfig \<Rightarrow> net_addr \<Rightarrow> int" where
  "protected_port cfg ln = (if s_ServerPort (gc_Auth cfg) \<le> 0 then ListenerPort ln else s_ServerPort (gc_Auth cfg))"

definition gate_listenerConfig :: "'p GateConfig \<Rightarrow> net_addr \<Rightarrow> (KnockSessionStore, 'p) ListenerConfig" where
  "gate_listenerConfig cfg ln =
     (let a = server_WithDefaults (gc_Auth cfg)
      in (gc_Listener cfg)\<lparr>lc_Auth := (if s_ServerPort a \<le> 0 then a\<lparr>s_ServerPort := ListenerPort ln\<rparr> else a)\<rparr>)"

text \<open>The configuration of the modes with knocks: the server requires a knock and asks the store of the gate.\<close>

definition knock_listenerConfig :: "'p GateConfig \<Rightarrow> net_addr \<Rightarrow> (KnockSessionStore, 'p) ListenerConfig" where
  "knock_listenerConfig cfg ln =
     (let lc = gate_listenerConfig cfg ln
      in lc\<lparr>lc_Auth := (lc_Auth lc)\<lparr>s_RequireKnock := True, s_KnockStore := Some CheckAndConsume\<rparr>\<rparr>)"

section \<open>Knocks and timers\<close>

definition knockSessionOnlyHandler :: "net_addr \<Rightarrow> knock_clock \<Rightarrow> Event \<Rightarrow> ('h, 'p, unit) gate_op" where
  "knockSessionOnlyHandler ln clk ev = do {
     g \<leftarrow> State_Monad.get;
     let cfg = ga_cfg g;
     case AddrFromIP (ev_SourceIP ev) of
       None \<Rightarrow> emit (gc_Events cfg) (OnKnockFail AddrZero (ev_ClientID ev) ''invalid_source_ip'' None)
     | Some remote \<Rightarrow> do {
         let ttl = allow_ttl (gc_AllowTTL cfg);
         let port = protected_port cfg ln;
         _ \<leftarrow> store_do (AddSessionForPort (kc_session clk) remote (ev_ClientID ev) (ev_SessionID ev) port ttl (gc_MaxConnectionsPerKnock cfg));
         _ \<leftarrow> emit (gc_Events cfg) (OnKnockOK remote (ev_ClientID ev) (ev_Method ev) (ev_Parts ev) ttl);
         AfterFunc (kc_timer clk) ttl (EndSession remote (ev_ClientID ev) port) } }"

definition firewallOnlyClientID :: string where "firewallOnlyClientID = ''*''"

definition knockHandler :: "'h fw_env \<Rightarrow> net_addr \<Rightarrow> knock_clock \<Rightarrow> Event \<Rightarrow> ('h, 'p, unit) gate_op" where
  "knockHandler env ln clk ev = do {
     g \<leftarrow> State_Monad.get;
     let cfg = ga_cfg g;
     case AddrFromIP (ev_SourceIP ev) of
       None \<Rightarrow> emit (gc_Events cfg) (OnKnockFail AddrZero (ev_ClientID ev) ''invalid_source_ip'' None)
     | Some remote \<Rightarrow> do {
         let ttl = allow_ttl (gc_AllowTTL cfg);
         let port = protected_port cfg ln;
         let fw = gate_firewall cfg;
         let uses = gc_MaxConnectionsPerKnock cfg;
         lease \<leftarrow> open_firewall env (gc_Events cfg) fw remote (ev_ClientID ev) port ttl (kc_mark clk);
         case lease of
           None \<Rightarrow> State_Monad.return ()
         | Some leaseID \<Rightarrow> do {
             let storeClientID = (if gc_Mode cfg = KnockFirewallOnly then firewallOnlyClientID else ev_ClientID ev);
             _ \<leftarrow> store_do
               (if gc_Mode cfg = KnockFirewallOnly
                then AddSession (kc_session clk) remote storeClientID [] ttl uses
                else AddSessionForPort (kc_session clk) remote storeClientID (ev_SessionID ev) port ttl uses);
             _ \<leftarrow> emit (gc_Events cfg) (OnKnockOK remote (ev_ClientID ev) (ev_Method ev) (ev_Parts ev) ttl);
             AfterFunc (kc_timer clk) ttl (EndKnock remote storeClientID port leaseID fw) } } }"

text \<open>The closure of a timer; the clock is read for the session and for the lease.\<close>

fun gate_task :: "'h fw_env \<Rightarrow> task \<Rightarrow> time \<Rightarrow> time \<Rightarrow> ('h, 'p, unit) gate_op" where
  "gate_task env (EndSession remote clientID port) t1 t2 = do {
     _ \<leftarrow> on_store (ExpireForPort remote clientID port t1);
     State_Monad.return () }"
| "gate_task env (EndKnock remote clientID port lease fw) t1 t2 = do {
     g \<leftarrow> State_Monad.get;
     _ \<leftarrow> on_store (store_Expire remote clientID t1);
     e \<leftarrow> end_lease env (gc_Events (ga_cfg g)) fw remote port lease t2;
     recordCleanupErr e }"

text \<open>The timer at a position of the set fires, not before its deadline.\<close>

definition fire_timer :: "'h fw_env \<Rightarrow> nat \<Rightarrow> time \<Rightarrow> time \<Rightarrow> ('h, 'p, unit) gate_op" where
  "fire_timer env i t1 t2 = do {
     g \<leftarrow> State_Monad.get;
     if i < length (gw_timers g) \<and> tm_deadline (gw_timers g ! i) \<le> t1 then do {
       _ \<leftarrow> State_Monad.set (g\<lparr>gw_timers := take i (gw_timers g) @ drop (Suc i) (gw_timers g)\<rparr>);
       gate_task env (tm_task (gw_timers g ! i)) t1 t2 }
     else State_Monad.return () }"

section \<open>Starting and closing\<close>

definition gate_listenOptions :: "'p GateConfig \<Rightarrow> net_addr \<Rightarrow> unit ListenOptions" where
  "gate_listenOptions cfg ln =
     \<lparr>lo_Port = (if s_ServerPort (gc_Auth cfg) > 0 then s_ServerPort (gc_Auth cfg) else ListenerPort ln), lo_KnockPort = gc_KnockPort cfg,
      lo_Clients = gc_KnockClients cfg, lo_TimeWindow = gc_KnockTimeWindow cfg, lo_MaxFrameSize = gc_KnockMaxFrameSize cfg,
      lo_RequireSessionID = (gc_Mode cfg = KnockAuthOnly \<or> gc_Mode cfg = KnockFirewallAuth),
      lo_AllowPacket = None, lo_PacketLimiter = None, lo_InvalidPacket = False, lo_Sequence = gc_KnockSequence cfg, lo_NonceTTL = gc_KnockNonceTTL cfg\<rparr>"

definition gate_knock_cache :: "'p GateConfig \<Rightarrow> 'r ReplayCache" where
  "gate_knock_cache cfg = MemoryCache (NewMemoryReplayCache (KnockReplayTTL (gc_KnockTimeWindow cfg)))"

text \<open>\<open>sock\<close> is what opening a UDP socket on an address gives.\<close>

definition openKnockListener :: "'p GateConfig \<Rightarrow> net_addr \<Rightarrow> (string \<Rightarrow> 'c result) \<Rightarrow> 'c result" where
  "openKnockListener cfg ln sock =
     (let opts = gate_listenOptions cfg ln;
          addr = DefaultString (gc_KnockListen cfg) (UDPListenForKnockPort ln (gc_KnockPort cfg))
      in if gc_KnockMethod cfg = UDPMethod then NewUDPListener addr opts (sock addr)
         else if gc_KnockMethod cfg = UDPSeqMethod then NewUDPSequenceListener addr opts (sock addr)
         else Inl (not_ready_error (gc_KnockMethod cfg)))"

definition start_goroutines :: "('h, 'p, unit) gate_op" where
  "start_goroutines = State (\<lambda>g. ((), g\<lparr>ga_cancel := True, ga_running := True\<rparr>))"

definition startKnockAuthOnly :: "net_addr \<Rightarrow> (string \<Rightarrow> 'c result) \<Rightarrow> ('h, 'p, error option) gate_op" where
  "startKnockAuthOnly ln sock = do {
     g \<leftarrow> State_Monad.get;
     case openKnockListener (ga_cfg g) ln sock of
       Inl err \<Rightarrow> State_Monad.return (Some err)
     | Inr _ \<Rightarrow> do { _ \<leftarrow> start_goroutines; State_Monad.return None } }"

definition startKnock :: "'h fw_env \<Rightarrow> net_addr \<Rightarrow> (string \<Rightarrow> 'c result) \<Rightarrow> ('h, 'p, error option) gate_op" where
  "startKnock env ln sock = do {
     g \<leftarrow> State_Monad.get;
     let fw = gate_firewall (ga_cfg g);
     e \<leftarrow> InitFirewall env fw;
     case e of Some err \<Rightarrow> State_Monad.return (Some err)
     | None \<Rightarrow>
       (case openKnockListener (ga_cfg g) ln sock of
          Inl err \<Rightarrow> do {
            cleanupErr \<leftarrow> CleanupFirewallDetached env fw;
            _ \<leftarrow> recordCleanupErr cleanupErr;
            State_Monad.return (errors_Join (Some err) cleanupErr) }
        | Inr _ \<Rightarrow> do { _ \<leftarrow> start_goroutines; State_Monad.return None }) }"

text \<open>The goroutine that waits for the end of the knock context, which \<open>Close\<close> or the caller's context brings about.\<close>

definition ctx_done :: "'h fw_env \<Rightarrow> ('h, 'p, unit) gate_op" where
  "ctx_done env = do {
     g \<leftarrow> State_Monad.get;
     if \<not> ga_running g then State_Monad.return ()
     else do {
       _ \<leftarrow> State_Monad.set (g\<lparr>ga_running := False\<rparr>);
       if requiresFirewallCleanup (ga_cfg g) then do {
         e \<leftarrow> CleanupFirewallDetached env (gate_firewall (ga_cfg g));
         recordCleanupErr e }
       else State_Monad.return () } }"

definition gate_Close :: "'h fw_env \<Rightarrow> ('h, 'p, error option) gate_op" where
  "gate_Close env = do {
     g \<leftarrow> State_Monad.get;
     _ \<leftarrow> (if ga_closeOnce g then State_Monad.return ()
          else do {
            _ \<leftarrow> State_Monad.set (g\<lparr>ga_closeOnce := True, ga_closed := True\<rparr>);
            _ \<leftarrow> ctx_done env;
            _ \<leftarrow> StopAll;
            if requiresFirewallCleanup (ga_cfg g) \<and> \<not> ga_cancel g then do {
              e \<leftarrow> on_host (backend_Cleanup env (gate_firewall (ga_cfg g)));
              recordCleanupErr e }
            else State_Monad.return () });
     g \<leftarrow> State_Monad.get;
     State_Monad.return (gw_closeErr g) }"

text \<open>The goroutine that serves knocks, when its listener fails while the context is open; the TCP listener is closed with it.\<close>

definition serve_failed :: "error \<Rightarrow> ('h, 'p, unit) gate_op" where
  "serve_failed err = do {
     g \<leftarrow> State_Monad.get;
     if ga_running g then emit (gc_Events (ga_cfg g)) (OnKnockFail AddrZero [] ''listen_error'' (Some err)) else State_Monad.return () }"

text \<open>
  \<open>managedListener.Close\<close>: the listener (\<open>lnErr\<close> is what closing it returns) and the gate are closed once. The
  pair holds whether that has happened, and the error.
\<close>

definition managed_Close :: "'h fw_env \<Rightarrow> error option \<Rightarrow> bool \<times> error option \<Rightarrow> ('h, 'p, error option \<times> (bool \<times> error option)) gate_op" where
  "managed_Close env lnErr l =
     (case l of
        (True, err) \<Rightarrow> State_Monad.return (err, l)
      | (False, _) \<Rightarrow> do {
          e \<leftarrow> gate_Close env;
          let err = (if lnErr = None then e else lnErr);
          State_Monad.return (err, True, err) })"

text \<open>What \<open>Wrap\<close> returns: an authenticating listener, or the listener of the firewall-only mode.\<close>

datatype ('r, 'p) wrapped = AuthListener "('r, KnockSessionStore, 'p) AuthenticatedListener" | FirewallOnlyListener

definition wrap_auth ::
    "'h fw_env \<Rightarrow> (KnockSessionStore, 'p) ListenerConfig \<Rightarrow> 'r ReplayCache \<Rightarrow> 'p \<Rightarrow> ('h, 'p, ('r, 'p) wrapped result) gate_op" where
  "wrap_auth env lc rc policy = do {
     g \<leftarrow> State_Monad.get;
     case WrapListenerWithConfigE lc rc (gw_store g) policy of
       Inr l \<Rightarrow> State_Monad.return (Inr (AuthListener l))
     | Inl err \<Rightarrow> do {
         _ \<leftarrow> (if ga_cancel g then gate_Close env else State_Monad.return None);
         State_Monad.return (Inl err) } }"

definition gate_Wrap ::
    "'h fw_env \<Rightarrow> net_addr option \<Rightarrow> (string \<Rightarrow> 'c result) \<Rightarrow> 'r ReplayCache \<Rightarrow> 'p \<Rightarrow> ('h, 'p, ('r, 'p) wrapped result) gate_op" where
  "gate_Wrap env lno sock rc policy =
     (case lno of None \<Rightarrow> State_Monad.return (Inl (Errorf ''gate listener is nil''))
      | Some ln \<Rightarrow> do {
     e \<leftarrow> beginLifecycle;
     case e of Some err \<Rightarrow> State_Monad.return (Inl err) | None \<Rightarrow> do {
     e \<leftarrow> configureFirewallPort (ListenerPort ln);
     case e of Some err \<Rightarrow> State_Monad.return (Inl err) | None \<Rightarrow> do {
     g \<leftarrow> State_Monad.get;
     let cfg = ga_cfg g;
     case ValidateDropUDPKnockPort (gate_firewall cfg) (gc_KnockMethod cfg) of Some err \<Rightarrow> State_Monad.return (Inl err)
     | None \<Rightarrow>
       if gc_Mode cfg = AuthOnly then wrap_auth env (gate_listenerConfig cfg ln) rc policy
       else if gc_Mode cfg = KnockAuthOnly then do {
         e \<leftarrow> startKnockAuthOnly ln sock;
         case e of Some err \<Rightarrow> State_Monad.return (Inl err)
         | None \<Rightarrow> wrap_auth env (knock_listenerConfig cfg ln) rc policy }
       else if gc_Mode cfg = KnockFirewallAuth then do {
         e \<leftarrow> startKnock env ln sock;
         case e of Some err \<Rightarrow> State_Monad.return (Inl err)
         | None \<Rightarrow> wrap_auth env (knock_listenerConfig cfg ln) rc policy }
       else if gc_Mode cfg = KnockFirewallOnly then do {
         e \<leftarrow> startKnock env ln sock;
         State_Monad.return (case e of Some err \<Rightarrow> Inl err | None \<Rightarrow> Inr FirewallOnlyListener) }
       else State_Monad.return (Inl (Errorf (''unsupported gate mode '' @ gc_Mode cfg))) } } })"

text \<open>\<open>Listen\<close>: the environment opens the TCP listener.\<close>

definition gate_Listen ::
    "'h fw_env \<Rightarrow> (string \<Rightarrow> net_addr result) \<Rightarrow> (string \<Rightarrow> 'c result) \<Rightarrow> 'r ReplayCache \<Rightarrow> 'p \<Rightarrow> ('h, 'p, ('r, 'p) wrapped result) gate_op" where
  "gate_Listen env tcp sock rc policy = do {
     g \<leftarrow> State_Monad.get;
     if gc_Listen (ga_cfg g) = [] then State_Monad.return (Inl (Errorf ''gate listen address is required''))
     else case tcp (gc_Listen (ga_cfg g)) of
       Inl err \<Rightarrow> State_Monad.return (Inl err)
     | Inr ln \<Rightarrow> gate_Wrap env (Some ln) sock rc policy }"

definition Listen ::
    "'h fw_env \<Rightarrow> 'h \<Rightarrow> 'p GateConfig \<Rightarrow> (string \<Rightarrow> net_addr result) \<Rightarrow> (string \<Rightarrow> 'c result) \<Rightarrow> 'r ReplayCache \<Rightarrow> 'p \<Rightarrow>
     (('r, 'p) wrapped \<times> ('h, 'p) Gate) result" where
  "Listen env h cfg tcp sock rc policy =
     rbind (gate_New cfg h) (\<lambda>g. case run_state (gate_Listen env tcp sock rc policy) g of
       (Inl err, _) \<Rightarrow> Inl err | (Inr l, g) \<Rightarrow> Inr (l, g))"

section \<open>The firewall-only listener\<close>

definition firewall_only_peer :: "netip_Addr \<Rightarrow> PeerInfo" where
  "firewall_only_peer remote =
     \<lparr>p_ClientID = firewallOnlyClientID, p_ClientIDHash = As16 remote, p_KeyHint = 0, p_Nonce = [], p_Timestamp = 0, p_ServerPort = 0,
      p_Method = [], p_SessionID = [], p_Extensions = [], p_RemoteAddr = AddrNil, p_Protocol = [], p_Flags = 0\<rparr>"

text \<open>
  One turn of the loop of \<open>Accept\<close> on a connection from the given address: whether it is returned.
  A connection that is not is closed.
\<close>

definition firewall_only_turn :: "time \<Rightarrow> net_addr \<Rightarrow> ('h, 'p, bool) gate_op" where
  "firewall_only_turn now addr =
     (case AddrFromNet addr of
        None \<Rightarrow> State_Monad.return False
      | Some remote \<Rightarrow> do {
          g \<leftarrow> State_Monad.get;
          e \<leftarrow> on_store (CheckAndConsume now (firewall_only_peer remote) addr);
          case e of None \<Rightarrow> State_Monad.return True
          | Some err \<Rightarrow> do {
              _ \<leftarrow> emit (gc_Events (ga_cfg g)) (OnRelayError addr [] ''knock'' (JoinErr AuthErrKnockRequired err) 0 0);
              State_Monad.return False } })"

fun firewall_only_Accept :: "(time \<times> net_addr) list \<Rightarrow> ('h, 'p, net_addr option) gate_op" where
  "firewall_only_Accept [] = State_Monad.return None"
| "firewall_only_Accept ((now, addr) # conns) = do {
     ok \<leftarrow> firewall_only_turn now addr;
     if ok then State_Monad.return (Some addr) else firewall_only_Accept conns }"

end
