(* ===== verification/Auth_Knock.thy ===== *)
theory Auth_Knock
  imports Auth_Server Session_Store
begin

text \<open>
  The server and the knock store it asks: along one authentication the store sees one call of
  \<open>CheckAndConsume\<close> at most, and a success is preceded by one that grants the connection.
\<close>

section \<open>Authentication asks the session store\<close>

lemma validatePeerCommon_knock: "validatePeerCommon cfg clk peer port remote hint w = (e, w') \<Longrightarrow> w_knock w' = w_knock w"
  by (auto simp: validatePeerCommon_def Let_def split: prod.splits option.splits if_splits)

lemma authenticateFrameV1_knock: "authenticateFrameV1 cr cfg clk port remote br w = (r, br', w') \<Longrightarrow> w_knock w' = w_knock w"
  by (auto simp: authenticateFrameV1_def Let_def dest: validatePeerCommon_knock split: sum.splits prod.splits option.splits if_splits)

lemma try_buckets_knock: "try_buckets cr cfg clk h cands n port remote k bs br w = (r, br', w') \<Longrightarrow> w_knock w' = w_knock w"
proof (induction bs arbitrary: h k)
  case (Cons b bs)
  from Cons.prems show ?case
    by (auto simp: Let_def dest: Cons.IH validatePeerCommon_knock split: sum.splits prod.splits option.splits if_splits attempt.splits)
qed simp

lemma authenticateEnvelopeV2_knock: "authenticateEnvelopeV2 cr cfg clk port remote br w = (r, br', w') \<Longrightarrow> w_knock w' = w_knock w"
  by (auto simp: authenticateEnvelopeV2_def Let_def dest: try_buckets_knock split: sum.splits if_splits)

lemma authenticateConfiguredProtocol_knock:
  "authenticateConfiguredProtocol cr cfg clk conn w = (r, br', w') \<Longrightarrow> w_knock w' = w_knock w"
  by (auto simp: authenticateConfiguredProtocol_def Let_def
      dest: authenticateFrameV1_knock authenticateEnvelopeV2_knock split: sum.splits if_splits)

lemma fail_knock: "fail clk cfg peer err conn w = (r, conn', w') \<Longrightarrow> w_knock w' = w_knock w"
  by (auto simp: fail_def Let_def)

text \<open>One call of the knock store at most, and one that grants the connection before a success.\<close>

definition asked :: "(KnockSessionStore, 'p) ServerConfig \<Rightarrow> server_clock \<Rightarrow> net_addr \<Rightarrow> KnockSessionStore \<Rightarrow> KnockSessionStore \<Rightarrow> bool" where
  "asked cfg clk remote s s' \<longleftrightarrow> s' = s \<or> (\<exists>peer check. s_KnockStore cfg = Some check \<and> s' = snd (check (t_knock clk) peer remote s))"

lemma check_knock_asked:
  "check_knock cfg clk peer remote w = (e, w') \<Longrightarrow> asked cfg clk remote (w_knock w) (w_knock w')"
  unfolding check_knock_def asked_def
  by (cases "s_RequireKnock cfg"; cases "s_KnockStore cfg"; cases "e") (auto simp: snd_conv split: prod.splits option.splits intro: exI[of _ peer])

lemma serverAuth_asked:
  assumes "serverAuthNormalized cr cfg clk conn w = (r, conn', w')"
  shows "asked cfg clk (cn_remote conn) (w_knock w) (w_knock w')"
proof (cases "is_NilResolver (s_Secrets cfg)")
  case True
  then show ?thesis using assms by (simp add: serverAuthNormalized_def asked_def)
next
  case False
  let ?c = "conn\<lparr>cn_deadline := Some (auth_deadline cfg clk)\<rparr>"
  obtain ok w1 where pg: "policy_gate cfg clk (cn_remote conn) (log_event (s_Events cfg) (OnAccept (cn_remote conn)) w) = (ok, w1)" by (rule prod.exhaust)
  have w1: "w_knock w1 = w_knock w" using policy_gate_keeps[OF pg] by simp
  show ?thesis
  proof (cases ok)
    case False
    then show ?thesis using assms \<open>\<not> is_NilResolver _\<close> pg w1 by (auto simp: serverAuthNormalized_def asked_def dest: fail_knock)
  next
    case True
    obtain out br w2 where ac: "authenticateConfiguredProtocol cr cfg clk ?c w1 = (out, br, w2)" by (rule prod_cases3)
    have w2: "w_knock w2 = w_knock w" using authenticateConfiguredProtocol_knock[OF ac] w1 by simp
    note run = assms[unfolded serverAuthNormalized_def Let_def, simplified False if_False pg True prod.case bool.case ac]
    show ?thesis
    proof (cases out)
      case (Inl a)
      then show ?thesis using run w2 by (cases a) (auto simp: asked_def dest: fail_knock)
    next
      case (Inr res)
      obtain ko w3 where ck: "check_knock cfg clk (r_peer res) (cn_remote conn) w2 = (ko, w3)" by (rule prod.exhaust)
      have "w_knock w' = w_knock w3"
        using run Inr ck by (auto dest: fail_knock split: option.splits prod.splits)
      then show ?thesis using check_knock_asked[OF ck] w2 by simp
    qed
  qed
qed

lemma serverAuth_granted:
  assumes "serverAuthNormalized cr cfg clk conn w = (Inr peer, conn', w')" "s_RequireKnock cfg" "s_KnockStore cfg = Some check"
  shows "fst (check (t_knock clk) peer (cn_remote conn) (w_knock w)) = None"
  using assms(1)
proof (cases rule: serverAuth_cases)
  case (success w1 res br w2 w3 conn2)
  have "w_knock w2 = w_knock w" using authenticateConfiguredProtocol_knock[OF success(3)] success(2) by simp
  then show ?thesis using success(4,6) assms(2,3) by (auto simp: check_knock_def split: option.splits prod.splits)
qed (auto dest!: fail_result)

lemma server_defaults_knock:
  "s_RequireKnock (server_defaults_auth c) = s_RequireKnock c" "s_KnockStore (server_defaults_auth c) = s_KnockStore c"
  "s_RequireKnock (server_defaults_fail c) = s_RequireKnock c" "s_KnockStore (server_defaults_fail c) = s_KnockStore c"
  by (simp_all add: server_defaults_auth_def server_defaults_fail_def Let_def)

lemma server_WithDefaults_knock:
  "s_RequireKnock (server_WithDefaults c) = s_RequireKnock c" "s_KnockStore (server_WithDefaults c) = s_KnockStore c"
  by (simp_all add: server_WithDefaults_def server_defaults_knock)

lemma NewServer_knock:
  "NewServer c rc = Inr (c', rc') \<Longrightarrow> s_RequireKnock c' = s_RequireKnock c \<and> s_KnockStore c' = s_KnockStore c"
  by (auto simp: NewServer_def Let_def rbind_def server_WithDefaults_knock split: sum.splits if_splits)

lemma ServerAuth_asked:
  assumes "ServerAuth cr cfg clk (Some c) w = (r, c', w')"
  shows "asked cfg clk (cn_remote c) (w_knock w) (w_knock w')"
proof -
  have "asked (server_WithDefaults cfg) clk (cn_remote c) (w_knock w) (w_knock w')"
    using assms by (auto simp: ServerAuth_def Let_def asked_def[of _ _ _ x x for x] split: sum.splits if_splits prod.splits dest: serverAuth_asked)
  then show ?thesis by (simp add: asked_def server_WithDefaults_knock)
qed

lemma ServerAuth_granted:
  assumes "ServerAuth cr cfg clk (Some c) w = (Inr peer, c', w')" "s_RequireKnock cfg" "s_KnockStore cfg = Some check"
  shows "fst (check (t_knock clk) peer (cn_remote c) (w_knock w)) = None"
proof -
  obtain c2 where "serverAuthNormalized cr (server_WithDefaults cfg) clk c w = (Inr peer, c2, w')"
    using assms(1) by (auto simp: ServerAuth_def Let_def split: sum.splits if_splits prod.splits)
  from serverAuth_granted[OF this] assms(2,3) show ?thesis by (simp add: server_WithDefaults_knock)
qed

end
