(* ===== verification/Gate_Track.thy ===== *)
theory Gate_Track
  imports Gate_Core Auth_Knock
begin

text \<open>
  What computations of a gateway do to its session store. \<open>track K P m g\<close> says that the computation \<open>m\<close> changes
  the store of \<open>g\<close> by calls of its methods that satisfy \<open>P\<close>, and leaves the part \<open>K\<close> of the state alone. There is
  one rule per constructor of computations; those for the operations gate and relay share are proved once, in
  the locale \<open>store_client\<close>, for every part \<open>K\<close> that these operations do not touch.
\<close>

definition track :: "(('h, 'x) gw_scheme \<Rightarrow> 'k) \<Rightarrow> (store_op \<Rightarrow> bool) \<Rightarrow> ('h, 'x, 'a) gw_op \<Rightarrow> ('h, 'x) gw_scheme \<Rightarrow> bool" where
  "track K P m g \<longleftrightarrow>
     (\<exists>ops. gw_store (snd (run_state m g)) = store_run ops (gw_store g) \<and> list_all P ops) \<and> K (snd (run_state m g)) = K g"

named_theorems track_rules

lemma store_run_append: "store_run (xs @ ys) s = store_run ys (store_run xs s)"
  by (simp add: store_run_def)

lemma track_same:
  "(\<And>g. gw_store (snd (run_state m g)) = gw_store g \<and> K (snd (run_state m g)) = K g) \<Longrightarrow> track K P m g"
  unfolding track_def by (rule conjI, rule exI[of _ "[]"]) (simp_all add: store_run_def)

lemma track_return [track_rules]: "track K P (State_Monad.return x) g"
  by (rule track_same) simp

lemma track_bind [track_rules]:
  assumes "track K P m g" and "\<And>x g'. run_state m g = (x, g') \<Longrightarrow> K g' = K g \<Longrightarrow> track K P (k x) g'"
  shows "track K P (State_Monad.bind m k) g"
proof -
  obtain x g' where m: "run_state m g = (x, g')" by (rule prod.exhaust)
  obtain ops where ops: "gw_store g' = store_run ops (gw_store g)" "list_all P ops" and c: "K g' = K g"
    using assms(1) m by (auto simp: track_def)
  obtain y g'' where k: "run_state (k x) g' = (y, g'')" by (rule prod.exhaust)
  from assms(2)[OF m c] k obtain ops' where "gw_store g'' = store_run ops' (gw_store g')" "list_all P ops'" "K g'' = K g'"
    by (auto simp: track_def)
  then have "gw_store g'' = store_run (ops @ ops') (gw_store g) \<and> list_all P (ops @ ops')" using ops by (simp add: store_run_append)
  moreover have "run_state (State_Monad.bind m k) g = (y, g'')" using m k by simp
  ultimately show ?thesis using c \<open>K g'' = K g'\<close> unfolding track_def by (metis snd_conv)
qed

lemma track_get [track_rules]: "track K P State_Monad.get g"
  by (rule track_same) simp

lemma track_get_bind: "track K P (k g) g \<Longrightarrow> track K P (State_Monad.bind State_Monad.get k) g"
  by (simp add: track_def)

lemma track_if [track_rules]: "(b \<Longrightarrow> track K P m g) \<Longrightarrow> (\<not> b \<Longrightarrow> track K P k g) \<Longrightarrow> track K P (if b then m else k) g"
  by simp

lemma track_option [track_rules]:
  "(x = None \<Longrightarrow> track K P m g) \<Longrightarrow> (\<And>y. x = Some y \<Longrightarrow> track K P (k y) g) \<Longrightarrow> track K P (case x of None \<Rightarrow> m | Some y \<Rightarrow> k y) g"
  by (cases x) simp_all

lemma track_result [track_rules]:
  "(\<And>e. x = Inl e \<Longrightarrow> track K P (m e) g) \<Longrightarrow> (\<And>y. x = Inr y \<Longrightarrow> track K P (k y) g) \<Longrightarrow> track K P (case x of Inl e \<Rightarrow> m e | Inr y \<Rightarrow> k y) g"
  by (cases x) simp_all

lemma track_mono: "track K P m g \<Longrightarrow> (\<And>x. P x \<Longrightarrow> Q x) \<Longrightarrow> track K Q m g"
  unfolding track_def by (metis list.pred_mono_strong)

lemma track_set: "gw_store g' = gw_store g \<Longrightarrow> K g' = K g \<Longrightarrow> track K P (State_Monad.set g') g"
  unfolding track_def by (rule conjI, rule exI[of _ "[]"]) (simp_all add: store_run_def)

lemma track_False: "track K (\<lambda>_. False) m g \<Longrightarrow> run_state m g = (x, g') \<Longrightarrow> gw_store g' = gw_store g \<and> K g' = K g"
  by (auto simp: track_def store_run_def list_all_iff)

fun is_add :: "store_op \<Rightarrow> bool" where
  "is_add (OpAdd _ _ _ _ _ _ _) = True"
| "is_add _ = False"

text \<open>Everything but the knock handlers only issues calls that open no session.\<close>

abbreviation no_add :: "store_op \<Rightarrow> bool" where "no_add x \<equiv> \<not> is_add x"

locale store_client =
  fixes K :: "('h, 'x) gw_scheme \<Rightarrow> 'k"
  assumes keeps_store: "K (g\<lparr>gw_store := s\<rparr>) = K g"
    and keeps_timers: "K (g\<lparr>gw_timers := ts\<rparr>) = K g"
    and keeps_host: "K (g\<lparr>gw_host := h\<rparr>) = K g"
    and keeps_events: "K (g\<lparr>gw_events := es\<rparr>) = K g"
begin

lemma track_on_host [track_rules]: "track K P (on_host m) g"
  by (rule track_same) (simp add: on_host_def case_prod_beta keeps_host)

lemma track_emit [track_rules]: "track K P (emit sink ev) g"
  by (rule track_same) (simp add: emit_def keeps_events)

lemma track_AfterFunc [track_rules]: "track K P (AfterFunc now d t) g"
  by (rule track_same) (simp add: AfterFunc_def keeps_timers)

lemma track_StopAll [track_rules]: "track K P StopAll g"
  by (rule track_same) (simp add: StopAll_def keeps_timers)

lemma track_on_store: "(\<And>s. snd (f s) = store_step x s) \<Longrightarrow> P x \<Longrightarrow> track K P (on_store f) g"
  unfolding track_def
  by (rule conjI, rule exI[of _ "[x]"]) (simp_all add: on_store_def store_run_def case_prod_beta keeps_store)

lemma track_revoke [track_rules]: "track K P (revokeFirewall env sink fw remote port) g"
  unfolding revokeFirewall_def by (intro track_rules)

lemma track_Cleanup [track_rules]: "track K P (CleanupFirewallDetached env fw) g"
  unfolding CleanupFirewallDetached_def by (intro track_rules)

lemma track_InitFirewall [track_rules]: "track K P (InitFirewall env fw) g"
  unfolding InitFirewall_def by (intro track_rules)

lemma track_open_firewall: "(\<And>x. no_add x \<Longrightarrow> P x) \<Longrightarrow> track K P (open_firewall env sink fw remote cid port ttl now) g"
  unfolding open_firewall_def AllowFirewall_def
  by (intro track_rules track_on_store[of "MarkFirewall now remote port ttl" "OpMark now remote port ttl"]) simp_all

lemma track_end_lease: "track K no_add (end_lease env sink fw remote port lease now) g"
  unfolding end_lease_def
  by (intro track_rules track_on_store[of "ExpireFirewall remote port lease now" "OpExpireFirewall remote port lease now"]) simp_all

end

lemma open_firewall_accepted:
  assumes "run_state (open_firewall env sink fw remote cid port ttl now) g = (Some i, g')"
  shows "fst (run_state (backend_Allow env fw remote port ttl) (gw_host g)) = None"
proof (rule ccontr)
  assume n: "fst (run_state (backend_Allow env fw remote port ttl) (gw_host g)) \<noteq> None"
  obtain e h where a: "run_state (backend_Allow env fw remote port ttl) (gw_host g) = (e, h)" by (rule prod.exhaust)
  with n obtain err where "e = Some err" by (cases e) auto
  with a assms show False by (simp add: open_firewall_def AllowFirewall_def on_host_def emit_def)
qed

lemma asked_ops:
  assumes "asked cfg clk remote s s'" "s_KnockStore cfg = Some CheckAndConsume"
  shows "\<exists>ops. s' = store_run ops s \<and> list_all no_add ops"
proof -
  from assms consider "s' = s" | peer where "s' = snd (CheckAndConsume (t_knock clk) peer remote s)" by (auto simp: asked_def)
  then show ?thesis
  proof cases
    case 1
    then show ?thesis by (intro exI[of _ "[]"]) (simp add: store_run_def)
  next
    case (2 peer)
    then show ?thesis by (intro exI[of _ "[OpCheck (t_knock clk) peer remote]"]) (simp add: store_run_def)
  qed
qed

section \<open>Runs\<close>

text \<open>
  A system that takes inputs and owns a session store. Under its invariant every step changes the store by calls, and
  \<open>adds\<close> says which input opens which session in which state. Along a run, then, every session was
  opened by an input of the run, and a connection the store grants is due to one.
\<close>

locale store_runs =
  fixes step :: "'i \<Rightarrow> 's \<Rightarrow> 's" and store :: "'s \<Rightarrow> KnockSessionStore" and inv :: "'s \<Rightarrow> bool" and adds :: "'i \<Rightarrow> 's \<Rightarrow> store_op \<Rightarrow> bool"
  assumes step_inv: "inv s \<Longrightarrow> inv (step x s)"
    and step_store: "inv s \<Longrightarrow> \<exists>ops. store (step x s) = store_run ops (store s) \<and> list_all (\<lambda>y. no_add y \<or> adds x s y) ops"
begin

lemma run_inv: "inv s \<Longrightarrow> inv (fold step xs s)"
  by (induction xs arbitrary: s) (simp_all add: step_inv)

lemma run_store:
  assumes "inv s"
  shows "\<exists>ops. store (fold step xs s) = store_run ops (store s) \<and>
    list_all (\<lambda>y. no_add y \<or> (\<exists>ys x zs. xs = ys @ x # zs \<and> adds x (fold step ys s) y)) ops"
  using assms
proof (induction xs arbitrary: s)
  case Nil
  then show ?case by (intro exI[of _ "[]"]) (simp add: store_run_def)
next
  case (Cons x xs)
  obtain ops where ops: "store (step x s) = store_run ops (store s)" "list_all (\<lambda>y. no_add y \<or> adds x s y) ops"
    using step_store[OF Cons.prems] by blast
  obtain ops' where ops': "store (fold step xs (step x s)) = store_run ops' (store (step x s))"
      "list_all (\<lambda>y. no_add y \<or> (\<exists>ys z zs. xs = ys @ z # zs \<and> adds z (fold step ys (step x s)) y)) ops'"
    using Cons.IH[OF step_inv[OF Cons.prems]] by blast
  let ?by = "\<lambda>y. \<exists>ys z zs. x # xs = ys @ z # zs \<and> adds z (fold step ys s) y"
  have first: "adds x s y \<Longrightarrow> ?by y" for y by (intro exI[of _ "[]"] exI[of _ x] exI[of _ xs]) simp
  have later: "xs = ys @ z # zs \<Longrightarrow> adds z (fold step ys (step x s)) y \<Longrightarrow> ?by y" for ys z zs y
    by (intro exI[of _ "x # ys"] exI[of _ z] exI[of _ zs]) simp
  have "list_all (\<lambda>y. no_add y \<or> ?by y) ops"
    using ops(2) by (rule list.pred_mono_strong) (use first in blast)
  moreover have "list_all (\<lambda>y. no_add y \<or> ?by y) ops'"
    using ops'(2) by (rule list.pred_mono_strong) (use later in blast)
  ultimately have "list_all (\<lambda>y. no_add y \<or> ?by y) (ops @ ops')" by simp
  moreover have "store (fold step (x # xs) s) = store_run (ops @ ops') (store s)" using ops(1) ops'(1) by (simp add: store_run_append)
  ultimately show ?case by blast
qed

lemma granted_by:
  assumes "inv s" "store s = NewKnockSessionStore" "CheckAndConsume now peer remote (store (fold step xs s)) = (None, s')"
  obtains addr ys x zs t sid port ttl uses where "AddrFromNet remote = Some addr" "xs = ys @ x # zs" "inv (fold step ys s)"
    "adds x (fold step ys s) (OpAdd t addr (p_ClientID peer) sid port ttl uses)"
    "newSessionKeyForPort addr (p_ClientID peer) (p_ServerPort peer) = newSessionKeyForPort addr (p_ClientID peer) port"
    "now < t + ttl" "sid = [] \<or> sid = p_SessionID peer"
proof -
  obtain ops where ops: "store (fold step xs s) = store_run ops (store s)"
      "list_all (\<lambda>y. no_add y \<or> (\<exists>ys x zs. xs = ys @ x # zs \<and> adds x (fold step ys s) y)) ops"
    using run_store[OF assms(1)] by blast
  obtain addr t sid port ttl uses where a: "AddrFromNet remote = Some addr" "OpAdd t addr (p_ClientID peer) sid port ttl uses \<in> set ops"
      "newSessionKeyForPort addr (p_ClientID peer) (p_ServerPort peer) = newSessionKeyForPort addr (p_ClientID peer) port"
      "now < t + ttl" "sid = [] \<or> sid = p_SessionID peer"
    using admitted_by_knock[OF assms(3)[unfolded ops(1) assms(2) NewKnockSessionStore_def]] by blast
  then obtain ys x zs where "xs = ys @ x # zs" "adds x (fold step ys s) (OpAdd t addr (p_ClientID peer) sid port ttl uses)"
    using ops(2) by (auto simp: list_all_iff)
  then show ?thesis using that a run_inv[OF assms(1)] by blast
qed

end

end
