(* ===== verification/Gate_Admission.thy ===== *)
theory Gate_Admission
  imports Gate Gate_Track Auth_Knock
begin

text \<open>
  A gate at work, and what it admits. \<open>gate_react\<close> is one step of a started gate: a knock, a
  timer, an authentication by the wrapped listener's server, a connection in firewall-only mode, a failure of the knock listener, the end of
  the context or \<open>Close\<close>; a run is any sequence of them. Every step changes the session
  store by calls of its methods, and sessions are opened by knocks only (the interpretation \<open>gate_runs\<close>), so what
  \<open>Session_Store\<close> knows of histories of calls carries over to gates.
\<close>

section \<open>Runs\<close>

datatype gate_input =
    InKnock knock_clock Event
  | InFire nat time time
  | InAuth server_clock conn
  | InConn time net_addr
  | InServeError error
  | InDone
  | InClose

type_synonym ('h, 'r, 'p) gate_world = "('h, 'p) Gate \<times> ('r, KnockSessionStore, 'p) world"

definition gate_auth ::
    "crypto \<Rightarrow> (KnockSessionStore, 'p) ServerConfig \<Rightarrow> server_clock \<Rightarrow> conn \<Rightarrow> ('h, 'r, 'p) gate_world \<Rightarrow>
     PeerInfo result \<times> conn \<times> ('h, 'r, 'p) gate_world" where
  "gate_auth cr server clk c gw =
     (case gw of (g, w) \<Rightarrow>
       (case serverAuthNormalized cr server clk c (w\<lparr>w_knock := gw_store g\<rparr>) of
          (r, c, w) \<Rightarrow> (r, c, g\<lparr>gw_store := w_knock w\<rparr>, w)))"

definition gate_handler :: "'h fw_env \<Rightarrow> net_addr \<Rightarrow> knock_clock \<Rightarrow> Event \<Rightarrow> ('h, 'p, unit) gate_op" where
  "gate_handler env ln clk ev = do {
     g \<leftarrow> State_Monad.get;
     if \<not> ga_running g then State_Monad.return ()
     else if gc_Mode (ga_cfg g) = KnockAuthOnly then knockSessionOnlyHandler ln clk ev
     else knockHandler env ln clk ev }"

fun gate_react ::
    "crypto \<Rightarrow> 'h fw_env \<Rightarrow> net_addr \<Rightarrow> ('r, 'p) wrapped \<Rightarrow> gate_input \<Rightarrow> ('h, 'r, 'p) gate_world \<Rightarrow> ('h, 'r, 'p) gate_world" where
  "gate_react cr env ln lis (InKnock clk ev) (g, w) = (snd (run_state (gate_handler env ln clk ev) g), w)"
| "gate_react cr env ln lis (InFire i t1 t2) (g, w) = (snd (run_state (fire_timer env i t1 t2) g), w)"
| "gate_react cr env ln lis (InAuth clk c) gw =
     (case lis of AuthListener l \<Rightarrow> snd (snd (gate_auth cr (al_server l) clk c gw)) | FirewallOnlyListener \<Rightarrow> gw)"
| "gate_react cr env ln lis (InConn now addr) (g, w) =
     (case lis of AuthListener _ \<Rightarrow> (g, w) | FirewallOnlyListener \<Rightarrow> (snd (run_state (firewall_only_turn now addr) g), w))"
| "gate_react cr env ln lis (InServeError err) (g, w) = (snd (run_state (serve_failed err) g), w)"
| "gate_react cr env ln lis InDone (g, w) = (snd (run_state (ctx_done env) g), w)"
| "gate_react cr env ln lis InClose (g, w) = (snd (run_state (gate_Close env) g), w)"

definition gate_run ::
    "crypto \<Rightarrow> 'h fw_env \<Rightarrow> net_addr \<Rightarrow> ('r, 'p) wrapped \<Rightarrow> gate_input list \<Rightarrow> ('h, 'r, 'p) gate_world \<Rightarrow> ('h, 'r, 'p) gate_world" where
  "gate_run cr env ln lis xs gw = fold (gate_react cr env ln lis) xs gw"

section \<open>What computations do to the session store\<close>

interpretation gate: store_client "ga_cfg :: ('h, 'p, 'z) Gate_scheme \<Rightarrow> 'p GateConfig"
  by unfold_locales simp_all

lemma track_start [track_rules]: "track ga_cfg P start_goroutines g"
  by (rule track_same) (simp add: start_goroutines_def)

lemma track_recordCleanupErr [track_rules]: "track ga_cfg P (recordCleanupErr e) g"
  by (rule track_same) (simp add: recordCleanupErr_def emit_def split: option.split)

lemma track_task: "track ga_cfg no_add (gate_task env t t1 t2) g"
proof (cases t)
  case (EndSession remote cid port)
  then show ?thesis
    by (simp, intro track_rules gate.track_on_store[of "ExpireForPort remote cid port t1" "OpExpireForPort remote cid port t1"]) simp_all
next
  case (EndKnock remote cid port lease fw)
  then show ?thesis
    by (simp only: gate_task.simps, intro track_rules gate.track_end_lease gate.track_on_store[of "store_Expire remote cid t1" "OpExpire remote cid t1"]) simp_all
qed

lemma track_fire: "track ga_cfg no_add (fire_timer env i t1 t2) g"
  unfolding fire_timer_def
  by (rule track_bind[OF track_get]) (auto intro!: track_rules track_task track_set)

lemma track_serve_failed: "track ga_cfg P (serve_failed err) g"
  unfolding serve_failed_def by (intro track_rules)

lemma track_ctx_done: "track ga_cfg P (ctx_done env) g"
  unfolding ctx_done_def by (rule track_bind[OF track_get]) (auto intro!: track_rules track_set)

lemma track_Close: "track ga_cfg P (gate_Close env) g"
  unfolding gate_Close_def
  by (rule track_bind[OF track_get]) (auto intro!: track_rules track_set track_ctx_done)

lemma track_turn: "track ga_cfg no_add (firewall_only_turn now addr) g"
  unfolding firewall_only_turn_def
  by (intro track_rules gate.track_on_store[of "CheckAndConsume now (firewall_only_peer _) addr" "OpCheck now (firewall_only_peer _) addr"]) simp_all

section \<open>Sessions are opened by knocks\<close>

text \<open>The backend of a gate accepts the address, on the host as it is.\<close>

definition allowed :: "'h fw_env \<Rightarrow> ('h, 'p) Gate \<Rightarrow> netip_Addr \<Rightarrow> int \<Rightarrow> duration \<Rightarrow> bool" where
  "allowed env g remote port ttl \<longleftrightarrow> fst (run_state (backend_Allow env (gate_firewall (ga_cfg g)) remote port ttl) (gw_host g)) = None"

text \<open>
  The session a knock opens: for the source of the knock, with the client and the session id of the knock
  and the protected port, or for everybody at that address in firewall-only mode; in the modes with a
  firewall the backend has accepted the address before.
\<close>

definition knock_session :: "'h fw_env \<Rightarrow> ('h, 'p) Gate \<Rightarrow> net_addr \<Rightarrow> knock_clock \<Rightarrow> Event \<Rightarrow> store_op \<Rightarrow> bool" where
  "knock_session env g ln clk ev x \<longleftrightarrow>
     (let cfg = ga_cfg g; ttl = allow_ttl (gc_AllowTTL cfg); port = protected_port cfg ln
      in \<exists>remote. AddrFromIP (ev_SourceIP ev) = Some remote \<and>
           (gc_Mode cfg \<noteq> KnockAuthOnly \<longrightarrow> allowed env g remote port ttl) \<and>
           x = (if gc_Mode cfg = KnockFirewallOnly
                then OpAdd (kc_session clk) remote firewallOnlyClientID [] 0 ttl (gc_MaxConnectionsPerKnock cfg)
                else OpAdd (kc_session clk) remote (ev_ClientID ev) (ev_SessionID ev) port ttl (gc_MaxConnectionsPerKnock cfg)))"

lemma open_firewall_allowed:
  assumes "run_state (open_firewall env sink (gate_firewall (ga_cfg g)) remote cid port ttl now) g = (Some i, g')"
  shows "allowed env g remote port ttl"
  unfolding allowed_def by (rule open_firewall_accepted[OF assms])

lemma track_session_handler:
  assumes "gc_Mode (ga_cfg g) = KnockAuthOnly"
  shows "track ga_cfg (\<lambda>x. no_add x \<or> knock_session env g ln clk ev x) (knockSessionOnlyHandler ln clk ev) g"
proof (cases "AddrFromIP (ev_SourceIP ev)")
  case None
  then show ?thesis unfolding knockSessionOnlyHandler_def Let_def by (intro track_rules) simp
next
  case (Some remote)
  show ?thesis
    unfolding knockSessionOnlyHandler_def Let_def store_do_def
    by (rule track_bind[OF track_get], simp add: Some,
        intro track_rules gate.track_on_store[where x = "OpAdd (kc_session clk) remote (ev_ClientID ev) (ev_SessionID ev)
          (protected_port (ga_cfg g) ln) (allow_ttl (gc_AllowTTL (ga_cfg g))) (gc_MaxConnectionsPerKnock (ga_cfg g))"])
      (use Some assms in \<open>auto simp: knock_session_def Let_def gate_modes\<close>)
qed

lemma track_handler:
  assumes "gc_Mode (ga_cfg g) \<noteq> KnockAuthOnly"
  shows "track ga_cfg (\<lambda>x. no_add x \<or> knock_session env g ln clk ev x) (knockHandler env ln clk ev) g"
proof (cases "AddrFromIP (ev_SourceIP ev)")
  case None
  then show ?thesis
    unfolding knockHandler_def Let_def by - (rule track_bind[OF track_get], simp add: gate.track_emit)
next
  case (Some remote)
  let ?cfg = "ga_cfg g"
  let ?x = "if gc_Mode ?cfg = KnockFirewallOnly
     then OpAdd (kc_session clk) remote firewallOnlyClientID [] 0 (allow_ttl (gc_AllowTTL ?cfg)) (gc_MaxConnectionsPerKnock ?cfg)
     else OpAdd (kc_session clk) remote (ev_ClientID ev) (ev_SessionID ev) (protected_port ?cfg ln) (allow_ttl (gc_AllowTTL ?cfg)) (gc_MaxConnectionsPerKnock ?cfg)"
  let ?id = "if gc_Mode ?cfg = KnockFirewallOnly then firewallOnlyClientID else ev_ClientID ev"
  have rest: "track ga_cfg (\<lambda>x. no_add x \<or> knock_session env g ln clk ev x)
      (do { _ \<leftarrow> on_store (\<lambda>s. ((), (if gc_Mode ?cfg = KnockFirewallOnly
                then AddSession (kc_session clk) remote ?id [] (allow_ttl (gc_AllowTTL ?cfg)) (gc_MaxConnectionsPerKnock ?cfg)
                else AddSessionForPort (kc_session clk) remote ?id (ev_SessionID ev) (protected_port ?cfg ln)
                  (allow_ttl (gc_AllowTTL ?cfg)) (gc_MaxConnectionsPerKnock ?cfg)) s));
            _ \<leftarrow> emit (gc_Events ?cfg) e; AfterFunc t d task }) g'"
    if "allowed env g remote (protected_port ?cfg ln) (allow_ttl (gc_AllowTTL ?cfg))" for e t d task g'
    by (intro track_rules gate.track_on_store[where x = ?x]) (use that Some in \<open>auto simp: AddSession_def knock_session_def Let_def\<close>)
  show ?thesis
    unfolding knockHandler_def Let_def store_do_def
    apply (rule track_get_bind)
    unfolding Some option.case
    apply (rule track_bind[OF gate.track_open_firewall], simp)
    apply (rule track_option, rule track_return)
    by (rule rest[OF open_firewall_allowed]) simp
qed

section \<open>Runs and the session store\<close>

lemma track_gate_handler: "track ga_cfg (\<lambda>y. no_add y \<or> knock_session env g ln clk ev y) (gate_handler env ln clk ev) g"
  unfolding gate_handler_def
  by (rule track_get_bind) (intro track_if track_return track_session_handler track_handler)

text \<open>A wrapped listener that asks the store of the gate, if it authenticates at all.\<close>

definition knock_listener :: "('r, 'p) wrapped \<Rightarrow> bool" where
  "knock_listener lis \<longleftrightarrow>
     (case lis of AuthListener l \<Rightarrow> s_RequireKnock (al_server l) \<and> s_KnockStore (al_server l) = Some CheckAndConsume
      | FirewallOnlyListener \<Rightarrow> True)"

text \<open>Which input opens a session: a knock, in the state it finds.\<close>

definition gate_adds :: "'h fw_env \<Rightarrow> net_addr \<Rightarrow> gate_input \<Rightarrow> ('h, 'r, 'p) gate_world \<Rightarrow> store_op \<Rightarrow> bool" where
  "gate_adds env ln x gw y \<longleftrightarrow> (\<exists>clk ev. x = InKnock clk ev \<and> knock_session env (fst gw) ln clk ev y)"

lemma gate_react_store:
  assumes "gate_react cr env ln lis x (g, w) = (g', w')" "knock_listener lis"
  shows "ga_cfg g' = ga_cfg g \<and> (\<exists>ops. gw_store g' = store_run ops (gw_store g) \<and> list_all (\<lambda>y. no_add y \<or> gate_adds env ln x (g, w) y) ops)"
proof -
  have t: "track ga_cfg P m g \<Longrightarrow> (\<And>y. P y \<Longrightarrow> no_add y \<or> gate_adds env ln x (g, w) y) \<Longrightarrow> g' = snd (run_state m g) \<Longrightarrow> ?thesis" for P m
    unfolding track_def by (metis (mono_tags, lifting) list.pred_mono_strong)
  have n: "track ga_cfg no_add m g \<Longrightarrow> g' = snd (run_state m g) \<Longrightarrow> ?thesis" for m by (erule t) simp_all
  have same: "g' = g \<Longrightarrow> ?thesis" by (simp, intro exI[of _ "[]"]) (simp add: store_run_def)
  show ?thesis
  proof (cases x)
    case (InKnock clk ev)
    show ?thesis
      by (rule t[OF track_gate_handler[of env g ln clk ev]]) (use assms(1) InKnock in \<open>auto simp: gate_adds_def\<close>)
  next
    case (InFire i t1 t2)
    with assms(1) show ?thesis by (intro n[OF track_fire[of env i t1 t2]]) simp
  next
    case (InAuth clk c)
    show ?thesis
    proof (cases lis)
      case (AuthListener l)
      then obtain r c' w1 where run: "serverAuthNormalized cr (al_server l) clk c (w\<lparr>w_knock := gw_store g\<rparr>) = (r, c', w1)"
          and g': "g' = g\<lparr>gw_store := w_knock w1\<rparr>"
        using assms(1) InAuth by (auto simp: gate_auth_def split: prod.splits)
      obtain ops where "w_knock w1 = store_run ops (gw_store g)" "list_all no_add ops"
        using asked_ops[OF serverAuth_asked[OF run]] assms(2) AuthListener by (auto simp: knock_listener_def)
      then show ?thesis using g' by (auto simp: list_all_iff)
    next
      case FirewallOnlyListener
      then show ?thesis using assms(1) InAuth by (intro same) simp
    qed
  next
    case (InConn now addr)
    show ?thesis
    proof (cases lis)
      case (AuthListener l)
      then show ?thesis using assms(1) InConn by (intro same) simp
    next
      case FirewallOnlyListener
      then show ?thesis using assms(1) InConn by (intro n[OF track_turn[of now addr]]) simp
    qed
  next
    case (InServeError err)
    with assms(1) show ?thesis by (intro n[OF track_serve_failed[of no_add err]]) simp
  next
    case InDone
    with assms(1) show ?thesis by (intro n[OF track_ctx_done[of no_add env]]) simp
  next
    case InClose
    with assms(1) show ?thesis by (intro n[OF track_Close[of no_add env]]) simp
  qed
qed

interpretation gate_runs: store_runs "gate_react cr env ln lis" "\<lambda>gw. gw_store (fst gw)"
    "\<lambda>gw. knock_listener lis \<and> ga_cfg (fst gw) = cfg" "gate_adds env ln"
  for cr env ln lis cfg
proof
  fix x and gw :: "('a, 'b, 'c) gate_world"
  assume inv: "knock_listener lis \<and> ga_cfg (fst gw) = cfg"
  obtain g w where gw: "gw = (g, w)" by (rule prod.exhaust)
  obtain g' w' where r: "gate_react cr env ln lis x (g, w) = (g', w')" by (rule prod.exhaust)
  from gate_react_store[OF r] inv gw r
  show "knock_listener lis \<and> ga_cfg (fst (gate_react cr env ln lis x gw)) = cfg"
    "\<exists>ops. gw_store (fst (gate_react cr env ln lis x gw)) = store_run ops (gw_store (fst gw)) \<and> list_all (\<lambda>y. no_add y \<or> gate_adds env ln x gw y) ops"
    by auto
qed

section \<open>The wrapped listener\<close>

lemma wrap_auth_knock:
  assumes "run_state (wrap_auth env (knock_listenerConfig cfg ln) rc policy) g = (Inr lis, g')"
  shows "\<exists>l. lis = AuthListener l" "knock_listener lis"
  using assms
  by (auto simp: wrap_auth_def WrapListenerWithConfigE_def listener_withDefaults_def knock_listenerConfig_def Let_def rbind_def
      knock_listener_def server_WithDefaults_knock split: sum.splits prod.splits dest!: NewServer_knock)

lemma track_wrap_auth [track_rules]: "track ga_cfg P (wrap_auth env lc rc policy) g"
  unfolding wrap_auth_def by (intro track_rules track_Close)

lemma track_startKnockAuthOnly [track_rules]: "track ga_cfg P (startKnockAuthOnly ln sock) g"
  unfolding startKnockAuthOnly_def by (intro track_rules)

lemma track_startKnock [track_rules]: "track ga_cfg P (startKnock env ln sock) g"
  unfolding startKnock_def Let_def by (intro track_rules)

text \<open>Wrapping a listener in a mode with knocks: an empty store, which the listener asks.\<close>

lemma gate_Wrap_knock:
  assumes new: "gate_New cfg h = Inr g0" and wrap: "run_state (gate_Wrap env (Some ln) sock rc policy) g0 = (Inr lis, g1)"
    and mode: "gc_Mode cfg \<in> {KnockAuthOnly, KnockFirewallAuth, KnockFirewallOnly}"
  shows "gw_store g1 = NewKnockSessionStore" "knock_listener lis"
    "gc_Mode (ga_cfg g1) = gc_Mode cfg" "gc_AllowTTL (ga_cfg g1) = gc_AllowTTL cfg"
    "protected_port (ga_cfg g1) ln = protected_port cfg ln"
    "lis = FirewallOnlyListener \<longleftrightarrow> gc_Mode cfg = KnockFirewallOnly"
proof -
  obtain g2 where b: "run_state beginLifecycle g0 = (None, g2)"
    and g2: "gw_store g2 = gw_store g0" "ga_cfg g2 = ga_cfg g0"
    using new by (auto simp: gate_New_def rbind_def beginLifecycle_def split: sum.splits)
  obtain e g3 where c: "run_state (configureFirewallPort (ListenerPort ln)) g2 = (e, g3)" by (rule prod.exhaust)
  have g3: "gw_store g3 = gw_store g2" "gc_Mode (ga_cfg g3) = gc_Mode (ga_cfg g2)" "gc_AllowTTL (ga_cfg g3) = gc_AllowTTL (ga_cfg g2)"
    "gc_Auth (ga_cfg g3) = gc_Auth (ga_cfg g2)"
    using c by (auto simp: configureFirewallPort_def Let_def split: sum.splits if_splits)
  define m where "m = (if gc_Mode (ga_cfg g3) = KnockAuthOnly then do {
         e \<leftarrow> startKnockAuthOnly ln sock;
         case e of Some err \<Rightarrow> State_Monad.return (Inl err)
         | None \<Rightarrow> wrap_auth env (knock_listenerConfig (ga_cfg g3) ln) rc policy }
       else if gc_Mode (ga_cfg g3) = KnockFirewallAuth then do {
         e \<leftarrow> startKnock env ln sock;
         case e of Some err \<Rightarrow> State_Monad.return (Inl err)
         | None \<Rightarrow> wrap_auth env (knock_listenerConfig (ga_cfg g3) ln) rc policy }
       else do {
         e \<leftarrow> startKnock env ln sock;
         State_Monad.return (case e of Some err \<Rightarrow> Inl err | None \<Rightarrow> Inr FirewallOnlyListener) })"
  have cfg: "gc_Mode (ga_cfg g0) = gc_Mode cfg" "gc_AllowTTL (ga_cfg g0) = gc_AllowTTL cfg" "gc_Auth (ga_cfg g0) = gc_Auth cfg"
    and st: "gw_store g0 = NewKnockSessionStore"
    using new mode by (auto simp: gate_New_def validateGateConfig_def Let_def rbind_def gate_modes split: sum.splits option.splits if_splits)
  have mode3: "gc_Mode (ga_cfg g3) = gc_Mode cfg" using g3(2) g2(2) cfg(1) by simp
  then have mode': "gc_Mode (ga_cfg g3) \<noteq> AuthOnly" "gc_Mode (ga_cfg g3) \<notin> {KnockAuthOnly, KnockFirewallAuth} \<Longrightarrow> gc_Mode (ga_cfg g3) = KnockFirewallOnly"
    using mode by (auto simp: gate_modes)
  have e: "e = None" using wrap b c by (cases e) (simp_all add: gate_Wrap_def)
  have v: "ValidateDropUDPKnockPort (gate_firewall (ga_cfg g3)) (gc_KnockMethod (ga_cfg g3)) = None"
    using wrap b c e by (cases "ValidateDropUDPKnockPort (gate_firewall (ga_cfg g3)) (gc_KnockMethod (ga_cfg g3))") (simp_all add: gate_Wrap_def Let_def)
  have modes: "KnockAuthOnly \<noteq> KnockFirewallAuth" "KnockAuthOnly \<noteq> KnockFirewallOnly" "KnockFirewallAuth \<noteq> KnockFirewallOnly"
    by (simp_all add: gate_modes)
  have run: "run_state m g3 = (Inr lis, g1)"
    using wrap b c e mode mode' modes unfolding gate_Wrap_def m_def mode3 by (auto simp: Let_def v mode3)
  have "track ga_cfg (\<lambda>_. False) m g3" unfolding m_def by (intro track_rules)
  from track_False[OF this run] have g1: "gw_store g1 = gw_store g3" "ga_cfg g1 = ga_cfg g3" by auto
  show "gw_store g1 = NewKnockSessionStore" using g1 g2 g3 st by simp
  show "gc_Mode (ga_cfg g1) = gc_Mode cfg" using g1 mode3 by simp
  show "gc_AllowTTL (ga_cfg g1) = gc_AllowTTL cfg" "protected_port (ga_cfg g1) ln = protected_port cfg ln"
    using g1(2) g3(3,4) g2(2) cfg(2,3) by (simp_all add: protected_port_def)
  show "knock_listener lis"
    using run by (auto simp: m_def knock_listener_def dest: wrap_auth_knock(2) split: if_splits option.splits prod.splits)
  show "lis = FirewallOnlyListener \<longleftrightarrow> gc_Mode cfg = KnockFirewallOnly"
    using run mode3 mode' by (auto simp: m_def gate_modes dest: wrap_auth_knock(1) split: if_splits option.splits prod.splits)
qed

text \<open>What a granted connection says of a run of a gate.\<close>

lemma granted_by_knock:
  assumes new: "gate_New cfg h = Inr g0" and wrap: "run_state (gate_Wrap env (Some ln) sock rc policy) g0 = (Inr lis, g1)"
    and mode: "gc_Mode cfg \<in> {KnockAuthOnly, KnockFirewallAuth, KnockFirewallOnly}"
    and run: "gate_run cr env ln lis xs (g1, w) = (g, w')"
    and ok: "CheckAndConsume now peer remote (gw_store g) = (None, s')"
  shows "\<exists>addr ys clk ev zs g2 w2. AddrFromNet remote = Some addr \<and> xs = ys @ InKnock clk ev # zs \<and>
    gate_run cr env ln lis ys (g1, w) = (g2, w2) \<and> AddrFromIP (ev_SourceIP ev) = Some addr \<and>
    now < kc_session clk + allow_ttl (gc_AllowTTL cfg) \<and>
    (gc_Mode cfg \<noteq> KnockAuthOnly \<longrightarrow> allowed env g2 addr (protected_port cfg ln) (allow_ttl (gc_AllowTTL cfg))) \<and>
    (gc_Mode cfg \<noteq> KnockFirewallOnly \<longrightarrow> p_ClientID peer = ev_ClientID ev \<and> (ev_SessionID ev = [] \<or> ev_SessionID ev = p_SessionID peer) \<and>
       newSessionKeyForPort addr (ev_ClientID ev) (protected_port cfg ln) = newSessionKeyForPort addr (p_ClientID peer) (p_ServerPort peer))"
proof -
  note g1 = gate_Wrap_knock[OF new wrap mode]
  let ?at = "\<lambda>ys. fold (gate_react cr env ln lis) ys (g1, w)"
  have inv: "knock_listener lis \<and> ga_cfg (fst (g1, w)) = ga_cfg g1" and st: "gw_store (fst (g1, w)) = NewKnockSessionStore" using g1(1,2) by auto
  have ok': "CheckAndConsume now peer remote (gw_store (fst (fold (gate_react cr env ln lis) xs (g1, w)))) = (None, s')"
    using ok run by (simp add: gate_run_def)
  obtain addr ys x zs t sid port ttl uses where a: "AddrFromNet remote = Some addr" "xs = ys @ x # zs"
      "knock_listener lis \<and> ga_cfg (fst (?at ys)) = ga_cfg g1" "gate_adds env ln x (?at ys) (OpAdd t addr (p_ClientID peer) sid port ttl uses)"
      "newSessionKeyForPort addr (p_ClientID peer) (p_ServerPort peer) = newSessionKeyForPort addr (p_ClientID peer) port"
      "now < t + ttl" "sid = [] \<or> sid = p_SessionID peer"
    by (rule gate_runs.granted_by[OF inv st ok'])
  from a(4) obtain clk ev where k: "x = InKnock clk ev" "knock_session env (fst (?at ys)) ln clk ev (OpAdd t addr (p_ClientID peer) sid port ttl uses)"
    by (auto simp: gate_adds_def)
  obtain g2 w2 where r: "?at ys = (g2, w2)" by (rule prod.exhaust)
  have c: "ga_cfg g2 = ga_cfg g1" using a(3) r by simp
  have "(gc_Mode cfg \<noteq> KnockAuthOnly \<longrightarrow> allowed env g2 addr (protected_port cfg ln) (allow_ttl (gc_AllowTTL cfg))) \<and>
      AddrFromIP (ev_SourceIP ev) = Some addr \<and> t = kc_session clk \<and> ttl = allow_ttl (gc_AllowTTL cfg) \<and>
      (gc_Mode cfg \<noteq> KnockFirewallOnly \<longrightarrow> p_ClientID peer = ev_ClientID ev \<and> sid = ev_SessionID ev \<and> port = protected_port cfg ln)"
    using k(2) unfolding knock_session_def Let_def r fst_conv c g1(3-5) by (auto split: if_splits)
  then show ?thesis
    using a(1,2,5-7) k(1) r unfolding gate_run_def
    by (intro exI[of _ addr] exI[of _ ys] exI[of _ clk] exI[of _ ev] exI[of _ zs] exI[of _ g2] exI[of _ w2]) auto
qed

section \<open>Admission\<close>

text \<open>
  Property C35. Behind a gate with knocks nobody is authenticated who has not knocked. Take a gate that
  wraps a listener in one of the modes that require a knock and an authentication, let it run through any
  sequence of knocks, timers, authentications, the end of its context and \<open>Close\<close>, and let its listener
  then authenticate a connection. Some earlier knock of the run came from the very address of the
  connection, carried the client id of the authenticated peer, and its session id if it carried any, and
  its allowance has not run out; the session it opened is the one for the port the peer authenticated for. In the mode
  with a firewall, the backend accepted that address when the knock was handled.
\<close>

theorem gate_admission:
  assumes new: "gate_New cfg h = Inr g0" and wrap: "run_state (gate_Wrap env (Some ln) sock rc policy) g0 = (Inr (AuthListener l), g1)"
    and mode: "gc_Mode cfg \<in> {KnockAuthOnly, KnockFirewallAuth}"
    and run: "gate_run cr env ln (AuthListener l) xs (g1, w) = (g, w')"
    and ok: "gate_auth cr (al_server l) clk c (g, w') = (Inr peer, c', gw')"
  shows "\<exists>addr ys kclk ev zs g2 w2. AddrFromNet (cn_remote c) = Some addr \<and> xs = ys @ InKnock kclk ev # zs \<and>
    gate_run cr env ln (AuthListener l) ys (g1, w) = (g2, w2) \<and> AddrFromIP (ev_SourceIP ev) = Some addr \<and>
    t_knock clk < kc_session kclk + allow_ttl (gc_AllowTTL cfg) \<and>
    p_ClientID peer = ev_ClientID ev \<and> (ev_SessionID ev = [] \<or> ev_SessionID ev = p_SessionID peer) \<and>
    newSessionKeyForPort addr (ev_ClientID ev) (protected_port cfg ln) = newSessionKeyForPort addr (p_ClientID peer) (p_ServerPort peer) \<and>
    (gc_Mode cfg = KnockFirewallAuth \<longrightarrow> allowed env g2 addr (protected_port cfg ln) (allow_ttl (gc_AllowTTL cfg)))"
proof -
  have mode': "gc_Mode cfg \<in> {KnockAuthOnly, KnockFirewallAuth, KnockFirewallOnly}" "gc_Mode cfg \<noteq> KnockFirewallOnly"
    "gc_Mode cfg = KnockFirewallAuth \<longrightarrow> gc_Mode cfg \<noteq> KnockAuthOnly"
    using mode by (auto simp: gate_modes)
  have req: "s_RequireKnock (al_server l)" "s_KnockStore (al_server l) = Some CheckAndConsume"
    using gate_Wrap_knock(2)[OF new wrap mode'(1)] by (simp_all add: knock_listener_def)
  obtain w1 where "serverAuthNormalized cr (al_server l) clk c (w'\<lparr>w_knock := gw_store g\<rparr>) = (Inr peer, c', w1)"
    using ok by (auto simp: gate_auth_def split: prod.splits)
  from serverAuth_granted[OF this req] obtain s' where "CheckAndConsume (t_knock clk) peer (cn_remote c) (gw_store g) = (None, s')"
    by (auto simp: prod_eq_iff)
  from granted_by_knock[OF new wrap mode'(1) run this] mode'(2,3) show ?thesis by metis
qed

text \<open>
  Property C36. In firewall-only mode a connection is handed out only to an address that has knocked:
  some earlier knock of the run came from it, its allowance has not run out, and the firewall backend accepted
  the address when the knock was handled.
\<close>

theorem firewall_only_admission:
  assumes new: "gate_New cfg h = Inr g0" and wrap: "run_state (gate_Wrap env (Some ln) sock rc policy) g0 = (Inr lis, g1)"
    and mode: "gc_Mode cfg = KnockFirewallOnly" and run: "gate_run cr env ln lis xs (g1, w) = (g, w')"
    and ok: "run_state (firewall_only_turn now remote) g = (True, g')"
  shows "lis = FirewallOnlyListener \<and>
    (\<exists>addr ys kclk ev zs g2 w2. AddrFromNet remote = Some addr \<and> xs = ys @ InKnock kclk ev # zs \<and>
       gate_run cr env ln lis ys (g1, w) = (g2, w2) \<and> AddrFromIP (ev_SourceIP ev) = Some addr \<and>
       now < kc_session kclk + allow_ttl (gc_AllowTTL cfg) \<and>
       allowed env g2 addr (protected_port cfg ln) (allow_ttl (gc_AllowTTL cfg)))"
proof -
  have mode': "gc_Mode cfg \<in> {KnockAuthOnly, KnockFirewallAuth, KnockFirewallOnly}" "gc_Mode cfg \<noteq> KnockAuthOnly"
    using mode by (auto simp: gate_modes)
  obtain addr s' where "CheckAndConsume now (firewall_only_peer addr) remote (gw_store g) = (None, s')"
    using ok by (auto simp: firewall_only_turn_def on_store_def split: option.splits prod.splits)
  from granted_by_knock[OF new wrap mode'(1) run this] mode'(2) gate_Wrap_knock(6)[OF new wrap mode'(1)] mode show ?thesis by metis
qed

end
