(* ===== verification/Gate_Leases.thy ===== *)
theory Gate_Leases
  imports Gate
begin

text \<open>
  Firewall leases: what the timers of knocks do to the firewall, and what becomes of a lease that
  runs out before its timer is handled.
\<close>

section \<open>Leases in the store\<close>

lemma MarkFirewall_lease:
  assumes "store_ok s" "MarkFirewall now remote port ttl s = (Some j, s')" "now + ttl \<noteq> zero_time"
  shows "lease_at s' (firewallKey remote port) = Some (j, now + ttl)"
    and "k \<noteq> firewallKey remote port \<Longrightarrow> lease_at s' k = None \<or> lease_at s' k = lease_at s k \<and> (\<forall>i x. lease_at s k = Some (i, x) \<longrightarrow> now < x)"
proof -
  define c where "c = snd (lru_Sweep now (ks_firewall s))"
  have ok: "lru_ok c" and look: "map_of (entries c) k' =
      (case map_of (entries (ks_firewall s)) k' of Some e \<Rightarrow> if ExpiresAt e > now then Some e else None | None \<Rightarrow> None)" for k'
    using assms(1) lookup_Sweep[of "ks_firewall s" now] by (auto simp: c_def store_ok_def)
  have s': "ks_firewall s' = setLocked (firewallKey remote port) j (now + ttl) c"
    using assms(2,3) by (auto simp: MarkFirewall_def grant_lease_def Let_def SetUntil_def c_def split: if_splits)
  show "lease_at s' (firewallKey remote port) = Some (j, now + ttl)"
    using lookup_setLocked(1)[OF ok] by (simp add: lease_at_def s')
  show "lease_at s' k = None \<or> lease_at s' k = lease_at s k \<and> (\<forall>i x. lease_at s k = Some (i, x) \<longrightarrow> now < x)"
    if "k \<noteq> firewallKey remote port"
    using lookup_setLocked(2)[OF ok that, of j "now + ttl"] look[of k] by (auto simp: lease_at_def s' split: option.splits if_splits)
qed

lemma ExpireFirewall_cases:
  assumes "store_ok s"
  shows "ExpireFirewall remote port i now s =
    (if i \<noteq> 0 \<and> (\<exists>x. lease_at s (firewallKey remote port) = Some (i, x) \<and> x \<le> now)
     then (True, s\<lparr>ks_firewall := snd (lru_Delete (firewallKey remote port) (ks_firewall s))\<rparr>) else (False, s))"
  by (auto simp: ExpireFirewall_def lease_at_def lru_Peek_def lru_Delete_def Let_def split: option.split)

section \<open>Leases and the firewall\<close>

lemma open_firewall_lease:
  assumes "run_state (open_firewall env sink fw remote cid port ttl now) g = (Some j, g')"
  shows "MarkFirewall now remote port ttl (gw_store g) = (Some j, gw_store g')"
  using assms
  by (auto simp: open_firewall_def AllowFirewall_def on_host_def on_store_def emit_def split: prod.splits option.splits if_splits)

lemma end_lease_cases:
  assumes "store_ok (gw_store g)"
  shows "run_state (end_lease env sink fw remote port i now) g =
    (if i \<noteq> 0 \<and> (\<exists>x. lease_at (gw_store g) (firewallKey remote port) = Some (i, x) \<and> x \<le> now)
     then run_state (do { manual \<leftarrow> on_host (ShouldManualRevoke env fw); if manual then revokeFirewall env sink fw remote port else State_Monad.return None })
            (g\<lparr>gw_store := (gw_store g)\<lparr>ks_firewall := snd (lru_Delete (firewallKey remote port) (ks_firewall (gw_store g)))\<rparr>\<rparr>)
     else (None, g))"
  by (auto simp: end_lease_def on_store_def ExpireFirewall_cases[OF assms])


text \<open>
  Property C38. A lease that has run out is forgotten by the next knock of anybody else: if a knock for another
  address or port is handled before the timer of the lease, the store sweeps the lease away, and
  the timer finds nothing to end. The firewall permission is then never revoked by its timer, also with the
  backends that do not expire permissions by themselves.
\<close>

theorem swept_lease_never_revoked:
  assumes "store_ok (gw_store g)" "now + ttl \<noteq> zero_time"
    and "lease_at (gw_store g) (firewallKey remote port) = Some (i, x)" "x \<le> now"
    and "firewallKey remote port \<noteq> firewallKey remote' port'"
    and "run_state (open_firewall env sink fw remote' cid port' ttl now) g = (Some j, g')"
  shows "run_state (end_lease env sink fw remote port i t) g' = (None, g')"
proof -
  note mark = open_firewall_lease[OF assms(6)]
  have ok: "store_ok (gw_store g')" using MarkFirewall_ok(1)[OF assms(1), of now remote' port' ttl] mark by simp
  have "lease_at (gw_store g') (firewallKey remote port) = None"
    using MarkFirewall_lease(2)[OF assms(1) mark assms(2,5)] assms(3,4) by auto
  then show ?thesis unfolding end_lease_cases[OF ok] by simp
qed

section \<open>The alias of a knock method\<close>

lemma openKnockListener_alias:
  "gc_KnockMethod cfg \<noteq> UDPMethod \<Longrightarrow> gc_KnockMethod cfg \<noteq> UDPSeqMethod \<Longrightarrow> openKnockListener cfg ln sock = Inl (not_ready_error (gc_KnockMethod cfg))"
  by (simp add: openKnockListener_def Let_def)

lemma startKnock_alias:
  assumes "gc_KnockMethod (ga_cfg g) = ''udp-sequence''"
  shows "fst (run_state (startKnock env ln sock) g) \<noteq> None" "fst (run_state (startKnockAuthOnly ln sock) g) \<noteq> None"
proof -
  obtain e g' where i: "run_state (InitFirewall env (gate_firewall (ga_cfg g))) g = (e, g')" by (rule prod.exhaust)
  have l: "openKnockListener (ga_cfg g) ln sock = Inl (not_ready_error ''udp-sequence'')"
    using openKnockListener_alias[of "ga_cfg g"] assms by (simp add: UDPMethod_def UDPSeqMethod_def)
  have "errors_Join (Some a) b \<noteq> None" for a b by (cases b) simp_all
  then show "fst (run_state (startKnock env ln sock) g) \<noteq> None" "fst (run_state (startKnockAuthOnly ln sock) g) \<noteq> None"
    using i l by (cases e; simp add: startKnock_def startKnockAuthOnly_def Let_def case_prod_beta)+
qed

text \<open>
  Property C39. The method name \<open>udp-sequence\<close>, an alias of \<open>udp-seq\<close> that a gate's configuration may
  carry, never works: whenever a gate with it has been created in one of the modes with knocks, wrapping a listener
  fails, because the listener is opened by the name itself and not by what it stands for.
\<close>

theorem gate_method_alias_fails:
  assumes "gate_New cfg h = Inr g" "gc_KnockMethod cfg = ''udp-sequence''" "gc_Mode cfg \<in> {KnockAuthOnly, KnockFirewallAuth, KnockFirewallOnly}"
  shows "isl (fst (run_state (gate_Wrap env lno sock rc policy) g))"
proof (cases lno)
  case None
  then show ?thesis by (simp add: gate_Wrap_def)
next
  case (Some ln)
  have cfg: "gc_KnockMethod (ga_cfg g) = ''udp-sequence''" "gc_Mode (ga_cfg g) = gc_Mode cfg"
    using assms by (auto simp: gate_New_def validateGateConfig_def Let_def rbind_def gate_modes split: sum.splits option.splits if_splits)
  obtain e g2 where b: "run_state beginLifecycle g = (e, g2)" by (rule prod.exhaust)
  have g2: "ga_cfg g2 = ga_cfg g" using b by (auto simp: beginLifecycle_def split: if_splits)
  obtain e' g3 where c: "run_state (configureFirewallPort (ListenerPort ln)) g2 = (e', g3)" by (rule prod.exhaust)
  have g3: "gc_KnockMethod (ga_cfg g3) = ''udp-sequence''" "gc_Mode (ga_cfg g3) = gc_Mode cfg"
    using c cfg g2 by (auto simp: configureFirewallPort_def Let_def split: sum.splits if_splits)
  obtain x g4 where s: "run_state (startKnock env ln sock) g3 = (Some x, g4)" using startKnock_alias(1)[OF g3(1)] by (metis not_None_eq prod.collapse)
  obtain y g5 where t: "run_state (startKnockAuthOnly ln sock) g3 = (Some y, g5)" using startKnock_alias(2)[OF g3(1)] by (metis not_None_eq prod.collapse)
  show ?thesis
    using Some b c s t assms(3) g3(2)
    by (cases e; cases e'; cases "ValidateDropUDPKnockPort (gate_firewall (ga_cfg g3)) (gc_KnockMethod (ga_cfg g3))")
       (auto simp: gate_Wrap_def Let_def gate_modes)
qed

end
