(* ===== verification/Firewall_Safety.thy ===== *)
theory Firewall_Safety
  imports Firewall
begin

text \<open>
  What the firewall backends do to a host. The locale \<open>guarded_host\<close> states what a runner keeps of
  an invariant of the host when it runs a command of a given class, and derives that every
  operation that only issues such commands keeps it; it is interpreted on a host that records the
  commands it is given and answers them as it likes. The properties: a backend that \<open>New\<close> returned
  only ever touches objects of its own, \<open>Allow\<close> reports success only after a command that admits
  exactly the given address was accepted, and the \<open>Init\<close> of the iptables backend against a host that
  does not have the chain yet.
\<close>

section \<open>Invariants of the host\<close>

definition keeps :: "('h \<Rightarrow> bool) \<Rightarrow> ('h, 'a) state \<Rightarrow> bool" where
  "keeps I m \<longleftrightarrow> (\<forall>h. I h \<longrightarrow> I (snd (run_state m h)))"

named_theorems keeps_rules

lemma keepsD: "keeps I m \<Longrightarrow> I h \<Longrightarrow> I (snd (run_state m h))"
  by (simp add: keeps_def)

lemma keeps_return [keeps_rules]: "keeps I (State_Monad.return x)"
  by (simp add: keeps_def State_Monad.return_def)

lemma keeps_bind [keeps_rules]:
  assumes "keeps I m" and "\<And>x. keeps I (k x)"
  shows "keeps I (State_Monad.bind m k)"
  using assms by (auto simp: keeps_def State_Monad.bind_def split: prod.split)

lemma keeps_if [keeps_rules]: "(b \<Longrightarrow> keeps I m) \<Longrightarrow> (\<not> b \<Longrightarrow> keeps I k) \<Longrightarrow> keeps I (if b then m else k)"
  by simp

lemma keeps_option [keeps_rules]:
  "(x = None \<Longrightarrow> keeps I m) \<Longrightarrow> (\<And>y. x = Some y \<Longrightarrow> keeps I (k y)) \<Longrightarrow> keeps I (case x of None \<Rightarrow> m | Some y \<Rightarrow> k y)"
  by (cases x) simp_all

lemma keeps_result [keeps_rules]:
  "(\<And>e. x = Inl e \<Longrightarrow> keeps I (m e)) \<Longrightarrow> (\<And>y. x = Inr y \<Longrightarrow> keeps I (k y)) \<Longrightarrow> keeps I (case x of Inl e \<Rightarrow> m e | Inr y \<Rightarrow> k y)"
  by (cases x) simp_all

lemma keeps_fw_then [keeps_rules]: "keeps I m \<Longrightarrow> keeps I k \<Longrightarrow> keeps I (fw_then m k)"
  unfolding fw_then_def by (intro keeps_rules) simp_all

lemma keeps_or_rollback [keeps_rules]: "keeps I c \<Longrightarrow> keeps I m \<Longrightarrow> keeps I k \<Longrightarrow> keeps I (or_rollback c m k)"
  unfolding or_rollback_def by (intro keeps_rules) simp_all

lemma keeps_ignoring_missing [keeps_rules]: "keeps I m \<Longrightarrow> keeps I (ignoring_missing m)"
  unfolding ignoring_missing_def by (intro keeps_rules) simp_all

lemma keeps_checked [keeps_rules]: "keeps I m \<Longrightarrow> keeps I (checked m)"
  unfolding checked_def by (intro keeps_rules) simp_all

text \<open>The commands that only ask whether a tool is there.\<close>

fun probe :: "command \<Rightarrow> bool" where
  "probe (Cmd name args) = (args = [''--help''] \<or> args = [''--version''])"
| "probe (CmdInput _ _ _) = False"

locale guarded_host =
  fixes env :: "'h fw_env" and I :: "'h \<Rightarrow> bool" and P :: "command \<Rightarrow> bool"
  assumes run_keeps: "P c \<Longrightarrow> I h \<Longrightarrow> I (snd (fe_run env c h))"
    and probes: "probe c \<Longrightarrow> P c"
begin

lemma run_command: "P c \<Longrightarrow> keeps I (run_command env c)"
  by (auto simp: keeps_def run_command_def split: prod.split dest: run_keeps)

lemma runIptables: "P (Cmd name ([''-w'', ''5''] @ args)) \<Longrightarrow> keeps I (runIptables env name args)"
  by (simp add: runIptables_def run_command)

lemma firewallCommandPath: "keeps I (firewallCommandPath env cfg name)"
  unfolding firewallCommandPath_def by (intro keeps_rules run_command probes) simp_all

lemma firewallCommandExists: "keeps I (firewallCommandExists env cfg name)"
  unfolding firewallCommandExists_def by (intro keeps_rules firewallCommandPath)

lemma ipv6Enabled: "keeps I (ipv6Enabled env cfg name)"
  unfolding ipv6Enabled_def by (intro keeps_rules firewallCommandExists)

lemma delete_rules: "P (Cmd cmd ([''-w'', ''5''] @ args)) \<Longrightarrow> keeps I (delete_rules env cmd args n)"
  by (induction n) (auto intro!: keeps_rules runIptables)

lemma cleanupIptablesRules:
  assumes "P (Cmd cmd ([''-w'', ''5''] @ [''-D'', ''INPUT''] @ udp_drop_args udpPort))"
    and "P (Cmd cmd ([''-w'', ''5''] @ [''-D'', ''INPUT'', ''-p'', ''tcp'', ''--dport'', tcpPort, ''-j'', chain]))"
    and "P (Cmd cmd ([''-w'', ''5''] @ [''-F'', chain]))" and "P (Cmd cmd ([''-w'', ''5''] @ [''-X'', chain]))"
  shows "keeps I (cleanupIptablesRules env cfg chain cmd tcpPort udpPort)"
  unfolding cleanupIptablesRules_def by (intro keeps_rules delete_rules runIptables assms)

lemma insert_rule:
  assumes "P (Cmd cmd ([''-w'', ''5''] @ [''-C'', chain] @ args))" and "P (Cmd cmd ([''-w'', ''5''] @ [''-I'', chain, ''1''] @ args))"
  shows "keeps I (insert_rule env cmd chain args)"
  unfolding insert_rule_def by (intro keeps_rules runIptables assms)

lemma ipt_family: "(\<And>cmd. cmd \<in> {''iptables'', ''ip6tables''} \<Longrightarrow> keeps I (k cmd)) \<Longrightarrow> keeps I (ipt_family env i addr off k)"
  unfolding ipt_family_def by (intro keeps_rules ipv6Enabled) simp_all

lemma ips_family: "(\<And>s. s \<in> {ii_set i, ii_setV6 i} \<Longrightarrow> keeps I (k s)) \<Longrightarrow> keeps I (ips_family env i addr off k)"
  unfolding ips_family_def by (intro keeps_rules ipv6Enabled) simp_all

lemma nft_family:
  "(\<And>s t. s \<in> {nb_setV4 n, nb_setV6 n} \<Longrightarrow> keeps I (k s t)) \<Longrightarrow> keeps I (nft_family env n addr invalid off k)"
  unfolding nft_family_def by (intro keeps_rules ipv6Enabled) simp_all

lemmas host_rules = keeps_rules run_command runIptables firewallCommandPath firewallCommandExists ipv6Enabled delete_rules
  cleanupIptablesRules insert_rule ipt_family ips_family nft_family

end

section \<open>The recording host\<close>

text \<open>The host answers a command, with what was run before in view, and records it. \<open>look\<close> is \<open>exec.LookPath\<close>.\<close>

definition log_env :: "(command list \<Rightarrow> command \<Rightarrow> string option) \<Rightarrow> (string \<Rightarrow> string option) \<Rightarrow> command list fw_env" where
  "log_env ans look = \<lparr>fe_run = (\<lambda>c log. (ans log c, log @ [c])), fe_LookPath = look, fe_GOOS = ''linux''\<rparr>"

interpretation logged: guarded_host "log_env ans look" "list_all (\<lambda>c. probe c \<or> Q c)" "\<lambda>c. probe c \<or> Q c"
  for ans look Q
  by unfold_locales (auto simp: log_env_def)

section \<open>The objects of a backend\<close>

definition own_rule :: "string \<Rightarrow> FwConfig \<Rightarrow> string list \<Rightarrow> bool" where
  "own_rule chain cfg r \<longleftrightarrow>
     r = [''-p'', ''tcp'', ''--dport'', Itoa (fc_Port cfg), ''-j'', chain] \<or> r = udp_drop_args (Itoa (udpKnockPort cfg))"

text \<open>
  An iptables command on the backend's own chain, or one that checks, deletes or inserts in \<open>INPUT\<close>
  the jump from the protected port to that chain or the drop rule of the UDP knock port.
\<close>

fun own_chain_args :: "string \<Rightarrow> FwConfig \<Rightarrow> string list \<Rightarrow> bool" where
  "own_chain_args chain cfg (w # five # oper # target # r) =
     (w = ''-w'' \<and> five = ''5'' \<and>
      (target = chain \<and> oper \<in> set [''-N'', ''-F'', ''-X'', ''-A'', ''-C'', ''-I'', ''-D''] \<or>
       target = ''INPUT'' \<and> oper \<in> set [''-C'', ''-D''] \<and> own_rule chain cfg r \<or>
       target = ''INPUT'' \<and> oper = ''-I'' \<and> r \<noteq> [] \<and> hd r = ''1'' \<and> own_rule chain cfg (tl r)))"
| "own_chain_args chain cfg _ = False"

definition own_chain_name :: "string \<Rightarrow> bool" where
  "own_chain_name chain \<longleftrightarrow> fwNameRE chain \<and> \<not> isReservedIptablesChain chain"

fun own_iptables :: "string \<Rightarrow> FwConfig \<Rightarrow> command \<Rightarrow> bool" where
  "own_iptables chain cfg (Cmd name args) =
     (own_chain_name chain \<and> (name = ''iptables'' \<or> name = ''ip6tables'') \<and> own_chain_args chain cfg args)"
| "own_iptables chain cfg (CmdInput _ _ _) = False"

fun own_ipset :: "string list \<Rightarrow> command \<Rightarrow> bool" where
  "own_ipset sets (Cmd name (oper # s # _)) =
     (name = ''ipset'' \<and> oper \<in> set [''create'', ''flush'', ''destroy'', ''add'', ''del'', ''test''] \<and> s \<in> set sets \<and> fwNameRE s)"
| "own_ipset sets _ = False"

text \<open>The nft scripts of a backend: its table created or deleted, and an element of one of its sets renewed or deleted.\<close>

definition own_nft_script :: "Nftables \<Rightarrow> string \<Rightarrow> bool" where
  "own_nft_script n script \<longleftrightarrow>
     script = nft_delete_table n \<or> (\<exists>v6. script = nft_createScript n v6) \<or>
     (\<exists>s elem secs. s \<in> {nb_setV4 n, nb_setV6 n} \<and>
        (script = nftRenewElementInput n s elem secs \<or> script = ''delete '' @ element_of n s @ elem @ '' }'' @ nl))"

fun own_nft :: "Nftables \<Rightarrow> command \<Rightarrow> bool" where
  "own_nft n (CmdInput script name args) =
     (nb_family n = ''inet'' \<and> isSafeNftablesTable (nb_table n) \<and> nftIdentifierRE (nb_table n) \<and>
      name = ''nft'' \<and> args = [''-f'', ''-''] \<and> own_nft_script n script)"
| "own_nft n (Cmd name args) =
     (nb_family n = ''inet'' \<and> isSafeNftablesTable (nb_table n) \<and> name = ''nft'' \<and>
      take 4 args = [''get'', ''element'', nb_family n, nb_table n])"

fun own_script :: "ScriptConfig \<Rightarrow> command \<Rightarrow> bool" where
  "own_script s (Cmd name args) = (name \<noteq> [] \<and> name \<in> {sc_AllowCmd s, sc_RevokeCmd s, sc_CleanupCmd s})"
| "own_script s (CmdInput _ _ _) = False"

fun owned :: "Backend \<Rightarrow> command \<Rightarrow> bool" where
  "owned Noop c = False"
| "owned (NftablesB n) c = (probe c \<or> own_nft n c)"
| "owned (IPSetB i) c = (probe c \<or> own_ipset [ii_set i, ii_setV6 i] c \<or> own_iptables (ii_chain i) (ii_cfg i) c)"
| "owned (IptablesB i) c = (probe c \<or> own_iptables (ib_chain i) (ib_cfg i) c)"
| "owned (ScriptB c') c = (probe c \<or> own_script (fc_Script c') c)"

text \<open>What \<open>New\<close> and \<open>WithConfig\<close> establish of a backend.\<close>

fun backend_ok :: "Backend \<Rightarrow> bool" where
  "backend_ok Noop = True"
| "backend_ok (NftablesB n) = (nb_family n = ''inet'' \<and> isSafeNftablesTable (nb_table n) \<and> nftIdentifierRE (nb_table n))"
| "backend_ok (IPSetB i) = (own_chain_name (ii_chain i) \<and> fwNameRE (ii_set i) \<and> fwNameRE (ii_setV6 i))"
| "backend_ok (IptablesB i) = own_chain_name (ib_chain i)"
| "backend_ok (ScriptB c) = (\<not> script_missing (fc_Script c))"

datatype request = ReqInit | ReqAllow netip_Addr int duration | ReqRevoke netip_Addr int | ReqIsAllowed netip_Addr int | ReqCleanup

fun backend_IsAllowed :: "'h fw_env \<Rightarrow> Backend \<Rightarrow> netip_Addr \<Rightarrow> int \<Rightarrow> ('h, bool result option) state" where
  "backend_IsAllowed env (NftablesB n) addr port = do { r \<leftarrow> nft_IsAllowed env n addr port; State_Monad.return (Some r) }"
| "backend_IsAllowed env (IPSetB i) addr port = do { r \<leftarrow> ips_IsAllowed env i addr port; State_Monad.return (Some r) }"
| "backend_IsAllowed env (IptablesB i) addr port = do { r \<leftarrow> ipt_IsAllowed env i addr port; State_Monad.return (Some r) }"
| "backend_IsAllowed env b addr port = State_Monad.return None"

fun perform :: "'h fw_env \<Rightarrow> Backend \<Rightarrow> request \<Rightarrow> ('h, unit) state" where
  "perform env b ReqInit = do { _ \<leftarrow> backend_Init env b; State_Monad.return () }"
| "perform env b (ReqAllow addr port ttl) = do { _ \<leftarrow> backend_Allow env b addr port ttl; State_Monad.return () }"
| "perform env b (ReqRevoke addr port) = do { _ \<leftarrow> backend_Revoke env b addr port; State_Monad.return () }"
| "perform env b (ReqIsAllowed addr port) = do { _ \<leftarrow> backend_IsAllowed env b addr port; State_Monad.return () }"
| "perform env b ReqCleanup = do { _ \<leftarrow> backend_Cleanup env b; State_Monad.return () }"

fun performs :: "'h fw_env \<Rightarrow> Backend \<Rightarrow> request list \<Rightarrow> ('h, unit) state" where
  "performs env b [] = State_Monad.return ()"
| "performs env b (r # rs) = do { _ \<leftarrow> perform env b r; performs env b rs }"

section \<open>A backend only touches objects of its own\<close>

context guarded_host
begin

lemma iptables_ops:
  assumes P: "\<And>c. own_iptables (ib_chain i) (ib_cfg i) c \<Longrightarrow> P c" and name: "own_chain_name (ib_chain i)"
  shows "keeps I (ipt_Init env i)" and "keeps I (ipt_Allow env i addr port ttl)" and "keeps I (ipt_Revoke env i addr port)"
    and "keeps I (ipt_IsAllowed env i addr port)" and "keeps I (ipt_Cleanup env i)"
proof -
  have clean: "keeps I (ipt_cleanupCommand env i cmd)" if "cmd \<in> {''iptables'', ''ip6tables''}" for cmd
    unfolding ipt_cleanupCommand_def by (intro cleanupIptablesRules P) (use that name in \<open>auto simp: own_rule_def udp_drop_args_def\<close>)
  show C: "keeps I (ipt_Cleanup env i)"
    unfolding ipt_Cleanup_def by (intro host_rules clean) simp_all
  have init: "keeps I (ipt_initCommand env i cmd)" if "cmd \<in> {''iptables'', ''ip6tables''}" for cmd
    unfolding ipt_initCommand_def init_hooks_def Let_def
    by (intro host_rules P) (use that name in \<open>auto simp: own_rule_def udp_drop_args_def\<close>)
  show "keeps I (ipt_Init env i)"
    unfolding ipt_Init_def by (intro host_rules clean init C) simp_all
  show "keeps I (ipt_Allow env i addr port ttl)"
    unfolding ipt_Allow_def by (intro host_rules P) (use name in \<open>auto simp: accept_args_def\<close>)
  show "keeps I (ipt_Revoke env i addr port)"
    unfolding ipt_Revoke_def by (intro host_rules P) (use name in \<open>auto simp: accept_args_def\<close>)
  show "keeps I (ipt_IsAllowed env i addr port)"
    unfolding ipt_IsAllowed_def by (intro host_rules P) (use name in \<open>auto simp: accept_args_def\<close>)
qed

lemma ipset_ops:
  assumes P: "\<And>c. own_iptables (ii_chain i) (ii_cfg i) c \<Longrightarrow> P c" and Q: "\<And>c. own_ipset [ii_set i, ii_setV6 i] c \<Longrightarrow> P c"
    and name: "own_chain_name (ii_chain i)" and sets: "fwNameRE (ii_set i)" "fwNameRE (ii_setV6 i)"
  shows "keeps I (ips_Init env i)" and "keeps I (ips_Allow env i addr port ttl)" and "keeps I (ips_Revoke env i addr port)"
    and "keeps I (ips_IsAllowed env i addr port)" and "keeps I (ips_Cleanup env i)"
proof -
  have run: "keeps I (ipset env (oper # s # r))"
    if "oper \<in> set [''create'', ''flush'', ''destroy'', ''add'', ''del'', ''test'']" "s \<in> {ii_set i, ii_setV6 i}" for oper s r
    unfolding ipset_def by (intro run_command Q) (use that sets in auto)
  have clean: "keeps I (ips_cleanupCommand env i cmd)" if "cmd \<in> {''iptables'', ''ip6tables''}" for cmd
    unfolding ips_cleanupCommand_def by (intro cleanupIptablesRules P) (use that name in \<open>auto simp: own_rule_def udp_drop_args_def\<close>)
  show C: "keeps I (ips_Cleanup env i)"
    unfolding ips_Cleanup_def by (intro host_rules clean run) simp_all
  have init: "keeps I (ips_initCommand env i cmd set')" if "cmd \<in> {''iptables'', ''ip6tables''}" for cmd set'
    unfolding ips_initCommand_def init_hooks_def Let_def
    by (intro host_rules P) (use that name in \<open>auto simp: own_rule_def udp_drop_args_def\<close>)
  show "keeps I (ips_Init env i)"
    unfolding ips_Init_def Let_def by (intro host_rules clean init C run) simp_all
  show "keeps I (ips_Allow env i addr port ttl)"
    unfolding ips_Allow_def by (intro host_rules run) simp_all
  show "keeps I (ips_Revoke env i addr port)"
    unfolding ips_Revoke_def by (intro host_rules run) simp_all
  show "keeps I (ips_IsAllowed env i addr port)"
    unfolding ips_IsAllowed_def by (intro host_rules run) simp_all
qed

end

context guarded_host
begin

lemma nft_ops:
  assumes P: "\<And>c. own_nft n c \<Longrightarrow> P c" and ok: "backend_ok (NftablesB n)"
  shows "keeps I (nft_Init env n)" and "keeps I (nft_Allow env n addr port ttl)" and "keeps I (nft_Revoke env n addr port)"
    and "keeps I (nft_IsAllowed env n addr port)" and "keeps I (nft_Cleanup env n)"
proof -
  have run: "keeps I (nft env script)" if "own_nft_script n script" for script
    unfolding nft_def by (intro run_command P) (use that ok in simp)
  have renew: "own_nft_script n (nftRenewElementInput n s e t)" "own_nft_script n (''delete '' @ element_of n s @ e @ '' }'' @ nl)"
    if "s \<in> {nb_setV4 n, nb_setV6 n}" for s e t
    using that unfolding own_nft_script_def by blast+
  have create: "own_nft_script n (nft_createScript n v6)" "own_nft_script n (nft_delete_table n)" for v6
    unfolding own_nft_script_def by blast+
  show C: "keeps I (nft_Cleanup env n)"
    unfolding nft_Cleanup_def by (intro host_rules run create)
  show "keeps I (nft_Init env n)"
    unfolding nft_Init_def by (intro host_rules run create C)
  show "keeps I (nft_Allow env n addr port ttl)"
    unfolding nft_Allow_def by (intro host_rules run renew)
  show "keeps I (nft_Revoke env n addr port)"
    unfolding nft_Revoke_def by (intro host_rules run renew)
  show "keeps I (nft_IsAllowed env n addr port)"
    unfolding nft_IsAllowed_def by (intro host_rules P) (use ok in simp)
qed

lemma commands_exist: "keeps I (commands_exist env cfg cmds)"
  by (induction cmds) (auto intro!: host_rules)

lemma script_ops:
  assumes P: "\<And>c'. own_script (fc_Script c) c' \<Longrightarrow> P c'" and ok: "backend_ok (ScriptB c)"
  shows "keeps I (script_Validate env c)" and "keeps I (script_Allow env c addr port ttl)" and "keeps I (script_Revoke env c addr port)"
    and "keeps I (script_Cleanup env c)"
proof -
  show "keeps I (script_Validate env c)"
    unfolding script_Validate_def Let_def by (intro host_rules commands_exist)
  show "keeps I (script_Allow env c addr port ttl)"
    unfolding script_Allow_def by (intro host_rules P) (use ok in \<open>auto simp: script_missing_def\<close>)
  show "keeps I (script_Revoke env c addr port)"
    unfolding script_Revoke_def by (intro host_rules P) (use ok in \<open>auto simp: script_missing_def\<close>)
  show "keeps I (script_Cleanup env c)"
    unfolding script_Cleanup_def by (intro host_rules P) (use ok in \<open>auto simp: script_missing_def\<close>)
qed

lemma perform:
  assumes P: "\<And>c. owned b c \<Longrightarrow> P c" and ok: "backend_ok b"
  shows "keeps I (perform env b r)"
proof (cases b)
  case Noop
  then show ?thesis by (cases r) (auto intro!: keeps_rules)
next
  case (NftablesB n)
  with P ok show ?thesis by (cases r) (auto intro!: keeps_rules nft_ops)
next
  case (IPSetB i)
  with P ok show ?thesis by (cases r) (auto intro!: keeps_rules ipset_ops)
next
  case (IptablesB i)
  with P ok show ?thesis by (cases r) (auto intro!: keeps_rules iptables_ops)
next
  case (ScriptB c)
  with P ok show ?thesis by (cases r) (auto intro!: keeps_rules script_ops)
qed

lemma performs: "(\<And>c. owned b c \<Longrightarrow> P c) \<Longrightarrow> backend_ok b \<Longrightarrow> keeps I (performs env b rs)"
  by (induction rs) (auto intro!: keeps_rules perform)

end

subsection \<open>What \<open>New\<close> accepts\<close>

definition yields :: "('a \<Rightarrow> bool) \<Rightarrow> ('h, 'a) state \<Rightarrow> bool" where
  "yields Q m \<longleftrightarrow> (\<forall>h. Q (fst (run_state m h)))"

named_theorems yields_rules

lemma yields_return [yields_rules]: "Q x \<Longrightarrow> yields Q (State_Monad.return x)"
  by (simp add: yields_def State_Monad.return_def)

lemma yields_bind [yields_rules]: "(\<And>x. yields Q (k x)) \<Longrightarrow> yields Q (State_Monad.bind m k)"
  by (auto simp: yields_def State_Monad.bind_def split: prod.split)

lemma yields_if [yields_rules]: "(b \<Longrightarrow> yields Q m) \<Longrightarrow> (\<not> b \<Longrightarrow> yields Q k) \<Longrightarrow> yields Q (if b then m else k)"
  by simp

lemma yields_option [yields_rules]:
  "(x = None \<Longrightarrow> yields Q m) \<Longrightarrow> (\<And>y. x = Some y \<Longrightarrow> yields Q (k y)) \<Longrightarrow> yields Q (case x of None \<Rightarrow> m | Some y \<Rightarrow> k y)"
  by (cases x) simp_all

lemma yields_result [yields_rules]:
  "(\<And>e. x = Inl e \<Longrightarrow> yields Q (m e)) \<Longrightarrow> (\<And>y. x = Inr y \<Longrightarrow> yields Q (k y)) \<Longrightarrow> yields Q (case x of Inl e \<Rightarrow> m e | Inr y \<Rightarrow> k y)"
  by (cases x) simp_all

definition made_ok :: "Backend result \<Rightarrow> bool" where
  "made_ok r \<longleftrightarrow> (case r of Inl _ \<Rightarrow> True | Inr b \<Rightarrow> backend_ok b)"

lemma made_ok_simps: "made_ok (Inl e)" "made_ok (Inr b) = backend_ok b"
  by (simp_all add: made_ok_def)

lemma made_ok_if: "(b \<Longrightarrow> made_ok x) \<Longrightarrow> (\<not> b \<Longrightarrow> made_ok y) \<Longrightarrow> made_ok (if b then x else y)"
  by simp

lemma made_ok_option:
  "(x = None \<Longrightarrow> made_ok m) \<Longrightarrow> (\<And>y. x = Some y \<Longrightarrow> made_ok (k y)) \<Longrightarrow> made_ok (case x of None \<Rightarrow> m | Some y \<Rightarrow> k y)"
  by (cases x) simp_all

lemmas made_ok_rules = made_ok_if made_ok_option made_ok_simps(1) made_ok_simps(2)[THEN iffD2]

lemma own_chain_default: "validateIptablesConfig chain = None \<Longrightarrow> own_chain_name (if chain = [] then ''KNOCK_GATEWAY'' else chain)"
proof -
  have "own_chain_name ''KNOCK_GATEWAY''" by code_simp
  then show "validateIptablesConfig chain = None \<Longrightarrow> ?thesis"
    by (auto simp: validateIptablesConfig_def validateFirewallObjectName_def own_chain_name_def split: option.splits if_splits)
qed

lemma set_name_default:
  assumes "fwNameRE d" and "v = [] \<or> validateFirewallObjectName v = None"
  shows "fwNameRE (if v = [] then d else v)"
  using assms by (auto simp: validateFirewallObjectName_def split: if_splits)

lemma fc_WithDefaults [simp]:
  "fc_Iptables_Chain (fw_WithDefaults cfg) = fc_Iptables_Chain cfg" "fc_IPSet (fw_WithDefaults cfg) = fc_IPSet cfg"
  "fc_Nftables (fw_WithDefaults cfg) = fc_Nftables cfg" "fc_Script (fw_WithDefaults cfg) = fc_Script cfg"
  "fc_Port (fw_WithDefaults cfg) = fc_Port cfg"
  by (simp_all add: fw_WithDefaults_def)

lemma NewIptables_ok: "validateIptablesConfig (fc_Iptables_Chain cfg) = None \<Longrightarrow> backend_ok (IptablesB (NewIptables cfg))"
  using own_chain_default[of "fc_Iptables_Chain cfg"] by (auto simp: NewIptables_def Let_def split: if_splits)

lemma NewIPSetIptables_ok:
  assumes "validateIPSetIptablesConfig cfg = None"
  shows "backend_ok (IPSetB (NewIPSetIptables cfg))"
proof -
  have chain: "validateIptablesConfig (fc_Iptables_Chain cfg) = None"
    and sets: "ip_Set (fc_IPSet cfg) = [] \<or> validateFirewallObjectName (ip_Set (fc_IPSet cfg)) = None"
      "ip_SetV6 (fc_IPSet cfg) = [] \<or> validateFirewallObjectName (ip_SetV6 (fc_IPSet cfg)) = None"
    using assms by (auto simp: validateIPSetIptablesConfig_def split: option.splits if_splits)
  have "fwNameRE ''knock_gateway_allowed''" "fwNameRE ''knock_gateway_allowed_v6''" by code_simp+
  with own_chain_default[OF chain] set_name_default[OF _ sets(1)] set_name_default[OF _ sets(2)]
  show ?thesis unfolding NewIPSetIptables_def Let_def backend_ok.simps IPSetIptables.simps fc_WithDefaults by blast
qed

lemma validateNftablesConfigD:
  assumes "validateNftablesConfig c = None"
  shows "nf_Family c = [] \<or> nf_Family c = ''inet''" and "nf_Table c = [] \<or> isSafeNftablesTable (nf_Table c)"
    and "nf_Table c = [] \<or> nftIdentifierRE (nf_Table c)"
proof -
  show "nf_Family c = [] \<or> nf_Family c = ''inet''"
    by (rule ccontr) (use assms in \<open>simp add: validateNftablesConfig_def\<close>)
  show "nf_Table c = [] \<or> isSafeNftablesTable (nf_Table c)"
    by (rule ccontr) (use assms in \<open>simp add: validateNftablesConfig_def split: if_split_asm\<close>)
  show "nf_Table c = [] \<or> nftIdentifierRE (nf_Table c)"
    by (rule ccontr) (use assms in \<open>simp add: validateNftablesConfig_def split: if_split_asm\<close>)
qed

lemma NewNftables_ok:
  assumes "validateNftablesConfig (fc_Nftables cfg) = None"
  shows "backend_ok (NftablesB (NewNftables cfg name))"
proof -
  have d: "isSafeNftablesTable ''knock_gateway''" "nftIdentifierRE ''knock_gateway''" by code_simp+
  show ?thesis
    using d validateNftablesConfigD[OF assms]
    by (cases "nf_Table (fc_Nftables cfg) = []"; cases "nf_Family (fc_Nftables cfg) = []")
      (simp_all add: NewNftables_def Let_def or_default_def)
qed

lemma new_named_ok: "yields made_ok (new_named env cfg name)"
  unfolding new_named_def
  by (intro yields_rules made_ok_rules NewIptables_ok NewIPSetIptables_ok NewNftables_ok; (assumption | simp))

lemma fw_New_ok: "run_state (fw_New env cfg) h = (Inr b, h') \<Longrightarrow> backend_ok b"
proof -
  have "yields made_ok (fw_New env cfg)"
    unfolding fw_New_def Let_def by (intro yields_rules made_ok_rules new_named_ok)
  then show "run_state (fw_New env cfg) h = (Inr b, h') \<Longrightarrow> ?thesis"
    by (metis fst_conv yields_def made_ok_simps(2))
qed

lemma WithConfig_ok:
  "made_ok (rbind (nft_WithConfig n cfg) (\<lambda>n. Inr (NftablesB n)))"
  "made_ok (rbind (ips_WithConfig cfg) (\<lambda>i. Inr (IPSetB i)))"
  "made_ok (rbind (ipt_WithConfig cfg) (\<lambda>i. Inr (IptablesB i)))"
  "backend_ok (ScriptB cfg) \<Longrightarrow> made_ok (rbind (script_WithConfig cfg) (\<lambda>c. Inr (ScriptB c)))"
  unfolding nft_WithConfig_def ips_WithConfig_def ipt_WithConfig_def script_WithConfig_def
  by (auto simp: made_ok_simps NewNftables_ok NewIPSetIptables_ok NewIptables_ok simp del: backend_ok.simps split: option.split)

lemma WithPort_ok:
  assumes "backend_ok b"
  shows "made_ok (WithPort (Some b) port)"
  using assms
  by (cases b) (auto simp: WithPort_def made_ok_simps WithConfig_ok simp del: backend_ok.simps(2-4) split: option.split)

lemma performs_Noop: "run_state (performs env Noop rs) h = ((), h)"
proof (induction rs)
  case (Cons r rs)
  then show ?case by (cases r) (simp_all add: State_Monad.bind_def State_Monad.return_def)
qed (simp add: State_Monad.return_def)

lemma owned_probe: "b \<noteq> Noop \<Longrightarrow> probe c \<or> owned b c \<longleftrightarrow> owned b c"
  by (cases b) auto

lemma performs_owned:
  assumes "backend_ok b"
  shows "list_all (owned b) (snd (run_state (performs (log_env ans look) b rs) []))"
proof (cases "b = Noop")
  case True
  then show ?thesis by (simp add: performs_Noop)
next
  case False
  have "keeps (list_all (\<lambda>c. probe c \<or> owned b c)) (performs (log_env ans look) b rs)"
    by (rule logged.performs) (use assms in auto)
  from keepsD[OF this, of "[]"] show ?thesis by (simp add: owned_probe[OF False])
qed


definition demo_fw_config :: FwConfig where
  "demo_fw_config = \<lparr>fc_Backend = ''iptables'', fc_Port = 22, fc_AllowSeconds = 0, fc_CommandTimeout = 0, fc_Runner = True,
     fc_DropUDPKnockPort = False, fc_UDPKnockPort = 0, fc_EnableIPv6 = Some False,
     fc_Nftables = \<lparr>nf_Table = [], nf_Chain = [], nf_SetV4 = [], nf_SetV6 = [], nf_Family = []\<rparr>,
     fc_Iptables_Chain = [], fc_IPSet = \<lparr>ip_Set = [], ip_SetV6 = []\<rparr>,
     fc_Script = \<lparr>sc_AllowCmd = [], sc_RevokeCmd = [], sc_CleanupCmd = []\<rparr>\<rparr>"

lemma demo_fw_New:
  "run_state (fw_New (log_env (\<lambda>_ _. None) (\<lambda>_. None)) demo_fw_config) [] =
     (Inr (IptablesB (NewIptables demo_fw_config)), [Cmd ''iptables'' [''--help'']])"
  by code_simp


section \<open>What a successful \<open>Allow\<close> means\<close>

fun admits :: "Backend \<Rightarrow> netip_Addr \<Rightarrow> int \<Rightarrow> duration \<Rightarrow> command \<Rightarrow> bool" where
  "admits Noop addr port ttl c = False"
| "admits (NftablesB n) addr port ttl c \<longleftrightarrow>
     (\<exists>secs. ttlSeconds ttl = Inr secs \<and> c = CmdInput
        (case To4 (toIP addr) of Some v4 \<Rightarrow> nftRenewElementInput n (nb_setV4 n) (v4_string v4) secs
           | None \<Rightarrow> nftRenewElementInput n (nb_setV6 n) (addr_string addr) secs) ''nft'' [''-f'', ''-''])"
| "admits (IPSetB i) addr port ttl c \<longleftrightarrow>
     (\<exists>secs. ttlSeconds ttl = Inr secs \<and> c = Cmd ''ipset'' [''add'', if To4 (toIP addr) = None then ii_setV6 i else ii_set i,
        addr_string addr, ''timeout'', Itoa secs, ''-exist''])"
| "admits (IptablesB i) addr port ttl c \<longleftrightarrow>
     (let cmd = if To4 (toIP addr) = None then ''ip6tables'' else ''iptables''
      in c = Cmd cmd ([''-w'', ''5'', ''-C'', ib_chain i] @ accept_args addr port) \<or>
         c = Cmd cmd ([''-w'', ''5'', ''-I'', ib_chain i, ''1''] @ accept_args addr port))"
| "admits (ScriptB c') addr port ttl c \<longleftrightarrow>
     (\<exists>secs. ttlSeconds ttl = Inr secs \<and> c = Cmd (sc_AllowCmd (fc_Script c')) [addr_string addr, Itoa port, Itoa secs])"

definition accepted :: "(command list \<Rightarrow> command \<Rightarrow> string option) \<Rightarrow> (command \<Rightarrow> bool) \<Rightarrow> ('a \<Rightarrow> bool) \<Rightarrow> (command list, 'a) state \<Rightarrow> bool" where
  "accepted ans A ok m \<longleftrightarrow>
     (\<forall>log r log'. run_state m log = (r, log') \<longrightarrow> ok r \<longrightarrow> (\<exists>pre c. log' = pre @ [c] \<and> ans pre c = None \<and> A c))"

named_theorems accepted_rules

lemma accepted_return [accepted_rules]: "\<not> ok x \<Longrightarrow> accepted ans A ok (State_Monad.return x)"
  by (simp add: accepted_def State_Monad.return_def)

lemma accepted_bind [accepted_rules]: "(\<And>x. accepted ans A ok (k x)) \<Longrightarrow> accepted ans A ok (State_Monad.bind m k)"
  by (fastforce simp: accepted_def State_Monad.bind_def split: prod.splits)

lemma accepted_run [accepted_rules]: "A c \<Longrightarrow> accepted ans A (\<lambda>e. e = None) (run_command (log_env ans look) c)"
  by (auto simp: accepted_def run_command_def log_env_def)

lemma accepted_if [accepted_rules]:
  "(b \<Longrightarrow> accepted ans A ok m) \<Longrightarrow> (\<not> b \<Longrightarrow> accepted ans A ok k) \<Longrightarrow> accepted ans A ok (if b then m else k)"
  by simp

lemma accepted_option [accepted_rules]:
  "(x = None \<Longrightarrow> accepted ans A ok m) \<Longrightarrow> (\<And>y. x = Some y \<Longrightarrow> accepted ans A ok (k y)) \<Longrightarrow>
   accepted ans A ok (case x of None \<Rightarrow> m | Some y \<Rightarrow> k y)"
  by (cases x) simp_all

lemma accepted_result [accepted_rules]:
  "(\<And>e. x = Inl e \<Longrightarrow> accepted ans A ok (m e)) \<Longrightarrow> (\<And>y. x = Inr y \<Longrightarrow> accepted ans A ok (k y)) \<Longrightarrow>
   accepted ans A ok (case x of Inl e \<Rightarrow> m e | Inr y \<Rightarrow> k y)"
  by (cases x) simp_all

lemma accepted_insert_rule [accepted_rules]:
  assumes "A (Cmd cmd ([''-w'', ''5'', ''-C'', chain] @ args))" and "A (Cmd cmd ([''-w'', ''5'', ''-I'', chain, ''1''] @ args))"
  shows "accepted ans A (\<lambda>e. e = None) (insert_rule (log_env ans look) cmd chain args)"
  using assms
  by (auto simp: accepted_def insert_rule_def runIptables_def run_command_def log_env_def State_Monad.bind_def
    State_Monad.return_def split: if_splits)

lemma backend_Allow_accepted:
  assumes "b \<noteq> Noop"
  shows "accepted ans (admits b addr port ttl) (\<lambda>e. e = None) (backend_Allow (log_env ans look) b addr port ttl)"
proof (cases b)
  case (NftablesB n)
  show ?thesis unfolding NftablesB backend_Allow.simps nft_Allow_def nft_family_def nft_def
    by (intro accepted_rules) auto
next
  case (IPSetB i)
  show ?thesis unfolding IPSetB backend_Allow.simps ips_Allow_def ips_family_def ipset_def
    by (intro accepted_rules) auto
next
  case (IptablesB i)
  show ?thesis unfolding IptablesB backend_Allow.simps ipt_Allow_def ipt_family_def
    by (intro accepted_rules) auto
next
  case (ScriptB c)
  show ?thesis unfolding ScriptB backend_Allow.simps script_Allow_def
    by (intro accepted_rules) auto
qed (use assms in simp)

lemma validateBound_None: "validateBoundFirewallPort name bound got = None \<longleftrightarrow> 1 \<le> bound \<and> bound \<le> 65535 \<and> got = bound"
  by (auto simp: validateBoundFirewallPort_def validateFirewallPort_def)

lemma backend_Allow_bound:
  assumes "backend_Config b = Some cfg" and "run_state (backend_Allow env b addr port ttl) h = (None, h')"
  shows "port = fc_Port cfg \<and> 1 \<le> port \<and> port \<le> 65535"
proof -
  have "validateBoundFirewallPort (backend_Name b) (fc_Port cfg) port = None"
    by (rule ccontr) (use assms in \<open>cases b; auto simp: nft_Allow_def ips_Allow_def ipt_Allow_def script_Allow_def State_Monad.return_def\<close>)
  then show ?thesis by (simp add: validateBound_None)
qed



section \<open>\<open>Init\<close> on a host without the chain\<close>

definition noSuchChain :: string where "noSuchChain = ''no chain/target/match by that name''"

definition iptables_cmd :: "string list \<Rightarrow> command" where
  "iptables_cmd args = Cmd ''iptables'' ([''-w'', ''5''] @ args)"

text \<open>
  iptables answers a flush of a chain that was not created before with its message
  \<open>No chain/target/match by that name\<close>.
\<close>

definition flush_needs_chain :: "(command list \<Rightarrow> command \<Rightarrow> string option) \<Rightarrow> string \<Rightarrow> bool" where
  "flush_needs_chain ans chain \<longleftrightarrow>
     (\<forall>log. iptables_cmd [''-N'', chain] \<notin> set log \<longrightarrow>
        (\<exists>text. ans log (iptables_cmd [''-F'', chain]) = Some text \<and> str_contains (map ascii_lower text) noSuchChain))"

lemma noSuchChain_not_missing:
  assumes "str_contains (map ascii_lower text) noSuchChain"
  shows "ignoreMissingFirewallObject (Some (Errorf text)) = Some (Errorf text)"
  using assms by (simp add: ignoreMissingFirewallObject_def isMissingFirewallObject_def noSuchChain_def)

lemma errors_Join_None: "errors_Join a b = None \<longleftrightarrow> a = None \<and> b = None"
  by (cases a; cases b) simp_all

lemma run_bind: "run_state (State_Monad.bind m k) h = run_state (k (fst (run_state m h))) (snd (run_state m h))"
  by (simp add: State_Monad.bind_def case_prod_beta)

lemma run_runIptables:
  "run_state (runIptables (log_env ans look) ''iptables'' args) log =
     (map_option Errorf (ans log (iptables_cmd args)), log @ [iptables_cmd args])"
  by (simp add: runIptables_def run_command_def log_env_def iptables_cmd_def)

lemma cleanup_fresh_fails:
  assumes fresh: "flush_needs_chain ans chain"
  shows "\<exists>e log. run_state (cleanupIptablesRules (log_env ans look) cfg chain ''iptables'' tcpPort udpPort) [] = (Some e, log) \<and>
    iptables_cmd [''-N'', chain] \<notin> set log"
proof -
  let ?I = "list_all (\<lambda>c. probe c \<or> c \<noteq> iptables_cmd [''-N'', chain])"
  define clear where "clear = do {
     e1 \<leftarrow> (if fc_DropUDPKnockPort cfg then delete_rules (log_env ans look) ''iptables'' ([''-D'', ''INPUT''] @ udp_drop_args udpPort) maxCleanupDeletes
           else State_Monad.return None);
     e2 \<leftarrow> delete_rules (log_env ans look) ''iptables'' [''-D'', ''INPUT'', ''-p'', ''tcp'', ''--dport'', tcpPort, ''-j'', chain] maxCleanupDeletes;
     State_Monad.return (errors_Join e1 e2) }"
  have "keeps ?I clear"
    unfolding clear_def by (intro keeps_rules logged.delete_rules) (simp_all add: iptables_cmd_def)
  then have del: "?I (snd (run_state clear []))" by (rule keepsD) simp
  have nprobe: "\<not> probe (iptables_cmd [''-N'', chain])" by (simp add: iptables_cmd_def)
  obtain d log1 where D: "run_state clear [] = (d, log1)" by fastforce
  with del nprobe have new1: "iptables_cmd [''-N'', chain] \<notin> set log1" by (auto simp: list_all_iff)
  from fresh[unfolded flush_needs_chain_def] new1 obtain msg
    where t: "ans log1 (iptables_cmd [''-F'', chain]) = Some msg" "str_contains (map ascii_lower msg) noSuchChain" by blast
  have split: "cleanupIptablesRules (log_env ans look) cfg chain ''iptables'' tcpPort udpPort = do {
     e \<leftarrow> clear;
     e3 \<leftarrow> runIptables (log_env ans look) ''iptables'' [''-F'', chain];
     e4 \<leftarrow> runIptables (log_env ans look) ''iptables'' [''-X'', chain];
     State_Monad.return (errors_Join (errors_Join e (ignoreMissingFirewallObject e3)) (ignoreMissingFirewallObject e4)) }"
    unfolding cleanupIptablesRules_def clear_def by (simp only: State_Monad.bind_assoc State_Monad.bind_left_identity)
  let ?log = "(log1 @ [iptables_cmd [''-F'', chain]]) @ [iptables_cmd [''-X'', chain]]"
  obtain e4 where run: "run_state (cleanupIptablesRules (log_env ans look) cfg chain ''iptables'' tcpPort udpPort) [] =
      (errors_Join (errors_Join d (Some (Errorf msg))) e4, ?log)"
    unfolding split run_bind D fst_conv snd_conv run_runIptables run_state_return t(1) option.map noSuchChain_not_missing[OF t(2)] by blast
  have "errors_Join (errors_Join d (Some (Errorf msg))) e4 \<noteq> None" by (simp only: errors_Join_None) simp
  moreover have "iptables_cmd [''-N'', chain] \<notin> set ?log" using new1 by (simp add: iptables_cmd_def)
  ultimately show ?thesis using run by (metis not_None_eq)
qed

text \<open>
  Property C32. On a host that does not have the chain, the \<open>Init\<close> of the iptables backend fails
  and never gets to create it: it first cleans up, the flush of the missing chain is answered with
  iptables' message \<open>No chain/target/match by that name\<close>, and \<open>isMissingFirewallObject\<close> does not
  count that message as a missing object, so the clean-up before the installation is an error.
\<close>

theorem iptables_init_fresh_host:
  assumes "validateIptablesConfig (ib_chain i) = None" and "flush_needs_chain ans (ib_chain i)"
  shows "\<exists>e log. run_state (ipt_Init (log_env ans look) i) [] = (Some e, log) \<and> iptables_cmd [''-N'', ib_chain i] \<notin> set log"
proof -
  from cleanup_fresh_fails[OF assms(2)] obtain e log
    where "run_state (ipt_cleanupCommand (log_env ans look) i ''iptables'') [] = (Some e, log)" "iptables_cmd [''-N'', ib_chain i] \<notin> set log"
    unfolding ipt_cleanupCommand_def by blast
  then show ?thesis by (simp add: ipt_Init_def assms(1) fw_then_def run_bind run_state_return)
qed

definition fresh_answers :: "command list \<Rightarrow> command \<Rightarrow> string option" where
  "fresh_answers log c =
     (if c = iptables_cmd [''-F'', ''KNOCK_GATEWAY''] \<and> iptables_cmd [''-N'', ''KNOCK_GATEWAY''] \<notin> set log
      then Some ''iptables: No chain/target/match by that name.'' else None)"

theorem iptables_init_fresh_host_witness:
  "\<exists>e log. run_state (ipt_Init (log_env fresh_answers (\<lambda>_. None)) (NewIptables demo_fw_config)) [] = (Some e, log)"
proof -
  have "str_contains (map ascii_lower ''iptables: No chain/target/match by that name.'') noSuchChain" by code_simp
  moreover have "ib_chain (NewIptables demo_fw_config) = ''KNOCK_GATEWAY''" "validateIptablesConfig ''KNOCK_GATEWAY'' = None" by code_simp+
  ultimately show ?thesis
    using iptables_init_fresh_host[of "NewIptables demo_fw_config" fresh_answers "\<lambda>_. None"]
    by (auto simp: flush_needs_chain_def fresh_answers_def)
qed

end
