(* ===== verification/Gate_Scenario.thy ===== *)
theory Gate_Scenario
  imports Gate_Admission Gate_Leases Auth_Handshake Firewall_Safety
begin

text \<open>
  A gate at work on concrete data: a client knocks, the gate opens a session, and the client is
  admitted, with an authentication and in firewall-only mode.
\<close>

section \<open>A gate\<close>

definition demo_gate_config :: "string \<Rightarrow> Backend option \<Rightarrow> unit GateConfig" where
  "demo_gate_config mode fw = \<lparr>gc_Mode = mode, gc_Listen = '':443'',
     gc_Auth = \<lparr>s_ServerPort = 443, s_Secrets = StaticSecrets [(''a'', demo_secret)], s_AuthTimeout = 3 * second,
       s_TimeWindow = 30 * second, s_MaxFrameSize = 1024, s_Protocol = AuthProtocolEnvelopeV2, s_AcceptProtocols = [AuthProtocolFrameV1],
       s_EnvelopeV2 = WithDefaults demo_config, s_RequireKnock = False, s_KnockStore = None, s_ServerProof = True, s_FailDelayJitterMin = 0,
       s_FailDelayJitterMax = 10, s_DrainOnFailBytes = 0, s_DrainOnFailTimeout = 0, s_MaxAuthAttempts = 64,
       s_Events = True, s_Policy = None, s_OnAuthenticated = True\<rparr>,
     gc_Listener = \<lparr>lc_Auth = undefined, lc_MaxPendingAuth = 4, lc_MaxAuthWorkers = 2, lc_MaxPendingAuthPerSource = 1, lc_Events = True\<rparr>,
     gc_Firewall = fw, gc_KnockMethod = UDPMethod, gc_KnockListen = '':62201'', gc_KnockPort = 62201,
     gc_KnockClients = [\<lparr>cs_ClientID = ''a'', cs_Secret = demo_secret\<rparr>], gc_KnockTimeWindow = 30 * second, gc_KnockMaxFrameSize = 1024,
     gc_KnockSequence = \<lparr>so_Length = 0, so_SlotSeconds = 0, so_Window = 0, so_PacketInterval = 0, so_MaxJitter = 0, so_MaxInflightPerIP = 0,
       so_MaxTotalInflight = 0, so_AllowLegacySYNSeq = False\<rparr>,
     gc_KnockNonceTTL = 0, gc_AllowTTL = 0, gc_MaxConnectionsPerKnock = 1, gc_Events = True\<rparr>"

definition demo_fw_env :: "command list fw_env" where "demo_fw_env = log_env (\<lambda>_ _. None) (\<lambda>_. None)"

definition demo_ln :: net_addr where "demo_ln = TCPAddr [10, 0, 0, 2] 443 []"

definition demo_new :: "string \<Rightarrow> Backend option \<Rightarrow> (command list, unit) Gate result" where
  "demo_new mode fw = gate_New (demo_gate_config mode fw) []"

definition demo_wrap :: "(command list, unit) Gate \<Rightarrow> (unit, unit) wrapped result \<times> (command list, unit) Gate" where
  "demo_wrap g = run_state (gate_Wrap demo_fw_env (Some demo_ln) (\<lambda>_. Inr ()) NilReplayCache ()) g"

definition demo_kclk :: knock_clock where
  "demo_kclk = \<lparr>kc_mark = 5 * second, kc_session = 5 * second, kc_timer = 5 * second\<rparr>"

definition demo_knock :: Event where
  "demo_knock = \<lparr>ev_SourceIP = [10, 0, 0, 1], ev_ClientID = ''a'', ev_Nonce = [], ev_Method = UDPMethod, ev_Parts = 1, ev_SessionID = [9]\<rparr>"

lemma demo_knock_addr: "AddrFromIP (ev_SourceIP demo_knock) = Some (Addr4 [10, 0, 0, 1])" "AddrFromNet demo_addr = Some (Addr4 [10, 0, 0, 1])"
  unfolding demo_knock_def demo_addr_def by code_simp+

lemma demo_cfg_fields:
  "gc_Mode (demo_gate_config mode fw) = mode" "protected_port (demo_gate_config mode fw) ln = 443" "allow_ttl (gc_AllowTTL (demo_gate_config mode fw)) = minute"
  by (simp_all add: demo_gate_config_def protected_port_def allow_ttl_def)

section \<open>With an authentication\<close>

lemma serverAuth_success_knock:
  assumes "s_Policy cfg = None" "s_ServerProof cfg" "cn_werr conn = None" "s_RequireKnock cfg" "s_KnockStore cfg = Some check" "s_Secrets cfg \<noteq> NilResolver"
    and ac: "\<And>w1. w_replay w1 = w_replay w \<Longrightarrow>
      authenticateConfiguredProtocol cr cfg clk (conn\<lparr>cn_deadline := Some (auth_deadline cfg clk)\<rparr>) w1 = (Inr res, br, w1\<lparr>w_replay := rc\<rparr>)"
    and k: "fst (check (t_knock clk) (r_peer res) (cn_remote conn) (w_knock w)) = None"
  shows "\<exists>conn' w'. serverAuthNormalized cr cfg clk conn w = (Inr (r_peer res), conn', w')"
proof -
  let ?w = "log_event (s_Events cfg) (OnAccept (cn_remote conn)) w"
  have p: "policy_gate cfg clk (cn_remote conn) ?w = (True, ?w)" using assms(1) by (simp add: policy_gate_def)
  obtain k' where c: "check (t_knock clk) (r_peer res) (cn_remote conn) (w_knock w) = (None, k')" using k by (cases "check (t_knock clk) (r_peer res) (cn_remote conn) (w_knock w)") auto
  have "check_knock cfg clk (r_peer res) (cn_remote conn) (?w\<lparr>w_replay := rc\<rparr>) = (None, (?w\<lparr>w_replay := rc\<rparr>)\<lparr>w_knock := k'\<rparr>)"
    using assms(4,5) c by (simp add: check_knock_def)
  with p ac[of ?w] assms(2,3,6) show ?thesis
    by (auto simp: serverAuthNormalized_def Let_def is_NilResolver_def send_proof_def conn_Write_def)
qed

lemma CheckAndConsume_fields:
  assumes "p_ClientID p = p_ClientID q" "p_ServerPort p = p_ServerPort q" "p_SessionID p = p_SessionID q"
  shows "CheckAndConsume now p remote s = CheckAndConsume now q remote s"
proof -
  have c: "consume_found p = consume_found q" by (intro ext) (simp add: consume_found_def assms split: found.split)
  show ?thesis unfolding CheckAndConsume_def assms(1,2) c ..
qed

definition demo_peer :: PeerInfo where
  "demo_peer = \<lparr>p_ClientID = ''a'', p_ClientIDHash = [], p_KeyHint = 0, p_Nonce = [], p_Timestamp = 0, p_ServerPort = 443,
     p_Method = [], p_SessionID = [9], p_Extensions = [], p_RemoteAddr = AddrNil, p_Protocol = [], p_Flags = 0\<rparr>"

definition demo_opened :: KnockSessionStore where
  "demo_opened = AddSessionForPort (5 * second) (Addr4 [10, 0, 0, 1]) ''a'' [9] 443 minute 1 NewKnockSessionStore"

lemma demo_grants: "fst (CheckAndConsume (6 * second) demo_peer demo_addr demo_opened) = None"
  by code_simp

text \<open>The gate and its listener, in the mode with knocks and authentication.\<close>

lemma demo_gate_auth:
  obtains g0 l g1 where "demo_new KnockAuthOnly None = Inr g0" "demo_wrap g0 = (Inr (AuthListener l), g1)"
    "ga_running g1" "gc_MaxConnectionsPerKnock (ga_cfg g1) = 1"
    "s_Policy (al_server l) = None" "s_ServerProof (al_server l)" "s_Secrets (al_server l) = StaticSecrets [(''a'', demo_secret)]"
    "s_ServerPort (al_server l) = 443" "s_AcceptProtocols (al_server l) = [AuthProtocolFrameV1]" "s_TimeWindow (al_server l) = 30 * second"
    "s_MaxFrameSize (al_server l) = 1024"
proof -
  have ok: "case demo_new KnockAuthOnly None of Inl _ \<Rightarrow> False | Inr g0 \<Rightarrow>
    (case demo_wrap g0 of (Inr (AuthListener l), g1) \<Rightarrow>
       ga_running g1 \<and> gc_MaxConnectionsPerKnock (ga_cfg g1) = 1 \<and> Option.is_none (s_Policy (al_server l)) \<and> s_ServerProof (al_server l) \<and>
       (case s_Secrets (al_server l) of StaticSecrets ss \<Rightarrow> ss = [(''a'', demo_secret)] | _ \<Rightarrow> False) \<and> s_ServerPort (al_server l) = 443 \<and>
       s_AcceptProtocols (al_server l) = [AuthProtocolFrameV1] \<and> s_TimeWindow (al_server l) = 30 * second \<and> s_MaxFrameSize (al_server l) = 1024
     | _ \<Rightarrow> False)" by code_simp
  then obtain g0 where g0: "demo_new KnockAuthOnly None = Inr g0" by (cases "demo_new KnockAuthOnly None") auto
  obtain r g1 where w: "demo_wrap g0 = (r, g1)" by (rule prod.exhaust)
  with ok g0 obtain lis where r: "r = Inr lis" by (cases r) auto
  with ok g0 w obtain l where l: "lis = AuthListener l" by (cases lis) auto
  with ok g0 w r obtain ss where "s_Secrets (al_server l) = StaticSecrets ss" by (cases "s_Secrets (al_server l)") auto
  with ok g0 w r l show ?thesis using that by (simp add: Option.is_none_def)
qed

lemma demo_knock_opens:
  assumes "demo_new KnockAuthOnly None = Inr g0" "demo_wrap g0 = (Inr lis, g1)" "ga_running g1" "gc_MaxConnectionsPerKnock (ga_cfg g1) = 1"
  obtains g where "gate_run cr demo_fw_env demo_ln lis [InKnock demo_kclk demo_knock] (g1, w) = (g, w)" "gw_store g = demo_opened"
proof -
  have f: "gw_store g1 = NewKnockSessionStore" "gc_Mode (ga_cfg g1) = KnockAuthOnly" "gc_AllowTTL (ga_cfg g1) = gc_AllowTTL (demo_gate_config KnockAuthOnly None)"
    "protected_port (ga_cfg g1) demo_ln = 443"
    using gate_Wrap_knock[OF assms(1)[unfolded demo_new_def] assms(2)[unfolded demo_wrap_def]] by (simp_all add: demo_cfg_fields)
  have "gw_store (snd (run_state (gate_handler demo_fw_env demo_ln demo_kclk demo_knock) g1)) = demo_opened"
    using f assms(3,4) demo_knock_addr(1)
    by (simp add: gate_handler_def knockSessionOnlyHandler_def store_do_def on_store_def emit_def AfterFunc_def demo_cfg_fields demo_opened_def)
       (simp add: demo_kclk_def demo_knock_def)
  then show ?thesis using that by (simp add: gate_run_def)
qed

theorem gate_admission_witness:
  "\<exists>g0 l g1 g w frame h peer c' gw'. demo_new KnockAuthOnly None = Inr g0 \<and> demo_wrap g0 = (Inr (AuthListener l), g1) \<and> demo_frame = Inr (frame, h) \<and>
     gate_run demo_crypto demo_fw_env demo_ln (AuthListener l) [InKnock demo_kclk demo_knock] (g1, w) = (g, w) \<and>
     gate_auth demo_crypto (al_server l) (demo_clock (6 * second)) (demo_conn (frame @ [42])) (g, w) = (Inr peer, c', gw') \<and>
     (\<exists>addr kclk ev. AddrFromNet demo_addr = Some addr \<and> InKnock kclk ev \<in> set [InKnock demo_kclk demo_knock] \<and>
        AddrFromIP (ev_SourceIP ev) = Some addr \<and> 6 * second < kc_session kclk + minute \<and> p_ClientID peer = ev_ClientID ev)"
proof -
  obtain g0 l g1 where g: "demo_new KnockAuthOnly None = Inr g0" "demo_wrap g0 = (Inr (AuthListener l), g1)"
    "ga_running g1" "gc_MaxConnectionsPerKnock (ga_cfg g1) = 1"
    and srv: "s_Policy (al_server l) = None" "s_ServerProof (al_server l)" "s_Secrets (al_server l) = StaticSecrets [(''a'', demo_secret)]"
    "s_ServerPort (al_server l) = 443" "s_AcceptProtocols (al_server l) = [AuthProtocolFrameV1]" "s_TimeWindow (al_server l) = 30 * second"
    "s_MaxFrameSize (al_server l) = 1024" by (rule demo_gate_auth)
  have req: "s_RequireKnock (al_server l)" "s_KnockStore (al_server l) = Some CheckAndConsume"
    using gate_Wrap_knock(2)[OF g(1)[unfolded demo_new_def] g(2)[unfolded demo_wrap_def]] by (simp_all add: demo_cfg_fields knock_listener_def)
  define w :: "(unit, KnockSessionStore, unit) world" where "w = \<lparr>w_replay = w_replay demo_world, w_knock = NewKnockSessionStore, w_policy = (), w_events = []\<rparr>"
  obtain gk where k: "gate_run demo_crypto demo_fw_env demo_ln (AuthListener l) [InKnock demo_kclk demo_knock] (g1, w) = (gk, w)" "gw_store gk = demo_opened"
    by (rule demo_knock_opens[OF g])
  obtain frame h where fr: "demo_frame = Inr (frame, h)" by (rule demo_frame_ok)
  obtain rc where fresh: "replay_CheckAndMark (6 * second) ''a'' demo_nonce (w_replay demo_world) = (None, rc)" using demo_fresh(1) by blast
  let ?srv = "al_server l" and ?clk = "demo_clock (6 * second)" and ?conn = "demo_conn (frame @ [42])" and ?w = "w\<lparr>w_knock := demo_opened\<rparr>"
  let ?pl = "frame_payload demo_crypto ''a'' demo_secret 443 (5 * second) ''t'' [9] []"
  let ?peer = "newPeerInfoFromV1 \<lparr>cand_ClientID = ''a'', cand_Secret = demo_secret\<rparr> ?pl h demo_addr"
  have "clocks_agree ?srv ?clk (5 * second)" by (simp add: clocks_agree_def srv demo_clock_def time_defs)
  then have "peer_timely ?srv ?clk ?peer" by (rule clocks_agree_timely) (simp add: newPeerInfoFromV1_def frame_payload_def)
  then obtain res where res: "r_peer res = ?peer"
    "\<And>w1 :: (unit, KnockSessionStore, unit) world. w_replay w1 = w_replay ?w \<Longrightarrow>
      authenticateFrameV1 demo_crypto ?srv ?clk 443 demo_addr (cn_in ?conn) w1 = (Inr res, (cn_in ?conn)\<lparr>sdata := [42]\<rparr>, w1\<lparr>w_replay := rc\<rparr>)"
    using server_accepts_v1 [where clk = ?clk and remote = demo_addr and rc = rc and rest = "[42]" and st = "cn_in ?conn",
        OF crypto_ok_demo_crypto demo_nonce_ok(2) fr[unfolded demo_frame_eq] srv(3)] fresh
    by (simp add: demo_fields srv(7) DefaultMaxFrameSize_def w_def) (metis authResult.select_convs(1))
  have acc: "acceptsProtocol (s_AcceptProtocols ?srv) AuthProtocolFrameV1" "\<not> acceptsProtocol (s_AcceptProtocols ?srv) AuthProtocolEnvelopeV2"
    unfolding srv by code_simp+
  have ac: "authenticateConfiguredProtocol demo_crypto ?srv ?clk (?conn\<lparr>cn_deadline := Some (auth_deadline ?srv ?clk)\<rparr>) w1 =
      (Inr res, (cn_in ?conn)\<lparr>sdata := [42]\<rparr>, w1\<lparr>w_replay := rc\<rparr>)" if "w_replay w1 = w_replay ?w" for w1 :: "(unit, KnockSessionStore, unit) world"
    using res(2) [OF that] acc by (simp add: authenticateConfiguredProtocol_def Let_def srv(4) demo_port) (simp add: demo_conn_def)
  have grant: "fst (CheckAndConsume (t_knock ?clk) (r_peer res) (cn_remote ?conn) (w_knock ?w)) = None"
    using demo_grants CheckAndConsume_fields[of ?peer demo_peer]
    by (simp add: res(1) demo_peer_def newPeerInfoFromV1_def frame_payload_def demo_clock_def demo_conn_def)
  have sec: "s_Secrets ?srv \<noteq> NilResolver" by (simp add: srv)
  obtain c' w' where "serverAuthNormalized demo_crypto ?srv ?clk ?conn ?w = (Inr ?peer, c', w')"
    using serverAuth_success_knock[OF srv(1,2) _ req sec ac grant] by (auto simp: res(1) demo_fields)
  then have auth: "gate_auth demo_crypto ?srv ?clk ?conn (gk, w) = (Inr ?peer, c', gk\<lparr>gw_store := w_knock w'\<rparr>, w')"
    by (simp add: gate_auth_def k(2))
  have mode: "gc_Mode (demo_gate_config KnockAuthOnly None) \<in> {KnockAuthOnly, KnockFirewallAuth}" by (simp add: demo_cfg_fields)
  from gate_admission[OF g(1)[unfolded demo_new_def] g(2)[unfolded demo_wrap_def] mode k(1) auth]
  have "\<exists>addr kclk ev. AddrFromNet demo_addr = Some addr \<and> InKnock kclk ev \<in> set [InKnock demo_kclk demo_knock] \<and>
        AddrFromIP (ev_SourceIP ev) = Some addr \<and> 6 * second < kc_session kclk + minute \<and> p_ClientID ?peer = ev_ClientID ev"
    by (elim exE conjE) (auto simp: demo_cfg_fields demo_clock_def demo_conn_def)
  then show ?thesis using g(1,2) fr k(1) auth by blast
qed

section \<open>Firewall-only\<close>

definition demo_fw :: Backend where
  "demo_fw = ScriptB (demo_fw_config\<lparr>fc_Backend := ''script'', fc_Script := \<lparr>sc_AllowCmd = ''allow'', sc_RevokeCmd = ''revoke'', sc_CleanupCmd = ''clean''\<rparr>\<rparr>)"

lemma demo_firewall_only:
  obtains g0 g1 where "demo_new KnockFirewallOnly (Some demo_fw) = Inr g0" "demo_wrap g0 = (Inr FirewallOnlyListener, g1)"
    "fst (run_state (firewall_only_turn (6 * second) demo_addr)
       (fst (gate_run demo_crypto demo_fw_env demo_ln (FirewallOnlyListener :: (unit, unit) wrapped) [InKnock demo_kclk demo_knock]
          (g1, \<lparr>w_replay = NilReplayCache, w_knock = NewKnockSessionStore, w_policy = (), w_events = []\<rparr>))))"
proof -
  have ok: "case demo_new KnockFirewallOnly (Some demo_fw) of Inl _ \<Rightarrow> False | Inr g0 \<Rightarrow>
    (case demo_wrap g0 of (Inr FirewallOnlyListener, g1) \<Rightarrow> fst (run_state (firewall_only_turn (6 * second) demo_addr)
       (fst (gate_run demo_crypto demo_fw_env demo_ln (FirewallOnlyListener :: (unit, unit) wrapped) [InKnock demo_kclk demo_knock]
          (g1, \<lparr>w_replay = NilReplayCache, w_knock = NewKnockSessionStore, w_policy = (), w_events = []\<rparr>))))
     | _ \<Rightarrow> False)" by code_simp
  then obtain g0 where g0: "demo_new KnockFirewallOnly (Some demo_fw) = Inr g0" by (cases "demo_new KnockFirewallOnly (Some demo_fw)") auto
  obtain r g1 where w: "demo_wrap g0 = (r, g1)" by (rule prod.exhaust)
  with ok g0 obtain lis where r: "r = Inr lis" by (cases r) auto
  with ok g0 w have "lis = FirewallOnlyListener" by (cases lis) auto
  with ok g0 w r show ?thesis using that by simp
qed

theorem firewall_only_admission_witness:
  "\<exists>g0 g1 g w g' addr kclk ev. demo_new KnockFirewallOnly (Some demo_fw) = Inr g0 \<and> demo_wrap g0 = (Inr FirewallOnlyListener, g1) \<and>
     gate_run demo_crypto demo_fw_env demo_ln (FirewallOnlyListener :: (unit, unit) wrapped) [InKnock demo_kclk demo_knock] (g1, w) = (g, w) \<and>
     run_state (firewall_only_turn (6 * second) demo_addr) g = (True, g') \<and>
     AddrFromNet demo_addr = Some addr \<and> InKnock kclk ev \<in> set [InKnock demo_kclk demo_knock] \<and> AddrFromIP (ev_SourceIP ev) = Some addr \<and>
     6 * second < kc_session kclk + minute \<and> allowed demo_fw_env g1 addr 443 minute"
proof -
  let ?w = "\<lparr>w_replay = NilReplayCache, w_knock = NewKnockSessionStore, w_policy = (), w_events = []\<rparr> :: (unit, KnockSessionStore, unit) world"
  obtain g0 g1 where g: "demo_new KnockFirewallOnly (Some demo_fw) = Inr g0" "demo_wrap g0 = (Inr FirewallOnlyListener, g1)"
    and t: "fst (run_state (firewall_only_turn (6 * second) demo_addr)
       (fst (gate_run demo_crypto demo_fw_env demo_ln (FirewallOnlyListener :: (unit, unit) wrapped) [InKnock demo_kclk demo_knock] (g1, ?w))))"
    by (rule demo_firewall_only)
  obtain gk where k: "gate_run demo_crypto demo_fw_env demo_ln (FirewallOnlyListener :: (unit, unit) wrapped) [InKnock demo_kclk demo_knock] (g1, ?w) = (gk, ?w)"
    by (simp add: gate_run_def)
  obtain g' where turn: "run_state (firewall_only_turn (6 * second) demo_addr) gk = (True, g')"
    using t unfolding k fst_conv by (metis (full_types) prod.collapse)
  have mode: "gc_Mode (demo_gate_config KnockFirewallOnly (Some demo_fw)) = KnockFirewallOnly" by (rule demo_cfg_fields)
  from firewall_only_admission[OF g(1)[unfolded demo_new_def] g(2)[unfolded demo_wrap_def] mode k turn]
  obtain addr ys kclk ev zs g2 w2 where a: "AddrFromNet demo_addr = Some addr" "[InKnock demo_kclk demo_knock] = ys @ InKnock kclk ev # zs"
      "gate_run demo_crypto demo_fw_env demo_ln (FirewallOnlyListener :: (unit, unit) wrapped) ys (g1, ?w) = (g2, w2)" "AddrFromIP (ev_SourceIP ev) = Some addr"
      "6 * second < kc_session kclk + minute" "allowed demo_fw_env g2 addr 443 minute"
    unfolding demo_cfg_fields by blast
  have "ys = []" "InKnock kclk ev \<in> set [InKnock demo_kclk demo_knock]" using a(2) by (auto simp: Cons_eq_append_conv)
  then have "g2 = g1" using a(3) by (simp add: gate_run_def)
  with g k turn a(1,4,5,6) \<open>InKnock kclk ev \<in> _\<close> show ?thesis by blast
qed

section \<open>Leases\<close>

definition demo_gw :: "command list gw" where
  "demo_gw = \<lparr>gw_store = NewKnockSessionStoreWithLimit 8, gw_timers = [], gw_host = [], gw_events = [], gw_closeErr = None\<rparr>"

definition demo_open :: "byte \<Rightarrow> time \<Rightarrow> command list gw \<Rightarrow> u64 option \<times> command list gw" where
  "demo_open b now g = run_state (open_firewall demo_fw_env True demo_fw (Addr4 [10, 0, 0, b]) ''a'' 22 minute now) g"

lemma demo_gw_ok: "store_ok (gw_store demo_gw)"
  by (simp add: demo_gw_def store_ok_New)

lemma demo_first:
  obtains g where "demo_open 1 (5 * second) demo_gw = (Some 1, g)" "lease_at (gw_store g) (firewallKey (Addr4 [10, 0, 0, 1]) 22) = Some (1, 65 * second)"
    "store_ok (gw_store g)"
proof -
  obtain r g where g: "demo_open 1 (5 * second) demo_gw = (r, g)" by (rule prod.exhaust)
  have "fst (demo_open 1 (5 * second) demo_gw) = Some 1" by code_simp
  then have r: "r = Some 1" using g by simp
  have z: "5 * second + minute \<noteq> zero_time" by code_simp
  note mark = open_firewall_lease[OF g[unfolded demo_open_def r]]
  have "lease_at (gw_store g) (firewallKey (Addr4 [10, 0, 0, 1]) 22) = Some (1, 65 * second)"
    using MarkFirewall_lease(1)[OF demo_gw_ok mark z] by (simp add: time_defs)
  moreover have "store_ok (gw_store g)" using MarkFirewall_ok(1)[OF demo_gw_ok, of "5 * second" "Addr4 [10, 0, 0, 1]" 22 minute] mark by simp
  ultimately show ?thesis using that g r by simp
qed


theorem swept_lease_never_revoked_witness:
  "\<exists>g g'. demo_open 1 (5 * second) demo_gw = (Some 1, g) \<and> demo_open 2 (70 * second) g = (Some 2, g') \<and>
     run_state (end_lease demo_fw_env True demo_fw (Addr4 [10, 0, 0, 1]) 22 1 (71 * second)) g' = (None, g')"
proof -
  obtain g where g: "demo_open 1 (5 * second) demo_gw = (Some 1, g)" "lease_at (gw_store g) (firewallKey (Addr4 [10, 0, 0, 1]) 22) = Some (1, 65 * second)"
    "store_ok (gw_store g)" by (rule demo_first)
  have "fst (demo_open 2 (70 * second) (snd (demo_open 1 (5 * second) demo_gw))) = Some 2" by code_simp
  then obtain g' where g': "demo_open 2 (70 * second) g = (Some 2, g')" using g(1) by (metis prod.collapse snd_conv)
  have z: "70 * second + minute \<noteq> zero_time" by code_simp
  have k: "firewallKey (Addr4 [10, 0, 0, 1]) 22 \<noteq> firewallKey (Addr4 [10, 0, 0, 2]) 22" by code_simp
  have "65 * second \<le> 70 * second" by (simp add: time_defs)
  from swept_lease_never_revoked[OF g(3) z g(2) this k g'[unfolded demo_open_def]] g(1) g' show ?thesis by blast
qed

theorem gate_method_alias_fails_witness:
  "\<exists>g. gate_New ((demo_gate_config KnockAuthOnly None)\<lparr>gc_KnockMethod := ''udp-sequence''\<rparr>) () = Inr g \<and>
     isl (fst (run_state (gate_Wrap (undefined :: unit fw_env) (Some demo_ln) (\<lambda>_. Inr ()) (NilReplayCache :: unit ReplayCache) ()) g))"
proof -
  let ?cfg = "(demo_gate_config KnockAuthOnly None)\<lparr>gc_KnockMethod := ''udp-sequence''\<rparr>"
  have "\<not> isl (gate_New ?cfg ())" by code_simp
  then obtain g where g: "gate_New ?cfg () = Inr g" by (cases "gate_New ?cfg ()") auto
  show ?thesis using gate_method_alias_fails[OF g] g by (simp add: demo_cfg_fields)
qed

end
