(* ===== verification/Spec2Isabelle.thy ===== *)
theory Spec2Isabelle
  imports Auth_Replay Knock_SYN Gate_Scenario
begin

text \<open>
  libknock: an Isabelle/HOL development of the admission logic of libknock.
\<close>

end
